(* ===== verification/PyPrelude.thy ===== *)
theory PyPrelude
  imports Complex_Main "HOL-Library.AList" "HOL-Library.Char_ord" "HOL-Library.List_Lexorder"
begin

text \<open>
  What every component shares: the exception classes of \<open>errors.py\<close> (and the built-in ones the
  core raises) as values, results that may raise, Python dictionaries as association lists in
  insertion order, the string functions the core calls, and generic facts on them.

  A Python \<open>str\<close> is a \<^typ>\<open>string\<close>: one \<^typ>\<open>char\<close> per code point, for the code points below 256.
\<close>

named_theorems res_simps \<open>evaluation of results that may raise\<close>
named_theorems dict_simps \<open>lookup in updated dictionaries\<close>

section \<open>Exceptions as values\<close>

datatype err =
    ConfigError string
  | ConfigEditError string
  | TriggerExpressionError string
  | DagError string
  | NodeExecutionError string
  | ValueError string
  | KeyError string
  | TypeError string
  | IndexError string
  | RunAlreadyActive string
  | DagRunNotFound string
  | SyntaxErr string
  | OtherError string

type_synonym 'a res = "err + 'a"

text \<open>\<open>str(exc)\<close>: the message, for the classes whose \<open>str\<close> is their only argument.
  \<open>KeyError\<close> shows the representation of its key and the two controller errors add a prefix.\<close>

fun err_text :: "err \<Rightarrow> string" where
  "err_text (ConfigError m) = m"
| "err_text (ConfigEditError m) = m"
| "err_text (TriggerExpressionError m) = m"
| "err_text (DagError m) = m"
| "err_text (NodeExecutionError m) = m"
| "err_text (ValueError m) = m"
| "err_text (KeyError m) = [CHR 0x27] @ m @ [CHR 0x27]"
| "err_text (TypeError m) = m"
| "err_text (IndexError m) = m"
| "err_text (RunAlreadyActive r) = ''dag run already active: '' @ r"
| "err_text (DagRunNotFound r) = ''dag run not found: '' @ r"
| "err_text (SyntaxErr m) = m"
| "err_text (OtherError m) = m"

text \<open>\<open>except ConfigError\<close> also catches its subclasses; \<open>TriggerExpressionError\<close> is one
  (\<open>trigger.py\<close>), as is \<open>ConfigEditError\<close> (\<open>errors.py\<close>).\<close>

fun is_config_error :: "err \<Rightarrow> bool" where
  "is_config_error (ConfigError _) = True"
| "is_config_error (ConfigEditError _) = True"
| "is_config_error (TriggerExpressionError _) = True"
| "is_config_error _ = False"

definition rbind :: "'a res \<Rightarrow> ('a \<Rightarrow> 'b res) \<Rightarrow> 'b res" where
  "rbind m f = (case m of Inl e \<Rightarrow> Inl e | Inr a \<Rightarrow> f a)"

definition guard_res :: "bool \<Rightarrow> err \<Rightarrow> unit res" where
  "guard_res b e = (if b then Inr () else Inl e)"

fun map_res :: "('a \<Rightarrow> 'b res) \<Rightarrow> 'a list \<Rightarrow> 'b list res" where
  "map_res f [] = Inr []"
| "map_res f (x # xs) = rbind (f x) (\<lambda>y. rbind (map_res f xs) (\<lambda>ys. Inr (y # ys)))"

fun fold_res :: "('a \<Rightarrow> 's \<Rightarrow> 's res) \<Rightarrow> 'a list \<Rightarrow> 's \<Rightarrow> 's res" where
  "fold_res f [] s = Inr s"
| "fold_res f (x # xs) s = rbind (f x s) (fold_res f xs)"

fun is_ok :: "'a res \<Rightarrow> bool" where
  "is_ok (Inr _) = True"
| "is_ok (Inl _) = False"

section \<open>Dictionaries\<close>

type_synonym ('k, 'v) dict = "('k \<times> 'v) list"

text \<open>\<open>d.get(k)\<close>, \<open>d[k] = v\<close> (an existing key keeps its position, a new one goes last),
  \<open>d.pop(k, None)\<close>, \<open>k in d\<close>, \<open>{**d, **e}\<close> and \<open>d.setdefault(k, v)\<close>.\<close>

abbreviation dget :: "('k, 'v) dict \<Rightarrow> 'k \<Rightarrow> 'v option" where
  "dget \<equiv> map_of"

abbreviation dset :: "('k, 'v) dict \<Rightarrow> 'k \<Rightarrow> 'v \<Rightarrow> ('k, 'v) dict" where
  "dset d k v \<equiv> AList.update k v d"

abbreviation dpop :: "('k, 'v) dict \<Rightarrow> 'k \<Rightarrow> ('k, 'v) dict" where
  "dpop d k \<equiv> AList.delete k d"

abbreviation dkeys :: "('k, 'v) dict \<Rightarrow> 'k list" where
  "dkeys d \<equiv> map fst d"

abbreviation dvalues :: "('k, 'v) dict \<Rightarrow> 'v list" where
  "dvalues d \<equiv> map snd d"

definition dhas :: "('k, 'v) dict \<Rightarrow> 'k \<Rightarrow> bool" where
  "dhas d k = (map_of d k \<noteq> None)"

fun dmerge :: "('k, 'v) dict \<Rightarrow> ('k, 'v) dict \<Rightarrow> ('k, 'v) dict" where
  "dmerge d [] = d"
| "dmerge d ((k, v) # e) = dmerge (AList.update k v d) e"

definition dsetdefault :: "('k, 'v) dict \<Rightarrow> 'k \<Rightarrow> 'v \<Rightarrow> ('k, 'v) dict" where
  "dsetdefault d k v = (if dhas d k then d else AList.update k v d)"

definition dget_default :: "('k, 'v) dict \<Rightarrow> 'k \<Rightarrow> 'v \<Rightarrow> 'v" where
  "dget_default d k v = (case map_of d k of None \<Rightarrow> v | Some x \<Rightarrow> x)"

section \<open>Strings\<close>

text \<open>\<open>str.startswith\<close>, \<open>removeprefix\<close>, \<open>removesuffix\<close>, \<open>sep.join\<close>, \<open>split(sep)\<close> with a
  one-character separator, \<open>split(sep, 1)\<close> and whitespace \<open>split()\<close>.\<close>

definition starts_with :: "string \<Rightarrow> string \<Rightarrow> bool" where
  "starts_with s p = (take (length p) s = p)"

definition ends_with :: "string \<Rightarrow> string \<Rightarrow> bool" where
  "ends_with s p = (length p \<le> length s \<and> drop (length s - length p) s = p)"

definition removeprefix :: "string \<Rightarrow> string \<Rightarrow> string" where
  "removeprefix s p = (if starts_with s p then drop (length p) s else s)"

definition removesuffix :: "string \<Rightarrow> string \<Rightarrow> string" where
  "removesuffix s p = (if p \<noteq> [] \<and> ends_with s p then take (length s - length p) s else s)"

fun join :: "string \<Rightarrow> string list \<Rightarrow> string" where
  "join sep [] = []"
| "join sep [x] = x"
| "join sep (x # y # xs) = x @ sep @ join sep (y # xs)"

fun split_on :: "char \<Rightarrow> string \<Rightarrow> string list" where
  "split_on c [] = [[]]"
| "split_on c (x # xs) = (if x = c then [] # split_on c xs
     else (case split_on c xs of [] \<Rightarrow> [[x]] | p # ps \<Rightarrow> (x # p) # ps))"

fun split_once :: "char \<Rightarrow> string \<Rightarrow> string list" where
  "split_once c [] = [[]]"
| "split_once c (x # xs) = (if x = c then [[], xs]
     else (case split_once c xs of [] \<Rightarrow> [[x]] | p # ps \<Rightarrow> (x # p) # ps))"

text \<open>\<open>str.isspace\<close>, \<open>str.isalnum\<close>, \<open>str.isdigit\<close> of one character below 256, and \<open>str.upper\<close>
  restricted to the letters whose upper case is again below 256.\<close>

definition is_space :: "char \<Rightarrow> bool" where
  "is_space c = (let n = (of_char c :: nat) in
     (9 \<le> n \<and> n \<le> 13) \<or> (28 \<le> n \<and> n \<le> 32) \<or> n = 133 \<or> n = 160)"

definition is_ascii_letter :: "char \<Rightarrow> bool" where
  "is_ascii_letter c = (let n = (of_char c :: nat) in (65 \<le> n \<and> n \<le> 90) \<or> (97 \<le> n \<and> n \<le> 122))"

definition is_ascii_digit :: "char \<Rightarrow> bool" where
  "is_ascii_digit c = (let n = (of_char c :: nat) in 48 \<le> n \<and> n \<le> 57)"

definition is_alnum :: "char \<Rightarrow> bool" where
  "is_alnum c = (let n = (of_char c :: nat) in is_ascii_letter c \<or> is_ascii_digit c
     \<or> n = 170 \<or> n = 178 \<or> n = 179 \<or> n = 181 \<or> n = 185 \<or> n = 186 \<or> n = 188 \<or> n = 189 \<or> n = 190
     \<or> (192 \<le> n \<and> n \<noteq> 215 \<and> n \<noteq> 247))"

definition to_upper :: "char \<Rightarrow> char" where
  "to_upper c = (let n = (of_char c :: nat) in
     if (97 \<le> n \<and> n \<le> 122) \<or> (224 \<le> n \<and> n \<le> 254 \<and> n \<noteq> 247) then char_of (n - 32) else c)"

definition to_lower :: "char \<Rightarrow> char" where
  "to_lower c = (let n = (of_char c :: nat) in
     if (65 \<le> n \<and> n \<le> 90) \<or> (192 \<le> n \<and> n \<le> 222 \<and> n \<noteq> 215) then char_of (n + 32) else c)"

definition str_lower :: "string \<Rightarrow> string" where
  "str_lower s = map to_lower s"

definition strip_ws :: "string \<Rightarrow> string" where
  "strip_ws s = rev (dropWhile is_space (rev (dropWhile is_space s)))"

text \<open>\<open>s.split()\<close>: the maximal runs of characters that are not white space.\<close>

fun split_ws_acc :: "string \<Rightarrow> string \<Rightarrow> string list" where
  "split_ws_acc acc [] = (if acc = [] then [] else [rev acc])"
| "split_ws_acc acc (x # xs) = (if is_space x
     then (if acc = [] then split_ws_acc [] xs else rev acc # split_ws_acc [] xs)
     else split_ws_acc (x # acc) xs)"

definition split_ws :: "string \<Rightarrow> string list" where
  "split_ws s = split_ws_acc [] s"

text \<open>Decimal numerals: \<open>str(n)\<close> of an integer and \<open>int(text)\<close> of an unsigned numeral. Python's
  \<open>int\<close> also takes surrounding white space, a sign and single underscores between digits.\<close>

fun nat_str :: "nat \<Rightarrow> string" where
  "nat_str n = (if n < 10 then [char_of (48 + n)] else nat_str (n div 10) @ [char_of (48 + n mod 10)])"

declare nat_str.simps [simp del]

definition int_str :: "int \<Rightarrow> string" where
  "int_str i = (if i < 0 then CHR ''-'' # nat_str (nat (- i)) else nat_str (nat i))"

fun digits_val :: "nat \<Rightarrow> string \<Rightarrow> nat option" where
  "digits_val acc [] = Some acc"
| "digits_val acc (c # cs) =
     (if is_ascii_digit c then digits_val (10 * acc + (of_char c - 48)) cs
      else if c = CHR ''_'' then
        (case cs of d # ds \<Rightarrow> if is_ascii_digit d then digits_val (10 * acc + (of_char d - 48)) ds
                             else None | [] \<Rightarrow> None)
      else None)"

definition parse_nat_text :: "string \<Rightarrow> nat option" where
  "parse_nat_text s = (case s of [] \<Rightarrow> None
     | c # cs \<Rightarrow> if is_ascii_digit c then digits_val 0 s else None)"

definition py_int_of_text :: "string \<Rightarrow> int res" where
  "py_int_of_text t = (let s = strip_ws t;
     bad = Inl (ValueError (''invalid literal for int() with base 10: '' @ t)) in
     case s of [] \<Rightarrow> bad
     | c # cs \<Rightarrow>
        (if c = CHR ''-'' then (case parse_nat_text cs of None \<Rightarrow> bad | Some n \<Rightarrow> Inr (- int n))
         else if c = CHR ''+'' then (case parse_nat_text cs of None \<Rightarrow> bad | Some n \<Rightarrow> Inr (int n))
         else (case parse_nat_text s of None \<Rightarrow> bad | Some n \<Rightarrow> Inr (int n))))"

text \<open>\<open>dict.fromkeys\<close>-style removal of later duplicates, as the \<open>seen\<close>-set loops do it.\<close>

fun dedupe_by :: "('a \<Rightarrow> 'k) \<Rightarrow> 'k list \<Rightarrow> 'a list \<Rightarrow> 'a list" where
  "dedupe_by f seen [] = []"
| "dedupe_by f seen (x # xs) = (if f x \<in> set seen then dedupe_by f seen xs
     else x # dedupe_by f (f x # seen) xs)"

section \<open>Lemmas on results\<close>

lemma rbind_simps [simp, res_simps]:
  "rbind (Inl e) f = Inl e" "rbind (Inr a) f = f a"
  by (simp_all add: rbind_def)

lemma rbind_eq_Inr [simp]: "rbind m f = Inr b \<longleftrightarrow> (\<exists>a. m = Inr a \<and> f a = Inr b)"
  by (cases m) auto

lemma rbind_eq_Inl: "rbind m f = Inl e \<longleftrightarrow> m = Inl e \<or> (\<exists>a. m = Inr a \<and> f a = Inl e)"
  by (cases m) auto

lemma rbind_cong [fundef_cong]:
  "m = m' \<Longrightarrow> (\<And>a. m' = Inr a \<Longrightarrow> f a = f' a) \<Longrightarrow> rbind m f = rbind m' f'"
  by (cases m') auto

lemma guard_res_Inr [simp]: "guard_res b e = Inr u \<longleftrightarrow> b"
  by (simp add: guard_res_def)

lemma guard_res_simps [simp, res_simps]: "guard_res True e = Inr ()" "guard_res False e = Inl e"
  by (simp_all add: guard_res_def)

lemma is_ok_iff: "is_ok r \<longleftrightarrow> (\<exists>a. r = Inr a)"
  by (cases r) auto

lemma map_res_length: "map_res f xs = Inr ys \<Longrightarrow> length ys = length xs"
  by (induction xs arbitrary: ys) auto

lemma map_res_all2: "map_res f xs = Inr ys \<Longrightarrow> list_all2 (\<lambda>x y. f x = Inr y) xs ys"
  by (induction xs arbitrary: ys) auto

lemma map_res_cong [fundef_cong]:
  "xs = ys \<Longrightarrow> (\<And>x. x \<in> set ys \<Longrightarrow> f x = g x) \<Longrightarrow> map_res f xs = map_res g ys"
  by (induction xs arbitrary: ys) (auto intro!: rbind_cong)

lemma fold_res_append: "fold_res f (xs @ ys) s = rbind (fold_res f xs s) (fold_res f ys)"
  by (induction xs arbitrary: s) (auto simp: rbind_def split: sum.splits)

text \<open>The Hoare rule of the loops: an invariant every successful step keeps.\<close>

lemma fold_res_invariant:
  assumes "fold_res f xs s = Inr t" and "P s"
    and "\<And>x s t. x \<in> set xs \<Longrightarrow> P s \<Longrightarrow> f x s = Inr t \<Longrightarrow> P t"
  shows "P t"
  using assms
proof (induction xs arbitrary: s)
  case Nil
  then show ?case by simp
next
  case (Cons x xs)
  from Cons.prems(1) obtain s' where s': "f x s = Inr s'" "fold_res f xs s' = Inr t" by auto
  have "P s'" using Cons.prems(2,3) s'(1) by (meson list.set_intros(1))
  then show ?case using Cons.IH [OF s'(2)] Cons.prems(3) by (meson list.set_intros(2))
qed

section \<open>Lemmas on dictionaries\<close>

lemma dget_dset [simp, dict_simps]: "dget (dset d k v) k' = (if k' = k then Some v else dget d k')"
  by (simp add: update_conv')

lemma dget_dpop [simp, dict_simps]: "dget (dpop d k) k' = (if k' = k then None else dget d k')"
  by (simp add: delete_conv')

lemma dhas_dset [simp, dict_simps]: "dhas (dset d k v) k' \<longleftrightarrow> k' = k \<or> dhas d k'"
  by (simp add: dhas_def)

lemma dhas_dpop [simp, dict_simps]: "dhas (dpop d k) k' \<longleftrightarrow> k' \<noteq> k \<and> dhas d k'"
  by (simp add: dhas_def)

lemma dhas_keys: "dhas d k \<longleftrightarrow> k \<in> set (dkeys d)"
  by (simp add: dhas_def map_of_eq_None_iff)

lemma dhas_Nil [simp]: "\<not> dhas [] k"
  by (simp add: dhas_def)

lemma dhas_Some: "dget d k = Some v \<Longrightarrow> dhas d k"
  by (simp add: dhas_def)

lemma dhasE: assumes "dhas d k" obtains v where "dget d k = Some v"
  using assms by (auto simp: dhas_def)

lemma dkeys_dset: "dkeys (dset d k v) = (if k \<in> set (dkeys d) then dkeys d else dkeys d @ [k])"
  by (rule update_keys)

lemma set_dkeys_dset [simp]: "fst ` set (dset d k v) = insert k (fst ` set d)"
  using dom_update [of k v d] by simp

lemma distinct_dset [simp, intro]: "distinct (dkeys d) \<Longrightarrow> distinct (dkeys (dset d k v))"
  by (rule distinct_update)

lemma distinct_dpop [simp, intro]: "distinct (dkeys d) \<Longrightarrow> distinct (dkeys (dpop d k))"
  by (rule distinct_delete)

lemma dpop_id: "\<not> dhas d k \<Longrightarrow> dpop d k = d"
  by (induction d) (auto simp: dhas_keys)

lemma update_same: "dget a k = Some v \<Longrightarrow> AList.update k v a = a"
  by (induction a) (auto split: if_splits)

lemma update_new: "\<not> dhas a k \<Longrightarrow> AList.update k v a = a @ [(k, v)]"
  by (induction a) (auto simp: dhas_def split: if_splits)

lemma dset_dset: "dset (dset d k v) k w = dset d k w"
  by (induction d) auto

lemma dget_dmerge: "distinct (dkeys e) \<Longrightarrow>
  dget (dmerge d e) k = (case dget e k of None \<Rightarrow> dget d k | Some v \<Rightarrow> Some v)"
proof (induction d e rule: dmerge.induct)
  case (1 d)
  then show ?case by simp
next
  case (2 d k' v e)
  then show ?case by (auto simp: map_of_eq_None_iff [symmetric] split: option.splits)
qed

lemma distinct_dmerge: "distinct (dkeys d) \<Longrightarrow> distinct (dkeys (dmerge d e))"
  by (induction d e rule: dmerge.induct) auto

lemma set_dkeys_dmerge: "set (dkeys (dmerge d e)) = set (dkeys d) \<union> set (dkeys e)"
  by (induction d e rule: dmerge.induct) auto

section \<open>Lemmas on strings and lists\<close>

lemma starts_with_append [simp]: "starts_with (p @ s) p"
  by (simp add: starts_with_def)

lemma starts_withE: assumes "starts_with s p" obtains t where "s = p @ t"
  using assms by (metis append_take_drop_id starts_with_def)

lemma removeprefix_append [simp]: "removeprefix (p @ s) p = s"
  by (simp add: removeprefix_def)

lemma split_on_not_Nil [simp]: "split_on c s \<noteq> []"
  by (induction s) (auto split: list.splits)

lemma split_on_single: "c \<notin> set s \<Longrightarrow> split_on c s = [s]"
  by (induction s) auto

lemma split_on_append: "c \<notin> set s \<Longrightarrow> split_on c (s @ c # t) = s # split_on c t"
  by (induction s) auto

lemma split_once_append: "c \<notin> set s \<Longrightarrow> split_once c (s @ c # t) = [s, t]"
  by (induction s) auto

lemma join_split_on: "join [c] (split_on c s) = s"
proof (induction s)
  case Nil
  then show ?case by simp
next
  case (Cons x xs)
  obtain p ps where ps: "split_on c xs = p # ps" by (cases "split_on c xs") auto
  show ?case using Cons.IH by (cases ps) (auto simp: ps)
qed

lemma dedupe_by_set: "f ` set (dedupe_by f seen xs) = f ` set xs - set seen"
  by (induction xs arbitrary: seen) auto

lemma dedupe_by_distinct: "distinct (map f (dedupe_by f seen xs))"
proof (induction xs arbitrary: seen)
  case Nil
  then show ?case by simp
next
  case (Cons x xs)
  have "f x \<notin> f ` set (dedupe_by f (f x # seen) xs)"
    by (simp add: dedupe_by_set)
  with Cons show ?case by simp
qed

lemma dedupe_by_subset: "set (dedupe_by f seen xs) \<subseteq> set xs"
  by (induction xs arbitrary: seen) auto

lemma dedupe_by_id: "distinct (map f xs) \<Longrightarrow> set (map f xs) \<inter> set seen = {} \<Longrightarrow> dedupe_by f seen xs = xs"
  by (induction xs arbitrary: seen) auto

lemma filter_all_iff: "filter P xs = [] \<longleftrightarrow> (\<forall>x \<in> set xs. \<not> P x)"
  by (induction xs) auto

end
