(* ===== verification/PyVal.thy ===== *)
theory PyVal
  imports PyPrelude
begin

text \<open>
  The Python objects that payloads, attributes and configuration hold: what YAML and JSON can
  produce. A dictionary is an association list in insertion order with string keys; a float is
  its exact (finite) value together with the text Python prints for it.
  Equality, order, membership, truth and \<open>str\<close> are the ones of Python.
\<close>

datatype pyval =
    PNone
  | PBool bool
  | PInt int
  | PFloat rat string
  | PStr string
  | PList "pyval list"
  | PDict "(string \<times> pyval) list"

section \<open>Tests on values\<close>

fun is_none :: "pyval \<Rightarrow> bool" where
  "is_none PNone = True"
| "is_none _ = False"

fun is_str :: "pyval \<Rightarrow> bool" where
  "is_str (PStr _) = True"
| "is_str _ = False"

fun is_list :: "pyval \<Rightarrow> bool" where
  "is_list (PList _) = True"
| "is_list _ = False"

fun is_dict :: "pyval \<Rightarrow> bool" where
  "is_dict (PDict _) = True"
| "is_dict _ = False"

text \<open>\<open>isinstance(v, int)\<close> holds of booleans too; \<open>isinstance(v, int | float)\<close> of all numbers.\<close>

fun is_bool :: "pyval \<Rightarrow> bool" where
  "is_bool (PBool _) = True"
| "is_bool _ = False"

fun is_int :: "pyval \<Rightarrow> bool" where
  "is_int (PInt _) = True"
| "is_int (PBool _) = True"
| "is_int _ = False"

fun num_of :: "pyval \<Rightarrow> rat option" where
  "num_of (PBool b) = Some (of_bool b)"
| "num_of (PInt i) = Some (of_int i)"
| "num_of (PFloat r _) = Some r"
| "num_of _ = None"

definition is_number :: "pyval \<Rightarrow> bool" where
  "is_number v = (num_of v \<noteq> None)"

text \<open>\<open>bool(v)\<close>\<close>

fun truthy :: "pyval \<Rightarrow> bool" where
  "truthy PNone = False"
| "truthy (PBool b) = b"
| "truthy (PInt i) = (i \<noteq> 0)"
| "truthy (PFloat r _) = (r \<noteq> 0)"
| "truthy (PStr s) = (s \<noteq> [])"
| "truthy (PList xs) = (xs \<noteq> [])"
| "truthy (PDict d) = (d \<noteq> [])"

section \<open>Equality and order\<close>

text \<open>\<open>==\<close>: numbers compare by value whatever their type, dictionaries as maps.\<close>

fun py_eq :: "pyval \<Rightarrow> pyval \<Rightarrow> bool"
  and py_eq_list :: "pyval list \<Rightarrow> pyval list \<Rightarrow> bool"
  and py_eq_dict :: "(string \<times> pyval) list \<Rightarrow> (string \<times> pyval) list \<Rightarrow> bool" where
  "py_eq PNone b = is_none b"
| "py_eq (PBool x) b = (num_of b = Some (of_bool x))"
| "py_eq (PInt i) b = (num_of b = Some (of_int i))"
| "py_eq (PFloat r t) b = (num_of b = Some r)"
| "py_eq (PStr s) b = (case b of PStr t \<Rightarrow> s = t | _ \<Rightarrow> False)"
| "py_eq (PList xs) b = (case b of PList ys \<Rightarrow> py_eq_list xs ys | _ \<Rightarrow> False)"
| "py_eq (PDict d) b = (case b of PDict e \<Rightarrow> length d = length e \<and> py_eq_dict d e | _ \<Rightarrow> False)"
| "py_eq_list [] ys = (ys = [])"
| "py_eq_list (x # xs) ys = (case ys of [] \<Rightarrow> False | y # ys' \<Rightarrow> py_eq x y \<and> py_eq_list xs ys')"
| "py_eq_dict [] e = True"
| "py_eq_dict ((k, v) # d) e =
     (case map_of e k of None \<Rightarrow> False | Some w \<Rightarrow> py_eq v w \<and> py_eq_dict d e)"

text \<open>\<open><\<close> and \<open><=\<close>: numbers, strings (by code point) and lists (at the first place where they
  differ); anything else raises \<open>TypeError\<close>.\<close>

definition type_error :: "err" where
  "type_error = TypeError ''operands are not comparable''"

fun py_lt :: "bool \<Rightarrow> pyval \<Rightarrow> pyval \<Rightarrow> bool res"
  and py_lt_list :: "bool \<Rightarrow> pyval list \<Rightarrow> pyval list \<Rightarrow> bool res" where
  "py_lt e (PStr s) b = (case b of PStr t \<Rightarrow> Inr (if e then s \<le> t else s < t) | _ \<Rightarrow> Inl type_error)"
| "py_lt e (PList xs) b = (case b of PList ys \<Rightarrow> py_lt_list e xs ys | _ \<Rightarrow> Inl type_error)"
| "py_lt e (PBool x) b = (case num_of b of None \<Rightarrow> Inl type_error
     | Some q \<Rightarrow> Inr (if e then of_bool x \<le> q else of_bool x < q))"
| "py_lt e (PInt i) b = (case num_of b of None \<Rightarrow> Inl type_error
     | Some q \<Rightarrow> Inr (if e then of_int i \<le> q else of_int i < q))"
| "py_lt e (PFloat r t) b = (case num_of b of None \<Rightarrow> Inl type_error
     | Some q \<Rightarrow> Inr (if e then r \<le> q else r < q))"
| "py_lt e PNone b = Inl type_error"
| "py_lt e (PDict d) b = Inl type_error"
| "py_lt_list e [] ys = Inr (if e then True else ys \<noteq> [])"
| "py_lt_list e (x # xs) ys = (case ys of [] \<Rightarrow> Inr False
     | y # ys' \<Rightarrow> if py_eq x y then py_lt_list e xs ys' else py_lt e x y)"

text \<open>\<open>x in v\<close>: an element of a list, a key of a dictionary, a substring of a string.\<close>

fun is_infix :: "string \<Rightarrow> string \<Rightarrow> bool" where
  "is_infix p [] = (p = [])"
| "is_infix p (x # xs) = (starts_with (x # xs) p \<or> is_infix p xs)"

fun hashable :: "pyval \<Rightarrow> bool" where
  "hashable (PList _) = False"
| "hashable (PDict _) = False"
| "hashable _ = True"

fun py_in :: "pyval \<Rightarrow> pyval \<Rightarrow> bool res" where
  "py_in x (PList ys) = Inr (list_ex (py_eq x) ys)"
| "py_in x (PDict d) = (if hashable x
     then Inr (case x of PStr k \<Rightarrow> dhas d k | _ \<Rightarrow> False)
     else Inl (TypeError ''unhashable type''))"
| "py_in x (PStr t) = (case x of PStr s \<Rightarrow> Inr (is_infix s t)
     | _ \<Rightarrow> Inl (TypeError ''in <string> requires string as left operand''))"
| "py_in x _ = Inl (TypeError ''argument is not iterable'')"

section \<open>Text of a value\<close>

text \<open>\<open>repr\<close> of a string below code point 256: single quotes unless the text has a single quote and
  no double quote; the backslash, the quote and what is not printable are escaped.\<close>

definition hex_digit :: "nat \<Rightarrow> char" where
  "hex_digit n = (if n < 10 then char_of (48 + n) else char_of (87 + n))"

definition repr_char :: "char \<Rightarrow> char \<Rightarrow> string" where
  "repr_char q c = (let n = (of_char c :: nat) in
     if c = q \<or> n = 92 then [char_of (92::nat), c]
     else if n = 9 then [char_of (92::nat), CHR ''t'']
     else if n = 10 then [char_of (92::nat), CHR ''n'']
     else if n = 13 then [char_of (92::nat), CHR ''r'']
     else if n < 32 \<or> (127 \<le> n \<and> n \<le> 160) \<or> n = 173
       then [char_of (92::nat), CHR ''x'', hex_digit (n div 16), hex_digit (n mod 16)]
     else [c])"

definition repr_str :: "string \<Rightarrow> string" where
  "repr_str s = (let q = (if CHR 0x27 \<in> set s \<and> CHR 0x22 \<notin> set s then CHR 0x22 else CHR 0x27)
     in q # concat (map (repr_char q) s) @ [q])"

fun py_repr :: "pyval \<Rightarrow> string"
  and py_repr_items :: "pyval list \<Rightarrow> string list"
  and py_repr_pairs :: "(string \<times> pyval) list \<Rightarrow> string list" where
  "py_repr PNone = ''None''"
| "py_repr (PBool b) = (if b then ''True'' else ''False'')"
| "py_repr (PInt i) = int_str i"
| "py_repr (PFloat r t) = t"
| "py_repr (PStr s) = repr_str s"
| "py_repr (PList xs) = ''['' @ join '', '' (py_repr_items xs) @ '']''"
| "py_repr (PDict d) = ''{'' @ join '', '' (py_repr_pairs d) @ ''}''"
| "py_repr_items [] = []"
| "py_repr_items (x # xs) = py_repr x # py_repr_items xs"
| "py_repr_pairs [] = []"
| "py_repr_pairs ((k, v) # d) = (repr_str k @ '': '' @ py_repr v) # py_repr_pairs d"

fun py_str :: "pyval \<Rightarrow> string" where
  "py_str (PStr s) = s"
| "py_str v = py_repr v"

text \<open>\<open>d.get(k)\<close> on an attribute dictionary, \<open>None\<close> when absent; \<open>v.get(k)\<close> of a dictionary value.\<close>

definition aget :: "(string, pyval) dict \<Rightarrow> string \<Rightarrow> pyval" where
  "aget d k = dget_default d k PNone"

definition str_or :: "pyval \<Rightarrow> string \<Rightarrow> string" where
  "str_or v d = (if truthy v then py_str v else d)"

section \<open>Well-formed values\<close>

text \<open>The keys of a dictionary are distinct, at every depth.\<close>

fun wf_val :: "pyval \<Rightarrow> bool" where
  "wf_val (PList xs) = (\<forall>x \<in> set xs. wf_val x)"
| "wf_val (PDict d) = (distinct (map fst d) \<and> (\<forall>kv \<in> set d. wf_val (snd kv)))"
| "wf_val _ = True"

section \<open>Lemmas\<close>

lemma py_eq_num: "num_of a = Some x \<Longrightarrow> py_eq a b \<longleftrightarrow> num_of b = Some x"
  by (cases a) auto

lemma num_of_None_eq: "num_of a = None \<Longrightarrow> py_eq a b \<Longrightarrow> num_of b = None"
  by (cases a; cases b) auto

lemma py_eq_list_all2: "py_eq_list xs ys \<longleftrightarrow> list_all2 py_eq xs ys"
  by (induction xs arbitrary: ys) (auto split: list.splits)

lemma py_eq_dict_iff: "py_eq_dict d e \<longleftrightarrow>
  (\<forall>kv \<in> set d. \<exists>w. dget e (fst kv) = Some w \<and> py_eq (snd kv) w)"
  by (induction d e rule: py_eq_py_eq_list_py_eq_dict.induct(3)
      [where P = "\<lambda>_ _. True" and Q = "\<lambda>_ _. True"]) (auto split: option.splits)

lemma py_eq_refl: "wf_val v \<Longrightarrow> py_eq v v"
proof (induction v)
  case (PList xs)
  then show ?case by (auto simp: py_eq_list_all2 intro: list.rel_refl_strong)
next
  case (PDict d)
  have "\<exists>w. dget d (fst kv) = Some w \<and> py_eq (snd kv) w" if kv: "kv \<in> set d" for kv
  proof -
    have "dget d (fst kv) = Some (snd kv)" using PDict.prems kv by (auto intro: map_of_is_SomeI)
    moreover have "py_eq (snd kv) (snd kv)"
      using PDict kv by (cases kv) (force simp: snds.simps)
    ultimately show ?thesis by blast
  qed
  then show ?case by (simp add: py_eq_dict_iff)
qed auto

lemma py_eq_sym: "wf_val a \<Longrightarrow> wf_val b \<Longrightarrow> py_eq a b \<Longrightarrow> py_eq b a"
proof (induction a arbitrary: b)
  case (PList xs)
  then obtain ys where b: "b = PList ys" and all2: "list_all2 py_eq xs ys"
    by (cases b) (auto simp: py_eq_list_all2)
  have "list_all2 (\<lambda>y x. py_eq y x) ys xs"
    using all2 PList b by (auto simp: list_all2_conv_all_nth)
  then show ?case by (simp add: b py_eq_list_all2)
next
  case (PDict d)
  then obtain e where b: "b = PDict e" and len: "length d = length e"
    and sub: "\<forall>kv \<in> set d. \<exists>w. dget e (fst kv) = Some w \<and> py_eq (snd kv) w"
    by (cases b) (auto simp: py_eq_dict_iff)
  have dist: "distinct (map fst d)" "distinct (map fst e)" using PDict.prems b by auto
  have keys_sub: "fst ` set d \<subseteq> fst ` set e"
    using sub by (auto simp: map_of_eq_Some_iff dist) (metis fst_conv image_eqI)
  have keys: "fst ` set e = fst ` set d"
    using keys_sub len dist by (metis card_subset_eq distinct_card finite_imageI finite_set length_map set_map)
  have "\<exists>v. dget d (fst kv) = Some v \<and> py_eq (snd kv) v" if kv: "kv \<in> set e" for kv
  proof -
    obtain v where v: "(fst kv, v) \<in> set d" using keys kv by (metis imageE image_eqI prod.collapse)
    then have "\<exists>w. dget e (fst kv) = Some w \<and> py_eq v w" using sub by fastforce
    then have "py_eq v (snd kv)" using kv dist by (metis map_of_is_SomeI option.inject prod.collapse)
    moreover have "wf_val v" using PDict.prems(1) v by fastforce
    moreover have "wf_val (snd kv)" using PDict.prems(2) b kv by simp
    ultimately have "py_eq (snd kv) v" using PDict.IH [OF v, of v] by (simp add: snds.simps)
    then show ?thesis using v dist by auto
  qed
  then show ?case by (simp add: b len py_eq_dict_iff)
next
  case PNone
  then show ?case by (cases b) auto
next
  case (PStr s)
  then show ?case by (cases b) auto
qed (simp_all add: py_eq_num)

lemma py_eq_trans: "py_eq a b \<Longrightarrow> py_eq b c \<Longrightarrow> py_eq a c"
proof (induction a arbitrary: b c)
  case (PList xs)
  obtain ys where b: "b = PList ys" using PList.prems(1) by (cases b) auto
  obtain zs where c: "c = PList zs" using PList.prems(2) b by (cases c) auto
  note bc = b c
  have all2: "list_all2 py_eq xs ys" "list_all2 py_eq ys zs"
    using PList.prems bc by (simp_all add: py_eq_list_all2)
  have "py_eq (xs ! i) (zs ! i)" if "i < length xs" for i
    using PList.IH [OF nth_mem [OF that]] all2 that by (metis list_all2_conv_all_nth)
  with all2 have "list_all2 py_eq xs zs"
    by (simp add: list_all2_conv_all_nth)
  then show ?case by (simp add: bc py_eq_list_all2)
next
  case (PDict d)
  obtain e where b: "b = PDict e" using PDict.prems(1) by (cases b) auto
  obtain f where c: "c = PDict f" using PDict.prems(2) b by (cases c) auto
  note bc = b c
  have len: "length d = length e" "length e = length f"
    and sub: "\<forall>kv \<in> set d. \<exists>w. dget e (fst kv) = Some w \<and> py_eq (snd kv) w"
             "\<forall>kv \<in> set e. \<exists>w. dget f (fst kv) = Some w \<and> py_eq (snd kv) w"
    using PDict.prems bc by (simp_all add: py_eq_dict_iff)
  have "\<exists>u. dget f (fst kv) = Some u \<and> py_eq (snd kv) u" if kv: "kv \<in> set d" for kv
  proof -
    obtain w where w: "dget e (fst kv) = Some w" "py_eq (snd kv) w" using sub(1) kv by blast
    then have "(fst kv, w) \<in> set e" by (simp add: map_of_SomeD)
    then obtain u where u: "dget f (fst kv) = Some u" "py_eq w u" using sub(2) by fastforce
    have "py_eq (snd kv) u"
      using PDict.IH [of kv "snd kv" w u] kv w(2) u(2) by (cases kv) (simp add: snds.simps)
    with u show ?thesis by blast
  qed
  then show ?case by (simp add: bc len py_eq_dict_iff)
next
  case PNone
  then have "b = PNone" by (cases b) auto
  with PNone show ?case by simp
next
  case (PStr s)
  then have "b = PStr s" by (cases b) auto
  with PStr show ?case by simp
qed (simp_all add: py_eq_num)

lemma aget_simps [simp]: "aget [] k = PNone"
  by (simp add: aget_def dget_default_def)

lemma aget_Some: "dget d k = Some v \<Longrightarrow> aget d k = v"
  by (simp add: aget_def dget_default_def)

lemma aget_dset [simp]: "aget (dset d k v) k' = (if k' = k then v else aget d k')"
  by (simp add: aget_def dget_default_def)

lemma truthy_PStr_aget: "is_str v \<Longrightarrow> truthy v \<Longrightarrow> \<exists>s. v = PStr s \<and> s \<noteq> []"
  by (cases v) auto

end
