(* ===== verification/Schema.thy ===== *)
theory Schema
  imports PyVal
begin

text \<open>
  The configuration records of \<open>config/schema.py\<close> and the validators the classes declare. Parsing
  into the records (pydantic's \<open>model_validate\<close>) is library code: the records are its results,
  and the repository's own \<open>field_validator\<close> functions are the definitions below.
\<close>

section \<open>Permissions and entity types\<close>

datatype perm = PermNone | ReadOnly | WriteOnly | ReadWrite

datatype storage_tier = Filesystem | Database | Memory

datatype mat_type = MInteger | MText | MReal | MDatetime | MBoolean | MJson

record mat_field =
  mf_type :: mat_type
  mf_index :: bool

record etype =
  et_display_name :: string
  et_business_id_field :: string
  et_display_template :: string
  et_storage_tier :: storage_tier
  et_table_name :: "string option"
  et_schema_version :: int
  et_materialized :: "(string, mat_field) dict"
  et_deprecated :: "string list"
  et_system_protected :: bool
  et_schema :: "(string, pyval) dict"
  et_field_permissions :: "(string, perm) dict"
  et_validate :: bool

definition has_field :: "etype \<Rightarrow> string \<Rightarrow> bool" where
  "has_field t name = (case aget (et_schema t) ''properties'' of PDict ps \<Rightarrow> dhas ps name | _ \<Rightarrow> False)"

definition is_executable :: "etype \<Rightarrow> bool" where
  "is_executable t = (has_field t ''handler'' \<or> has_field t ''system_prompt_file'')"

definition is_dag_type :: "etype \<Rightarrow> bool" where
  "is_dag_type t = (has_field t ''nodes'' \<and> has_field t ''edges'')"

definition is_trigger_type :: "etype \<Rightarrow> bool" where
  "is_trigger_type t = (has_field t ''wait_for'' \<and> has_field t ''target'')"

definition is_relation_type :: "etype \<Rightarrow> bool" where
  "is_relation_type t = (has_field t ''from'' \<and> has_field t ''to'' \<and> has_field t ''relation_type'')"

section \<open>Entities and relations\<close>

record entity =
  en_id :: string
  en_type :: string
  en_attrs :: "(string, pyval) dict"

record relation =
  rl_id :: string
  rl_entities :: "string list"
  rl_type :: string
  rl_metadata :: "(string, pyval) dict"

text \<open>\<open>EntitiesConfig.by_id\<close>: a later entity with the same id replaces the earlier one.\<close>

fun by_id_acc :: "(string, entity) dict \<Rightarrow> entity list \<Rightarrow> (string, entity) dict" where
  "by_id_acc d [] = d"
| "by_id_acc d (e # es) = by_id_acc (dset d (en_id e) e) es"

definition by_id :: "entity list \<Rightarrow> (string, entity) dict" where
  "by_id es = by_id_acc [] es"

definition business_id :: "entity \<Rightarrow> (string, etype) dict \<Rightarrow> string res" where
  "business_id e types = (case dget types (en_type e) of
     None \<Rightarrow> Inl (KeyError (en_type e))
   | Some t \<Rightarrow>
      (if et_business_id_field t = ''id'' then
         (case aget (en_attrs e) ''id'' of PStr s \<Rightarrow> Inr (if s \<noteq> [] then s else en_id e) | _ \<Rightarrow> Inr (en_id e))
       else
         (let bad = Inl (ValueError (''entity '' @ en_id e @ '' missing business id field: ''
                         @ et_business_id_field t)) in
          case aget (en_attrs e) (et_business_id_field t) of
            PStr s \<Rightarrow> if s = [] then bad else Inr s | _ \<Rightarrow> bad)))"

definition entity_ref :: "entity \<Rightarrow> (string, etype) dict \<Rightarrow> string res" where
  "entity_ref e types = rbind (business_id e types) (\<lambda>b. Inr (en_type e @ '':'' @ b))"

section \<open>Nodes\<close>

datatype role = Source | Processor | Sink

record emit_decl =
  ed_event :: string
  ed_condition :: "string option"

datatype input_map = MapRef string | MapDict "(string, string) dict"

text \<open>The four variants of a node configuration with the fields of each class.\<close>

datatype node_variant =
    FunctionNode (fn_handler: string) (fn_skills: "string list") (fn_source_names: "string list")
      (fn_parameters: "(string, pyval) dict") (fn_prompt_file: "string option") (fn_prompt: "string option")
      (fn_schema: "(string, pyval) dict")
  | AgentNode (ag_model: string) (ag_workdir: "string option") (ag_skills: "string list")
      (ag_tools: "string list") (ag_prompt_file: "string option") (ag_prompt: "string option")
      (ag_schema: "(string, pyval) dict")
  | DagNode (dn_ref: string) (dn_mapping: input_map)
  | WaitNode (wn_wait_for: string) (wn_consume: bool)

record node_cfg =
  nc_name :: string
  nc_role :: role
  nc_input_type :: string
  nc_output_type :: string
  nc_optional :: bool
  nc_timeout :: "rat option"
  nc_emits :: "emit_decl list"
  nc_variant :: node_variant

section \<open>DAGs\<close>

datatype edge_mode = EBarrier | EAccumulate | ECollect | EStream

record edge_cfg =
  e_from :: string
  e_to :: string
  e_fan_out :: bool
  e_fan_in :: bool
  e_optional :: bool
  e_condition :: "string option"
  e_fan_in_mode :: edge_mode

datatype loop_mode = LParallel | LSerial

record loop_cfg =
  lp_mode :: loop_mode
  lp_count :: "nat option"
  lp_until :: "string option"

datatype node_mode = NBarrier | NAccumulate

record node_inst =
  ni_id :: string
  ni_type :: string
  ni_dag_ref :: "string option"
  ni_input_mapping :: input_map
  ni_alias :: "string option"
  ni_config :: "(string, pyval) dict"
  ni_optional :: bool
  ni_fan_in_mode :: node_mode
  ni_loop :: "loop_cfg option"
  ni_switch_model :: bool
  ni_fallback_model :: "string option"
  ni_resource :: "string option"

record dag_cfg =
  dc_name :: string
  dc_nodes :: "node_inst list"
  dc_edges :: "edge_cfg list"
  dc_ui :: "(string, pyval) dict"

text \<open>The limits of \<open>SystemConfig\<close> the core reads, with the bounds its fields declare.\<close>

record sys_cfg =
  sc_schedule_minutes :: int
  sc_max_trigger_depth :: int
  sc_startup_window :: int
  sc_llm_timeout :: rat
  sc_retention_count :: int
  sc_retention_hours :: int
  sc_sandbox_max_bytes :: int
  sc_max_dag_depth :: int
  sc_recovery_enabled :: bool
  sc_recovery_max_attempts :: int

definition default_sys_cfg :: sys_cfg where
  "default_sys_cfg = \<lparr>sc_schedule_minutes = 30, sc_max_trigger_depth = 3, sc_startup_window = 10,
     sc_llm_timeout = 60, sc_retention_count = 20, sc_retention_hours = 720,
     sc_sandbox_max_bytes = 0, sc_max_dag_depth = 3, sc_recovery_enabled = True,
     sc_recovery_max_attempts = 2\<rparr>"

definition valid_sys_cfg :: "sys_cfg \<Rightarrow> bool" where
  "valid_sys_cfg s = (1 \<le> sc_schedule_minutes s \<and> 1 \<le> sc_max_trigger_depth s \<and> 1 \<le> sc_startup_window s
     \<and> 0 \<le> sc_llm_timeout s \<and> 0 \<le> sc_retention_count s \<and> 0 \<le> sc_retention_hours s
     \<and> 0 \<le> sc_sandbox_max_bytes s \<and> 1 \<le> sc_max_dag_depth s \<and> 0 \<le> sc_recovery_max_attempts s)"

section \<open>Validators\<close>

text \<open>\<open>_validate_parameter_mapping\<close> and \<open>_validate_parameter_value\<close>: no key, at any depth reached
  through dictionaries and lists, may look like a credential.\<close>

definition credential_tokens :: "string list" where
  "credential_tokens = [''secret'', ''token'', ''password'', ''credential'', ''key'']"

definition credential_key :: "string \<Rightarrow> bool" where
  "credential_key k = list_ex (\<lambda>t. is_infix t (str_lower k)) credential_tokens"

definition credential_error :: err where
  "credential_error = ValueError ''parameters must not contain credentials''"

fun validate_parameter_value :: "pyval \<Rightarrow> unit res"
  and validate_parameter_items :: "pyval list \<Rightarrow> unit res"
  and validate_parameter_mapping :: "(string \<times> pyval) list \<Rightarrow> unit res" where
  "validate_parameter_value (PList xs) = validate_parameter_items xs"
| "validate_parameter_value (PDict d) = validate_parameter_mapping d"
| "validate_parameter_value v = Inr ()"
| "validate_parameter_items [] = Inr ()"
| "validate_parameter_items (x # xs) =
     rbind (validate_parameter_value x) (\<lambda>_. validate_parameter_items xs)"
| "validate_parameter_mapping [] = Inr ()"
| "validate_parameter_mapping ((k, v) # d) =
     (if credential_key k then Inl credential_error
      else rbind (validate_parameter_value v) (\<lambda>_. validate_parameter_mapping d))"

fun no_credentials :: "pyval \<Rightarrow> bool" where
  "no_credentials (PList xs) = (\<forall>x \<in> set xs. no_credentials x)"
| "no_credentials (PDict d) = (\<forall>kv \<in> set d. \<not> credential_key (fst kv) \<and> no_credentials (snd kv))"
| "no_credentials _ = True"

definition pi_tools :: "string list" where
  "pi_tools = [''bash'', ''read'', ''edit'', ''write'', ''grep'', ''find'']"

definition validate_tools :: "string list \<Rightarrow> string list res" where
  "validate_tools ts = (case filter (\<lambda>t. t \<notin> set pi_tools) ts of
     [] \<Rightarrow> Inr ts | t # _ \<Rightarrow> Inl (ValueError (''unknown pi tool: '' @ t)))"

definition safe_char :: "char \<Rightarrow> bool" where
  "safe_char c = (is_alnum c \<or> c = CHR ''-'' \<or> c = CHR ''_'' \<or> c = CHR ''.'')"

definition safe_token :: "string \<Rightarrow> bool" where
  "safe_token s = (s \<noteq> [] \<and> list_all safe_char s)"

definition valid_session_text :: "string \<Rightarrow> bool" where
  "valid_session_text v =
     (if v = [] then False
      else if CHR ''/'' \<notin> set v \<and> CHR ''@'' \<notin> set v then safe_token v
      else if CHR ''@'' \<notin> set v then False
      else (case split_on (CHR ''@'') v of
          [ref, mode] \<Rightarrow>
            (if mode \<noteq> ''latest'' \<and> mode \<noteq> ''list'' then False
             else (case split_on (CHR ''/'') ref of
                 [dag_name, grp] \<Rightarrow> safe_token dag_name \<and> safe_token grp
               | _ \<Rightarrow> False))
        | _ \<Rightarrow> False))"

definition valid_session :: "pyval \<Rightarrow> bool" where
  "valid_session v = (case v of PStr s \<Rightarrow> valid_session_text s | _ \<Rightarrow> False)"

text \<open>\<open>DagNodeInstance._json_like_config\<close>: the validator of an instance's \<open>config\<close>.\<close>

definition json_like_config :: "(string, pyval) dict \<Rightarrow> (string, pyval) dict res" where
  "json_like_config value =
     rbind (validate_parameter_mapping (filter (\<lambda>kv. fst kv \<noteq> ''entity_permissions'') value)) (\<lambda>_.
     if dhas value ''session'' \<and> \<not> valid_session (aget value ''session'')
     then Inl (ValueError ''config.session must be <group>, <dag>/<group>@latest, or <dag>/<group>@list'')
     else if dhas value ''tools'' then
       (case aget value ''tools'' of
          PList ts \<Rightarrow> rbind (validate_tools (map py_str ts))
                        (\<lambda>ts'. Inr (dset value ''tools'' (PList (map PStr ts'))))
        | _ \<Rightarrow> Inl (ValueError ''config.tools must be a list''))
     else Inr value)"

definition wait_for_not_blank :: "string \<Rightarrow> string res" where
  "wait_for_not_blank v = (if strip_ws v = [] then Inl (ValueError ''wait_for must not be blank'') else Inr v)"

text \<open>\<open>_validate_json_schema_fragment\<close> and \<open>_validate_json_schema_object\<close>.\<close>

lemma size_pair_lookup [termination_simp]: "dget d k = Some (v :: pyval) \<Longrightarrow>
    size v < size (PDict d)"
  by (induction d) (auto split: if_splits)

lemma size_aget [termination_simp]: "aget d k = v \<Longrightarrow> v \<noteq> PNone \<Longrightarrow> size v < size (PDict d)"
  by (auto simp: aget_def dget_default_def dest: size_pair_lookup split: option.splits)

definition opt_val :: "(string, pyval) dict \<Rightarrow> string \<Rightarrow> pyval option" where
  "opt_val d k = (case dget d k of None \<Rightarrow> None | Some v \<Rightarrow> if is_none v then None else Some v)"

definition str_list_ok :: "pyval \<Rightarrow> bool" where
  "str_list_ok v = (case v of PList xs \<Rightarrow> list_all is_str xs | _ \<Rightarrow> False)"

definition check_opt :: "pyval option \<Rightarrow> (pyval \<Rightarrow> bool) \<Rightarrow> string \<Rightarrow> unit res" where
  "check_opt v p msg = (case v of None \<Rightarrow> Inr () | Some x \<Rightarrow> guard_res (p x) (ValueError msg))"

lemma opt_val_size: "opt_val d k = Some v \<Longrightarrow> size v < size (PDict d)"
  by (auto simp: opt_val_def dest: size_pair_lookup split: option.splits if_splits)

definition opt_dict :: "(string, pyval) dict \<Rightarrow> string \<Rightarrow> string \<Rightarrow> (string, pyval) dict option res" where
  "opt_dict d k msg = (case opt_val d k of None \<Rightarrow> Inr None
     | Some v \<Rightarrow> (case v of PDict i \<Rightarrow> Inr (Some i) | _ \<Rightarrow> Inl (ValueError msg)))"

lemma opt_dict_size: "opt_dict d k msg = Inr (Some i) \<Longrightarrow> size (PDict i) < size (PDict d)"
  by (auto simp: opt_dict_def dest: opt_val_size split: option.splits pyval.splits)

function validate_fragment :: "(string, pyval) dict \<Rightarrow> string \<Rightarrow> unit res"
  and validate_properties :: "(string, pyval) dict \<Rightarrow> string \<Rightarrow> unit res" where
  "validate_fragment d path =
     rbind (check_opt (opt_val d ''type'') is_str (path @ ''.type must be a string'')) (\<lambda>_.
     rbind (check_opt (opt_val d ''enum'') is_list (path @ ''.enum must be a list'')) (\<lambda>_.
     rbind (opt_dict d ''items'' (path @ ''.items must be an object'')) (\<lambda>i.
     rbind (case i of None \<Rightarrow> Inr () | Some d' \<Rightarrow> validate_fragment d' (path @ ''.items'')) (\<lambda>_.
     rbind (opt_dict d ''properties'' (path @ ''.properties must be a mapping'')) (\<lambda>ps.
     rbind (case ps of None \<Rightarrow> Inr () | Some d' \<Rightarrow> validate_properties d' path) (\<lambda>_.
     rbind (check_opt (opt_val d ''required'') str_list_ok (path @ ''.required must be a list of strings'')) (\<lambda>_.
     rbind (check_opt (opt_val d ''minimum'') is_number (path @ ''.minimum must be a number'')) (\<lambda>_.
     case dget d ''default'' of None \<Rightarrow> Inr () | Some v \<Rightarrow> validate_parameter_value v))))))))"
| "validate_properties [] path = Inr ()"
| "validate_properties ((k, item) # ps) path =
     (case item of PDict i \<Rightarrow>
        rbind (validate_fragment i (path @ ''.properties.'' @ k)) (\<lambda>_. validate_properties ps path)
      | _ \<Rightarrow> Inl (ValueError (path @ ''.properties entries must be objects'')))"
  by pat_completeness auto
termination
  by (relation "measure (\<lambda>x. case x of Inl (d, _) \<Rightarrow> size (PDict d) | Inr (ps, _) \<Rightarrow> size (PDict ps))")
    (auto dest: opt_dict_size)

definition validate_schema_object :: "(string, pyval) dict \<Rightarrow> string \<Rightarrow> unit res" where
  "validate_schema_object d path =
     rbind (check_opt (opt_val d ''type'') (\<lambda>v. v = PStr ''object'') (path @ ''.type must be '' @ repr_str ''object'')) (\<lambda>_.
     rbind (opt_dict d ''properties'' (path @ ''.properties must be a mapping'')) (\<lambda>ps.
     rbind (case ps of None \<Rightarrow> Inr () | Some d' \<Rightarrow> validate_properties d' path) (\<lambda>_.
     check_opt (opt_val d ''required'') str_list_ok (path @ ''.required must be a list of strings''))))"

section \<open>Lemmas\<close>

lemma validate_parameter_iff:
  "validate_parameter_value v = Inr () \<longleftrightarrow> no_credentials v"
  "validate_parameter_items xs = Inr () \<longleftrightarrow> (\<forall>x \<in> set xs. no_credentials x)"
  "validate_parameter_mapping d = Inr () \<longleftrightarrow>
     (\<forall>kv \<in> set d. \<not> credential_key (fst kv) \<and> no_credentials (snd kv))"
  by (induction v and xs and d
      rule: validate_parameter_value_validate_parameter_items_validate_parameter_mapping.induct) auto

lemma validate_parameter_error:
  "validate_parameter_value v = Inl e \<Longrightarrow> e = credential_error"
  "validate_parameter_items xs = Inl e \<Longrightarrow> e = credential_error"
  "validate_parameter_mapping d = Inl e \<Longrightarrow> e = credential_error"
  by (induction v and xs and d
      rule: validate_parameter_value_validate_parameter_items_validate_parameter_mapping.induct)
    (auto simp: rbind_eq_Inl split: if_splits)

lemma validate_tools_ok: "validate_tools ts = Inr ts' \<longleftrightarrow> ts' = ts \<and> set ts \<subseteq> set pi_tools"
proof (cases "filter (\<lambda>t. t \<notin> set pi_tools) ts")
  case Nil
  then have "set ts \<subseteq> set pi_tools" by (auto simp: filter_empty_conv)
  with Nil show ?thesis by (auto simp: validate_tools_def)
next
  case (Cons t us)
  then have "t \<in> set (filter (\<lambda>t. t \<notin> set pi_tools) ts)" by simp
  then have "\<not> set ts \<subseteq> set pi_tools" by auto
  with Cons show ?thesis by (simp add: validate_tools_def)
qed

lemma json_like_config_cases:
  assumes "json_like_config c = Inr c'"
  shows "dhas c ''session'' \<longrightarrow> valid_session (aget c ''session'')"
    and "\<forall>kv \<in> set c. fst kv \<noteq> ''entity_permissions'' \<longrightarrow> \<not> credential_key (fst kv) \<and> no_credentials (snd kv)"
    and "dhas c ''tools'' \<longrightarrow> (\<exists>ts. aget c' ''tools'' = PList (map PStr ts) \<and> set ts \<subseteq> set pi_tools)"
    and "k \<noteq> ''tools'' \<longrightarrow> dget c' k = dget c k"
  using assms by (auto simp: json_like_config_def validate_parameter_iff validate_tools_ok
      split: if_splits pyval.splits intro!: exI [of _ "map py_str _"])

lemma entity_ref_Inr: "entity_ref e types = Inr r \<Longrightarrow> \<exists>b. business_id e types = Inr b \<and> r = en_type e @ '':'' @ b"
  by (auto simp: entity_ref_def)

lemma business_id_known: "business_id e types = Inr b \<Longrightarrow> dhas types (en_type e)"
  by (auto simp: business_id_def dhas_def split: option.splits)

lemma by_id_acc_get: "dget (by_id_acc d es) k =
  (case filter (\<lambda>e. en_id e = k) es of [] \<Rightarrow> dget d k | _ \<Rightarrow> Some (last (filter (\<lambda>e. en_id e = k) es)))"
  by (induction d es rule: by_id_acc.induct) (auto split: list.splits)

end
