(* ===== verification/DagLoader.thy ===== *)
theory DagLoader
  imports Schema "HOL-Library.Multiset"
begin

text \<open>
  \<open>dag/loader.py\<close> and \<open>dag/models.py\<close>: a DAG configuration becomes a checked graph; Kahn layers of
  the graph; the nesting check of sub-DAG references. \<open>graph.edges[n]\<close> and \<open>graph.reverse_edges[n]\<close>
  are \<open>succs g n\<close> and \<open>preds g n\<close>. The Chinese parts of the cycle message are the
  characters of its UTF-8 encoding.
\<close>

section \<open>Graphs\<close>

type_synonym edge = "string \<times> string"

record dag_graph =
  dg_name :: string
  dg_nodes :: "string list"
  dg_instances :: "(string, node_inst) dict"
  dg_edges :: "(string, string list) dict"
  dg_reverse :: "(string, string list) dict"
  dg_fan_out :: "edge set"
  dg_fan_in :: "edge set"
  dg_optional :: "edge set"
  dg_conditions :: "(edge, string) dict"
  dg_fan_in_modes :: "(edge, edge_mode) dict"

definition succs :: "dag_graph \<Rightarrow> string \<Rightarrow> string list" where
  "succs g n = dget_default (dg_edges g) n []"

definition preds :: "dag_graph \<Rightarrow> string \<Rightarrow> string list" where
  "preds g n = dget_default (dg_reverse g) n []"

record path_step =
  ps_dag :: string
  ps_via :: "string option"

section \<open>Loading\<close>

definition is_sub_dag_node :: "node_inst \<Rightarrow> (string, dag_cfg) dict option \<Rightarrow> bool" where
  "is_sub_dag_node n dags =
     (case (if ni_type n = ''dag'' then ni_dag_ref n else None) of
        Some r \<Rightarrow> (if r \<noteq> [] then (case dags of None \<Rightarrow> True | Some ds \<Rightarrow> dhas ds r)
                  else (case dags of None \<Rightarrow> False | Some ds \<Rightarrow> dhas ds (ni_type n)))
      | None \<Rightarrow> (case dags of None \<Rightarrow> False | Some ds \<Rightarrow> dhas ds (ni_type n)))"

definition check_io :: "node_cfg \<Rightarrow> node_cfg \<Rightarrow> unit res" where
  "check_io up down =
     (if nc_output_type up = ''Any'' \<or> nc_input_type down = ''Any'' then Inr ()
      else if nc_output_type up = nc_input_type down then Inr ()
      else Inl (DagError (''I/O type mismatch: '' @ nc_name up @ ''->'' @ nc_name down)))"

definition check_role :: "node_cfg \<Rightarrow> node_cfg \<Rightarrow> unit res" where
  "check_role up down =
     (if nc_role up = Sink then Inl (DagError (''sink node cannot have outgoing edge: '' @ nc_name up))
      else if nc_role down = Source then
        Inl (DagError (''source node cannot have incoming edge: '' @ nc_name down))
      else Inr ())"

definition dappend :: "('k, 'v list) dict \<Rightarrow> 'k \<Rightarrow> 'v \<Rightarrow> ('k, 'v list) dict" where
  "dappend d k x = dset d k (dget_default d k [] @ [x])"

definition lookup_key :: "(string, 'v) dict \<Rightarrow> string \<Rightarrow> 'v res" where
  "lookup_key d k = (case dget d k of None \<Rightarrow> Inl (KeyError k) | Some v \<Rightarrow> Inr v)"

text \<open>One turn of the edge loop of \<open>load_graph\<close>: first the tables it updates (\<open>opt\<close> says whether the
  node type or the upstream instance is optional), then the whole turn with its checks.\<close>

definition edge_tables :: "edge_cfg \<Rightarrow> bool \<Rightarrow> dag_graph \<Rightarrow> dag_graph" where
  "edge_tables e opt g = (let k = (e_from e, e_to e) in
     g\<lparr>dg_edges := dappend (dg_edges g) (e_from e) (e_to e),
       dg_reverse := dappend (dg_reverse g) (e_to e) (e_from e),
       dg_fan_out := (if e_fan_out e then insert k (dg_fan_out g) else dg_fan_out g),
       dg_fan_in := (if e_fan_in e then insert k (dg_fan_in g) else dg_fan_in g),
       dg_optional := (if e_optional e \<or> opt then insert k (dg_optional g) else dg_optional g),
       dg_conditions := (case e_condition e of None \<Rightarrow> dg_conditions g
           | Some c \<Rightarrow> if c \<noteq> [] then dset (dg_conditions g) k c else dg_conditions g),
       dg_fan_in_modes := dset (dg_fan_in_modes g) k (e_fan_in_mode e)\<rparr>)"

definition add_edge :: "(string, node_cfg) dict \<Rightarrow> string set \<Rightarrow> edge_cfg \<Rightarrow> dag_graph \<Rightarrow> dag_graph res" where
  "add_edge nodes sub e g =
     (if \<not> dhas (dg_edges g) (e_from e) \<or> \<not> dhas (dg_reverse g) (e_to e)
      then Inl (DagError (''edge references unknown node: '' @ e_from e @ ''->'' @ e_to e))
      else
        rbind (lookup_key (dg_instances g) (e_from e)) (\<lambda>up.
        rbind (lookup_key (dg_instances g) (e_to e)) (\<lambda>down.
        rbind (if e_from e \<notin> sub \<and> e_to e \<notin> sub then
                 rbind (lookup_key nodes (ni_type up)) (\<lambda>cu.
                 rbind (lookup_key nodes (ni_type down)) (\<lambda>cd.
                 rbind (check_role cu cd) (\<lambda>_. check_io cu cd)))
               else Inr ()) (\<lambda>_.
        rbind (if e_from e \<in> sub then Inr False
               else rbind (lookup_key nodes (ni_type up)) (\<lambda>cu. Inr (nc_optional cu))) (\<lambda>up_opt.
        Inr (edge_tables e (up_opt \<or> ni_optional up) g))))))"

text \<open>The nested function \<open>visit\<close> of \<open>_assert_acyclic\<close>. The set \<open>visiting\<close> holds the nodes on the
  current path; the code adds a node before the loop over its successors and removes it after, so
  the recursive calls see the path so far.\<close>

function visit :: "(string, string list) dict \<Rightarrow> string set \<Rightarrow> string \<Rightarrow> string set \<Rightarrow> string set res"
  and visit_all :: "(string, string list) dict \<Rightarrow> string set \<Rightarrow> string list \<Rightarrow> string set \<Rightarrow> string set res"
where
  "visit edges visiting node visited =
     (if node \<in> visiting then Inl (DagError (''DAG contains a cycle at '' @ node))
      else if node \<in> visited then Inr visited
      else (case dget edges node of None \<Rightarrow> Inl (KeyError node)
            | Some ds \<Rightarrow> rbind (visit_all edges (insert node visiting) ds visited)
                (\<lambda>vs. Inr (insert node vs))))"
| "visit_all edges visiting [] visited = Inr visited"
| "visit_all edges visiting (d # ds) visited =
     rbind (visit edges visiting d visited) (\<lambda>vs. visit_all edges visiting ds vs)"
  by pat_completeness auto
termination
proof (relation "measures [\<lambda>x. (case x of Inl (es, vg, n, vd) \<Rightarrow> card (set (dkeys es) - vg)
      | Inr (es, vg, ds, vd) \<Rightarrow> card (set (dkeys es) - vg)),
    \<lambda>x. (case x of Inl _ \<Rightarrow> 0 | Inr (es, vg, ds, vd) \<Rightarrow> Suc (length ds))]", goal_cases)
  case 1
  show ?case by simp
next
  case (2 edges visiting node visited ds)
  then have "node \<in> set (dkeys edges) - visiting"
    by (auto simp: dhas_keys [symmetric] dhas_def simp del: set_map)
  then have "card (set (dkeys edges) - insert node visiting) < card (set (dkeys edges) - visiting)"
    by (intro psubset_card_mono) auto
  then show ?case by simp
qed simp_all

definition assert_acyclic :: "string list \<Rightarrow> (string, string list) dict \<Rightarrow> unit res" where
  "assert_acyclic nodes edges = rbind (visit_all edges {} nodes {}) (\<lambda>_. Inr ())"

definition empty_graph :: "string \<Rightarrow> node_inst list \<Rightarrow> dag_graph" where
  "empty_graph name ns = \<lparr>dg_name = name, dg_nodes = map ni_id ns,
     dg_instances = map (\<lambda>n. (ni_id n, n)) ns, dg_edges = map (\<lambda>n. (ni_id n, [])) ns,
     dg_reverse = map (\<lambda>n. (ni_id n, [])) ns, dg_fan_out = {}, dg_fan_in = {}, dg_optional = {},
     dg_conditions = [], dg_fan_in_modes = []\<rparr>"

definition sub_dag_ids :: "dag_cfg \<Rightarrow> (string, dag_cfg) dict option \<Rightarrow> string set" where
  "sub_dag_ids c dags = ni_id ` set (filter (\<lambda>n. is_sub_dag_node n dags) (dc_nodes c))"

definition missing_types :: "dag_cfg \<Rightarrow> (string, node_cfg) dict \<Rightarrow> (string, dag_cfg) dict option \<Rightarrow> string list" where
  "missing_types c nodes dags =
     map ni_type (filter (\<lambda>n. ni_id n \<notin> sub_dag_ids c dags \<and> \<not> dhas nodes (ni_type n)) (dc_nodes c))"

definition load_graph :: "dag_cfg \<Rightarrow> (string, node_cfg) dict \<Rightarrow> (string, dag_cfg) dict option \<Rightarrow> dag_graph res" where
  "load_graph c nodes dags =
     (if \<not> distinct (map ni_id (dc_nodes c)) then Inl (DagError ''DAG contains duplicate node instance ids'')
      else if missing_types c nodes dags \<noteq> []
      then Inl (DagError (''missing node config: '' @ join '', '' (missing_types c nodes dags)))
      else rbind (fold_res (add_edge nodes (sub_dag_ids c dags)) (dc_edges c)
                    (empty_graph (dc_name c) (dc_nodes c))) (\<lambda>g.
           rbind (assert_acyclic (dg_nodes g) (dg_edges g)) (\<lambda>_. Inr g)))"

section \<open>Topological layers\<close>

text \<open>\<open>topological_layers\<close>: \<open>incoming\<close> holds the number of upstreams not yet visited. One downstream
  of a visited node, all downstreams of a node, all nodes of a layer, then the loop.\<close>

fun relax :: "string list \<Rightarrow> (string, int) dict \<Rightarrow> string list \<Rightarrow> ((string, int) dict \<times> string list) res" where
  "relax [] inc ready = Inr (inc, ready)"
| "relax (d # ds) inc ready = (case dget inc d of None \<Rightarrow> Inl (KeyError d)
     | Some k \<Rightarrow> relax ds (dset inc d (k - 1)) (if k - 1 = 0 then ready @ [d] else ready))"

fun relax_layer :: "dag_graph \<Rightarrow> string list \<Rightarrow> (string, int) dict \<Rightarrow> string list
    \<Rightarrow> ((string, int) dict \<times> string list) res" where
  "relax_layer g [] inc ready = Inr (inc, ready)"
| "relax_layer g (n # ns) inc ready =
     rbind (lookup_key (dg_edges g) n) (\<lambda>ds. rbind (relax ds inc ready) (\<lambda>(inc', ready'). relax_layer g ns inc' ready'))"

definition positive :: "(string, int) dict \<Rightarrow> nat" where
  "positive inc = card {n. \<exists>k. dget inc n = Some k \<and> 0 < k}"

lemma finite_positive: "finite {n. \<exists>k. dget inc n = Some k \<and> 0 < k}"
proof (rule finite_subset)
  show "{n. \<exists>k. dget inc n = Some k \<and> 0 < k} \<subseteq> fst ` set inc"
    by (force dest: map_of_SomeD)
qed simp

lemma relax_positive:
  "relax ds inc ready = Inr (inc', ready') \<Longrightarrow>
     positive inc' \<le> positive inc \<and> (length ready < length ready' \<longrightarrow> positive inc' < positive inc)
     \<and> length ready \<le> length ready'"
proof (induction ds inc ready rule: relax.induct)
  case (1 inc ready)
  then show ?case by simp
next
  case (2 d ds inc ready)
  then obtain k where k: "dget inc d = Some k" by (auto split: option.splits)
  let ?inc = "dset inc d (k - 1)" and ?r = "if k - 1 = 0 then ready @ [d] else ready"
  let ?P = "\<lambda>i. {n. \<exists>k. dget i n = Some k \<and> 0 < k}"
  have sub: "?P ?inc \<subseteq> ?P inc" using k by (auto split: if_splits)
  have le: "positive ?inc \<le> positive inc"
    unfolding positive_def by (rule card_mono [OF finite_positive sub])
  have lt: "positive ?inc < positive inc" if "k - 1 = 0"
  proof -
    have "d \<in> ?P inc" "d \<notin> ?P ?inc" using k that by auto
    then have "?P ?inc \<subset> ?P inc" using sub by blast
    then show ?thesis unfolding positive_def by (rule psubset_card_mono [OF finite_positive])
  qed
  have "positive inc' \<le> positive ?inc \<and> (length ?r < length ready' \<longrightarrow> positive inc' < positive ?inc)
     \<and> length ?r \<le> length ready'"
    using 2 k by simp
  with le lt show ?case by (cases "k - 1 = 0") auto
qed

lemma relax_layer_positive:
  "relax_layer g ns inc ready = Inr (inc', ready') \<Longrightarrow>
     positive inc' \<le> positive inc \<and> (length ready < length ready' \<longrightarrow> positive inc' < positive inc)
     \<and> length ready \<le> length ready'"
proof (induction g ns inc ready rule: relax_layer.induct)
  case (1 g inc ready)
  then show ?case by simp
next
  case (2 g n ns inc ready)
  then obtain ds i r where st: "lookup_key (dg_edges g) n = Inr ds"
    "relax ds inc ready = Inr (i, r)" "relax_layer g ns i r = Inr (inc', ready')" by auto
  note IH = "2.IH" [OF st(1,2) refl st(3)] and r1 = relax_positive [OF st(2)]
  have "positive inc' \<le> positive inc" "length ready \<le> length ready'"
    using IH r1 by (auto intro: le_trans)
  moreover have "positive inc' < positive inc" if "length ready < length ready'"
  proof (cases "length ready < length r")
    case True
    then show ?thesis using IH r1 by (meson le_less_trans)
  next
    case False
    then have "length r < length ready'" using that by simp
    then show ?thesis using IH r1 by (meson less_le_trans)
  qed
  ultimately show ?case by blast
qed

function kahn :: "dag_graph \<Rightarrow> (string, int) dict \<Rightarrow> string list \<Rightarrow> string list list \<Rightarrow> nat
    \<Rightarrow> (string list list \<times> nat) res" where
  "kahn g inc ready layers visited =
     (if ready = [] then Inr (layers, visited)
      else (case relax_layer g ready inc [] of Inl e \<Rightarrow> Inl e
            | Inr r \<Rightarrow> kahn g (fst r) (sort (snd r)) (layers @ [ready]) (visited + length ready)))"
  by pat_completeness auto
termination
proof (relation "measure (\<lambda>(g, inc, ready, layers, visited).
    2 * positive inc + (if ready = [] then 0 else 1))", goal_cases)
  case 1
  show ?case by simp
next
  case (2 g inc ready layers visited r)
  then have "relax_layer g ready inc [] = Inr (fst r, snd r)" by simp
  note le = relax_layer_positive [OF this]
  have "sort (snd r) = [] \<longleftrightarrow> snd r = []" by (metis length_0_conv length_sort)
  with le 2(1) show ?case by (cases "snd r") simp_all
qed

declare kahn.simps [simp del]

definition initial_incoming :: "dag_graph \<Rightarrow> (string, int) dict" where
  "initial_incoming g = map (\<lambda>n. (n, int (length (preds g n)))) (dg_nodes g)"

definition topological_layers :: "dag_graph \<Rightarrow> string list list res" where
  "topological_layers g =
     (let inc = initial_incoming g;
          ready = sort (map fst (filter (\<lambda>nc. snd nc = 0) inc)) in
      rbind (kahn g inc ready [] 0) (\<lambda>(layers, visited).
        if visited \<noteq> length (dg_nodes g) then Inl (DagError ''DAG contains a cycle'') else Inr layers))"

section \<open>Nesting of sub-DAGs\<close>

definition txt_cannot_save :: string where
  "txt_cannot_save = map char_of [(230::nat), 151, 160, 230, 179, 149, 228, 191, 157, 229, 173, 152, 32, 68, 65, 71,
     32, 39]"

definition txt_detected :: string where
  "txt_detected = map char_of [(39::nat), 239, 188, 154, 230, 163, 128, 230, 181, 139, 229, 136, 176, 32, 83,
     117, 98, 32, 68, 65, 71, 32, 229, 190, 170, 231, 142, 175, 32, 40, 83, 117, 98, 32, 68, 65, 71,
     32, 99, 121, 99, 108, 101, 32, 100, 101, 116, 101, 99, 116, 101, 100, 41]"

definition txt_cycle_path :: string where
  "txt_cycle_path = map char_of [(229::nat), 190, 170, 231, 142, 175, 232, 183, 175, 229, 190, 132, 239, 188, 154]"

definition txt_node_open :: string where
  "txt_node_open = map char_of [(91::nat), 232, 138, 130, 231, 130, 185, 32, 39]"

definition txt_problem :: string where
  "txt_problem = map char_of [(233::nat), 151, 174, 233, 162, 152, 239, 188, 154, 83, 117, 98, 32, 68, 65, 71,
     32, 229, 188, 149, 231, 148, 168, 229, 189, 162, 230, 136, 144, 228, 186, 134, 229, 190, 170,
     231, 142, 175, 227, 128, 130]"

definition txt_advice :: string where
  "txt_advice = map char_of [(228::nat), 191, 174, 229, 164, 141, 229, 187, 186, 232, 174, 174, 239, 188, 154,
     232, 175, 183, 231, 167, 187, 233, 153, 164, 230, 136, 150, 228, 191, 174, 230, 148, 185, 228,
     187, 165, 228, 184, 139, 228, 187, 187, 228, 184, 128, 232, 138, 130, 231, 130, 185, 231, 154,
     132, 229, 188, 149, 231, 148, 168, 239, 188, 154]"

definition txt_bullet :: string where
  "txt_bullet = map char_of [(32::nat), 32, 226, 128, 162, 32]"

definition txt_node_in :: string where
  "txt_node_in = map char_of [(32::nat), 228, 184, 173, 231, 154, 132, 232, 138, 130, 231, 130, 185, 32, 39]"


definition cycle_steps :: "path_step list \<Rightarrow> string list" where
  "cycle_steps steps = map (\<lambda>st. ''    -> '' @ (case ps_via st of None \<Rightarrow> ''?''
       | Some v \<Rightarrow> if v = [] then ''?'' else txt_node_open @ v @ [CHR 0x27] @ '']'')
       @ '' -> '' @ ps_dag st) steps"

definition cycle_hints :: "path_step list \<Rightarrow> string list" where
  "cycle_hints chain = concat (map (\<lambda>(parent, st). case ps_via st of None \<Rightarrow> []
       | Some v \<Rightarrow> [txt_bullet @ ps_dag parent @ txt_node_in @ v @ [CHR 0x27]])
     (zip chain (tl chain)))"

definition format_cycle_error :: "path_step list \<Rightarrow> string \<Rightarrow> string" where
  "format_cycle_error chain root_dag =
     join [CHR 0x0A]
       ([txt_cannot_save @ root_dag @ txt_detected, [], txt_cycle_path,
         ''  '' @ (case chain of [] \<Rightarrow> [] | st # _ \<Rightarrow> ps_dag st)]
        @ cycle_steps (tl chain) @ [[], txt_problem, txt_advice] @ cycle_hints chain)"

definition dag_ref_of :: "(string, dag_cfg) dict \<Rightarrow> string \<Rightarrow> string option \<Rightarrow> string option" where
  "dag_ref_of dags ty ref = (case ref of
     Some r \<Rightarrow> if ty = ''dag'' \<and> dhas dags r then Some r else if dhas dags ty then Some ty else None
   | None \<Rightarrow> if dhas dags ty then Some ty else None)"

definition depth_error :: "path_step list \<Rightarrow> err" where
  "depth_error chain = DagError (''max DAG depth exceeded: '' @ join '' -> '' (map ps_dag chain))"

function visit_sub_dag :: "(string, dag_cfg) dict \<Rightarrow> int \<Rightarrow> string \<Rightarrow> path_step list \<Rightarrow> string option \<Rightarrow> unit res"
  and visit_sub_nodes :: "(string, dag_cfg) dict \<Rightarrow> int \<Rightarrow> node_inst list \<Rightarrow> path_step list \<Rightarrow> unit res" where
  "visit_sub_dag dags max_depth name path via =
     (let chain = path @ [\<lparr>ps_dag = name, ps_via = via\<rparr>] in
      if name \<in> ps_dag ` set path
      then Inl (DagError (format_cycle_error chain (case chain of [] \<Rightarrow> [] | st # _ \<Rightarrow> ps_dag st)))
      else if max_depth < int (length chain) then Inl (depth_error chain)
      else (case dget dags name of None \<Rightarrow> Inl (KeyError name)
            | Some d \<Rightarrow> visit_sub_nodes dags max_depth (dc_nodes d) chain))"
| "visit_sub_nodes dags max_depth [] chain = Inr ()"
| "visit_sub_nodes dags max_depth (n # ns) chain =
     rbind (case dag_ref_of dags (ni_type n) (ni_dag_ref n) of None \<Rightarrow> Inr ()
            | Some r \<Rightarrow> visit_sub_dag dags max_depth r chain (Some (ni_id n)))
       (\<lambda>_. visit_sub_nodes dags max_depth ns chain)"
  by pat_completeness auto
termination
  by (relation "measures [\<lambda>x. (case x of Inl (ds, m, n, p, v) \<Rightarrow> 2 * nat (m + 1 - int (length p))
        | Inr (ds, m, ns, c) \<Rightarrow> 2 * nat (m + 1 - int (length c)) + 1),
      \<lambda>x. (case x of Inl _ \<Rightarrow> 0 | Inr (ds, m, ns, c) \<Rightarrow> length ns)]") auto

definition validate_sub_dag_nesting :: "(string, dag_cfg) dict \<Rightarrow> int \<Rightarrow> unit res" where
  "validate_sub_dag_nesting dags max_depth =
     fold_res (\<lambda>name _. visit_sub_dag dags max_depth name [] None) (dkeys dags) ()"

end
