(* ===== verification/DagLoaderProps.thy ===== *)
theory DagLoaderProps
  imports DagLoader
begin

text \<open>
  What \<open>dag/loader.py\<close> guarantees: the depth-first cycle check accepts exactly the acyclic graphs, a
  loaded graph is well formed, Kahn's layers exist for every loaded graph and order its edges, and
  the nesting check bounds every chain of sub-DAG references.
\<close>

definition dict_succs :: "(string, string list) dict \<Rightarrow> string \<Rightarrow> string list" where
  "dict_succs es n = dget_default es n []"

definition dict_rel :: "(string, string list) dict \<Rightarrow> (string \<times> string) set" where
  "dict_rel es = {(u, v). v \<in> set (dict_succs es u)}"

definition edge_rel :: "dag_graph \<Rightarrow> (string \<times> string) set" where
  "edge_rel g = {(u, v). v \<in> set (succs g u)}"

definition wf_graph :: "dag_graph \<Rightarrow> bool" where
  "wf_graph g \<longleftrightarrow> distinct (dg_nodes g) \<and> dkeys (dg_instances g) = dg_nodes g
     \<and> dkeys (dg_edges g) = dg_nodes g \<and> dkeys (dg_reverse g) = dg_nodes g
     \<and> (\<forall>u v. count_list (succs g u) v = count_list (preds g v) u)
     \<and> (\<forall>u v. v \<in> set (succs g u) \<longrightarrow> u \<in> set (dg_nodes g) \<and> v \<in> set (dg_nodes g))
     \<and> dg_fan_out g \<subseteq> edge_rel g \<and> dg_fan_in g \<subseteq> edge_rel g \<and> dg_optional g \<subseteq> edge_rel g
     \<and> fst ` set (dg_conditions g) \<subseteq> edge_rel g \<and> fst ` set (dg_fan_in_modes g) = edge_rel g"

lemma edge_rel_dict: "edge_rel g = dict_rel (dg_edges g)"
  by (simp add: edge_rel_def dict_rel_def succs_def dict_succs_def)

lemma wf_graph_preds: "wf_graph g \<Longrightarrow> u \<in> set (preds g v) \<longleftrightarrow> v \<in> set (succs g u)"
  by (metis count_list_0_iff wf_graph_def)

lemma wf_graph_edge: "wf_graph g \<Longrightarrow> (u, v) \<in> edge_rel g \<Longrightarrow> u \<in> set (dg_nodes g) \<and> v \<in> set (dg_nodes g)"
  by (auto simp: wf_graph_def edge_rel_def)

lemma wf_graph_lookup:
  assumes "wf_graph g" "n \<in> set (dg_nodes g)"
  shows "dget (dg_edges g) n = Some (succs g n)" "dget (dg_reverse g) n = Some (preds g n)"
    "\<exists>i. dget (dg_instances g) n = Some i"
proof -
  have "dhas (dg_edges g) n" "dhas (dg_reverse g) n" "dhas (dg_instances g) n"
    using assms by (metis dhas_keys wf_graph_def)+
  then show "dget (dg_edges g) n = Some (succs g n)" "dget (dg_reverse g) n = Some (preds g n)"
    "\<exists>i. dget (dg_instances g) n = Some i"
    by (auto simp: succs_def preds_def dget_default_def elim!: dhasE)
qed

section \<open>The cycle check\<close>

declare visit.simps [simp del]

lemma visit_cases:
  assumes "visit es vg n vd = Inr vs"
  obtains (seen) "n \<notin> vg" "n \<in> vd" "vs = vd"
  | (expand) ds v where "n \<notin> vg" "n \<notin> vd" "dget es n = Some ds"
      "visit_all es (insert n vg) ds vd = Inr v" "vs = insert n v"
  using assms by (subst (asm) visit.simps) (auto split: if_splits option.splits)

lemma visit_grows:
  "visit es vg n vd = Inr vs \<Longrightarrow> insert n vd \<subseteq> vs"
  "visit_all es vg ds vd = Inr vs \<Longrightarrow> set ds \<union> vd \<subseteq> vs"
proof (induction es vg n vd and es vg ds vd arbitrary: vs and vs rule: visit_visit_all.induct)
  case (1 edges visiting node visited)
  from "1.prems" show ?case
  proof (cases rule: visit_cases)
    case seen
    then show ?thesis by simp
  next
    case (expand ds v)
    with "1.IH" [OF expand(1-4)] show ?thesis by blast
  qed
next
  case (2 edges visiting visited)
  then show ?case by simp
next
  case (3 edges visiting d ds visited)
  then obtain v where "visit edges visiting d visited = Inr v" "visit_all edges visiting ds v = Inr vs" by auto
  with "3.IH"(1) [OF this(1)] "3.IH"(2) [OF this] show ?case by auto
qed

lemma visit_acc:
  "visit es vg n vd = Inr vs \<Longrightarrow> vd \<subseteq> Wellfounded.acc ((dict_rel es)\<inverse>) \<Longrightarrow>
     vs \<subseteq> Wellfounded.acc ((dict_rel es)\<inverse>)"
  "visit_all es vg ds vd = Inr vs \<Longrightarrow> vd \<subseteq> Wellfounded.acc ((dict_rel es)\<inverse>) \<Longrightarrow>
     vs \<subseteq> Wellfounded.acc ((dict_rel es)\<inverse>)"
proof (induction es vg n vd and es vg ds vd arbitrary: vs and vs rule: visit_visit_all.induct)
  case (1 edges visiting node visited)
  from "1.prems"(1) show ?case
  proof (cases rule: visit_cases)
    case seen
    with "1.prems"(2) show ?thesis by simp
  next
    case (expand ds v)
    have sub: "v \<subseteq> Wellfounded.acc ((dict_rel edges)\<inverse>)"
      using "1.IH" [OF expand(1-4)] "1.prems"(2) by blast
    have "set ds \<subseteq> v" using visit_grows(2) [OF expand(4)] by blast
    moreover have "dict_succs edges node = ds"
      using expand(3) by (simp add: dict_succs_def dget_default_def)
    ultimately have "node \<in> Wellfounded.acc ((dict_rel edges)\<inverse>)"
      using sub by - (rule acc.accI, auto simp: dict_rel_def)
    with sub expand(5) show ?thesis by simp
  qed
next
  case (2 edges visiting visited)
  then show ?case by simp
next
  case (3 edges visiting d ds visited)
  then obtain v where "visit edges visiting d visited = Inr v" "visit_all edges visiting ds v = Inr vs" by auto
  with "3.IH"(1) [OF this(1) "3.prems"(2)] "3.IH"(2) [OF this] show ?case by simp
qed

lemma acc_no_cycle: "x \<in> Wellfounded.acc r \<Longrightarrow> (x, x) \<notin> r\<^sup>+"
proof (induction rule: acc.induct)
  case (accI x)
  show ?case
  proof
    assume "(x, x) \<in> r\<^sup>+"
    then obtain y where "(x, y) \<in> r\<^sup>*" "(y, x) \<in> r" by (auto dest: tranclD2)
    then have "(y, y) \<in> r\<^sup>+" by (metis rtrancl_into_trancl2)
    with accI.IH [OF \<open>(y, x) \<in> r\<close>] show False by contradiction
  qed
qed

lemma visit_complete:
  assumes "acyclic (dict_rel es)" and "snd ` (dict_rel es) \<subseteq> set (dkeys es)"
  shows "n \<in> set (dkeys es) \<Longrightarrow> (\<forall>v \<in> vg. (v, n) \<in> (dict_rel es)\<^sup>+) \<Longrightarrow> \<exists>vs. visit es vg n vd = Inr vs"
    and "set ds \<subseteq> set (dkeys es) \<Longrightarrow> (\<forall>v \<in> vg. \<forall>d \<in> set ds. (v, d) \<in> (dict_rel es)\<^sup>+)
      \<Longrightarrow> \<exists>vs. visit_all es vg ds vd = Inr vs"
  using assms
proof (induction es vg n vd and es vg ds vd rule: visit_visit_all.induct)
  case (1 es vg n vd)
  have "n \<notin> vg" using "1.prems"(2,3) by (auto simp: acyclic_def)
  show ?case
  proof (cases "n \<in> vd")
    case True
    with \<open>n \<notin> vg\<close> show ?thesis by (simp add: visit.simps)
  next
    case False
    obtain ds where ds: "dget es n = Some ds"
      using "1.prems"(1) by (metis dhas_keys dhasE)
    have rel: "(n, d) \<in> dict_rel es" if "d \<in> set ds" for d
      using that ds by (simp add: dict_rel_def dict_succs_def dget_default_def)
    have "set ds \<subseteq> set (dkeys es)" using rel "1.prems"(4) by force
    moreover have "\<forall>v \<in> insert n vg. \<forall>d \<in> set ds. (v, d) \<in> (dict_rel es)\<^sup>+"
      using rel "1.prems"(2) by (auto intro: trancl_into_trancl)
    ultimately have "\<exists>vs. visit_all es (insert n vg) ds vd = Inr vs"
      using "1.IH" [OF \<open>n \<notin> vg\<close> False ds] "1.prems"(3,4) by blast
    with \<open>n \<notin> vg\<close> False ds show ?thesis by (auto simp: visit.simps)
  qed
next
  case (2 es vg vd)
  then show ?case by simp
next
  case (3 es vg d ds vd)
  then obtain v where v: "visit es vg d vd = Inr v" by auto
  with "3.IH"(2) [OF v] "3.prems" show ?case by auto
qed

lemma assert_acyclic_sound:
  assumes "assert_acyclic (dkeys es) es = Inr ()"
  shows "acyclic (dict_rel es)"
proof -
  obtain vs where vs: "visit_all es {} (dkeys es) {} = Inr vs"
    using assms by (auto simp: assert_acyclic_def)
  have keys: "set (dkeys es) \<subseteq> Wellfounded.acc ((dict_rel es)\<inverse>)"
    using visit_grows(2) [OF vs] visit_acc(2) [OF vs] by auto
  have "(x, x) \<notin> ((dict_rel es)\<inverse>)\<^sup>+" for x
  proof (cases "x \<in> set (dkeys es)")
    case True
    with keys show ?thesis by (blast dest: acc_no_cycle)
  next
    case False
    then have "dict_succs es x = []"
      by (metis dhas_def dhas_keys dict_succs_def dget_default_def option.simps(4))
    then have "(x, y) \<notin> dict_rel es" for y by (simp add: dict_rel_def)
    then have "(x, x) \<notin> (dict_rel es)\<^sup>+" by (meson tranclD)
    then show ?thesis by (simp add: trancl_converse)
  qed
  then show ?thesis by (simp add: acyclic_def trancl_converse)
qed

lemma assert_acyclic_complete:
  assumes "acyclic (dict_rel es)" "snd ` (dict_rel es) \<subseteq> set (dkeys es)"
  shows "assert_acyclic (dkeys es) es = Inr ()"
  using visit_complete(2) [OF assms, of "dkeys es" "{}" "{}"] by (auto simp: assert_acyclic_def)

section \<open>A loaded graph is well formed\<close>

lemma dget_default_dappend [simp]: "dget_default (dappend d k x) k' [] =
    (if k' = k then dget_default d k [] @ [x] else dget_default d k' [])"
  by (simp add: dappend_def dget_default_def)

lemma dkeys_dappend [simp]: "dhas d k \<Longrightarrow> dkeys (dappend d k x) = dkeys d"
  by (simp add: dappend_def dkeys_dset dhas_keys)

lemma lookup_key_Inr [simp]: "lookup_key d k = Inr v \<longleftrightarrow> dget d k = Some v"
  by (auto simp: lookup_key_def split: option.splits)

lemma add_edge_shape:
  "add_edge nodes sub e g = Inr g' \<Longrightarrow>
     dhas (dg_edges g) (e_from e) \<and> dhas (dg_reverse g) (e_to e) \<and> (\<exists>b. g' = edge_tables e b g)"
  by (auto simp: add_edge_def split: if_splits)

lemma add_edge_Inr:
  assumes "add_edge nodes sub e g = Inr g'"
  shows "dhas (dg_edges g) (e_from e)" "dhas (dg_reverse g) (e_to e)"
    "dg_nodes g' = dg_nodes g" "dg_instances g' = dg_instances g" "dg_name g' = dg_name g"
    "dg_edges g' = dappend (dg_edges g) (e_from e) (e_to e)"
    "dg_reverse g' = dappend (dg_reverse g) (e_to e) (e_from e)"
    "dg_fan_out g' \<subseteq> insert (e_from e, e_to e) (dg_fan_out g)"
    "dg_fan_in g' \<subseteq> insert (e_from e, e_to e) (dg_fan_in g)"
    "dg_optional g' \<subseteq> insert (e_from e, e_to e) (dg_optional g)"
    "fst ` set (dg_conditions g') \<subseteq> insert (e_from e, e_to e) (fst ` set (dg_conditions g))"
    "fst ` set (dg_fan_in_modes g') = insert (e_from e, e_to e) (fst ` set (dg_fan_in_modes g))"
proof -
  obtain b where k: "dhas (dg_edges g) (e_from e) \<and> dhas (dg_reverse g) (e_to e)"
    and g': "g' = edge_tables e b g"
    using add_edge_shape [OF assms] by blast
  from k show "dhas (dg_edges g) (e_from e)" "dhas (dg_reverse g) (e_to e)" by simp_all
  show "fst ` set (dg_conditions g') \<subseteq> insert (e_from e, e_to e) (fst ` set (dg_conditions g))"
    by (cases "e_condition e") (auto simp: g' edge_tables_def Let_def dom_update)
  show "fst ` set (dg_fan_in_modes g') = insert (e_from e, e_to e) (fst ` set (dg_fan_in_modes g))"
    by (simp add: g' edge_tables_def Let_def)
  show "dg_nodes g' = dg_nodes g" "dg_instances g' = dg_instances g" "dg_name g' = dg_name g"
    "dg_edges g' = dappend (dg_edges g) (e_from e) (e_to e)"
    "dg_reverse g' = dappend (dg_reverse g) (e_to e) (e_from e)"
    by (simp_all add: g' edge_tables_def Let_def)
  show "dg_fan_out g' \<subseteq> insert (e_from e, e_to e) (dg_fan_out g)"
    "dg_fan_in g' \<subseteq> insert (e_from e, e_to e) (dg_fan_in g)"
    "dg_optional g' \<subseteq> insert (e_from e, e_to e) (dg_optional g)"
    by (auto simp: g' edge_tables_def Let_def)
qed

lemma add_edge_wf:
  assumes add: "add_edge nodes sub e g = Inr g'" and wf: "wf_graph g"
  shows "wf_graph g'" "edge_rel g' = insert (e_from e, e_to e) (edge_rel g)"
proof -
  note a = add_edge_Inr [OF add]
  have s: "succs g' u = (if u = e_from e then succs g u @ [e_to e] else succs g u)" for u
    by (simp add: succs_def a)
  have p: "preds g' v = (if v = e_to e then preds g v @ [e_from e] else preds g v)" for v
    by (simp add: preds_def a)
  show rel: "edge_rel g' = insert (e_from e, e_to e) (edge_rel g)"
    by (auto simp: edge_rel_def s split: if_splits)
  have mem: "e_from e \<in> set (dg_nodes g)" "e_to e \<in> set (dg_nodes g)"
    using wf a(1,2) by (metis dhas_keys wf_graph_def)+
  have cnt: "count_list (succs g' u) v = count_list (preds g' v) u" for u v
    using wf by (simp add: s p wf_graph_def)
  have old: "dg_fan_out g \<subseteq> edge_rel g" "dg_fan_in g \<subseteq> edge_rel g" "dg_optional g \<subseteq> edge_rel g"
    "fst ` set (dg_conditions g) \<subseteq> edge_rel g" "fst ` set (dg_fan_in_modes g) = edge_rel g"
    using wf by (simp_all add: wf_graph_def)
  have sub: "dg_fan_out g' \<subseteq> edge_rel g'" "dg_fan_in g' \<subseteq> edge_rel g'" "dg_optional g' \<subseteq> edge_rel g'"
    "fst ` set (dg_conditions g') \<subseteq> edge_rel g'" "fst ` set (dg_fan_in_modes g') = edge_rel g'"
    unfolding rel using old a(8-12) by (meson insert_mono order_trans, meson insert_mono order_trans,
      meson insert_mono order_trans, meson insert_mono order_trans, simp)
  have nodes: "v \<in> set (succs g' u) \<Longrightarrow> u \<in> set (dg_nodes g') \<and> v \<in> set (dg_nodes g')" for u v
  proof -
    assume v: "v \<in> set (succs g' u)"
    then have "v \<in> set (succs g u) \<or> u = e_from e \<and> v = e_to e" by (auto simp: s split: if_splits)
    then show "u \<in> set (dg_nodes g') \<and> v \<in> set (dg_nodes g')"
      using wf mem a(3) by (auto simp: wf_graph_def simp del: set_map)
  qed
  have keys: "distinct (dg_nodes g')" "dkeys (dg_instances g') = dg_nodes g'"
    "dkeys (dg_edges g') = dg_nodes g'" "dkeys (dg_reverse g') = dg_nodes g'"
    using wf a(1,2) by (simp_all add: a(3,4,6,7) wf_graph_def)
  show "wf_graph g'"
    unfolding wf_graph_def using cnt sub nodes keys by blast
qed

lemma empty_graph_wf:
  assumes "distinct (map ni_id ns)"
  shows "wf_graph (empty_graph name ns)" "edge_rel (empty_graph name ns) = {}"
proof -
  have "dget_default (map (\<lambda>n. (ni_id n, [])) ns) x [] = []" for x
    by (auto simp: dget_default_def dest!: map_of_SomeD split: option.splits)
  then have "succs (empty_graph name ns) x = []" "preds (empty_graph name ns) x = []" for x
    by (simp_all add: succs_def preds_def empty_graph_def)
  then show "edge_rel (empty_graph name ns) = {}" "wf_graph (empty_graph name ns)"
    using assms by (auto simp: wf_graph_def edge_rel_def empty_graph_def comp_def)
qed

lemma add_edges_wf:
  assumes "fold_res (add_edge nodes sub) es g = Inr g'" "wf_graph g"
  shows "wf_graph g' \<and> dg_nodes g' = dg_nodes g \<and> dg_instances g' = dg_instances g
    \<and> dg_name g' = dg_name g
    \<and> edge_rel g' = edge_rel g \<union> (\<lambda>e. (e_from e, e_to e)) ` set es"
  using assms
proof (induction es arbitrary: g)
  case Nil
  then show ?case by simp
next
  case (Cons e es)
  then obtain h where h: "add_edge nodes sub e g = Inr h" "fold_res (add_edge nodes sub) es h = Inr g'"
    by auto
  note wf = add_edge_wf [OF h(1) Cons.prems(2)]
  from Cons.IH [OF h(2) wf(1)] wf(2) add_edge_Inr(3-5) [OF h(1)] show ?case by auto
qed

lemma load_graph_wf:
  assumes "load_graph c nodes dags = Inr g"
  shows "wf_graph g" "acyclic (edge_rel g)" "dg_nodes g = map ni_id (dc_nodes c)"
    "dg_name g = dc_name c" "dg_instances g = map (\<lambda>n. (ni_id n, n)) (dc_nodes c)"
    "edge_rel g = (\<lambda>e. (e_from e, e_to e)) ` set (dc_edges c)"
proof -
  let ?g0 = "empty_graph (dc_name c) (dc_nodes c)"
  have d: "distinct (map ni_id (dc_nodes c))"
    and f: "fold_res (add_edge nodes (sub_dag_ids c dags)) (dc_edges c) ?g0 = Inr g"
    and ac: "assert_acyclic (dg_nodes g) (dg_edges g) = Inr ()"
    using assms by (auto simp: load_graph_def split: if_splits)
  note wf = add_edges_wf [OF f empty_graph_wf(1) [OF d]]
  then show "wf_graph g" "dg_nodes g = map ni_id (dc_nodes c)"
    "dg_name g = dc_name c" "dg_instances g = map (\<lambda>n. (ni_id n, n)) (dc_nodes c)"
    "edge_rel g = (\<lambda>e. (e_from e, e_to e)) ` set (dc_edges c)"
    by (simp_all add: empty_graph_wf(2) [OF d], simp_all add: empty_graph_def)
  have "dkeys (dg_edges g) = dg_nodes g" using wf by (simp add: wf_graph_def)
  with ac show "acyclic (edge_rel g)"
    unfolding edge_rel_dict using assert_acyclic_sound by metis
qed

lemma wf_graph_assert_acyclic:
  assumes "wf_graph g"
  shows "assert_acyclic (dg_nodes g) (dg_edges g) = Inr () \<longleftrightarrow> acyclic (edge_rel g)"
proof -
  have k: "dkeys (dg_edges g) = dg_nodes g" using assms by (simp add: wf_graph_def)
  have "snd ` dict_rel (dg_edges g) \<subseteq> set (dkeys (dg_edges g))"
    unfolding k edge_rel_dict [symmetric] using wf_graph_edge [OF assms] by auto
  with k show ?thesis
    unfolding edge_rel_dict using assert_acyclic_sound assert_acyclic_complete by metis
qed

section \<open>Kahn's layers\<close>

definition open_preds :: "dag_graph \<Rightarrow> string set \<Rightarrow> string \<Rightarrow> int" where
  "open_preds g P n = int (length (filter (\<lambda>u. u \<notin> P) (preds g n)))"

definition inc_ok :: "dag_graph \<Rightarrow> (string, int) dict \<Rightarrow> string set \<Rightarrow> bool" where
  "inc_ok g inc P \<longleftrightarrow> (\<forall>n. dget inc n = (if n \<in> set (dg_nodes g) then Some (open_preds g P n) else None))"

lemma relax_spec:
  assumes "set ds \<subseteq> {n. dhas inc n}"
  shows "\<exists>inc' new. relax ds inc ready = Inr (inc', ready @ new) \<and> distinct new
    \<and> (\<forall>n. dget inc' n = map_option (\<lambda>k. k - int (count_list ds n)) (dget inc n))
    \<and> set new = {n. \<exists>k. dget inc n = Some k \<and> 1 \<le> k \<and> k \<le> int (count_list ds n)}"
  using assms
proof (induction ds arbitrary: inc ready)
  case Nil
  then show ?case by (auto simp: option.map_ident)
next
  case (Cons d ds)
  then obtain k where k: "dget inc d = Some k" by (auto elim: dhasE)
  let ?inc = "dset inc d (k - 1)"
  let ?r = "if k - 1 = 0 then ready @ [d] else ready"
  have "set ds \<subseteq> {n. dhas ?inc n}" using Cons.prems by auto
  from Cons.IH [OF this, of ?r] obtain inc' new where
    r: "relax ds ?inc ?r = Inr (inc', ?r @ new)" "distinct new"
      "\<forall>n. dget inc' n = map_option (\<lambda>k. k - int (count_list ds n)) (dget ?inc n)"
    and new: "set new = {n. \<exists>k. dget ?inc n = Some k \<and> 1 \<le> k \<and> k \<le> int (count_list ds n)}" by blast
  let ?new = "(if k - 1 = 0 then [d] else []) @ new"
  have "relax (d # ds) inc ready = Inr (inc', ready @ ?new)" using k r(1) by simp
  moreover have "distinct ?new" using r(2) new by auto
  moreover have "\<forall>n. dget inc' n = map_option (\<lambda>k. k - int (count_list (d # ds) n)) (dget inc n)"
    using r(3) k by (auto simp: algebra_simps)
  moreover have "set ?new = {n. \<exists>k. dget inc n = Some k \<and> 1 \<le> k \<and> k \<le> int (count_list (d # ds) n)}"
  proof (intro set_eqI)
    fix n
    show "n \<in> set ?new \<longleftrightarrow> n \<in> {n. \<exists>k. dget inc n = Some k \<and> 1 \<le> k \<and> k \<le> int (count_list (d # ds) n)}"
      using new k by (cases "n = d") auto
  qed
  ultimately show ?case by blast
qed

lemma open_preds_insert:
  assumes "wf_graph g" "u \<notin> P"
  shows "open_preds g (insert u P) n = open_preds g P n - int (count_list (succs g u) n)"
proof -
  have "length (filter (\<lambda>x. x \<notin> P) xs) = length (filter (\<lambda>x. x \<notin> insert u P) xs) + count_list xs u" for xs
    using assms(2) by (induction xs) auto
  moreover have "count_list (succs g u) n = count_list (preds g n) u"
    using assms(1) by (simp add: wf_graph_def)
  ultimately show ?thesis by (simp add: open_preds_def)
qed

lemma open_preds_mono: "P \<subseteq> Q \<Longrightarrow> open_preds g Q n \<le> open_preds g P n"
proof -
  assume "P \<subseteq> Q"
  then have "length (filter (\<lambda>u. u \<notin> Q) xs) \<le> length (filter (\<lambda>u. u \<notin> P) xs)" for xs
    by (induction xs) auto
  then show ?thesis by (simp add: open_preds_def)
qed

lemma open_preds_nonneg: "0 \<le> open_preds g P n"
  by (simp add: open_preds_def)

lemma open_preds_0: "open_preds g P n = 0 \<longleftrightarrow> set (preds g n) \<subseteq> P"
  by (auto simp: open_preds_def filter_empty_conv)

lemma relax_layer_spec:
  assumes "wf_graph g" "inc_ok g inc P" "distinct ns" "set ns \<inter> P = {}" "set ns \<subseteq> set (dg_nodes g)"
  shows "\<exists>inc' new. relax_layer g ns inc ready = Inr (inc', ready @ new) \<and> distinct new
    \<and> inc_ok g inc' (P \<union> set ns)
    \<and> set new = {n \<in> set (dg_nodes g). 1 \<le> open_preds g P n \<and> open_preds g (P \<union> set ns) n = 0}"
  using assms(2-)
proof (induction ns arbitrary: inc ready P)
  case Nil
  then show ?case by auto
next
  case (Cons u ns)
  have u: "u \<in> set (dg_nodes g)" "u \<notin> P" using Cons.prems by auto
  have "set (succs g u) \<subseteq> {n. dhas inc n}"
    using Cons.prems(1) assms(1) by (auto simp: inc_ok_def dhas_def wf_graph_def)
  from relax_spec [OF this, of ready] obtain i new where
    r: "relax (succs g u) inc ready = Inr (i, ready @ new)" "distinct new"
      "\<forall>n. dget i n = map_option (\<lambda>k. k - int (count_list (succs g u) n)) (dget inc n)"
    and new: "set new = {n. \<exists>k. dget inc n = Some k \<and> 1 \<le> k \<and> k \<le> int (count_list (succs g u) n)}"
    by blast
  have nn: "0 \<le> open_preds g Q n" for Q n by (simp add: open_preds_def)
  have ok: "inc_ok g i (insert u P)"
    using r(3) Cons.prems(1) by (simp add: inc_ok_def open_preds_insert [OF assms(1) u(2)])
  have new': "set new = {n \<in> set (dg_nodes g). 1 \<le> open_preds g P n \<and> open_preds g (insert u P) n = 0}"
    using new Cons.prems(1) nn [of "insert u P"]
    by (auto simp: inc_ok_def open_preds_insert [OF assms(1) u(2)] split: if_splits intro: antisym)
  have "distinct ns" "set ns \<inter> insert u P = {}" "set ns \<subseteq> set (dg_nodes g)" using Cons.prems by auto
  from Cons.IH [OF ok this, of "ready @ new"] obtain inc' new2 where
    r2: "relax_layer g ns i (ready @ new) = Inr (inc', (ready @ new) @ new2)" "distinct new2"
      "inc_ok g inc' (insert u P \<union> set ns)"
    and new2: "set new2 = {n \<in> set (dg_nodes g). 1 \<le> open_preds g (insert u P) n
        \<and> open_preds g (insert u P \<union> set ns) n = 0}" by blast
  have le: "open_preds g (insert u P) n \<le> open_preds g P n"
    "open_preds g (insert u P \<union> set ns) n \<le> open_preds g (insert u P) n" for n
    by (rule open_preds_mono, blast)+
  have un: "P \<union> set (u # ns) = insert u P \<union> set ns" by auto
  have "distinct (new @ new2)" using r(2) r2(2) new' new2 by auto
  moreover have "set (new @ new2) = {n \<in> set (dg_nodes g). 1 \<le> open_preds g P n
      \<and> open_preds g (P \<union> set (u # ns)) n = 0}"
  proof (intro set_eqI)
    fix n
    show "n \<in> set (new @ new2) \<longleftrightarrow> n \<in> {n \<in> set (dg_nodes g). 1 \<le> open_preds g P n
      \<and> open_preds g (P \<union> set (u # ns)) n = 0}"
      unfolding un set_append new' new2 using le [of n] nn [of "insert u P" n]
        nn [of "insert u P \<union> set ns" n] by (cases "open_preds g (insert u P) n = 0") auto
  qed
  moreover have "relax_layer g (u # ns) inc ready = Inr (inc', ready @ (new @ new2))"
    using wf_graph_lookup(1) [OF assms(1) u(1)] r(1) r2(1) by (simp add: lookup_key_def)
  moreover have "inc_ok g inc' (P \<union> set (u # ns))" using r2(3) by (simp add: un)
  ultimately show ?case by blast
qed

text \<open>\<open>layered g ls\<close>: the upstreams of a node of layer \<open>i\<close> all lie in earlier layers, one of them in
  layer \<open>i - 1\<close>; so layer \<open>i\<close> holds the nodes whose longest path from a source has length \<open>i\<close>.\<close>

definition layered :: "dag_graph \<Rightarrow> string list list \<Rightarrow> bool" where
  "layered g ls \<longleftrightarrow> (\<forall>i < length ls. \<forall>n \<in> set (ls ! i).
     set (preds g n) \<subseteq> set (concat (take i ls))
     \<and> (0 < i \<longrightarrow> (\<exists>u \<in> set (ls ! (i - 1)). u \<in> set (preds g n))))"

definition kahn_inv :: "dag_graph \<Rightarrow> (string, int) dict \<Rightarrow> string list \<Rightarrow> string list list \<Rightarrow> nat \<Rightarrow> bool" where
  "kahn_inv g inc ready ls visited \<longleftrightarrow> inc_ok g inc (set (concat ls))
     \<and> distinct (concat ls) \<and> set (concat ls) \<subseteq> set (dg_nodes g) \<and> distinct ready
     \<and> set ready = {n \<in> set (dg_nodes g) - set (concat ls). open_preds g (set (concat ls)) n = 0}
     \<and> visited = length (concat ls) \<and> layered g ls
     \<and> (ls \<noteq> [] \<longrightarrow> (\<forall>n \<in> set ready. \<exists>u \<in> set (last ls). u \<in> set (preds g n)))
     \<and> sorted ready \<and> (\<forall>l \<in> set ls. sorted l \<and> l \<noteq> [])"

lemma layered_preds:
  assumes "layered g ls" "n \<in> set (concat ls)"
  shows "set (preds g n) \<subseteq> set (concat ls)"
proof -
  obtain l where l: "l \<in> set ls" "n \<in> set l" using assms(2) by auto
  then obtain i where i: "i < length ls" "n \<in> set (ls ! i)" by (metis in_set_conv_nth)
  then have "set (preds g n) \<subseteq> set (concat (take i ls))" using assms(1) by (simp add: layered_def)
  also have "\<dots> \<subseteq> set (concat ls)" by (auto dest: in_set_takeD)
  finally show ?thesis .
qed

lemma layered_snoc:
  assumes "layered g ls" "\<forall>n \<in> set r. set (preds g n) \<subseteq> set (concat ls)"
    and "ls \<noteq> [] \<longrightarrow> (\<forall>n \<in> set r. \<exists>u \<in> set (last ls). u \<in> set (preds g n))"
  shows "layered g (ls @ [r])"
  unfolding layered_def
proof (intro allI impI ballI)
  fix i n
  assume i: "i < length (ls @ [r])" and n: "n \<in> set ((ls @ [r]) ! i)"
  show "set (preds g n) \<subseteq> set (concat (take i (ls @ [r])))
     \<and> (0 < i \<longrightarrow> (\<exists>u \<in> set ((ls @ [r]) ! (i - 1)). u \<in> set (preds g n)))"
  proof (cases "i < length ls")
    case True
    then have "i - 1 < length ls" by linarith
    with True have nth: "(ls @ [r]) ! i = ls ! i" "(ls @ [r]) ! (i - 1) = ls ! (i - 1)"
      and tk: "take i (ls @ [r]) = take i ls" by (simp_all add: nth_append)
    then have "n \<in> set (ls ! i)" using n by simp
    then show ?thesis using assms(1) True unfolding nth tk layered_def by blast
  next
    case False
    then have i': "i = length ls" using i by simp
    then have nr: "n \<in> set r" using n by simp
    have tk: "take i (ls @ [r]) = ls" by (simp add: i')
    show ?thesis
    proof (cases "ls = []")
      case True
      then show ?thesis using i' assms(2) nr unfolding tk by simp
    next
      case False
      then have "(ls @ [r]) ! (i - 1) = last ls" by (simp add: i' nth_append last_conv_nth)
      then show ?thesis using assms(2,3) nr False unfolding tk by simp
    qed
  qed
qed

lemma kahn_step:
  assumes wf: "wf_graph g" and inv: "kahn_inv g inc ready ls visited" and "ready \<noteq> []"
  shows "\<exists>r. relax_layer g ready inc [] = Inr r
    \<and> kahn_inv g (fst r) (sort (snd r)) (ls @ [ready]) (visited + length ready)"
proof -
  let ?P = "set (concat ls)"
  let ?P' = "?P \<union> set ready"
  have ready: "set ready = {n \<in> set (dg_nodes g) - ?P. open_preds g ?P n = 0}"
    and sub: "?P \<subseteq> set (dg_nodes g)" and lay: "layered g ls" and ok: "inc_ok g inc ?P"
    and dr: "distinct ready" "distinct (concat ls)" "visited = length (concat ls)" "sorted ready"
    and lst: "ls \<noteq> [] \<longrightarrow> (\<forall>n \<in> set ready. \<exists>u \<in> set (last ls). u \<in> set (preds g n))"
    and lss: "\<forall>l \<in> set ls. sorted l \<and> l \<noteq> []"
    using inv unfolding kahn_inv_def by (blast+)
  have "set ready \<inter> ?P = {}" "set ready \<subseteq> set (dg_nodes g)" using ready by auto
  from relax_layer_spec [OF wf ok dr(1) this, of "[]"] obtain inc' new where
    r: "relax_layer g ready inc [] = Inr (inc', new)" "distinct new" "inc_ok g inc' ?P'"
    and new: "set new = {n \<in> set (dg_nodes g). 1 \<le> open_preds g ?P n \<and> open_preds g ?P' n = 0}"
    by auto
  have c: "set (concat (ls @ [ready])) = ?P'" by auto
  have notin: "n \<notin> ?P'" if "n \<in> set new" for n
  proof
    assume "n \<in> ?P'"
    then have "open_preds g ?P n = 0"
      using layered_preds [OF lay] ready by (auto simp: open_preds_0 simp del: set_concat)
    with that new show False by simp
  qed
  have sn: "set new = {n \<in> set (dg_nodes g) - ?P'. open_preds g ?P' n = 0}"
  proof (intro set_eqI iffI)
    fix n assume "n \<in> set new"
    with new notin show "n \<in> {n \<in> set (dg_nodes g) - ?P'. open_preds g ?P' n = 0}" by blast
  next
    fix n assume n: "n \<in> {n \<in> set (dg_nodes g) - ?P'. open_preds g ?P' n = 0}"
    then have "open_preds g ?P n \<noteq> 0" using ready by blast
    then have "1 \<le> open_preds g ?P n" using open_preds_nonneg [of g ?P n] by linarith
    with n new show "n \<in> set new" by blast
  qed
  have pr: "\<exists>u \<in> set ready. u \<in> set (preds g n)" if "n \<in> set new" for n
  proof -
    have "\<not> set (preds g n) \<subseteq> ?P" "set (preds g n) \<subseteq> ?P'"
      using that new open_preds_0 [of g ?P n] open_preds_0 [of g ?P' n] by auto
    then show ?thesis by blast
  qed
  have "\<forall>n \<in> set ready. set (preds g n) \<subseteq> ?P"
    using ready open_preds_0 by blast
  from layered_snoc [OF lay this lst] have lay': "layered g (ls @ [ready])" .
  have "kahn_inv g inc' (sort new) (ls @ [ready]) (visited + length ready)"
    unfolding kahn_inv_def c
    using r(2,3) dr lay' lss \<open>ready \<noteq> []\<close> sub ready sn pr
    by (intro conjI impI ballI) (auto simp del: set_concat)
  with r(1) show ?thesis by auto
qed

lemma kahn_result:
  assumes "wf_graph g" "kahn_inv g inc ready ls visited"
  shows "\<exists>inc' ls' v. kahn g inc ready ls visited = Inr (ls', v) \<and> kahn_inv g inc' [] ls' v"
  using assms
proof (induction g inc ready ls visited rule: kahn.induct)
  case (1 g inc ready layers visited)
  show ?case
  proof (cases "ready = []")
    case True
    with "1.prems"(2) show ?thesis by (subst kahn.simps) auto
  next
    case False
    from kahn_step [OF "1.prems" False] obtain r where
      r: "relax_layer g ready inc [] = Inr r"
        "kahn_inv g (fst r) (sort (snd r)) (layers @ [ready]) (visited + length ready)" by blast
    from "1.IH" [OF False r(1) "1.prems"(1) r(2)] show ?thesis
      by (subst kahn.simps) (simp add: False r(1))
  qed
qed

lemma kahn_inv_start:
  assumes "wf_graph g"
  shows "kahn_inv g (initial_incoming g)
    (sort (map fst (filter (\<lambda>nc. snd nc = 0) (initial_incoming g)))) [] 0"
proof -
  have d: "distinct (dg_nodes g)" using assms by (simp add: wf_graph_def)
  have l: "dget (initial_incoming g) n = (if n \<in> set (dg_nodes g) then Some (int (length (preds g n))) else None)" for n
    by (simp add: initial_incoming_def map_of_map_restrict restrict_map_def)
  have m: "map fst (filter (\<lambda>nc. snd nc = 0) (initial_incoming g)) = filter (\<lambda>n. preds g n = []) (dg_nodes g)"
    by (induction "dg_nodes g") (auto simp: initial_incoming_def filter_map o_def)
  have o: "open_preds g {} n = int (length (preds g n))" for n by (simp add: open_preds_def)
  show ?thesis
    unfolding kahn_inv_def m
    by (simp add: l inc_ok_def o d layered_def)
qed

lemma layered_acc:
  assumes "wf_graph g" "layered g ls"
  shows "i \<le> length ls \<Longrightarrow> n \<in> set (concat (take i ls)) \<Longrightarrow> n \<in> Wellfounded.acc (edge_rel g)"
proof (induction i arbitrary: n)
  case 0
  then show ?case by simp
next
  case (Suc i)
  then have i: "i < length ls" by simp
  then have tk: "set (concat (take (Suc i) ls)) = set (concat (take i ls)) \<union> set (ls ! i)"
    by (simp add: take_Suc_conv_app_nth)
  show ?case
  proof (cases "n \<in> set (concat (take i ls))")
    case True
    then show ?thesis using Suc.IH i by simp
  next
    case False
    then have "n \<in> set (ls ! i)" using Suc.prems(2) tk by blast
    then have pr: "set (preds g n) \<subseteq> set (concat (take i ls))"
      using assms(2) i unfolding layered_def by blast
    show ?thesis
    proof (rule acc.accI)
      fix u assume "(u, n) \<in> edge_rel g"
      then have "u \<in> set (preds g n)" using wf_graph_preds [OF assms(1)] by (simp add: edge_rel_def)
      then show "u \<in> Wellfounded.acc (edge_rel g)" using pr Suc.IH i by (meson less_imp_le subsetD)
    qed
  qed
qed

lemma layered_acyclic:
  assumes "wf_graph g" "layered g ls" "set (concat ls) = set (dg_nodes g)"
  shows "acyclic (edge_rel g)"
proof (rule acyclicI, rule allI, rule notI)
  fix x assume c: "(x, x) \<in> (edge_rel g)\<^sup>+"
  then obtain y where "(x, y) \<in> edge_rel g" by (blast dest: tranclD)
  then have "x \<in> set (dg_nodes g)" using wf_graph_edge [OF assms(1)] by blast
  then have "x \<in> set (concat (take (length ls) ls))" using assms(3) by (simp only: take_all [OF order_refl])
  from layered_acc [OF assms(1,2) order_refl this] have "x \<in> Wellfounded.acc (edge_rel g)" .
  from acc_no_cycle [OF this] c show False ..
qed

lemma finite_edge_rel: "wf_graph g \<Longrightarrow> finite (edge_rel g)"
proof (rule finite_subset)
  assume wf: "wf_graph g"
  show "edge_rel g \<subseteq> set (dg_nodes g) \<times> set (dg_nodes g)"
  proof (rule subrelI)
    fix u v assume "(u, v) \<in> edge_rel g"
    from wf_graph_edge [OF wf this] show "(u, v) \<in> set (dg_nodes g) \<times> set (dg_nodes g)" by blast
  qed
  show "finite (set (dg_nodes g) \<times> set (dg_nodes g))" by simp
qed

lemma kahn_end:
  assumes wf: "wf_graph g" and inv: "kahn_inv g inc [] ls v"
  shows "v = length (dg_nodes g) \<longleftrightarrow> acyclic (edge_rel g)"
    and "v = length (dg_nodes g) \<Longrightarrow> set (concat ls) = set (dg_nodes g)"
proof -
  let ?P = "set (concat ls)"
  have d: "distinct (dg_nodes g)" using wf by (simp add: wf_graph_def)
  have dc: "distinct (concat ls)" and sub: "?P \<subseteq> set (dg_nodes g)" and v: "v = length (concat ls)"
    and lay: "layered g ls"
    and stuck: "{n \<in> set (dg_nodes g) - ?P. open_preds g ?P n = 0} = {}"
    using inv unfolding kahn_inv_def by (blast, blast, blast, blast, simp)
  have cv: "v = card ?P" "length (dg_nodes g) = card (set (dg_nodes g))"
    using dc d v distinct_card by metis+
  have full: "v = length (dg_nodes g) \<longleftrightarrow> ?P = set (dg_nodes g)"
    unfolding cv using card_subset_eq [OF _ sub] by auto
  then show "v = length (dg_nodes g) \<Longrightarrow> ?P = set (dg_nodes g)" by blast
  have "?P = set (dg_nodes g)" if ac: "acyclic (edge_rel g)"
  proof (rule ccontr)
    assume "?P \<noteq> set (dg_nodes g)"
    with sub obtain m0 where "m0 \<in> set (dg_nodes g) - ?P" by blast
    with finite_acyclic_wf [OF finite_edge_rel [OF wf] ac] obtain m where
      m: "m \<in> set (dg_nodes g) - ?P" "\<And>u. (u, m) \<in> edge_rel g \<Longrightarrow> u \<notin> set (dg_nodes g) - ?P"
      by (rule wfE_min) blast
    have "set (preds g m) \<subseteq> ?P"
    proof
      fix u assume "u \<in> set (preds g m)"
      then have e: "(u, m) \<in> edge_rel g" using wf_graph_preds [OF wf] by (simp add: edge_rel_def)
      with m(2) wf_graph_edge [OF wf e] show "u \<in> ?P" by blast
    qed
    then have "open_preds g ?P m = 0" using open_preds_0 by blast
    with m(1) stuck show False by blast
  qed
  with full layered_acyclic [OF wf lay] show "v = length (dg_nodes g) \<longleftrightarrow> acyclic (edge_rel g)" by blast
qed

definition good_layers :: "dag_graph \<Rightarrow> string list list \<Rightarrow> bool" where
  "good_layers g ls \<longleftrightarrow> distinct (concat ls) \<and> set (concat ls) = set (dg_nodes g) \<and> layered g ls
     \<and> (\<forall>l \<in> set ls. sorted l \<and> l \<noteq> [])"

lemma topological_layers_cases:
  assumes wf: "wf_graph g"
  shows "(acyclic (edge_rel g) \<and> (\<exists>ls. topological_layers g = Inr ls \<and> good_layers g ls))
    \<or> (\<not> acyclic (edge_rel g) \<and> topological_layers g = Inl (DagError ''DAG contains a cycle''))"
proof -
  from kahn_result [OF wf kahn_inv_start [OF wf]] obtain inc ls v where
    k: "kahn g (initial_incoming g) (sort (map fst (filter (\<lambda>nc. snd nc = 0) (initial_incoming g)))) [] 0
      = Inr (ls, v)" and inv: "kahn_inv g inc [] ls v" by blast
  note e = kahn_end [OF wf inv]
  show ?thesis
  proof (cases "acyclic (edge_rel g)")
    case True
    then have v: "v = length (dg_nodes g)" using e(1) by simp
    have "good_layers g ls" using inv e(2) [OF v] unfolding good_layers_def kahn_inv_def by blast
    with True k v show ?thesis by (simp add: topological_layers_def)
  next
    case False
    then show ?thesis using e(1) k by (simp add: topological_layers_def)
  qed
qed

section \<open>Sub-DAG references\<close>

text \<open>\<open>ref_chain dags xs\<close>: every DAG of \<open>xs\<close> has a node that refers to the next one.\<close>

definition dag_refs :: "(string, dag_cfg) dict \<Rightarrow> string \<Rightarrow> string set" where
  "dag_refs dags x = (case dget dags x of None \<Rightarrow> {}
     | Some d \<Rightarrow> {r. \<exists>n \<in> set (dc_nodes d). dag_ref_of dags (ni_type n) (ni_dag_ref n) = Some r})"

definition ref_chain :: "(string, dag_cfg) dict \<Rightarrow> string list \<Rightarrow> bool" where
  "ref_chain dags xs \<longleftrightarrow> xs \<noteq> [] \<and> dhas dags (hd xs) \<and> successively (\<lambda>x y. y \<in> dag_refs dags x) xs"

definition nest_ok :: "(string, dag_cfg) dict \<Rightarrow> int \<Rightarrow> string \<Rightarrow> string list \<Rightarrow> bool" where
  "nest_ok dags m name p \<longleftrightarrow> (\<forall>xs. ref_chain dags xs \<and> hd xs = name
     \<longrightarrow> distinct (p @ xs) \<and> int (length (p @ xs)) \<le> m)"

lemma dag_ref_of_known: "dag_ref_of dags ty ref = Some r \<Longrightarrow> dhas dags r"
  by (auto simp: dag_ref_of_def split: option.splits if_splits)

lemma dag_refs_known: "y \<in> dag_refs dags x \<Longrightarrow> dhas dags y"
  by (auto simp: dag_refs_def dag_ref_of_known split: option.splits)

lemma ref_chain_single: "dhas dags x \<Longrightarrow> ref_chain dags [x]"
  by (simp add: ref_chain_def)

lemma ref_chain_Cons: "xs \<noteq> [] \<Longrightarrow>
  ref_chain dags (x # xs) \<longleftrightarrow> dhas dags x \<and> hd xs \<in> dag_refs dags x \<and> ref_chain dags xs"
  by (cases xs) (auto simp: ref_chain_def dag_refs_known)

lemma nest_ok_step:
  assumes "dhas dags name"
  shows "nest_ok dags m name p \<longleftrightarrow> distinct (p @ [name]) \<and> int (length p) + 1 \<le> m
    \<and> (\<forall>r \<in> dag_refs dags name. nest_ok dags m r (p @ [name]))" (is "?l \<longleftrightarrow> ?r")
proof
  assume l: ?l
  then have "distinct (p @ [name]) \<and> int (length (p @ [name])) \<le> m"
    using ref_chain_single [OF assms] unfolding nest_ok_def by force
  moreover have "nest_ok dags m r (p @ [name])" if r: "r \<in> dag_refs dags name" for r
    unfolding nest_ok_def
  proof (intro allI impI)
    fix xs assume xs: "ref_chain dags xs \<and> hd xs = r"
    then have "xs \<noteq> []" by (simp add: ref_chain_def)
    from xs r assms ref_chain_Cons [OF this] have "ref_chain dags (name # xs)" by simp
    with l have "distinct (p @ (name # xs)) \<and> int (length (p @ (name # xs))) \<le> m"
      unfolding nest_ok_def by (metis list.sel(1))
    then show "distinct ((p @ [name]) @ xs) \<and> int (length ((p @ [name]) @ xs)) \<le> m" by simp
  qed
  ultimately show ?r by simp
next
  assume r: ?r
  show ?l
    unfolding nest_ok_def
  proof (intro allI impI)
    fix xs assume xs: "ref_chain dags xs \<and> hd xs = name"
    show "distinct (p @ xs) \<and> int (length (p @ xs)) \<le> m"
    proof (cases "tl xs = []")
      case True
      then have "xs = [name]" using xs by (cases xs) (auto simp: ref_chain_def)
      then show ?thesis using r by simp
    next
      case False
      define ys where "ys = tl xs"
      have e: "xs = name # ys" using xs False by (cases xs) (auto simp: ys_def)
      have "hd ys \<in> dag_refs dags name \<and> ref_chain dags ys"
        using xs ref_chain_Cons [of ys] False by (simp add: e)
      with r have "distinct ((p @ [name]) @ ys) \<and> int (length ((p @ [name]) @ ys)) \<le> m"
        unfolding nest_ok_def by blast
      then show ?thesis by (simp add: e)
    qed
  qed
qed

lemma visit_sub_dag_iff:
  "dhas dags name \<Longrightarrow> distinct (map ps_dag path) \<Longrightarrow>
     visit_sub_dag dags m name path via = Inr () \<longleftrightarrow> nest_ok dags m name (map ps_dag path)"
  "distinct (map ps_dag chain) \<Longrightarrow> visit_sub_nodes dags m ns chain = Inr () \<longleftrightarrow>
     (\<forall>n \<in> set ns. \<forall>r. dag_ref_of dags (ni_type n) (ni_dag_ref n) = Some r
        \<longrightarrow> nest_ok dags m r (map ps_dag chain))"
proof (induction dags m name path via and dags m ns chain rule: visit_sub_dag_visit_sub_nodes.induct)
  case (1 dags m name path via)
  obtain d where d: "dget dags name = Some d" using 1(2) by (auto simp: dhas_def)
  have refs: "(\<forall>n \<in> set (dc_nodes d). \<forall>r. dag_ref_of dags (ni_type n) (ni_dag_ref n) = Some r \<longrightarrow> Q r)
    \<longleftrightarrow> (\<forall>r \<in> dag_refs dags name. Q r)" for Q by (auto simp: dag_refs_def d)
  show ?case
  proof (cases "name \<in> ps_dag ` set path \<or> m < int (length path) + 1")
    case True
    then have "visit_sub_dag dags m name path via \<noteq> Inr ()" by (auto simp: Let_def)
    moreover have "\<not> nest_ok dags m name (map ps_dag path)" using True 1(2) by (auto simp: nest_ok_step)
    ultimately show ?thesis by blast
  next
    case False
    then have "visit_sub_nodes dags m (dc_nodes d) (path @ [\<lparr>ps_dag = name, ps_via = via\<rparr>]) = Inr ()
      \<longleftrightarrow> (\<forall>r \<in> dag_refs dags name. nest_ok dags m r (map ps_dag path @ [name]))"
      using 1(1) [OF refl _ _ d] 1(3) by (simp add: refs)
    then show ?thesis using False 1(2,3) by (simp add: d nest_ok_step not_less Let_def)
  qed
next
  case (2 dags m chain)
  then show ?case by simp
next
  case (3 dags m n ns chain)
  show ?case
  proof (cases "dag_ref_of dags (ni_type n) (ni_dag_ref n)")
    case None
    then show ?thesis using 3 by simp
  next
    case (Some r)
    then show ?thesis using 3(1) [OF Some] 3(2,3) dag_ref_of_known [OF Some] by auto
  qed
qed

lemma validate_sub_dag_nesting_iff:
  "validate_sub_dag_nesting dags m = Inr () \<longleftrightarrow>
     (\<forall>xs. ref_chain dags xs \<longrightarrow> distinct xs \<and> int (length xs) \<le> m)"
proof -
  have fold: "fold_res (\<lambda>name _. visit_sub_dag dags m name [] None) ks () = Inr ()
    \<longleftrightarrow> (\<forall>k \<in> set ks. visit_sub_dag dags m k [] None = Inr ())" for ks
    by (induction ks) auto
  have "validate_sub_dag_nesting dags m = Inr () \<longleftrightarrow> (\<forall>k \<in> set (dkeys dags). nest_ok dags m k [])"
    unfolding validate_sub_dag_nesting_def fold
    using visit_sub_dag_iff(1) [of dags _ "[]"] by (auto simp: dhas_keys simp del: visit_sub_dag.simps)
  also have "\<dots> \<longleftrightarrow> (\<forall>xs. ref_chain dags xs \<longrightarrow> distinct xs \<and> int (length xs) \<le> m)"
    by (auto simp: nest_ok_def ref_chain_def dhas_keys simp del: set_map)
  finally show ?thesis .
qed

section \<open>Which configurations load\<close>

definition edge_accepted :: "(string, node_cfg) dict \<Rightarrow> string set \<Rightarrow> (string, node_inst) dict \<Rightarrow> edge_cfg \<Rightarrow> bool" where
  "edge_accepted nodes sub insts e \<longleftrightarrow> (\<exists>u d. dget insts (e_from e) = Some u \<and> dget insts (e_to e) = Some d
     \<and> (e_from e \<in> sub \<or> e_to e \<in> sub
       \<or> (\<exists>cu cd. dget nodes (ni_type u) = Some cu \<and> dget nodes (ni_type d) = Some cd
           \<and> nc_role cu \<noteq> Sink \<and> nc_role cd \<noteq> Source
           \<and> (nc_output_type cu = nc_input_type cd \<or> nc_output_type cu = ''Any'' \<or> nc_input_type cd = ''Any''))))"

lemma check_role_Inr: "check_role cu cd = Inr () \<longleftrightarrow> nc_role cu \<noteq> Sink \<and> nc_role cd \<noteq> Source"
  by (simp add: check_role_def)

lemma check_io_Inr: "check_io cu cd = Inr () \<longleftrightarrow>
  nc_output_type cu = nc_input_type cd \<or> nc_output_type cu = ''Any'' \<or> nc_input_type cd = ''Any''"
  by (simp add: check_io_def)

definition insts_typed :: "(string, node_cfg) dict \<Rightarrow> string set \<Rightarrow> (string, node_inst) dict \<Rightarrow> bool" where
  "insts_typed nodes sub insts \<longleftrightarrow>
     (\<forall>n u. dget insts n = Some u \<longrightarrow> n \<notin> sub \<longrightarrow> dhas nodes (ni_type u))"

lemma add_edge_accepts:
  assumes wf: "wf_graph g"
    and known: "insts_typed nodes sub (dg_instances g)"
  shows "is_ok (add_edge nodes sub e g) \<longleftrightarrow> edge_accepted nodes sub (dg_instances g) e"
proof -
  have keys: "dhas (dg_edges g) n = dhas (dg_instances g) n" "dhas (dg_reverse g) n = dhas (dg_instances g) n" for n
    using wf by (simp_all only: dhas_keys wf_graph_def)
  show ?thesis
  proof (cases "dhas (dg_instances g) (e_from e) \<and> dhas (dg_instances g) (e_to e)")
    case False
    then have guard: "(\<not> dhas (dg_edges g) (e_from e) \<or> \<not> dhas (dg_reverse g) (e_to e)) = True"
      by (simp add: keys)
    show ?thesis unfolding add_edge_def guard using False by (auto simp: edge_accepted_def dhas_def)
  next
    case True
    then obtain u d where ud: "dget (dg_instances g) (e_from e) = Some u" "dget (dg_instances g) (e_to e) = Some d"
      by (auto simp: dhas_def)
    have lk: "lookup_key (dg_instances g) (e_from e) = Inr u" "lookup_key (dg_instances g) (e_to e) = Inr d"
      using ud by simp_all
    have guard: "(\<not> dhas (dg_edges g) (e_from e) \<or> \<not> dhas (dg_reverse g) (e_to e)) = False"
      using True by (simp add: keys)
    show ?thesis
    proof (cases "e_from e \<in> sub")
      case True
      then show ?thesis unfolding add_edge_def guard by (simp add: lk ud edge_accepted_def)
    next
      case False
      then obtain cu where cu: "dget nodes (ni_type u) = Some cu" using known ud(1) by (auto simp: insts_typed_def dhas_def)
      then have lcu: "lookup_key nodes (ni_type u) = Inr cu" by simp
      show ?thesis
      proof (cases "e_to e \<in> sub")
        case True
        then show ?thesis using False unfolding add_edge_def guard
          by (simp add: lk lcu ud edge_accepted_def)
      next
        case to: False
        then obtain cd where cd: "dget nodes (ni_type d) = Some cd" using known ud(2) by (auto simp: insts_typed_def dhas_def)
        then have lcd: "lookup_key nodes (ni_type d) = Inr cd" by simp
        show ?thesis
          unfolding add_edge_def guard
          by (cases "check_role cu cd"; cases "check_io cu cd")
            (use False to check_role_Inr [of cu cd] check_io_Inr [of cu cd] in
              \<open>simp_all add: lk lcu lcd ud cu cd edge_accepted_def\<close>)
      qed
    qed
  qed
qed

lemma add_edges_accept:
  assumes "wf_graph g" "insts_typed nodes sub (dg_instances g)"
  shows "is_ok (fold_res (add_edge nodes sub) es g) \<longleftrightarrow> (\<forall>e \<in> set es. edge_accepted nodes sub (dg_instances g) e)"
  using assms
proof (induction es arbitrary: g)
  case Nil
  then show ?case by (simp add:)
next
  case (Cons e es)
  note acc = add_edge_accepts [OF Cons.prems, where e = e]
  show ?case
  proof (cases "add_edge nodes sub e g")
    case (Inl x)
    then show ?thesis using acc by (simp add:)
  next
    case (Inr h)
    have i: "dg_instances h = dg_instances g" by (rule add_edge_Inr(4) [OF Inr])
    have "is_ok (fold_res (add_edge nodes sub) es h) \<longleftrightarrow> (\<forall>e \<in> set es. edge_accepted nodes sub (dg_instances g) e)"
      using Cons.IH [OF add_edge_wf(1) [OF Inr Cons.prems(1)]] Cons.prems(2) unfolding i by blast
    then show ?thesis using acc Inr by (simp add:)
  qed
qed

definition config_edges :: "dag_cfg \<Rightarrow> (string \<times> string) set" where
  "config_edges c = (\<lambda>e. (e_from e, e_to e)) ` set (dc_edges c)"

definition instance_table :: "dag_cfg \<Rightarrow> (string, node_inst) dict" where
  "instance_table c = map (\<lambda>n. (ni_id n, n)) (dc_nodes c)"

lemma load_graph_accepts:
  "is_ok (load_graph c nodes dags) \<longleftrightarrow> distinct (map ni_id (dc_nodes c)) \<and> missing_types c nodes dags = []
     \<and> (\<forall>e \<in> set (dc_edges c). edge_accepted nodes (sub_dag_ids c dags) (instance_table c) e)
     \<and> acyclic (config_edges c)"
proof (cases "distinct (map ni_id (dc_nodes c)) \<and> missing_types c nodes dags = []")
  case False
  then show ?thesis by (auto simp: load_graph_def)
next
  case True
  let ?g0 = "empty_graph (dc_name c) (dc_nodes c)" and ?sub = "sub_dag_ids c dags"
  have i: "dg_instances ?g0 = instance_table c" by (simp add: empty_graph_def instance_table_def)
  note wf0 = empty_graph_wf [OF conjunct1 [OF True], of "dc_name c"]
  have known: "insts_typed nodes ?sub (dg_instances ?g0)"
    unfolding insts_typed_def
  proof (intro allI impI)
    fix n u assume that: "dget (dg_instances ?g0) n = Some u" "n \<notin> ?sub"
    have "(n, u) \<in> set (instance_table c)" using map_of_SomeD [OF that(1)] by (simp only: i)
    then have "u \<in> set (dc_nodes c)" "n = ni_id u" by (auto simp: instance_table_def)
    then show "dhas nodes (ni_type u)" using True that(2) by (auto simp: missing_types_def filter_empty_conv)
  qed
  note acc = add_edges_accept [OF wf0(1) known, where es = "dc_edges c", unfolded i]
  show ?thesis
  proof (cases "fold_res (add_edge nodes ?sub) (dc_edges c) ?g0")
    case (Inl x)
    then have "\<not> is_ok (load_graph c nodes dags)" using True by (simp add: load_graph_def)
    with acc Inl show ?thesis by (simp add:)
  next
    case (Inr g)
    note wf = add_edges_wf [OF Inr wf0(1)]
    have rel: "edge_rel g = config_edges c" using wf wf0(2) by (simp add: config_edges_def)
    have "is_ok (load_graph c nodes dags) \<longleftrightarrow> assert_acyclic (dg_nodes g) (dg_edges g) = Inr ()"
      using True Inr by (cases "assert_acyclic (dg_nodes g) (dg_edges g)") (simp_all add: load_graph_def)
    also have "\<dots> \<longleftrightarrow> acyclic (config_edges c)"
      using wf_graph_assert_acyclic [OF conjunct1 [OF wf]] by (simp only: rel)
    finally show ?thesis using acc Inr True by (simp add:)
  qed
qed

section \<open>Properties\<close>

text \<open>C1: A DAG configuration that loads has an acyclic edge relation, and \<open>topological_layers\<close>
  succeeds on its graph: every node is in exactly one layer, no layer is empty, each layer is in
  sorted order, and every edge of the configuration goes from an earlier layer to a later one.\<close>

theorem load_graph_layers:
  assumes "load_graph c nodes dags = Inr g"
  shows "acyclic (config_edges c) \<and> (\<exists>ls. topological_layers g = Inr ls
     \<and> distinct (concat ls) \<and> set (concat ls) = set (map ni_id (dc_nodes c))
     \<and> (\<forall>l \<in> set ls. sorted l \<and> l \<noteq> [])
     \<and> (\<forall>i < length ls. \<forall>e \<in> set (dc_edges c). e_to e \<in> set (ls ! i)
          \<longrightarrow> e_from e \<in> set (concat (take i ls))))"
proof -
  note wf = load_graph_wf [OF assms]
  have ac: "acyclic (edge_rel g)" by (rule wf(2))
  with topological_layers_cases [OF wf(1)] obtain ls where
    ls: "topological_layers g = Inr ls" "good_layers g ls" by blast
  have edge: "e_from e \<in> set (concat (take i ls))"
    if "i < length ls" "e \<in> set (dc_edges c)" "e_to e \<in> set (ls ! i)" for i e
  proof -
    have "(e_from e, e_to e) \<in> edge_rel g" using that(2) unfolding wf(6) by blast
    then have "e_from e \<in> set (preds g (e_to e))"
      using wf_graph_preds [OF wf(1)] by (simp add: edge_rel_def)
    then show ?thesis using ls(2) that(1,3) unfolding good_layers_def layered_def by blast
  qed
  have "acyclic (config_edges c)" using ac by (simp add: wf(6) config_edges_def)
  then show ?thesis using ls edge unfolding good_layers_def wf(3) by blast
qed

definition demo_node :: "string \<Rightarrow> node_inst" where
  "demo_node i = \<lparr>ni_id = i, ni_type = ''t'', ni_dag_ref = None, ni_input_mapping = MapDict [],
     ni_alias = None, ni_config = [], ni_optional = False, ni_fan_in_mode = NBarrier, ni_loop = None,
     ni_switch_model = False, ni_fallback_model = None, ni_resource = None\<rparr>"

definition demo_edge :: "string \<Rightarrow> string \<Rightarrow> edge_cfg" where
  "demo_edge a b = \<lparr>e_from = a, e_to = b, e_fan_out = False, e_fan_in = False, e_optional = False,
     e_condition = None, e_fan_in_mode = EBarrier\<rparr>"

definition demo_type :: node_cfg where
  "demo_type = \<lparr>nc_name = ''t'', nc_role = Processor, nc_input_type = ''Any'', nc_output_type = ''Any'',
     nc_optional = False, nc_timeout = None, nc_emits = [], nc_variant = FunctionNode ''h'' [] [] [] None None []\<rparr>"

definition demo_dag :: dag_cfg where
  "demo_dag = \<lparr>dc_name = ''d'', dc_nodes = [demo_node ''a'', demo_node ''b''],
     dc_edges = [demo_edge ''a'' ''b''], dc_ui = []\<rparr>"

definition demo_graph :: dag_graph where
  "demo_graph = \<lparr>dg_name = ''d'', dg_nodes = [''a'', ''b''],
     dg_instances = [(''a'', demo_node ''a''), (''b'', demo_node ''b'')],
     dg_edges = [(''a'', [''b'']), (''b'', [])], dg_reverse = [(''a'', []), (''b'', [''a''])],
     dg_fan_out = {}, dg_fan_in = {}, dg_optional = {}, dg_conditions = [],
     dg_fan_in_modes = [((''a'', ''b''), EBarrier)]\<rparr>"

lemma load_demo: "load_graph demo_dag [(''t'', demo_type)] None = Inr demo_graph"
  by (simp add: load_graph_def missing_types_def sub_dag_ids_def is_sub_dag_node_def demo_dag_def
      demo_node_def demo_type_def demo_edge_def demo_graph_def empty_graph_def add_edge_def edge_tables_def
      dappend_def dget_default_def dhas_def lookup_key_def check_role_def check_io_def
      assert_acyclic_def visit.simps)

theorem load_graph_layers_witness:
  "acyclic (config_edges demo_dag) \<and> (\<exists>ls. topological_layers demo_graph = Inr ls
     \<and> distinct (concat ls) \<and> set (concat ls) = set (map ni_id (dc_nodes demo_dag))
     \<and> (\<forall>l \<in> set ls. sorted l \<and> l \<noteq> [])
     \<and> (\<forall>i < length ls. \<forall>e \<in> set (dc_edges demo_dag). e_to e \<in> set (ls ! i)
          \<longrightarrow> e_from e \<in> set (concat (take i ls))))"
  by (rule load_graph_layers [OF load_demo])

text \<open>C26: \<open>load_graph\<close> accepts a configuration exactly when its instance ids are distinct, every node that
  is not a sub-DAG has a known type, every edge joins known instances with compatible roles and types,
  and the edges have no cycle.\<close>

theorem load_graph_accepts_iff:
  "is_ok (load_graph c nodes dags) \<longleftrightarrow> distinct (map ni_id (dc_nodes c)) \<and> missing_types c nodes dags = []
     \<and> (\<forall>e \<in> set (dc_edges c). edge_accepted nodes (sub_dag_ids c dags) (instance_table c) e)
     \<and> acyclic (config_edges c)"
  by (rule load_graph_accepts)

theorem load_graph_accepts_iff_witness:
  "edge_accepted [(''t'', demo_type)] (sub_dag_ids demo_dag None) (instance_table demo_dag) (demo_edge ''a'' ''b'')"
  using load_graph_accepts_iff [of demo_dag "[(''t'', demo_type)]" None] load_demo
  by (simp add: demo_dag_def)

text \<open>On any well-formed graph \<open>topological_layers\<close> returns layers exactly when the graph has no cycle,
  and reports the cycle otherwise.\<close>

theorem topological_layers_iff:
  assumes "wf_graph g"
  shows "if acyclic (edge_rel g) then is_ok (topological_layers g)
    else topological_layers g = Inl (DagError ''DAG contains a cycle'')"
  using topological_layers_cases [OF assms] by auto

theorem topological_layers_iff_witness: "is_ok (topological_layers demo_graph)"
proof -
  note wf = load_graph_wf [OF load_demo]
  show ?thesis using topological_layers_iff [OF wf(1)] wf(2) by simp
qed

text \<open>\<open>validate_sub_dag_nesting\<close> accepts a set of DAGs exactly when every chain of sub-DAG references
  that starts at one of them repeats no DAG and is at most \<open>max_depth\<close> long.\<close>

theorem nesting_accepts_iff:
  "validate_sub_dag_nesting dags m = Inr () \<longleftrightarrow>
     (\<forall>xs. ref_chain dags xs \<longrightarrow> distinct xs \<and> int (length xs) \<le> m)"
  by (rule validate_sub_dag_nesting_iff)

theorem nesting_accepts_iff_witness:
  "validate_sub_dag_nesting [(''d'', demo_dag)] 1 = Inr () \<and> ref_chain [(''d'', demo_dag)] [''d'']
     \<and> validate_sub_dag_nesting [(''d'', demo_dag)] 0 \<noteq> Inr ()"
proof -
  have c: "ref_chain [(''d'', demo_dag)] [''d'']" by (simp add: ref_chain_single dhas_def)
  have v: "validate_sub_dag_nesting [(''d'', demo_dag)] 1 = Inr ()"
    by (simp add: validate_sub_dag_nesting_def demo_dag_def demo_node_def dag_ref_of_def dhas_def)
  with c nesting_accepts_iff [of "[(''d'', demo_dag)]" 0] show ?thesis by fastforce
qed

end
