(* ===== verification/LayerProps.thy ===== *)
theory LayerProps
  imports DagLoaderProps
begin

text \<open>
  The layers of \<open>topological_layers\<close> against a definition that does not know the algorithm: the length of the
  longest path that ends in a node.
\<close>

text \<open>A path of the graph, as the list of its nodes.\<close>

definition graph_path :: "dag_graph \<Rightarrow> string list \<Rightarrow> bool" where
  "graph_path g xs = successively (\<lambda>u v. v \<in> set (succs g u)) xs"

definition longest_to :: "dag_graph \<Rightarrow> string \<Rightarrow> nat \<Rightarrow> bool" where
  "longest_to g n k \<longleftrightarrow> (\<exists>xs. length xs = k \<and> graph_path g (xs @ [n])) \<and> (\<forall>xs. graph_path g (xs @ [n]) \<longrightarrow> length xs \<le> k)"

lemma graph_path_snoc: "graph_path g (xs @ [u, n]) \<longleftrightarrow> graph_path g (xs @ [u]) \<and> n \<in> set (succs g u)"
  by (auto simp: graph_path_def successively_append_iff)

lemma in_earlier: "u \<in> set (concat (take i ls)) \<Longrightarrow> \<exists>j < i. j < length ls \<and> u \<in> set (ls ! j)"
  by (auto simp: in_set_conv_nth [of _ "take i ls"]) blast

lemma layer_path:
  assumes "wf_graph g" "layered g ls"
  shows "i < length ls \<Longrightarrow> n \<in> set (ls ! i) \<Longrightarrow> \<exists>xs. length xs = i \<and> graph_path g (xs @ [n])"
proof (induction i arbitrary: n)
  case 0
  then show ?case by (intro exI [of _ "[]"]) (simp add: graph_path_def)
next
  case (Suc i)
  then obtain u where u: "u \<in> set (ls ! i)" "u \<in> set (preds g n)"
    using assms(2) unfolding layered_def by fastforce
  then obtain xs where "length xs = i" "graph_path g (xs @ [u])" using Suc by fastforce
  then show ?case using u(2) wf_graph_preds [OF assms(1)]
    by (intro exI [of _ "xs @ [u]"]) (simp add: graph_path_snoc)
qed

lemma layer_bound:
  assumes "wf_graph g" "layered g ls"
  shows "i < length ls \<Longrightarrow> n \<in> set (ls ! i) \<Longrightarrow> graph_path g (xs @ [n]) \<Longrightarrow> length xs \<le> i"
proof (induction xs arbitrary: n i rule: rev_induct)
  case (snoc u xs)
  then have p: "graph_path g (xs @ [u])" "n \<in> set (succs g u)" by (simp_all add: graph_path_snoc)
  then have "u \<in> set (concat (take i ls))"
    using assms(2) snoc.prems(1,2) wf_graph_preds [OF assms(1)] unfolding layered_def by blast
  from in_earlier [OF this] obtain j where j: "j < i" "j < length ls" "u \<in> set (ls ! j)" by blast
  have "length xs \<le> j" by (rule snoc.IH [OF j(2,3) p(1)])
  then show ?case using j(1) by simp
qed simp

text \<open>C38: The layers compute what their name promises: layer \<open>i\<close> holds exactly the nodes whose longest path
  from a source has \<open>i\<close> edges.\<close>

theorem layers_are_longest_paths:
  assumes "wf_graph g" "topological_layers g = Inr ls" and i: "i < length ls"
  shows "set (ls ! i) = {n \<in> set (dg_nodes g). longest_to g n i}"
proof -
  have good: "good_layers g ls" using topological_layers_cases [OF assms(1)] assms(2) by auto
  then have lay: "layered g ls" and all: "set (concat ls) = set (dg_nodes g)" by (simp_all only: good_layers_def)
  have one: "longest_to g n j" if "j < length ls" "n \<in> set (ls ! j)" for n j
    using layer_path [OF assms(1) lay that] layer_bound [OF assms(1) lay that] by (auto simp: longest_to_def)
  have uniq: "longest_to g n j \<Longrightarrow> longest_to g n k \<Longrightarrow> j = k" for n j k
    unfolding longest_to_def by (metis antisym)
  show ?thesis
  proof (intro set_eqI iffI)
    fix n assume n: "n \<in> set (ls ! i)"
    then have "n \<in> set (concat ls)" using i by auto
    then have "n \<in> set (dg_nodes g)" by (simp only: all)
    then show "n \<in> {n \<in> set (dg_nodes g). longest_to g n i}" using one [OF i n] by simp
  next
    fix n assume n: "n \<in> {n \<in> set (dg_nodes g). longest_to g n i}"
    then have "n \<in> set (concat ls)" by (simp add: all del: set_concat)
    then obtain j where j: "j < length ls" "n \<in> set (ls ! j)" by (auto simp: in_set_conv_nth [of _ ls])
    then have "j = i" using uniq one n by blast
    then show "n \<in> set (ls ! i)" using j by simp
  qed
qed

theorem layers_are_longest_paths_witness: "longest_to demo_graph ''b'' 1"
proof -
  have ls: "topological_layers demo_graph = Inr [[''a''], [''b'']]" by code_simp
  show ?thesis using layers_are_longest_paths [OF load_graph_wf(1) [OF load_demo] ls, of 1] by auto
qed

end
