(* ===== verification/TriggerExpr.thy ===== *)
theory TriggerExpr
  imports PyPrelude
begin

text \<open>
  \<open>trigger.py\<close>, the expression language of triggers: the lexer, the recursive-descent parser, the
  token set and the evaluation of an expression. The recogniser of JSON texts stands for the call
  \<open>json.loads\<close> in \<open>_validate_token\<close>, which only asks whether the text is a JSON document.
\<close>

section \<open>JSON texts\<close>

definition is_json_space :: "char \<Rightarrow> bool" where
  "is_json_space c = (c \<in> {CHR '' '', CHR 0x09, CHR 0x0A, CHR 0x0D})"

definition skip_json_ws :: "string \<Rightarrow> string" where
  "skip_json_ws s = dropWhile is_json_space s"

definition is_hex_digit :: "char \<Rightarrow> bool" where
  "is_hex_digit c = (is_ascii_digit c \<or> (let n = (of_char c :: nat) in
     (65 \<le> n \<and> n \<le> 70) \<or> (97 \<le> n \<and> n \<le> 102)))"

text \<open>The rest of a string literal after its opening quote; \<open>None\<close> when it is not well formed.\<close>

fun json_string_rest :: "string \<Rightarrow> string option" where
  "json_string_rest [] = None"
| "json_string_rest (c # cs) =
     (if c = CHR 0x22 then Some cs
      else if of_char c < (32 :: nat) then None
      else if c = CHR 0x5C then
        (case cs of [] \<Rightarrow> None
         | e # ds \<Rightarrow>
           if e = CHR ''u'' then
             (case ds of h1 # h2 # h3 # h4 # r \<Rightarrow>
                if list_all is_hex_digit [h1, h2, h3, h4] then json_string_rest r else None
              | _ \<Rightarrow> None)
           else if e \<in> set [CHR 0x22, CHR 0x5C, CHR ''/'', CHR ''b'', CHR ''f'', CHR ''n'', CHR ''r'', CHR ''t'']
           then json_string_rest ds else None)
      else json_string_rest cs)"

definition json_fraction :: "string \<Rightarrow> string" where
  "json_fraction s = (case s of c # d # r \<Rightarrow>
       if c = CHR ''.'' \<and> is_ascii_digit d then dropWhile is_ascii_digit r else s
     | _ \<Rightarrow> s)"

definition json_exponent :: "string \<Rightarrow> string" where
  "json_exponent s = (case s of c # r \<Rightarrow>
       if c = CHR ''e'' \<or> c = CHR ''E'' then
         (let t = (case r of x # y \<Rightarrow> if x = CHR ''+'' \<or> x = CHR ''-'' then y else r | [] \<Rightarrow> r) in
          (case t of d # u \<Rightarrow> if is_ascii_digit d then dropWhile is_ascii_digit u else s | [] \<Rightarrow> s))
       else s
     | [] \<Rightarrow> s)"

definition json_number :: "string \<Rightarrow> string option" where
  "json_number s = (case removeprefix s ''-'' of [] \<Rightarrow> None
     | c # r \<Rightarrow> if c = CHR ''0'' then Some (json_exponent (json_fraction r))
               else if is_ascii_digit c then Some (json_exponent (json_fraction (dropWhile is_ascii_digit r)))
               else None)"

text \<open>A value, the members of an object after \<open>{\<close> or a comma, the elements of an array. Each nested
  value consumes a character, so the length of the text is enough fuel.\<close>

fun json_value :: "nat \<Rightarrow> string \<Rightarrow> string option"
  and json_members :: "nat \<Rightarrow> string \<Rightarrow> string option"
  and json_elements :: "nat \<Rightarrow> string \<Rightarrow> string option" where
  "json_value 0 s = None"
| "json_value (Suc f) s =
     (case s of [] \<Rightarrow> None
      | c # r \<Rightarrow>
        if c = CHR 0x22 then json_string_rest r
        else if c = CHR ''{'' then
          (case skip_json_ws r of d # t \<Rightarrow> if d = CHR ''}'' then Some t else json_members f (d # t) | [] \<Rightarrow> None)
        else if c = CHR ''['' then
          (case skip_json_ws r of d # t \<Rightarrow> if d = CHR '']'' then Some t else json_elements f (d # t) | [] \<Rightarrow> None)
        else if starts_with s ''null'' then Some (drop 4 s)
        else if starts_with s ''true'' then Some (drop 4 s)
        else if starts_with s ''false'' then Some (drop 5 s)
        else if starts_with s ''NaN'' then Some (drop 3 s)
        else if starts_with s ''Infinity'' then Some (drop 8 s)
        else if starts_with s ''-Infinity'' then Some (drop 9 s)
        else json_number s)"
| "json_members 0 s = None"
| "json_members (Suc f) s =
     (case s of [] \<Rightarrow> None
      | c # r \<Rightarrow> if c \<noteq> CHR 0x22 then None else
        (case json_string_rest r of None \<Rightarrow> None
         | Some r2 \<Rightarrow> (case skip_json_ws r2 of [] \<Rightarrow> None
            | d # r3 \<Rightarrow> if d \<noteq> CHR '':'' then None else
              (case json_value f (skip_json_ws r3) of None \<Rightarrow> None
               | Some r4 \<Rightarrow> (case skip_json_ws r4 of [] \<Rightarrow> None
                  | e # r5 \<Rightarrow> if e = CHR ''}'' then Some r5
                             else if e = CHR '','' then json_members f (skip_json_ws r5) else None)))))"
| "json_elements 0 s = None"
| "json_elements (Suc f) s =
     (case json_value f s of None \<Rightarrow> None
      | Some r \<Rightarrow> (case skip_json_ws r of [] \<Rightarrow> None
         | e # r2 \<Rightarrow> if e = CHR '']'' then Some r2
                    else if e = CHR '','' then json_elements f (skip_json_ws r2) else None))"

definition is_json :: "string \<Rightarrow> bool" where
  "is_json s = (case json_value (Suc (length s)) (skip_json_ws s) of None \<Rightarrow> False
     | Some r \<Rightarrow> skip_json_ws r = [])"

section \<open>Expressions\<close>

datatype binop = OpAnd | OpOr

datatype expr = TokenExpr string | BinaryExpr binop expr expr

text \<open>\<open>_LexToken\<close>: the kinds \<open>TOKEN\<close>, \<open>AND\<close>, \<open>OR\<close> and the two parentheses.\<close>

datatype ltok = LTok string | LAnd | LOr | LOpen | LClose

fun expr_tokens :: "expr \<Rightarrow> string set" where
  "expr_tokens (TokenExpr v) = {v}"
| "expr_tokens (BinaryExpr _ l r) = expr_tokens l \<union> expr_tokens r"

fun eval_expr :: "expr \<Rightarrow> string set \<Rightarrow> bool" where
  "eval_expr (TokenExpr v) active = (v \<in> active)"
| "eval_expr (BinaryExpr OpAnd l r) active = (eval_expr l active \<and> eval_expr r active)"
| "eval_expr (BinaryExpr OpOr l r) active = (eval_expr l active \<or> eval_expr r active)"

section \<open>The lexer\<close>

definition expr_error :: "string \<Rightarrow> 'a res" where
  "expr_error msg = Inl (TriggerExpressionError msg)"

definition cron_open :: string where
  "cron_open = ''cron:'' @ [CHR 0x22]"

definition cron_value :: "string \<Rightarrow> string" where
  "cron_value t = removesuffix (removeprefix t cron_open) [CHR 0x22]"

definition cron_quoted :: "string \<Rightarrow> bool" where
  "cron_quoted v = (starts_with v cron_open \<and> ends_with v [CHR 0x22])"

definition validate_token :: "string \<Rightarrow> unit res" where
  "validate_token v =
     (if starts_with v ''manual:'' then expr_error ''manual prefix is reserved for emit''
      else if starts_with v ''cron:'' \<and> \<not> cron_quoted v then expr_error ''cron token must be quoted''
      else if starts_with v ''cron:'' \<and> length (split_ws (cron_value v)) \<noteq> 5
      then expr_error ''cron token must contain five fields''
      else if CHR 0x22 \<in> set v \<and> \<not> cron_quoted v then
        (case split_once (CHR '':'') v of [_, r] \<Rightarrow> if is_json r then Inr () else expr_error ''invalid quoted token''
         | _ \<Rightarrow> expr_error ''invalid quoted token'')
      else Inr ())"

text \<open>The inner loops of \<open>_lex\<close>: a word ends at white space or a parenthesis outside quotes; a quote that
  never closes gives \<open>None\<close>.\<close>

definition is_paren :: "char \<Rightarrow> bool" where
  "is_paren c = (c = CHR ''('' \<or> c = CHR '')'')"

definition cons_word :: "char \<Rightarrow> (string \<times> string) option \<Rightarrow> (string \<times> string) option" where
  "cons_word c r = map_option (\<lambda>(w, s). (c # w, s)) r"

fun scan_word :: "string \<Rightarrow> (string \<times> string) option"
  and scan_quote :: "string \<Rightarrow> (string \<times> string) option" where
  "scan_word [] = Some ([], [])"
| "scan_word (c # cs) =
     (if is_space c \<or> is_paren c then Some ([], c # cs)
      else if c = CHR 0x22 then cons_word c (scan_quote cs)
      else cons_word c (scan_word cs))"
| "scan_quote [] = None"
| "scan_quote (c # cs) = cons_word c (if c = CHR 0x22 then scan_word cs else scan_quote cs)"

lemma scan_append:
  "scan_word s = Some (w, r) \<Longrightarrow> s = w @ r"
  "scan_quote s = Some (w, r) \<Longrightarrow> s = w @ r"
  by (induction s and s arbitrary: w r and w r rule: scan_word_scan_quote.induct)
    (auto simp: cons_word_def split: if_splits)

lemma scan_word_nonempty:
  "scan_word (c # cs) = Some (w, r) \<Longrightarrow> \<not> is_space c \<Longrightarrow> \<not> is_paren c \<Longrightarrow> w \<noteq> []"
  by (auto simp: cons_word_def split: if_splits)

definition classify :: "string \<Rightarrow> ltok res" where
  "classify v = (if map to_upper v = ''AND'' then Inr LAnd
     else if map to_upper v = ''OR'' then Inr LOr
     else rbind (validate_token v) (\<lambda>_. Inr (LTok v)))"

function lex_tokens :: "string \<Rightarrow> ltok list res" where
  "lex_tokens [] = Inr []"
| "lex_tokens (c # cs) =
     (if is_space c then lex_tokens cs
      else if c = CHR ''('' then rbind (lex_tokens cs) (\<lambda>ts. Inr (LOpen # ts))
      else if c = CHR '')'' then rbind (lex_tokens cs) (\<lambda>ts. Inr (LClose # ts))
      else (case scan_word (c # cs) of None \<Rightarrow> expr_error ''unterminated quote''
            | Some wr \<Rightarrow> rbind (classify (fst wr)) (\<lambda>t. rbind (lex_tokens (snd wr)) (\<lambda>ts. Inr (t # ts)))))"
  by pat_completeness auto
termination
proof (relation "measure length", goal_cases)
  case (5 c cs wr x)
  then have "scan_word (c # cs) = Some (fst wr, snd wr)" by simp
  from scan_append(1) [OF this] scan_word_nonempty [OF this] 5(1-3)
  have "c # cs = fst wr @ snd wr" "fst wr \<noteq> []" by (auto simp: is_paren_def)
  then show ?case by (metis in_measure length_append length_greater_0_conv less_add_same_cancel2)
qed auto

definition lex :: "string \<Rightarrow> ltok list res" where
  "lex s = rbind (lex_tokens s) (\<lambda>ts. if ts = [] then expr_error ''expression must not be blank'' else Inr ts)"

section \<open>The parser\<close>

text \<open>\<open>_Parser\<close>: the state is the list of tokens from \<open>self.index\<close> on; \<open>match_tok\<close> and \<open>take_token\<close> are
  \<open>_match\<close> and \<open>_consume("TOKEN")\<close>; \<open>p_or_loop e\<close> and \<open>p_and_loop e\<close> are the \<open>while\<close> loops with the
  expression built so far. A step never lengthens its input and \<open>p_or\<close>, \<open>p_and\<close> and \<open>p_primary\<close> shorten
  it; with that the recursion ends.\<close>

definition match_tok :: "ltok \<Rightarrow> ltok list \<Rightarrow> ltok list option" where
  "match_tok k ts = (case ts of [] \<Rightarrow> None | t # r \<Rightarrow> if t = k then Some r else None)"

definition take_token :: "ltok list \<Rightarrow> (expr \<times> ltok list) res" where
  "take_token ts = (case ts of LTok v # r \<Rightarrow> Inr (TokenExpr v, r) | _ \<Rightarrow> expr_error ''expected TOKEN'')"

definition close_paren :: "expr \<times> ltok list \<Rightarrow> (expr \<times> ltok list) res" where
  "close_paren x = (case match_tok LClose (snd x) of None \<Rightarrow> expr_error ''missing closing parenthesis''
     | Some r \<Rightarrow> Inr (fst x, r))"

lemma match_tok_Some [simp]: "match_tok k ts = Some r \<longleftrightarrow> ts = k # r"
  by (auto simp: match_tok_def split: list.splits)

lemma take_token_Inr: "take_token ts = Inr x \<longleftrightarrow> (\<exists>v r. ts = LTok v # r \<and> x = (TokenExpr v, r))"
  by (auto simp: take_token_def expr_error_def split: list.splits ltok.splits)

lemma close_paren_Inr: "close_paren x = Inr y \<longleftrightarrow> fst y = fst x \<and> snd x = LClose # snd y"
  by (cases y) (auto simp: close_paren_def expr_error_def match_tok_def split: list.splits)

function p_or :: "ltok list \<Rightarrow> (expr \<times> ltok list) res"
  and p_or_loop :: "expr \<Rightarrow> ltok list \<Rightarrow> (expr \<times> ltok list) res"
  and p_and :: "ltok list \<Rightarrow> (expr \<times> ltok list) res"
  and p_and_loop :: "expr \<Rightarrow> ltok list \<Rightarrow> (expr \<times> ltok list) res"
  and p_primary :: "ltok list \<Rightarrow> (expr \<times> ltok list) res" where
  "p_or ts = rbind (p_and ts) (\<lambda>x. p_or_loop (fst x) (snd x))"
| "p_or_loop e ts = (case match_tok LOr ts of None \<Rightarrow> Inr (e, ts)
     | Some r \<Rightarrow> rbind (p_and r) (\<lambda>x. p_or_loop (BinaryExpr OpOr e (fst x)) (snd x)))"
| "p_and ts = rbind (p_primary ts) (\<lambda>x. p_and_loop (fst x) (snd x))"
| "p_and_loop e ts = (case match_tok LAnd ts of None \<Rightarrow> Inr (e, ts)
     | Some r \<Rightarrow> rbind (p_primary r) (\<lambda>x. p_and_loop (BinaryExpr OpAnd e (fst x)) (snd x)))"
| "p_primary ts = (case match_tok LOpen ts of None \<Rightarrow> take_token ts
     | Some r \<Rightarrow> rbind (p_or r) close_paren)"
  by pat_completeness auto

termination
proof -
  have shorter:
    "p_or_p_or_loop_p_and_p_and_loop_p_primary_dom (Inl (Inl ts1)) \<Longrightarrow> p_or ts1 = Inr x \<Longrightarrow> length (snd x) < length ts1"
    "p_or_p_or_loop_p_and_p_and_loop_p_primary_dom (Inl (Inr (e1, ts2))) \<Longrightarrow> p_or_loop e1 ts2 = Inr x \<Longrightarrow> length (snd x) \<le> length ts2"
    "p_or_p_or_loop_p_and_p_and_loop_p_primary_dom (Inr (Inl ts3)) \<Longrightarrow> p_and ts3 = Inr x \<Longrightarrow> length (snd x) < length ts3"
    "p_or_p_or_loop_p_and_p_and_loop_p_primary_dom (Inr (Inr (Inl (e2, ts4)))) \<Longrightarrow> p_and_loop e2 ts4 = Inr x \<Longrightarrow> length (snd x) \<le> length ts4"
    "p_or_p_or_loop_p_and_p_and_loop_p_primary_dom (Inr (Inr (Inr ts5))) \<Longrightarrow> p_primary ts5 = Inr x \<Longrightarrow> length (snd x) < length ts5"
   for ts1 ts2 ts3 ts4 ts5 e1 e2 x
  proof (induction ts1 and e1 ts2 and ts3 and e2 ts4 and ts5 arbitrary: x and x and x and x and x
      rule: p_or_p_or_loop_p_and_p_and_loop_p_primary.pinduct)
    case (1 ts)
    from 1(4) obtain y where y: "p_and ts = Inr y" "p_or_loop (fst y) (snd y) = Inr x"
      by (auto simp: p_or.psimps [OF 1(1)])
    from 1(2) [OF y(1)] 1(3) [OF y] show ?case by linarith
  next
    case (2 e ts)
    show ?case
    proof (cases "match_tok LOr ts")
      case None
      then show ?thesis using 2(4) by (auto simp: p_or_loop.psimps [OF 2(1)])
    next
      case (Some r)
      with 2(4) obtain y where y: "p_and r = Inr y" "p_or_loop (BinaryExpr OpOr e (fst y)) (snd y) = Inr x"
        by (auto simp: p_or_loop.psimps [OF 2(1)])
      from 2(2) [OF Some y(1)] 2(3) [OF Some y] Some show ?thesis by simp
    qed
  next
    case (3 ts)
    from 3(4) obtain y where y: "p_primary ts = Inr y" "p_and_loop (fst y) (snd y) = Inr x"
      by (auto simp: p_and.psimps [OF 3(1)])
    from 3(2) [OF y(1)] 3(3) [OF y] show ?case by linarith
  next
    case (4 e ts)
    show ?case
    proof (cases "match_tok LAnd ts")
      case None
      then show ?thesis using 4(4) by (auto simp: p_and_loop.psimps [OF 4(1)])
    next
      case (Some r)
      with 4(4) obtain y where y: "p_primary r = Inr y" "p_and_loop (BinaryExpr OpAnd e (fst y)) (snd y) = Inr x"
        by (auto simp: p_and_loop.psimps [OF 4(1)])
      from 4(2) [OF Some y(1)] 4(3) [OF Some y] Some show ?thesis by simp
    qed
  next
    case (5 ts)
    show ?case
    proof (cases "match_tok LOpen ts")
      case None
      then show ?thesis using 5(3) by (auto simp: p_primary.psimps [OF 5(1)] take_token_Inr)
    next
      case (Some r)
      with 5(3) obtain y where y: "p_or r = Inr y" "close_paren y = Inr x"
        by (auto simp: p_primary.psimps [OF 5(1)])
      from 5(2) [OF Some y(1)] Some y(2) show ?thesis by (simp add: close_paren_Inr)
    qed
  qed
  show ?thesis
    by (relation "measures [\<lambda>x. (case x of Inl (Inl ts) \<Rightarrow> length ts | Inl (Inr (e, ts)) \<Rightarrow> length ts
        | Inr (Inl ts) \<Rightarrow> length ts | Inr (Inr (Inl (e, ts))) \<Rightarrow> length ts | Inr (Inr (Inr ts)) \<Rightarrow> length ts),
      \<lambda>x. (case x of Inl (Inl ts) \<Rightarrow> 2 | Inl (Inr (e, ts)) \<Rightarrow> 0
        | Inr (Inl ts) \<Rightarrow> 1 | Inr (Inr (Inl (e, ts))) \<Rightarrow> 0 | Inr (Inr (Inr ts)) \<Rightarrow> 0)]")
    (auto dest: shorter)
qed

definition parse_expr :: "string \<Rightarrow> expr res" where
  "parse_expr s = rbind (lex s) (\<lambda>ts. rbind (p_or ts)
     (\<lambda>x. if snd x = [] then Inr (fst x) else expr_error ''unexpected token''))"

text \<open>\<open>TriggerExpression\<close>: the root with its sorted token list.\<close>

record trigger_expr =
  te_root :: expr
  te_tokens :: "string list"

fun token_list :: "expr \<Rightarrow> string list" where
  "token_list (TokenExpr v) = [v]"
| "token_list (BinaryExpr _ l r) = token_list l @ token_list r"

definition trigger_expression :: "string \<Rightarrow> trigger_expr res" where
  "trigger_expression s = rbind (parse_expr s)
     (\<lambda>e. Inr \<lparr>te_root = e, te_tokens = sort (remdups (token_list e))\<rparr>)"

definition evaluate :: "trigger_expr \<Rightarrow> string set \<Rightarrow> bool" where
  "evaluate x active = eval_expr (te_root x) active"

definition matched_tokens :: "trigger_expr \<Rightarrow> string set \<Rightarrow> string list" where
  "matched_tokens x active = filter (\<lambda>t. t \<in> active) (te_tokens x)"

end
