(* ===== verification/EntityStore.thy ===== *)
theory EntityStore
  imports Schema TriggerExpr
begin

text \<open>
  \<open>config/entities.py\<close>: the entity store with its in-memory tiers, field permissions and relations;
  from \<open>config/loader.py\<close> the validation of the entities the store calls after each change and the
  entity types of the running system. An operation that can fail after it has changed the store
  returns its result together with the store it leaves behind. Copies (\<open>model_copy(deep=True)\<close>)
  are the values themselves. The database tier of the asynchronous operations is reached through
  the repository and is not part of this theory.
\<close>

type_synonym ('s, 'a) outcome = "'a res \<times> 's"

section \<open>Formatting a number with \<open>:g\<close>\<close>

text \<open>Six significant digits, trailing zeros dropped, an exponent when the magnitude is below \<open>10\<^sup>-\<^sup>4\<close> or
  at least \<open>10\<^sup>6\<close>.\<close>

definition round_half_even :: "rat \<Rightarrow> nat" where
  "round_half_even x = (let n = nat \<lfloor>x\<rfloor>; d = x - of_nat n in
     if d < 1 / 2 then n else if 1 / 2 < d then n + 1 else if even n then n else n + 1)"

definition dec_exponent :: "rat \<Rightarrow> int" where
  "dec_exponent x = (if 1 \<le> x then int (length (nat_str (nat \<lfloor>x\<rfloor>))) - 1
     else - int (length (nat_str (nat (\<lceil>1 / x\<rceil> - 1)))))"

definition scale10 :: "rat \<Rightarrow> int \<Rightarrow> rat" where
  "scale10 x k = (if 0 \<le> k then x * 10 ^ nat k else x / 10 ^ nat (- k))"

definition strip_zeros :: "string \<Rightarrow> string" where
  "strip_zeros s = rev (dropWhile (\<lambda>c. c = CHR ''0'') (rev s))"

definition with_point :: "string \<Rightarrow> string \<Rightarrow> string" where
  "with_point a b = (if strip_zeros b = [] then a else a @ ''.'' @ strip_zeros b)"

definition format_g :: "rat \<Rightarrow> string" where
  "format_g x = (if x = 0 then ''0'' else
     (let a = \<bar>x\<bar>; e0 = dec_exponent a; m0 = round_half_even (scale10 a (5 - e0));
          e = (if m0 = 10 ^ 6 then e0 + 1 else e0); m = (if m0 = 10 ^ 6 then 10 ^ 5 else m0);
          ds = nat_str m; sgn = (if x < 0 then ''-'' else []) in
      if -4 \<le> e \<and> e < 6 then
        (if 0 \<le> e then sgn @ with_point (take (nat e + 1) ds) (drop (nat e + 1) ds)
         else sgn @ with_point ''0'' (replicate (nat (- e - 1)) (CHR ''0'') @ ds))
      else sgn @ with_point (take 1 ds) (drop 1 ds) @ ''e'' @ (if e < 0 then ''-'' else ''+'')
           @ (let t = nat_str (nat \<bar>e\<bar>) in if length t < 2 then CHR ''0'' # t else t)))"

section \<open>Field permissions\<close>

definition can_read :: "perm \<Rightarrow> bool" where
  "can_read p = (p = ReadOnly \<or> p = ReadWrite)"

definition can_write :: "perm \<Rightarrow> bool" where
  "can_write p = (p = WriteOnly \<or> p = ReadWrite)"

text \<open>A value that is one of \<open>PERMISSIONS\<close>.\<close>

definition perm_of_val :: "pyval \<Rightarrow> perm option" where
  "perm_of_val v = (if v = PStr ''none'' then Some PermNone
     else if v = PStr ''read-only'' then Some ReadOnly
     else if v = PStr ''write-only'' then Some WriteOnly
     else if v = PStr ''read-write'' then Some ReadWrite else None)"

definition override_permission :: "(string, pyval) dict option \<Rightarrow> string \<Rightarrow> perm option" where
  "override_permission overrides field = (case overrides of None \<Rightarrow> None
     | Some ov \<Rightarrow> if ov = [] then None else perm_of_val (aget ov field))"

text \<open>The loop over the dotted prefixes of a field name; \<open>done\<close> holds the parts already seen.\<close>

fun prefix_permission :: "(string, perm) dict \<Rightarrow> string list \<Rightarrow> string list \<Rightarrow> perm \<Rightarrow> perm" where
  "prefix_permission fp seen [] current = current"
| "prefix_permission fp seen (p # ps) current =
     prefix_permission fp (seen @ [p]) ps
       (case dget fp (join ''.'' (seen @ [p])) of None \<Rightarrow> current | Some v \<Rightarrow> v)"

definition field_permission :: "etype \<Rightarrow> string \<Rightarrow> (string, pyval) dict option \<Rightarrow> perm" where
  "field_permission t field overrides =
     (let current = prefix_permission (et_field_permissions t) [] (split_on (CHR ''.'') field) ReadWrite in
      case override_permission overrides field of None \<Rightarrow> current | Some p \<Rightarrow> p)"

definition allowed_overrides :: "perm \<Rightarrow> perm set" where
  "allowed_overrides base = (case base of
     PermNone \<Rightarrow> {PermNone, ReadOnly, WriteOnly, ReadWrite}
   | ReadOnly \<Rightarrow> {ReadOnly, ReadWrite}
   | WriteOnly \<Rightarrow> {WriteOnly, ReadWrite}
   | ReadWrite \<Rightarrow> {ReadWrite})"

fun check_field_overrides :: "string \<Rightarrow> etype \<Rightarrow> (string \<times> pyval) list \<Rightarrow> unit res" where
  "check_field_overrides tn t [] = Inr ()"
| "check_field_overrides tn t ((f, v) # fs) =
     (case perm_of_val v of None \<Rightarrow> Inl (ConfigError (''invalid field permission: '' @ py_str v))
      | Some p \<Rightarrow> if p \<notin> allowed_overrides (field_permission t f None)
                 then Inl (ConfigError (''invalid permission downgrade: '' @ tn @ ''.'' @ f))
                 else check_field_overrides tn t fs)"

fun validate_permission_overrides :: "(string, etype) dict \<Rightarrow> (string \<times> pyval) list \<Rightarrow> unit res" where
  "validate_permission_overrides types [] = Inr ()"
| "validate_permission_overrides types ((tn, ov) # rest) =
     (case dget types tn of None \<Rightarrow> Inl (ConfigError (''unknown entity type: '' @ tn))
      | Some t \<Rightarrow> (case ov of
          PDict fs \<Rightarrow> rbind (check_field_overrides tn t fs) (\<lambda>_. validate_permission_overrides types rest)
        | _ \<Rightarrow> Inl (ConfigError ''entity permission override must be a mapping'')))"

section \<open>Validation of entities\<close>

definition missing_fields :: "(string, pyval) dict \<Rightarrow> (string, pyval) dict \<Rightarrow> string list" where
  "missing_fields schema attrs = (case aget schema ''required'' of
     PList rs \<Rightarrow> concat (map (\<lambda>r. case r of PStr f \<Rightarrow> if dhas attrs f then [] else [f] | _ \<Rightarrow> []) rs)
   | _ \<Rightarrow> [])"

definition below_minimum :: "pyval \<Rightarrow> pyval \<Rightarrow> bool" where
  "below_minimum v m = (case (num_of m, num_of v) of (Some a, Some b) \<Rightarrow> b < a | _ \<Rightarrow> False)"

definition check_attribute :: "string \<Rightarrow> string \<Rightarrow> pyval \<Rightarrow> (string, pyval) dict \<Rightarrow> unit res" where
  "check_attribute eid key v fs =
     (let must = (\<lambda>what. Inl (ConfigError (''entity '' @ eid @ ''.'' @ key @ '' must be '' @ what)));
          expected = aget fs ''type''; minimum = aget fs ''minimum'' in
      if expected = PStr ''string'' \<and> \<not> is_str v then must ''string''
      else if expected = PStr ''number'' \<and> \<not> is_number v then must ''number''
      else if expected = PStr ''integer'' \<and> (\<not> is_int v \<or> is_bool v) then must ''integer''
      else if below_minimum v minimum then must (''>= '' @ format_g (the (num_of minimum)))
      else if expected = PStr ''boolean'' \<and> \<not> is_bool v then must ''boolean''
      else if expected = PStr ''object'' \<and> \<not> is_dict v then must ''object''
      else if expected = PStr ''array'' \<and> \<not> is_list v then must ''array''
      else Inr ())"

fun check_attributes :: "string \<Rightarrow> (string, pyval) dict \<Rightarrow> (string \<times> pyval) list \<Rightarrow> unit res" where
  "check_attributes eid attrs [] = Inr ()"
| "check_attributes eid attrs ((key, fs) # ps) =
     rbind (case (dget attrs key, fs) of (Some v, PDict f) \<Rightarrow> check_attribute eid key v f | _ \<Rightarrow> Inr ())
       (\<lambda>_. check_attributes eid attrs ps)"

definition validate_entity_attributes :: "entity \<Rightarrow> etype \<Rightarrow> unit res" where
  "validate_entity_attributes e t =
     (let missing = missing_fields (et_schema t) (en_attrs e) in
      if missing \<noteq> [] then Inl (ConfigError (''entity '' @ en_id e @ '' missing required attributes: '' @ join '', '' missing))
      else (case aget (et_schema t) ''properties'' of
              PDict ps \<Rightarrow> check_attributes (en_id e) (en_attrs e) ps | _ \<Rightarrow> Inr ()))"

definition validated_business_id :: "entity \<Rightarrow> etype \<Rightarrow> pyval" where
  "validated_business_id e t = (if et_business_id_field t = ''id'' then PStr (en_id e)
     else aget (en_attrs e) (et_business_id_field t))"

fun validate_entities_from :: "string set \<Rightarrow> string set \<Rightarrow> (string, etype) dict \<Rightarrow> entity list \<Rightarrow> unit res" where
  "validate_entities_from ids refs types [] = Inr ()"
| "validate_entities_from ids refs types (e # es) =
     (if en_id e \<in> ids then Inl (ConfigError (''duplicate entity id: '' @ en_id e))
      else (case dget types (en_type e) of None \<Rightarrow> Inl (ConfigError (''unknown entity type: '' @ en_type e))
        | Some t \<Rightarrow>
          (let bad = Inl (ConfigError (''entity '' @ en_id e @ '' missing business id field: '' @ et_business_id_field t)) in
           case validated_business_id e t of
             PStr b \<Rightarrow>
               (let ref = en_type e @ '':'' @ b in
                if b = [] then bad
                else if ref \<in> refs then Inl (ConfigError (''duplicate entity business ref: '' @ ref))
                else rbind (if et_validate t then validate_entity_attributes e t else Inr ()) (\<lambda>_.
                  validate_entities_from (insert (en_id e) ids) (insert ref refs) types es))
           | _ \<Rightarrow> bad)))"

definition validate_entities :: "entity list \<Rightarrow> (string, etype) dict \<Rightarrow> unit res" where
  "validate_entities es types = validate_entities_from {} {} types es"

text \<open>\<open>_validate_entity_semantics\<close>: the \<open>wait_for\<close> text of a trigger must be an expression.\<close>

definition validate_semantics :: "entity \<Rightarrow> unit res" where
  "validate_semantics e = (if en_type e \<noteq> ''trigger'' then Inr ()
     else (case aget (en_attrs e) ''wait_for'' of
        PStr s \<Rightarrow> rbind (trigger_expression s) (\<lambda>_. Inr ()) | _ \<Rightarrow> Inr ()))"

text \<open>\<open>_validate_dag_entity_permissions\<close> of the loader.\<close>

definition validate_dag_permissions :: "(string, dag_cfg) dict \<Rightarrow> (string, etype) dict \<Rightarrow> unit res" where
  "validate_dag_permissions dags types =
     fold_res (\<lambda>inst _. case aget (ni_config inst) ''entity_permissions'' of
         PDict p \<Rightarrow> validate_permission_overrides types p | _ \<Rightarrow> Inr ())
       (concat (map dc_nodes (dvalues dags))) ()"


section \<open>The store\<close>

record estore =
  es_entities :: "entity list"
  es_types :: "(string, etype) dict"
  es_relations :: "relation list"
  es_memory :: "(string, (string, entity) dict) dict"
  es_database :: "entity list"
  es_default_run :: "string option"

definition or_str :: "string option \<Rightarrow> string option \<Rightarrow> string option" where
  "or_str a b = (case a of Some s \<Rightarrow> if s \<noteq> [] then a else b | None \<Rightarrow> b)"

definition dedupe_entities :: "entity list \<Rightarrow> entity list" where
  "dedupe_entities es = dedupe_by en_id [] es"

definition memory_of :: "estore \<Rightarrow> string \<Rightarrow> (string, entity) dict" where
  "memory_of st run = dget_default (es_memory st) run []"

definition all_entities :: "estore \<Rightarrow> entity list" where
  "all_entities st = dedupe_entities (es_entities st @ dvalues (memory_of st []) @ es_database st)"

definition tags_of :: "entity \<Rightarrow> string list" where
  "tags_of e = (case aget (en_attrs e) ''tags'' of PList ts \<Rightarrow> map py_str ts
     | _ \<Rightarrow> (case aget (en_attrs e) ''payload'' of
         PDict d \<Rightarrow> (case aget d ''tags'' of PList ts \<Rightarrow> map py_str ts | _ \<Rightarrow> [])
       | _ \<Rightarrow> []))"

text \<open>The filters of \<open>query\<close> and \<open>_matches_query\<close>.\<close>

record query_spec =
  qs_type :: "string option"
  qs_run :: "string option"
  qs_node :: "string option"
  qs_tags :: "string list option"

definition matches_query :: "query_spec \<Rightarrow> entity \<Rightarrow> bool" where
  "matches_query q e =
     ((case qs_type q of None \<Rightarrow> True | Some t \<Rightarrow> en_type e = t)
      \<and> (case qs_run q of None \<Rightarrow> True | Some r \<Rightarrow> aget (en_attrs e) ''run_id'' = PStr r)
      \<and> (case qs_node q of None \<Rightarrow> True | Some n \<Rightarrow> aget (en_attrs e) ''node_id'' = PStr n)
      \<and> (case qs_tags q of None \<Rightarrow> True | Some ts \<Rightarrow> list_all (\<lambda>t. t \<in> set (tags_of e)) ts))"

definition query :: "query_spec \<Rightarrow> estore \<Rightarrow> entity list" where
  "query q st = filter (matches_query q) (all_entities st)"

definition query_all :: query_spec where
  "query_all = \<lparr>qs_type = None, qs_run = None, qs_node = None, qs_tags = None\<rparr>"

definition query_type :: "string \<Rightarrow> query_spec" where
  "query_type t = query_all\<lparr>qs_type := Some t\<rparr>"

definition entity_matches :: "entity \<Rightarrow> (string, etype) dict \<Rightarrow> string \<Rightarrow> bool" where
  "entity_matches e types ref = (if ref = en_id e then True
     else (case entity_ref e types of Inr r \<Rightarrow> ref = r | Inl _ \<Rightarrow> False))"

text \<open>\<open>entity_ref\<close> raises only \<open>KeyError\<close> and \<open>ValueError\<close>, the two errors the callers catch.\<close>

definition entity_refs :: "entity \<Rightarrow> (string, etype) dict \<Rightarrow> string list" where
  "entity_refs e types = en_id e # (case entity_ref e types of Inr r \<Rightarrow> [r] | Inl _ \<Rightarrow> [])"

definition not_found :: "string \<Rightarrow> err" where
  "not_found ref = ConfigError (''Entity not found: '' @ ref)"

definition cached_entity :: "estore \<Rightarrow> string option \<Rightarrow> string \<Rightarrow> entity option" where
  "cached_entity st run ref = (case run of None \<Rightarrow> None | Some r \<Rightarrow> dget (memory_of st r) ref)"

definition resolve :: "estore \<Rightarrow> string \<Rightarrow> string option \<Rightarrow> entity res" where
  "resolve st ref run =
     (case cached_entity st (or_str run (es_default_run st)) ref of
        Some e \<Rightarrow> Inr e
      | None \<Rightarrow> (case filter (\<lambda>e. entity_matches e (es_types st) ref) (query query_all st) of
          e # _ \<Rightarrow> Inr e | [] \<Rightarrow> Inl (not_found ref)))"

section \<open>Query results with the cache of a run\<close>

record query_result =
  qr_entity :: entity
  qr_from_cache :: bool
  qr_run :: "string option"

definition query_results_from :: "estore \<Rightarrow> entity list \<Rightarrow> query_spec \<Rightarrow> string option \<Rightarrow> query_result list" where
  "query_results_from st es q run =
     (let fallback = filter (matches_query q) (dedupe_entities es);
          plain = (\<lambda>e. \<lparr>qr_entity = e, qr_from_cache = False, qr_run = None\<rparr>) in
      case run of None \<Rightarrow> map plain fallback
      | Some r \<Rightarrow>
        (let cached = filter (matches_query q) (dedupe_entities (dvalues (memory_of st r))) in
         map (\<lambda>e. \<lparr>qr_entity = e, qr_from_cache = True, qr_run = Some r\<rparr>) cached
         @ map plain (filter (\<lambda>e. en_id e \<notin> set (map en_id cached)) fallback)))"

definition query_results :: "estore \<Rightarrow> query_spec \<Rightarrow> string option \<Rightarrow> query_result list" where
  "query_results st q run = query_results_from st (query q st) q (or_str run (es_default_run st))"

definition needs_database :: "estore \<Rightarrow> string option \<Rightarrow> bool" where
  "needs_database st ty = (case ty of
     None \<Rightarrow> list_ex (\<lambda>t. et_storage_tier t = Database) (dvalues (es_types st))
   | Some t \<Rightarrow> (case dget (es_types st) t of None \<Rightarrow> False | Some c \<Rightarrow> et_storage_tier c = Database))"

section \<open>Writing attributes under permissions\<close>

definition type_overrides :: "string \<Rightarrow> pyval \<Rightarrow> (string, pyval) dict option" where
  "type_overrides ty permissions = (case permissions of
     PDict p \<Rightarrow> (case aget p ty of PDict fs \<Rightarrow> Some fs | _ \<Rightarrow> None) | _ \<Rightarrow> None)"

definition write_field :: "etype \<Rightarrow> (string, pyval) dict option \<Rightarrow> (string, pyval) dict \<Rightarrow> string
    \<Rightarrow> (string, pyval) dict \<Rightarrow> (string, pyval) dict" where
  "write_field t overrides new f values =
     (let p = field_permission t f overrides in
      case dget new f of
        None \<Rightarrow> if can_read p \<and> can_write p then dpop values f else values
      | Some v \<Rightarrow> if can_write p then dset values f v else values)"

text \<open>The code iterates over a Python set of field names; the fields do not influence each other, so
  the order only decides the order of new keys.\<close>

definition writable_attributes :: "estore \<Rightarrow> entity \<Rightarrow> entity \<Rightarrow> pyval \<Rightarrow> (string, pyval) dict res" where
  "writable_attributes st current e permissions =
     (case dget (es_types st) (en_type current) of None \<Rightarrow> Inl (KeyError (en_type current))
      | Some t \<Rightarrow> Inr (fold (write_field t (type_overrides (en_type current) permissions) (en_attrs e))
           (remdups (dkeys (en_attrs current) @ dkeys (en_attrs e))) (en_attrs current)))"

section \<open>Creating, saving, deleting\<close>

fun remove_first :: "string \<Rightarrow> entity list \<Rightarrow> entity list option" where
  "remove_first i [] = None"
| "remove_first i (e # es) = (if en_id e = i then Some es else map_option (\<lambda>r. e # r) (remove_first i es))"

definition remove_new_entity :: "string \<Rightarrow> estore \<Rightarrow> estore" where
  "remove_new_entity i st =
     (if dhas (memory_of st []) i
      then st\<lparr>es_memory := dset (es_memory st) [] (dpop (memory_of st []) i)\<rparr>
      else (case remove_first i (es_database st) of
          Some d \<Rightarrow> st\<lparr>es_database := d\<rparr>
        | None \<Rightarrow> (case remove_first i (es_entities st) of
            Some es \<Rightarrow> st\<lparr>es_entities := es\<rparr> | None \<Rightarrow> st)))"

definition validate_store :: "estore \<Rightarrow> unit res" where
  "validate_store st = validate_entities (es_entities st) (es_types st)"

definition add_entity :: "storage_tier \<Rightarrow> entity \<Rightarrow> estore \<Rightarrow> estore" where
  "add_entity tier e st = (case tier of
     Memory \<Rightarrow> st\<lparr>es_memory := dset (es_memory st) [] (dset (memory_of st []) (en_id e) e)\<rparr>
   | Database \<Rightarrow> st\<lparr>es_database := es_database st @ [e]\<rparr>
   | Filesystem \<Rightarrow> st\<lparr>es_entities := es_entities st @ [e]\<rparr>)"

text \<open>\<open>fresh\<close> is the value of \<open>uuid4().hex\<close>. An empty \<open>entity_id\<close> counts as none.\<close>

definition create :: "string \<Rightarrow> (string, pyval) dict \<Rightarrow> string option \<Rightarrow> string \<Rightarrow> estore \<Rightarrow> (estore, entity) outcome" where
  "create ty attrs eid fresh st =
     (case dget (es_types st) ty of None \<Rightarrow> (Inl (ConfigError (''unknown entity type: '' @ ty)), st)
      | Some t \<Rightarrow>
        (let e = \<lparr>en_id = the (or_str eid (Some fresh)), en_type = ty, en_attrs = attrs\<rparr> in
         case validate_semantics e of Inl x \<Rightarrow> (Inl x, st)
         | Inr _ \<Rightarrow>
           (let st' = add_entity (et_storage_tier t) e st in
            case validate_store st' of Inr _ \<Rightarrow> (Inr e, st')
            | Inl x \<Rightarrow> (Inl x, if is_config_error x then remove_new_entity (en_id e) st' else st'))))"

definition checked_update :: "estore \<Rightarrow> entity \<Rightarrow> entity \<Rightarrow> pyval \<Rightarrow> entity res" where
  "checked_update st current e permissions =
     (if en_type current \<noteq> en_type e then Inl (ConfigError (''Entity type cannot change: '' @ en_id e))
      else rbind (writable_attributes st current e permissions) (\<lambda>attrs.
        let saved = e\<lparr>en_attrs := attrs\<rparr> in rbind (validate_semantics saved) (\<lambda>_. Inr saved)))"

fun index_of_id :: "string \<Rightarrow> entity list \<Rightarrow> nat option" where
  "index_of_id i [] = None"
| "index_of_id i (e # es) = (if en_id e = i then Some 0 else map_option Suc (index_of_id i es))"

definition save_file :: "nat \<Rightarrow> entity \<Rightarrow> pyval \<Rightarrow> estore \<Rightarrow> (estore, entity) outcome" where
  "save_file i e permissions st =
     (case checked_update st (es_entities st ! i) e permissions of Inl x \<Rightarrow> (Inl x, st)
      | Inr saved \<Rightarrow>
        (let st' = st\<lparr>es_entities := (es_entities st)[i := saved]\<rparr> in
         case validate_store st' of Inr _ \<Rightarrow> (Inr saved, st')
         | Inl x \<Rightarrow> (Inl x, if is_config_error x
             then st'\<lparr>es_entities := (es_entities st')[i := es_entities st ! i]\<rparr> else st')))"

definition save_memory :: "entity \<Rightarrow> entity \<Rightarrow> pyval \<Rightarrow> estore \<Rightarrow> (estore, entity) outcome" where
  "save_memory current e permissions st =
     (case checked_update st current e permissions of Inl x \<Rightarrow> (Inl x, st)
      | Inr saved \<Rightarrow> (Inr saved, st\<lparr>es_memory := dset (es_memory st) [] (dset (memory_of st []) (en_id e) saved)\<rparr>))"

definition save_database :: "nat \<Rightarrow> entity \<Rightarrow> pyval \<Rightarrow> estore \<Rightarrow> (estore, entity) outcome" where
  "save_database i e permissions st =
     (case checked_update st (es_database st ! i) e permissions of Inl x \<Rightarrow> (Inl x, st)
      | Inr saved \<Rightarrow> (Inr saved, st\<lparr>es_database := (es_database st)[i := saved]\<rparr>))"

definition save :: "entity \<Rightarrow> pyval \<Rightarrow> estore \<Rightarrow> (estore, entity) outcome" where
  "save e permissions st =
     (case index_of_id (en_id e) (es_entities st) of
        Some i \<Rightarrow> save_file i e permissions st
      | None \<Rightarrow>
        (let st1 = st\<lparr>es_memory := dsetdefault (es_memory st) [] []\<rparr> in
         case dget (memory_of st1 []) (en_id e) of
           Some current \<Rightarrow> save_memory current e permissions st1
         | None \<Rightarrow> (case index_of_id (en_id e) (es_database st1) of
             Some i \<Rightarrow> save_database i e permissions st1
           | None \<Rightarrow> (Inl (not_found (en_id e)), st1))))"

definition delete_entity :: "string \<Rightarrow> estore \<Rightarrow> (estore, nat) outcome" where
  "delete_entity eid st =
     (case index_of_id eid (es_entities st) of None \<Rightarrow> (Inl (not_found eid), st)
      | Some i \<Rightarrow>
        (let current = es_entities st ! i in
         case entity_ref current (es_types st) of Inl x \<Rightarrow> (Inl x, st)
         | Inr ref \<Rightarrow>
           (let removed = filter (\<lambda>r. list_ex (\<lambda>x. x = en_id current \<or> x = ref) (rl_entities r)) (es_relations st);
                st' = st\<lparr>es_entities := take i (es_entities st) @ drop (Suc i) (es_entities st),
                         es_relations := filter (\<lambda>r. r \<notin> set removed) (es_relations st)\<rparr> in
            case validate_store st' of Inr _ \<Rightarrow> (Inr (length removed), st')
            | Inl x \<Rightarrow> (Inl x, if is_config_error x then st else st'))))"

definition clear_cache_for_dag :: "string \<Rightarrow> estore \<Rightarrow> estore" where
  "clear_cache_for_dag run st = st\<lparr>es_memory := dpop (es_memory st) run\<rparr>"

section \<open>Relations\<close>

definition resolved_ref :: "estore \<Rightarrow> string option \<Rightarrow> string \<Rightarrow> string res" where
  "resolved_ref st run ref = rbind (resolve st ref run) (\<lambda>e. entity_ref e (es_types st))"

text \<open>The test for a duplicate compares the type first and normalises the references of a relation
  only when the types agree; a reference that does not resolve raises.\<close>

fun has_duplicate :: "estore \<Rightarrow> string \<Rightarrow> string list \<Rightarrow> relation list \<Rightarrow> bool res" where
  "has_duplicate st ty refs [] = Inr False"
| "has_duplicate st ty refs (r # rs) =
     (if rl_type r \<noteq> ty then has_duplicate st ty refs rs
      else rbind (map_res (resolved_ref st None) (rl_entities r)) (\<lambda>xs.
        if xs = refs then Inr True else has_duplicate st ty refs rs))"

definition create_relation :: "string list \<Rightarrow> string \<Rightarrow> (string, pyval) dict \<Rightarrow> string \<Rightarrow> estore \<Rightarrow> (estore, relation) outcome" where
  "create_relation refs ty metadata fresh st =
     (case map_res (resolved_ref st None) refs of Inl x \<Rightarrow> (Inl x, st)
      | Inr normalized \<Rightarrow>
        (case has_duplicate st ty normalized (es_relations st) of Inl x \<Rightarrow> (Inl x, st)
         | Inr True \<Rightarrow> (Inl (ConfigEditError ''duplicate entity relation''), st)
         | Inr False \<Rightarrow>
           (let r = \<lparr>rl_id = fresh, rl_entities = normalized, rl_type = ty, rl_metadata = metadata\<rparr> in
            (Inr r, st\<lparr>es_relations := es_relations st @ [r]\<rparr>))))"

fun remove_relation :: "string \<Rightarrow> relation list \<Rightarrow> relation list option" where
  "remove_relation i [] = None"
| "remove_relation i (r # rs) = (if rl_id r = i then Some rs else map_option (\<lambda>x. r # x) (remove_relation i rs))"

definition delete_relation :: "string \<Rightarrow> estore \<Rightarrow> (estore, unit) outcome" where
  "delete_relation i st = (case remove_relation i (es_relations st) of
     None \<Rightarrow> (Inl (ConfigError (''Entity relation not found: '' @ i)), st)
   | Some rs \<Rightarrow> (Inr (), st\<lparr>es_relations := rs\<rparr>))"

definition cached_relation :: "entity \<Rightarrow> relation" where
  "cached_relation e = (let a = en_attrs e;
     refs = (case aget a ''entities'' of PList xs \<Rightarrow> xs | _ \<Rightarrow> [aget a ''from_entity_id'', aget a ''to_entity_id'']) in
     \<lparr>rl_id = en_id e, rl_entities = map py_str (filter truthy refs),
      rl_type = str_or (aget a ''relation_type'') [],
      rl_metadata = (case aget a ''metadata'' of PDict d \<Rightarrow> d | _ \<Rightarrow> [])\<rparr>)"

definition relations_for_dag :: "estore \<Rightarrow> string option \<Rightarrow> relation list" where
  "relations_for_dag st run = (case run of None \<Rightarrow> es_relations st
     | Some r \<Rightarrow> es_relations st @ map cached_relation
         (dedupe_by en_id (map rl_id (es_relations st))
            (filter (\<lambda>e. en_type e = ''relation'') (dvalues (memory_of st r)))))"

definition add_related :: "string \<Rightarrow> string list \<Rightarrow> string list \<Rightarrow> string list" where
  "add_related me refs acc = fold (\<lambda>x acc. if x \<noteq> me \<and> x \<notin> set acc then acc @ [x] else acc) refs acc"

definition related_refs :: "estore \<Rightarrow> string \<Rightarrow> string option \<Rightarrow> string list res" where
  "related_refs st ref run =
     (let eff = or_str run (es_default_run st) in
      rbind (resolved_ref st eff ref) (\<lambda>me.
      fold_res (\<lambda>r acc. rbind (map_res (resolved_ref st eff) (rl_entities r)) (\<lambda>refs.
          Inr (if me \<in> set refs then add_related me refs acc else acc)))
        (relations_for_dag st eff) []))"

text \<open>\<open>_cache_entity\<close>, \<open>_relation_entity\<close> and \<open>preload_for_dag\<close>; the parameters are what the repository
  reads: the entity of a reference and the relations of a set of references.\<close>

definition cache_entity :: "(string, etype) dict \<Rightarrow> string \<Rightarrow> entity \<Rightarrow> (string, entity) dict \<Rightarrow> (string, entity) dict" where
  "cache_entity types ref e cached = fold (\<lambda>k c. dset c k e) (entity_refs e types) (dset cached ref e)"

definition looks_like_output :: "(string, pyval) dict \<Rightarrow> bool" where
  "looks_like_output a = (is_dict (aget a ''payload'') \<and> (is_str (aget a ''run_id'') \<or> is_str (aget a ''node_id'')))"

section \<open>Entity types of the running system\<close>

definition core_types :: "string list" where
  "core_types = [''node'', ''dag'', ''trigger'', ''resource'', ''input_mapping'']"

definition base_type :: "string \<Rightarrow> string \<Rightarrow> string \<Rightarrow> bool \<Rightarrow> string list \<Rightarrow> (string \<times> string) list \<Rightarrow> etype" where
  "base_type display bid template protected required props =
     \<lparr>et_display_name = display, et_business_id_field = bid, et_display_template = template,
      et_storage_tier = Filesystem, et_table_name = None, et_schema_version = 1, et_materialized = [],
      et_deprecated = [], et_system_protected = protected,
      et_schema = [(''required'', PList (map PStr required)),
        (''properties'', PDict (map (\<lambda>(f, t). (f, PDict [(''type'', PStr t)])) props))],
      et_field_permissions = [], et_validate = True\<rparr>"

definition default_core_types :: "(string, etype) dict" where
  "default_core_types =
     [(''node'', base_type ''Node'' ''name'' ''{name}'' True [''name'', ''type'', ''input_type'', ''output_type'']
        [(''name'', ''string''), (''type'', ''string''), (''role'', ''string''), (''handler'', ''string''),
         (''input_type'', ''string''), (''output_type'', ''string'')]),
      (''dag'', base_type ''DAG'' ''name'' ''{name}'' True [''name'', ''nodes'', ''edges'']
        [(''name'', ''string''), (''nodes'', ''array''), (''edges'', ''array''), (''ui'', ''object'')]),
      (''trigger'', base_type ''Trigger'' ''name'' ''{name}'' True [''name'', ''wait_for'', ''target'']
        [(''name'', ''string''), (''wait_for'', ''string''), (''target'', ''string''), (''enabled'', ''boolean'')]),
      (''resource'', (base_type ''Resource'' ''id'' ''{id}'' True [''permits''] [])
         \<lparr>et_schema := [(''required'', PList [PStr ''permits'']),
            (''properties'', PDict [(''permits'', PDict [(''type'', PStr ''integer''), (''minimum'', PInt 1)])])]\<rparr>),
      (''input_mapping'', base_type ''Input Mapping'' ''name'' ''{name}'' True [''name'']
        [(''name'', ''string''), (''shared'', ''object''), (''nodes'', ''object''), (''append_nodes'', ''array'')])]"

definition default_relation_type :: etype where
  "default_relation_type =
     (base_type ''Relation'' ''id'' ''{from} -> {to}'' False [''from'', ''to'', ''relation_type'']
        [(''from'', ''string''), (''to'', ''string''), (''relation_type'', ''string''), (''metadata'', ''object'')])
     \<lparr>et_storage_tier := Database\<rparr>"

definition to_database :: "string \<Rightarrow> (string, etype) dict \<Rightarrow> (string, etype) dict" where
  "to_database name d = (case dget d name of None \<Rightarrow> d
     | Some t \<Rightarrow> dset d name (t\<lparr>et_storage_tier := Database\<rparr>))"

definition runtime_entity_types :: "(string, etype) dict \<Rightarrow> (string, etype) dict" where
  "runtime_entity_types types =
     (let d1 = fold (\<lambda>(n, t) d. dsetdefault d n t) default_core_types types;
          d2 = dsetdefault d1 ''relation'' default_relation_type;
          d3 = fold to_database core_types d2 in
      case dget d3 ''relation'' of None \<Rightarrow> d3
      | Some t \<Rightarrow> dset d3 ''relation'' (t\<lparr>et_business_id_field := ''id'', et_storage_tier := Database\<rparr>))"

end
