(* ===== verification/Trigger.thy ===== *)
theory Trigger
  imports EntityStore
begin

text \<open>
  \<open>trigger.py\<close>, the event machinery: the event group, the wait registry, the trigger executor and the
  cron emitter. The targets that start a DAG or a node are callbacks: functions of the call's
  arguments and of the executor's state, which they may change. Futures are numbered; the clock
  and the time stamps of the emit records are not part of the state, so the records of the table
  are kept in the order of their insertion.
\<close>

section \<open>The event group\<close>

text \<open>\<open>eg_rows\<close> is the table of the database, \<open>None\<close> when the group has no session factory.\<close>

record event_group =
  eg_events :: "string set"
  eg_rows :: "string set option"

definition eg_load :: "event_group \<Rightarrow> event_group" where
  "eg_load g = (case eg_rows g of None \<Rightarrow> g | Some r \<Rightarrow> g\<lparr>eg_events := r\<rparr>)"

definition eg_set :: "string \<Rightarrow> event_group \<Rightarrow> event_group res" where
  "eg_set ev g = (if ev = [] then Inl (ConfigError ''event must not be blank'')
     else Inr (g\<lparr>eg_events := insert ev (eg_events g), eg_rows := map_option (insert ev) (eg_rows g)\<rparr>))"

definition eg_clear :: "string \<Rightarrow> event_group \<Rightarrow> event_group" where
  "eg_clear ev g = g\<lparr>eg_events := eg_events g - {ev}, eg_rows := map_option (\<lambda>r. r - {ev}) (eg_rows g)\<rparr>"

fun eg_consume :: "string list \<Rightarrow> event_group \<Rightarrow> event_group" where
  "eg_consume [] g = g"
| "eg_consume (t # ts) g = eg_consume ts (if t = ''startup'' then g else eg_clear t g)"

section \<open>The wait registry\<close>

datatype fut = Pending | Done pyval | Cancelled

record waiter =
  wt_expr :: trigger_expr
  wt_future :: nat

record wait_registry =
  wr_waiters :: "waiter list"
  wr_matched :: "(nat, string list) dict"
  wr_futures :: "(nat, fut) dict"
  wr_next :: nat

definition wr_register :: "string \<Rightarrow> wait_registry \<Rightarrow> (wait_registry, nat) outcome" where
  "wr_register wait_for w =
     (let f = wr_next w; w' = w\<lparr>wr_next := Suc f, wr_futures := dset (wr_futures w) f Pending\<rparr> in
      case trigger_expression wait_for of Inl e \<Rightarrow> (Inl e, w')
      | Inr x \<Rightarrow> (Inr f, w'\<lparr>wr_waiters := wr_waiters w' @ [\<lparr>wt_expr = x, wt_future = f\<rparr>]\<rparr>))"

definition wr_unregister :: "nat \<Rightarrow> wait_registry \<Rightarrow> wait_registry" where
  "wr_unregister f w = w\<lparr>wr_waiters := filter (\<lambda>x. wt_future x \<noteq> f) (wr_waiters w), wr_matched := dpop (wr_matched w) f\<rparr>"

definition fut_done :: "wait_registry \<Rightarrow> nat \<Rightarrow> bool" where
  "fut_done w f = (dget (wr_futures w) f \<noteq> Some Pending)"

fun wr_ready_from :: "waiter list \<Rightarrow> string set \<Rightarrow> pyval \<Rightarrow> wait_registry \<Rightarrow> wait_registry" where
  "wr_ready_from [] active payload w = w"
| "wr_ready_from (x # xs) active payload w =
     wr_ready_from xs active payload
       (if fut_done w (wt_future x) then w
        else if evaluate (wt_expr x) active then
          w\<lparr>wr_matched := dset (wr_matched w) (wt_future x) (matched_tokens (wt_expr x) active),
            wr_futures := dset (wr_futures w) (wt_future x) (Done payload)\<rparr>
        else w)"

definition wr_ready :: "string set \<Rightarrow> pyval \<Rightarrow> wait_registry \<Rightarrow> wait_registry" where
  "wr_ready active payload w = wr_ready_from (wr_waiters w) active payload w"

definition wr_matched_tokens :: "nat \<Rightarrow> wait_registry \<Rightarrow> string list" where
  "wr_matched_tokens f w = dget_default (wr_matched w) f []"

definition wr_active_tokens :: "wait_registry \<Rightarrow> string set" where
  "wr_active_tokens w = set (concat (dvalues (wr_matched w)))"

section \<open>The trigger executor\<close>

record emit_record =
  er_event :: string
  er_payload :: pyval
  er_source :: string
  er_depth :: int

record 'w trig =
  tx_store :: estore
  tx_max_depth :: int
  tx_events :: event_group
  tx_waiters :: wait_registry
  tx_records :: "emit_record list"
  tx_table :: "emit_record list option"
  tx_triggers :: "entity list option"
  tx_world :: 'w

datatype call_args = Args3 string pyval string | Args2 string pyval | Args1 string

type_synonym 'w target = "call_args \<Rightarrow> 'w trig \<Rightarrow> ('w trig, pyval) outcome"

record 'w targets =
  tg_dag :: "'w target option"
  tg_node :: "'w target option"

text \<open>\<open>_payload_adapter\<close>: a \<open>TypeError\<close>, wherever it was raised, makes it call again with fewer
  arguments.\<close>

definition type_failed :: "'a res \<Rightarrow> bool" where
  "type_failed r = (case r of Inl (TypeError _) \<Rightarrow> True | _ \<Rightarrow> False)"

definition payload_adapter :: "'w target \<Rightarrow> string \<Rightarrow> pyval \<Rightarrow> string \<Rightarrow> 'w trig \<Rightarrow> ('w trig, pyval) outcome" where
  "payload_adapter f name payload source st =
     (let r1 = f (Args3 name payload source) st in
      if \<not> type_failed (fst r1) then r1
      else (let r2 = f (Args2 name payload) (snd r1) in
        if \<not> type_failed (fst r2) then r2 else f (Args1 name) (snd r2)))"

definition load_triggers :: "'w trig \<Rightarrow> 'w trig" where
  "load_triggers st = st\<lparr>tx_triggers := Some (query (query_type ''trigger'') (tx_store st)),
     tx_events := eg_load (tx_events st)\<rparr>"

definition triggers :: "'w trig \<Rightarrow> entity list" where
  "triggers st = (case tx_triggers st of Some ts \<Rightarrow> ts | None \<Rightarrow> query (query_type ''trigger'') (tx_store st))"

text \<open>\<open>_trigger_expression\<close>\<close>

definition expression_of :: "entity \<Rightarrow> trigger_expr option res" where
  "expression_of t = (case aget (en_attrs t) ''wait_for'' of
     PStr s \<Rightarrow> if strip_ws s = [] then Inr None else rbind (trigger_expression s) (\<lambda>x. Inr (Some x))
   | _ \<Rightarrow> Inr None)"

fun index_triggers :: "entity list \<Rightarrow> (string, entity list) dict \<Rightarrow> (string, entity list) dict res" where
  "index_triggers [] idx = Inr idx"
| "index_triggers (t # ts) idx =
     rbind (expression_of t) (\<lambda>x. index_triggers ts
       (case x of None \<Rightarrow> idx
        | Some e \<Rightarrow> fold (\<lambda>tok d. dset d tok (dget_default d tok [] @ [t])) (te_tokens e) idx))"

definition reverse_index :: "'w trig \<Rightarrow> (string, entity list) dict res" where
  "reverse_index st = index_triggers (triggers st) []"

definition affected_triggers :: "string \<Rightarrow> 'w trig \<Rightarrow> entity list res" where
  "affected_triggers ev st = rbind (reverse_index st) (\<lambda>i. Inr (dget_default i ev []))"

definition record_emit :: "string \<Rightarrow> pyval \<Rightarrow> string \<Rightarrow> int \<Rightarrow> 'w trig \<Rightarrow> 'w trig" where
  "record_emit ev payload source depth st =
     (let r = \<lparr>er_event = ev, er_payload = payload, er_source = source, er_depth = depth\<rparr> in
      st\<lparr>tx_records := tx_records st @ [r], tx_table := map_option (\<lambda>t. t @ [r]) (tx_table st)\<rparr>)"

definition manual_target :: "string \<Rightarrow> string res" where
  "manual_target ev =
     (let bad = Inl (ConfigError (''unsupported manual trigger event: '' @ ev)) in
      case split_once (CHR '':'') ev of
        [_, r] \<Rightarrow> (case split_once (CHR '':'') r of
            [k, n] \<Rightarrow> if (k \<noteq> ''dag'' \<and> k \<noteq> ''node'') \<or> n = [] then bad
                     else if k = ''node'' \<and> CHR ''/'' \<notin> set n then bad
                     else Inr (k @ '':'' @ n)
          | _ \<Rightarrow> bad)
      | _ \<Rightarrow> bad)"

definition is_oneshot :: "string list \<Rightarrow> bool" where
  "is_oneshot toks = list_ex (\<lambda>t. starts_with t cron_open
     \<and> take 3 (drop 2 (split_ws (cron_value t))) \<noteq> [''*'', ''*'', ''*'']) toks"

definition clear_event :: "string \<Rightarrow> 'w trig \<Rightarrow> 'w trig" where
  "clear_event ev st = st\<lparr>tx_events := eg_clear ev (tx_events st)\<rparr>"

definition fire :: "'w targets \<Rightarrow> string \<Rightarrow> pyval \<Rightarrow> string \<Rightarrow> 'w trig \<Rightarrow> ('w trig, pyval) outcome" where
  "fire tg target payload source st =
     (let bad = (Inl (ConfigError (''unsupported trigger target: '' @ target)), st) in
      if starts_with target ''clear:'' then (Inr PNone, clear_event (removeprefix target ''clear:'') st)
      else (case (if starts_with target ''dag:'' then tg_dag tg else None) of
         Some f \<Rightarrow> payload_adapter f (removeprefix target ''dag:'') payload source st
       | None \<Rightarrow> (case (if starts_with target ''node:'' then tg_node tg else None) of
           Some f \<Rightarrow> payload_adapter f (removeprefix target ''node:'') payload source st
         | None \<Rightarrow> bad)))"

definition disable_trigger :: "entity \<Rightarrow> 'w trig \<Rightarrow> ('w trig, unit) outcome" where
  "disable_trigger t st =
     (let updated = t\<lparr>en_attrs := dset (en_attrs t) ''enabled'' (PBool False)\<rparr>;
          st1 = st\<lparr>tx_triggers := map_option (map (\<lambda>x. if en_id x = en_id updated then updated else x)) (tx_triggers st)\<rparr> in
      case save updated PNone (tx_store st1) of
        (Inl e, s) \<Rightarrow> (Inl e, st1\<lparr>tx_store := s\<rparr>)
      | (Inr _, s) \<Rightarrow> (Inr (), st1\<lparr>tx_store := s\<rparr>))"

definition trigger_source :: "bool \<Rightarrow> trigger_expr \<Rightarrow> entity \<Rightarrow> string" where
  "trigger_source startup_active x t =
     (if startup_active \<and> ''startup'' \<in> set (te_tokens x) then ''startup'' else ''trigger:'' @ en_id t)"

definition target_text :: "entity \<Rightarrow> string" where
  "target_text t = (case dget (en_attrs t) ''target'' of None \<Rightarrow> [] | Some v \<Rightarrow> py_str v)"

definition enabled :: "entity \<Rightarrow> bool" where
  "enabled t = (dget (en_attrs t) ''enabled'' \<noteq> Some (PBool False))"

text \<open>What follows a successful \<open>fire\<close>: the matched tokens that no waiter holds are consumed and a
  one-shot trigger is disabled.\<close>

definition after_fire :: "entity \<Rightarrow> trigger_expr \<Rightarrow> 'w trig \<Rightarrow> ('w trig, unit) outcome" where
  "after_fire t x st =
     (let toks = filter (\<lambda>k. k \<notin> wr_active_tokens (tx_waiters st)) (matched_tokens x (eg_events (tx_events st)));
          st1 = st\<lparr>tx_events := eg_consume toks (tx_events st)\<rparr> in
      if is_oneshot (te_tokens x) then disable_trigger t st1 else (Inr (), st1))"

fun fire_triggers :: "'w targets \<Rightarrow> bool \<Rightarrow> pyval \<Rightarrow> entity list \<Rightarrow> 'w trig \<Rightarrow> ('w trig, string list) outcome" where
  "fire_triggers tg startup payload [] st = (Inr [], st)"
| "fire_triggers tg startup payload (t # ts) st =
     (if \<not> enabled t then fire_triggers tg startup payload ts st
      else (case expression_of t of Inl e \<Rightarrow> (Inl e, st)
        | Inr None \<Rightarrow> fire_triggers tg startup payload ts st
        | Inr (Some x) \<Rightarrow>
          if \<not> evaluate x (eg_events (tx_events st)) then fire_triggers tg startup payload ts st
          else (case fire tg (target_text t) payload (trigger_source startup x t) st of
              (Inl e, st1) \<Rightarrow> (Inl e, st1)
            | (Inr _, st1) \<Rightarrow> (case after_fire t x st1 of
                (Inl e, st2) \<Rightarrow> (Inl e, st2)
              | (Inr _, st2) \<Rightarrow> (case fire_triggers tg startup payload ts st2 of
                  (Inl e, st3) \<Rightarrow> (Inl e, st3)
                | (Inr fs, st3) \<Rightarrow> (Inr (target_text t # fs), st3))))))"

definition emit_event :: "'w targets \<Rightarrow> string \<Rightarrow> pyval \<Rightarrow> 'w trig \<Rightarrow> ('w trig, string list) outcome" where
  "emit_event tg ev payload st =
     (case eg_set ev (tx_events st) of Inl e \<Rightarrow> (Inl e, st)
      | Inr g \<Rightarrow>
        (let st1 = st\<lparr>tx_events := g, tx_waiters := wr_ready (eg_events g) payload (tx_waiters st)\<rparr> in
         case affected_triggers ev st1 of Inl e \<Rightarrow> (Inl e, st1)
         | Inr ts \<Rightarrow> fire_triggers tg (''startup'' \<in> eg_events g) payload ts st1))"

definition emit :: "'w targets \<Rightarrow> string \<Rightarrow> pyval \<Rightarrow> string \<Rightarrow> int \<Rightarrow> 'w trig \<Rightarrow> ('w trig, string list) outcome" where
  "emit tg ev payload source depth st =
     (if tx_max_depth st \<le> depth then (Inl (ConfigError ''max trigger depth exceeded''), st)
      else (let st1 = record_emit ev payload source depth st in
        if starts_with ev ''manual:'' then
          (case manual_target ev of Inl e \<Rightarrow> (Inl e, st1)
           | Inr target \<Rightarrow> (case fire tg target payload ''manual'' st1 of
               (Inl e, st2) \<Rightarrow> (Inl e, st2)
             | (Inr r, st2) \<Rightarrow> (Inr [if is_none r then target else py_str r], st2)))
        else if starts_with ev ''clear:'' then (Inr [], clear_event (removeprefix ev ''clear:'') st1)
        else emit_event tg ev payload st1))"

text \<open>\<open>_latest_payload\<close> looks in the records of this process first, newest first, then in the table.\<close>

definition latest_payload :: "string list \<Rightarrow> 'w trig \<Rightarrow> pyval" where
  "latest_payload toks st =
     (case find (\<lambda>r. er_event r \<in> set toks) (rev (tx_records st)) of
        Some r \<Rightarrow> er_payload r
      | None \<Rightarrow> (case tx_table st of None \<Rightarrow> PNone
          | Some t \<Rightarrow> (case find (\<lambda>r. er_event r \<in> set toks) (rev t) of Some r \<Rightarrow> er_payload r | None \<Rightarrow> PNone)))"

definition wait_payload :: "string \<Rightarrow> 'w trig \<Rightarrow> (pyval \<times> string list) option res" where
  "wait_payload wait_for st = rbind (trigger_expression wait_for) (\<lambda>x.
     let active = eg_events (tx_events st) in
     if \<not> evaluate x active then Inr None
     else Inr (Some (latest_payload (matched_tokens x active) st, matched_tokens x active)))"

section \<open>Cron\<close>

text \<open>A point of time with the resolution of a minute. The weekday counts from Monday, as
  \<open>datetime.weekday\<close> does.\<close>

record minute_time =
  mt_year :: nat
  mt_month :: nat
  mt_day :: nat
  mt_hour :: nat
  mt_minute :: nat

definition leap_year :: "nat \<Rightarrow> bool" where
  "leap_year y = (y mod 4 = 0 \<and> (y mod 100 \<noteq> 0 \<or> y mod 400 = 0))"

definition days_before_month :: "nat \<Rightarrow> nat \<Rightarrow> nat" where
  "days_before_month y m = sum_list (take (m - 1) [31, 28, 31, 30, 31, 30, 31, 31, 30, 31, 30])
     + (if 2 < m \<and> leap_year y then 1 else 0)"

definition day_ordinal :: "minute_time \<Rightarrow> nat" where
  "day_ordinal t = (let y = mt_year t - 1 in
     365 * y + y div 4 - y div 100 + y div 400 + days_before_month (mt_year t) (mt_month t) + mt_day t)"

definition weekday :: "minute_time \<Rightarrow> nat" where
  "weekday t = (day_ordinal t + 6) mod 7"

fun any_res :: "('a \<Rightarrow> bool res) \<Rightarrow> 'a list \<Rightarrow> bool res" where
  "any_res f [] = Inr False"
| "any_res f (x # xs) = rbind (f x) (\<lambda>b. if b then Inr True else any_res f xs)"

fun all_res :: "('a \<Rightarrow> bool res) \<Rightarrow> 'a list \<Rightarrow> bool res" where
  "all_res f [] = Inr True"
| "all_res f (x # xs) = rbind (f x) (\<lambda>b. if b then all_res f xs else Inr False)"

text \<open>\<open>_cron_field_matches\<close>: a part of a comma list holds no comma, so the recursive call is the case
  without a list.\<close>

definition cron_part_matches :: "string \<Rightarrow> nat \<Rightarrow> nat \<Rightarrow> bool res" where
  "cron_part_matches f v i =
     (if f = ''*'' then Inr True
      else if starts_with f ''*/'' then
        rbind (py_int_of_text (drop 2 f)) (\<lambda>k. Inr (0 < k \<and> int v mod k = 0))
      else if CHR ''-'' \<in> set f then
        (case split_once (CHR ''-'') f of
           [a, b] \<Rightarrow> rbind (py_int_of_text a) (\<lambda>s. rbind (py_int_of_text b) (\<lambda>e. Inr (s \<le> int v \<and> int v \<le> e)))
         | _ \<Rightarrow> Inr False)
      else rbind (py_int_of_text f) (\<lambda>k. Inr (int v = (if i = 4 \<and> k = 7 then 6 else k))))"

definition cron_field_matches :: "string \<Rightarrow> nat \<Rightarrow> nat \<Rightarrow> bool res" where
  "cron_field_matches f v i =
     (if f \<noteq> ''*'' \<and> \<not> starts_with f ''*/'' \<and> CHR '','' \<in> set f
      then any_res (\<lambda>p. cron_part_matches p v i) (split_on (CHR '','') f)
      else cron_part_matches f v i)"

definition cron_values :: "minute_time \<Rightarrow> nat list" where
  "cron_values t = [mt_minute t, mt_hour t, mt_day t, mt_month t, weekday t]"

definition cron_matches :: "string \<Rightarrow> minute_time \<Rightarrow> bool res" where
  "cron_matches cron t =
     (let fs = split_ws cron in
      if length fs \<noteq> 5 then expr_error ''cron token must contain five fields''
      else all_res (\<lambda>x. cron_field_matches (fst (snd x)) (snd (snd x)) (fst x))
             (zip [0..<5] (zip fs (cron_values t))))"

text \<open>\<open>CronEmitter\<close>: its state is the set of the tokens and minutes already emitted.\<close>

definition cron_tokens :: "'w trig \<Rightarrow> string list res" where
  "cron_tokens st = rbind (reverse_index st) (\<lambda>i. Inr (filter (\<lambda>t. starts_with t cron_open) (dkeys i)))"

type_synonym cron_key = "string \<times> minute_time"

fun tick_tokens :: "'w targets \<Rightarrow> minute_time \<Rightarrow> string list \<Rightarrow> cron_key set \<Rightarrow> 'w trig
    \<Rightarrow> (cron_key set \<times> 'w trig, string list) outcome" where
  "tick_tokens tg now [] emitted st = (Inr [], (emitted, st))"
| "tick_tokens tg now (t # ts) emitted st =
     (if (t, now) \<in> emitted then tick_tokens tg now ts emitted st
      else (case cron_matches (cron_value t) now of
          Inl e \<Rightarrow> (Inl e, (emitted, st))
        | Inr False \<Rightarrow> tick_tokens tg now ts emitted st
        | Inr True \<Rightarrow>
          (case emit tg t PNone ''cron'' 0 st of
             (Inl e, st1) \<Rightarrow> (Inl e, (insert (t, now) emitted, st1))
           | (Inr _, st1) \<Rightarrow>
             (case tick_tokens tg now ts (insert (t, now) emitted) st1 of
                (Inl e, s) \<Rightarrow> (Inl e, s)
              | (Inr fs, s) \<Rightarrow> (Inr (t # fs), s)))))"

definition tick :: "'w targets \<Rightarrow> minute_time \<Rightarrow> cron_key set \<Rightarrow> 'w trig
    \<Rightarrow> (cron_key set \<times> 'w trig, string list) outcome" where
  "tick tg now emitted st = (case cron_tokens st of Inl e \<Rightarrow> (Inl e, (emitted, st))
     | Inr ts \<Rightarrow> tick_tokens tg now (sort ts) emitted st)"

end
