(* ===== verification/TriggerExprProps.thy ===== *)
theory TriggerExprProps
  imports TriggerExpr
begin

text \<open>
  What the trigger expressions of \<open>trigger.py\<close> guarantee: the parser inverts a printer, an accepted
  expression can be printed and read again, no accepted expression waits for a reserved \<open>manual:\<close>
  event, and evaluation depends on the matched tokens only and is monotone.
\<close>

section \<open>Printing\<close>

definition in_parens :: "bool \<Rightarrow> ltok list \<Rightarrow> ltok list" where
  "in_parens b ts = (if b then [LOpen] @ ts @ [LClose] else ts)"

text \<open>The precedence argument: 0 for an operand of nothing, 1 for an operand of \<open>OR\<close>, 2 for the right
  operand of \<open>AND\<close>. Both operators associate to the left.\<close>

fun unparse :: "nat \<Rightarrow> expr \<Rightarrow> ltok list" where
  "unparse p (TokenExpr v) = [LTok v]"
| "unparse p (BinaryExpr OpOr l r) = in_parens (0 < p) (unparse 0 l @ [LOr] @ unparse 1 r)"
| "unparse p (BinaryExpr OpAnd l r) = in_parens (1 < p) (unparse 1 l @ [LAnd] @ unparse 2 r)"

fun tok_text :: "ltok \<Rightarrow> string" where
  "tok_text (LTok v) = v"
| "tok_text LAnd = ''AND''"
| "tok_text LOr = ''OR''"
| "tok_text LOpen = ''(''"
| "tok_text LClose = '')''"

definition print_tokens :: "ltok list \<Rightarrow> string" where
  "print_tokens ts = concat (map (\<lambda>t. tok_text t @ '' '') ts)"

definition print_expr :: "expr \<Rightarrow> string" where
  "print_expr e = print_tokens (unparse 0 e)"

section \<open>The parser inverts the printer on tokens\<close>

declare p_or.simps [simp del] p_or_loop.simps [simp del] p_and.simps [simp del]
  p_and_loop.simps [simp del] p_primary.simps [simp del]

lemma match_tok_None: "(ts = [] \<or> hd ts \<noteq> k) \<Longrightarrow> match_tok k ts = None"
  by (auto simp: match_tok_def split: list.splits)

lemma match_tok_Cons [simp]: "match_tok k (k # r) = Some r" "t \<noteq> k \<Longrightarrow> match_tok k (t # r) = None"
  by (simp_all add: match_tok_def)

lemma or_loop_stop: "ts = [] \<or> hd ts \<noteq> LOr \<Longrightarrow> p_or_loop e ts = Inr (e, ts)"
  by (simp add: p_or_loop.simps match_tok_None)

lemma and_loop_stop: "ts = [] \<or> hd ts \<noteq> LAnd \<Longrightarrow> p_and_loop e ts = Inr (e, ts)"
  by (simp add: p_and_loop.simps match_tok_None)

lemma primary_paren:
  assumes "\<And>rest. rest = [] \<or> hd rest \<noteq> LAnd \<Longrightarrow> p_or (ts @ rest) = p_or_loop e rest"
  shows "p_primary (LOpen # ts @ LClose # rest) = Inr (e, rest)"
  using assms [of "LClose # rest"]
  by (simp add: p_primary.simps or_loop_stop close_paren_def)

lemma unparse_parses:
  "(rest = [] \<or> hd rest \<noteq> LAnd \<longrightarrow> p_or (unparse 0 e @ rest) = p_or_loop e rest)
   \<and> p_and (unparse 1 e @ rest) = p_and_loop e rest
   \<and> p_primary (unparse 2 e @ rest) = Inr (e, rest)"
proof (induction e arbitrary: rest)
  case (TokenExpr v)
  have p: "p_primary (LTok v # r) = Inr (TokenExpr v, r)" for r
    by (simp add: p_primary.simps take_token_def)
  then have a: "p_and (LTok v # r) = p_and_loop (TokenExpr v) r" for r by (simp add: p_and.simps)
  show ?case by (simp add: p a p_or.simps and_loop_stop)
next
  case (BinaryExpr op l r)
  note L = BinaryExpr.IH(1) and R = BinaryExpr.IH(2)
  show ?case
  proof (cases op)
    case OpOr
    have o: "p_or (unparse 0 (BinaryExpr OpOr l r) @ s) = p_or_loop (BinaryExpr OpOr l r) s"
      if "s = [] \<or> hd s \<noteq> LAnd" for s
    proof -
      have "p_or (unparse 0 l @ LOr # unparse 1 r @ s) = p_or_loop l (LOr # unparse 1 r @ s)"
        using L [of "LOr # unparse 1 r @ s"] by simp
      also have "\<dots> = p_or_loop (BinaryExpr OpOr l r) s"
        using R [of s] that by (simp add: p_or_loop.simps [of l] and_loop_stop)
      finally show ?thesis by (simp add: in_parens_def)
    qed
    have p: "p_primary (LOpen # (unparse 0 (BinaryExpr OpOr l r) @ LClose # s)) = Inr (BinaryExpr OpOr l r, s)" for s
      by (rule primary_paren) (rule o)
    have u: "unparse k (BinaryExpr OpOr l r) @ s = LOpen # (unparse 0 (BinaryExpr OpOr l r) @ LClose # s)" if "0 < k" for k s
      using that by (simp add: in_parens_def)
    show ?thesis by (simp add: OpOr u p o p_and.simps del: unparse.simps)
  next
    case OpAnd
    have a: "p_and (unparse 1 (BinaryExpr OpAnd l r) @ s) = p_and_loop (BinaryExpr OpAnd l r) s" for s
    proof -
      have "p_and (unparse 1 l @ LAnd # unparse 2 r @ s) = p_and_loop l (LAnd # unparse 2 r @ s)"
        using L by simp
      also have "\<dots> = p_and_loop (BinaryExpr OpAnd l r) s"
        using R [of s] by (simp add: p_and_loop.simps [of l])
      finally show ?thesis by (simp add: in_parens_def)
    qed
    have o: "p_or (unparse 0 (BinaryExpr OpAnd l r) @ s) = p_or_loop (BinaryExpr OpAnd l r) s"
      if "s = [] \<or> hd s \<noteq> LAnd" for s
      using a [of s] that by (simp add: in_parens_def p_or.simps and_loop_stop)
    have p: "p_primary (LOpen # (unparse 0 (BinaryExpr OpAnd l r) @ LClose # s)) = Inr (BinaryExpr OpAnd l r, s)" for s
      by (rule primary_paren) (rule o)
    have "unparse 2 (BinaryExpr OpAnd l r) @ s = LOpen # (unparse 0 (BinaryExpr OpAnd l r) @ LClose # s)" for s
      by (simp add: in_parens_def)
    then show ?thesis using o a p by (simp add: OpAnd)
  qed
qed

lemma parse_unparse: "p_or (unparse 0 e) = Inr (e, [])"
  using unparse_parses [of "[]" e] by (simp add: or_loop_stop)

section \<open>The lexer inverts the printer\<close>

definition token_ok :: "string \<Rightarrow> bool" where
  "token_ok v = (v \<noteq> [] \<and> scan_word v = Some (v, []) \<and> classify v = Inr (LTok v))"

lemma scan_extend:
  "scan_word v = Some (v, []) \<Longrightarrow> is_space c \<Longrightarrow> scan_word (v @ c # s) = Some (v, c # s)"
  "scan_quote v = Some (v, []) \<Longrightarrow> is_space c \<Longrightarrow> scan_quote (v @ c # s) = Some (v, c # s)"
  by (induction v and v rule: scan_word_scan_quote.induct)
    (auto simp: cons_word_def split: if_splits)

lemma token_ok_lex:
  assumes "token_ok v"
  shows "lex_tokens (v @ CHR '' '' # s) = rbind (lex_tokens s) (\<lambda>ts. Inr (LTok v # ts))"
proof -
  obtain c cs where v: "v = c # cs" using assms by (cases v) (auto simp: token_ok_def)
  have sp: "is_space (CHR '' '')" by (simp add: is_space_def)
  have sc: "scan_word (v @ CHR '' '' # s) = Some (v, CHR '' '' # s)"
    using assms scan_extend(1) [OF _ sp] by (simp add: token_ok_def)
  have c: "\<not> is_space c" "\<not> is_paren c"
    using assms by (auto simp: token_ok_def v split: if_splits)
  then have "c \<noteq> CHR ''(''" "c \<noteq> CHR '')''" by (auto simp: is_paren_def)
  then show ?thesis
    using assms c(1) sc sp by (simp add: v token_ok_def)
qed

definition tok_ok :: "ltok \<Rightarrow> bool" where
  "tok_ok t = (case t of LTok v \<Rightarrow> token_ok v | _ \<Rightarrow> True)"

lemma lex_tok_text:
  assumes "tok_ok t"
  shows "lex_tokens (tok_text t @ CHR '' '' # s) = rbind (lex_tokens s) (\<lambda>ts. Inr (t # ts))"
  using assms
  by (cases t)
    (auto simp: tok_ok_def token_ok_lex is_space_def is_paren_def cons_word_def classify_def to_upper_def)

lemma lex_print_tokens: "list_all tok_ok ts \<Longrightarrow> lex_tokens (print_tokens ts) = Inr ts"
  by (induction ts) (simp_all add: print_tokens_def lex_tok_text)

lemma unparse_toks_ok: "(\<forall>v \<in> expr_tokens e. token_ok v) \<Longrightarrow> list_all tok_ok (unparse p e)"
  by (induction p e rule: unparse.induct) (auto simp: tok_ok_def in_parens_def)

lemma unparse_nonempty: "unparse p e \<noteq> []"
  by (induction p e rule: unparse.induct) (auto simp: in_parens_def)

lemma parse_print:
  assumes "\<forall>v \<in> expr_tokens e. token_ok v"
  shows "parse_expr (print_expr e) = Inr e"
  using lex_print_tokens [OF unparse_toks_ok [OF assms, of 0]]
  by (simp add: parse_expr_def lex_def print_expr_def unparse_nonempty parse_unparse)

section \<open>Tokens of accepted expressions\<close>

lemma cons_word_Some: "cons_word c x = Some (w, s) \<longleftrightarrow> (\<exists>v. w = c # v \<and> x = Some (v, s))"
  by (auto simp: cons_word_def)

lemma scan_idem:
  "scan_word s = Some (w, r) \<Longrightarrow> scan_word w = Some (w, [])"
  "scan_quote s = Some (w, r) \<Longrightarrow> scan_quote w = Some (w, [])"
proof (induction s and s arbitrary: w r and w r rule: scan_word_scan_quote.induct)
  case (2 c cs)
  show ?case
  proof (cases "is_space c \<or> is_paren c")
    case True
    then show ?thesis using 2(3) by auto
  next
    case False
    then show ?thesis using 2 by (cases "c = CHR 0x22") (auto simp: cons_word_Some)
  qed
next
  case (4 c cs)
  then show ?case by (cases "c = CHR 0x22") (auto simp: cons_word_Some)
qed simp_all

lemma classify_tok: "classify w = Inr (LTok v) \<Longrightarrow> v = w"
  by (auto simp: classify_def split: if_splits)

lemma lex_tokens_ok: "lex_tokens s = Inr ts \<Longrightarrow> list_all tok_ok ts"
proof (induction s arbitrary: ts rule: lex_tokens.induct)
  case 1
  then show ?case by simp
next
  case (2 c cs)
  consider "is_space c" | "\<not> is_space c" "c = CHR ''('' \<or> c = CHR '')''"
    | "\<not> is_space c" "c \<noteq> CHR ''(''" "c \<noteq> CHR '')''" by blast
  then show ?case
  proof cases
    case 1
    with 2 show ?thesis by simp
  next
    case 2
    with "2.prems" "2.IH"(2,3) show ?thesis by (auto simp: tok_ok_def)
  next
    case 3
    with "2.prems" obtain wr t us where st: "scan_word (c # cs) = Some wr" "classify (fst wr) = Inr t"
      "lex_tokens (snd wr) = Inr us" "ts = t # us"
      by (auto simp: expr_error_def simp del: scan_word.simps split: option.splits)
    have w: "scan_word (c # cs) = Some (fst wr, snd wr)" using st(1) by simp
    have "tok_ok t"
    proof (cases t)
      case (LTok v)
      with st(2) have v: "v = fst wr" by (simp add: classify_tok)
      have "fst wr \<noteq> []" using scan_word_nonempty [OF w 3(1)] 3(2,3) by (simp add: is_paren_def)
      then show ?thesis using st(2) scan_idem(1) [OF w] by (simp add: LTok v tok_ok_def token_ok_def)
    qed (simp_all add: tok_ok_def)
    moreover have "list_all tok_ok us" by (rule "2.IH"(4) [OF 3 st(1,2,3)])
    ultimately show ?thesis by (simp add: st(4))
  qed
qed

definition expr_ok :: "expr \<Rightarrow> bool" where
  "expr_ok e = (\<forall>v \<in> expr_tokens e. token_ok v)"

lemma parser_tokens:
  "list_all tok_ok ts1 \<Longrightarrow> p_or ts1 = Inr x \<Longrightarrow> expr_ok (fst x) \<and> list_all tok_ok (snd x)"
  "list_all tok_ok ts2 \<Longrightarrow> expr_ok e1 \<Longrightarrow> p_or_loop e1 ts2 = Inr x \<Longrightarrow> expr_ok (fst x) \<and> list_all tok_ok (snd x)"
  "list_all tok_ok ts3 \<Longrightarrow> p_and ts3 = Inr x \<Longrightarrow> expr_ok (fst x) \<and> list_all tok_ok (snd x)"
  "list_all tok_ok ts4 \<Longrightarrow> expr_ok e2 \<Longrightarrow> p_and_loop e2 ts4 = Inr x \<Longrightarrow> expr_ok (fst x) \<and> list_all tok_ok (snd x)"
  "list_all tok_ok ts5 \<Longrightarrow> p_primary ts5 = Inr x \<Longrightarrow> expr_ok (fst x) \<and> list_all tok_ok (snd x)"
proof (induction ts1 and e1 ts2 and ts3 and e2 ts4 and ts5 arbitrary: x and x and x and x and x
    rule: p_or_p_or_loop_p_and_p_and_loop_p_primary.induct)
  case (1 ts)
  from 1(4) obtain y where y: "p_and ts = Inr y" "p_or_loop (fst y) (snd y) = Inr x"
    by (auto simp: p_or.simps [of ts])
  from 1(1) [OF 1(3) y(1)] 1(2) [OF y(1) _ _ y(2)] show ?case by blast
next
  case (2 e ts)
  show ?case
  proof (cases "match_tok LOr ts")
    case None
    then show ?thesis using 2(3-5) by (auto simp: p_or_loop.simps)
  next
    case (Some r)
    with 2(5) obtain y where y: "p_and r = Inr y" "p_or_loop (BinaryExpr OpOr e (fst y)) (snd y) = Inr x"
      by (auto simp: p_or_loop.simps [of e ts])
    have r: "list_all tok_ok r" using 2(3) Some by simp
    note iy = 2(1) [OF Some r y(1)]
    have "expr_ok (BinaryExpr OpOr e (fst y))" using iy 2(4) by (auto simp: expr_ok_def)
    with 2(2) [OF Some y(1) _ _ y(2)] iy show ?thesis by blast
  qed
next
  case (3 ts)
  from 3(4) obtain y where y: "p_primary ts = Inr y" "p_and_loop (fst y) (snd y) = Inr x"
    by (auto simp: p_and.simps [of ts])
  from 3(1) [OF 3(3) y(1)] 3(2) [OF y(1) _ _ y(2)] show ?case by blast
next
  case (4 e ts)
  show ?case
  proof (cases "match_tok LAnd ts")
    case None
    then show ?thesis using 4(3-5) by (auto simp: p_and_loop.simps)
  next
    case (Some r)
    with 4(5) obtain y where y: "p_primary r = Inr y" "p_and_loop (BinaryExpr OpAnd e (fst y)) (snd y) = Inr x"
      by (auto simp: p_and_loop.simps [of e ts])
    have r: "list_all tok_ok r" using 4(3) Some by simp
    note iy = 4(1) [OF Some r y(1)]
    have "expr_ok (BinaryExpr OpAnd e (fst y))" using iy 4(4) by (auto simp: expr_ok_def)
    with 4(2) [OF Some y(1) _ _ y(2)] iy show ?thesis by blast
  qed
next
  case (5 ts)
  show ?case
  proof (cases "match_tok LOpen ts")
    case None
    then show ?thesis using 5(2,3)
      by (auto simp: p_primary.simps take_token_Inr expr_ok_def tok_ok_def)
  next
    case (Some r)
    with 5(3) obtain y where y: "p_or r = Inr y" "close_paren y = Inr x"
      by (auto simp: p_primary.simps [of ts])
    have r: "list_all tok_ok r" using 5(2) Some by simp
    with 5(1) [OF Some r y(1)] y(2) show ?thesis by (auto simp: close_paren_Inr)
  qed
qed

lemma parse_expr_ok:
  assumes "parse_expr s = Inr e"
  shows "expr_ok e"
proof -
  obtain ts x where st: "lex_tokens s = Inr ts" "p_or ts = Inr x" "fst x = e"
    using assms by (auto simp: parse_expr_def lex_def expr_error_def split: if_splits)
  from parser_tokens(1) [OF lex_tokens_ok [OF st(1)] st(2)] st(3) show ?thesis by simp
qed

lemma token_ok_not_manual: "token_ok v \<Longrightarrow> \<not> starts_with v ''manual:''"
  by (auto simp: token_ok_def classify_def validate_token_def expr_error_def split: if_splits)

lemma token_ok_cron: "token_ok v \<Longrightarrow> starts_with v ''cron:'' \<Longrightarrow> cron_quoted v \<and> length (split_ws (cron_value v)) = 5"
  by (auto simp: token_ok_def classify_def validate_token_def expr_error_def split: if_splits)

section \<open>Evaluation\<close>

lemma set_token_list [simp]: "set (token_list e) = expr_tokens e"
  by (induction e) auto

lemma eval_mono: "eval_expr e A \<Longrightarrow> A \<subseteq> B \<Longrightarrow> eval_expr e B"
proof (induction e)
  case (BinaryExpr op l r)
  then show ?case by (cases op) auto
qed auto

lemma eval_relevant: "eval_expr e A = eval_expr e (A \<inter> expr_tokens e)"
proof -
  have "eval_expr e A = eval_expr e B" if "A \<inter> expr_tokens e = B \<inter> expr_tokens e" for B
    using that
  proof (induction e)
    case (BinaryExpr op l r)
    have "A \<inter> expr_tokens l = B \<inter> expr_tokens l" "A \<inter> expr_tokens r = B \<inter> expr_tokens r"
      using BinaryExpr.prems by auto
    then show ?case using BinaryExpr.IH by (cases op) auto
  qed auto
  then show ?thesis by blast
qed

lemma eval_empty: "\<not> eval_expr e {}"
proof (induction e)
  case (BinaryExpr op l r)
  then show ?case by (cases op) auto
qed simp

lemma trigger_expression_Inr:
  "trigger_expression s = Inr x \<Longrightarrow> parse_expr s = Inr (te_root x) \<and> set (te_tokens x) = expr_tokens (te_root x)
     \<and> sorted (te_tokens x) \<and> distinct (te_tokens x)"
  by (auto simp: trigger_expression_def)

lemma matched_tokens_set:
  "trigger_expression s = Inr x \<Longrightarrow> set (matched_tokens x A) = A \<inter> expr_tokens (te_root x)"
  using trigger_expression_Inr [of s x] by (auto simp: matched_tokens_def)

section \<open>Properties\<close>

text \<open>C30: An expression is the result of parsing some text exactly when it is the result of parsing its own printed text (the printer
  sets parentheses so that \<open>AND\<close> binds tighter than \<open>OR\<close>, both to the left); and the expressions that are results of parsing
  are exactly those whose tokens the lexer accepts one by one.\<close>

theorem trigger_round_trip:
  "((\<exists>s. trigger_expression s = Inr x) \<longleftrightarrow> trigger_expression (print_expr (te_root x)) = Inr x)
   \<and> ((\<exists>s y. trigger_expression s = Inr y \<and> te_root y = e) \<longleftrightarrow> expr_ok e)"
proof
  have reread: "trigger_expression (print_expr (te_root y)) = Inr y" if "trigger_expression s = Inr y" for s y
  proof -
    have p: "parse_expr s = Inr (te_root y)" using trigger_expression_Inr [OF that] by simp
    have "parse_expr (print_expr (te_root y)) = Inr (te_root y)"
      using parse_print parse_expr_ok [OF p] by (simp add: expr_ok_def)
    with p that show ?thesis by (simp add: trigger_expression_def)
  qed
  show "(\<exists>s. trigger_expression s = Inr x) \<longleftrightarrow> trigger_expression (print_expr (te_root x)) = Inr x" using reread by blast
  have "\<exists>s y. trigger_expression s = Inr y \<and> te_root y = e" if "expr_ok e"
  proof -
    have "parse_expr (print_expr e) = Inr e" using that parse_print by (simp add: expr_ok_def)
    then show ?thesis by (intro exI [of _ "print_expr e"]) (simp add: trigger_expression_def)
  qed
  moreover have "expr_ok e" if "trigger_expression s = Inr y" "te_root y = e" for s y
    using trigger_expression_Inr [OF that(1)] parse_expr_ok that(2) by blast
  ultimately show "(\<exists>s y. trigger_expression s = Inr y \<and> te_root y = e) \<longleftrightarrow> expr_ok e" by blast
qed

theorem trigger_round_trip_witness:
  "trigger_expression ''event:a or event:b AND (x OR y)''
     = Inr \<lparr>te_root = BinaryExpr OpOr (TokenExpr ''event:a'') (BinaryExpr OpAnd (TokenExpr ''event:b'')
             (BinaryExpr OpOr (TokenExpr ''x'') (TokenExpr ''y''))),
           te_tokens = [''event:a'', ''event:b'', ''x'', ''y'']\<rparr>
   \<and> trigger_expression ''event:a OR event:b AND ( x OR y ) ''
     = trigger_expression ''event:a or event:b AND (x OR y)''"
proof -
  have t: "trigger_expression ''event:a or event:b AND (x OR y)''
     = Inr \<lparr>te_root = BinaryExpr OpOr (TokenExpr ''event:a'') (BinaryExpr OpAnd (TokenExpr ''event:b'')
             (BinaryExpr OpOr (TokenExpr ''x'') (TokenExpr ''y''))),
           te_tokens = [''event:a'', ''event:b'', ''x'', ''y'']\<rparr>"
    by code_simp
  from iffD1 [OF conjunct1 [OF trigger_round_trip], OF exI, OF t] t show ?thesis
    by (simp add: print_expr_def print_tokens_def in_parens_def)
qed

text \<open>No accepted trigger expression waits for an event with the reserved prefix \<open>manual:\<close>, and each of
  its cron tokens is quoted and holds five fields.\<close>

theorem trigger_tokens_valid:
  assumes "trigger_expression s = Inr x" "t \<in> set (te_tokens x)"
  shows "\<not> starts_with t ''manual:'' \<and> t \<noteq> []
    \<and> (starts_with t ''cron:'' \<longrightarrow> cron_quoted t \<and> length (split_ws (cron_value t)) = 5)"
proof -
  have "expr_ok (te_root x)" using trigger_expression_Inr [OF assms(1)] parse_expr_ok by blast
  then have "token_ok t" using assms trigger_expression_Inr [OF assms(1)] by (simp add: expr_ok_def)
  then show ?thesis using token_ok_not_manual token_ok_cron by (auto simp: token_ok_def)
qed

definition demo_trigger :: trigger_expr where
  "demo_trigger = \<lparr>te_root = BinaryExpr OpAnd (TokenExpr ''event:a'') (TokenExpr (cron_open @ ''0 9 * * *'' @ [CHR 0x22])),
     te_tokens = [cron_open @ ''0 9 * * *'' @ [CHR 0x22], ''event:a'']\<rparr>"

lemma parse_demo:
  "trigger_expression (''event:a AND '' @ cron_open @ ''0 9 * * *'' @ [CHR 0x22]) = Inr demo_trigger"
  by code_simp

theorem trigger_tokens_valid_witness:
  "length (split_ws (cron_value (cron_open @ ''0 9 * * *'' @ [CHR 0x22]))) = 5"
proof -
  let ?t = "cron_open @ ''0 9 * * *'' @ [CHR 0x22]"
  have "starts_with ?t ''cron:''" "?t \<in> set (te_tokens demo_trigger)"
    by (simp_all add: cron_open_def starts_with_def demo_trigger_def)
  with trigger_tokens_valid [OF parse_demo, of ?t] show ?thesis by blast
qed

text \<open>Whether an expression holds depends only on its matched tokens; it needs at least one of them,
  and adding events never makes it false.\<close>

theorem evaluate_by_matched:
  assumes "trigger_expression s = Inr x"
  shows "evaluate x A = evaluate x (set (matched_tokens x A))
    \<and> (evaluate x A \<longrightarrow> matched_tokens x A \<noteq> []) \<and> (evaluate x A \<longrightarrow> A \<subseteq> B \<longrightarrow> evaluate x B)"
proof -
  have m: "set (matched_tokens x A) = A \<inter> expr_tokens (te_root x)" by (rule matched_tokens_set [OF assms])
  have e: "evaluate x A = evaluate x (set (matched_tokens x A))"
    unfolding evaluate_def m by (rule eval_relevant)
  moreover have "matched_tokens x A \<noteq> []" if "evaluate x A"
    using that e eval_empty by (auto simp: evaluate_def)
  moreover have "evaluate x B" if "evaluate x A" "A \<subseteq> B"
    using that eval_mono by (simp add: evaluate_def)
  ultimately show ?thesis by blast
qed


theorem evaluate_by_matched_witness:
  "evaluate demo_trigger {''event:a''} = evaluate demo_trigger (set (matched_tokens demo_trigger {''event:a''}))
     \<and> \<not> evaluate demo_trigger {''event:a''}"
  using evaluate_by_matched [OF parse_demo, of "{''event:a''}"]
  by (auto simp: evaluate_def demo_trigger_def cron_open_def)

end
