(* ===== verification/EntityStoreProps.thy ===== *)
theory EntityStoreProps
  imports EntityStore
begin

text \<open>
  What the entity store of \<open>config/entities.py\<close> guarantees: what its validation accepts, the
  permissions of a field, what creating, saving and deleting an entity do to the store, and what
  a reference resolves to.
\<close>

section \<open>Validation\<close>

definition validated_ref :: "(string, etype) dict \<Rightarrow> entity \<Rightarrow> string option" where
  "validated_ref types e = (case dget types (en_type e) of None \<Rightarrow> None
     | Some t \<Rightarrow> (case validated_business_id e t of
         PStr b \<Rightarrow> if b = [] then None else Some (en_type e @ '':'' @ b) | _ \<Rightarrow> None))"

definition attributes_ok :: "(string, etype) dict \<Rightarrow> entity \<Rightarrow> bool" where
  "attributes_ok types e = (case dget types (en_type e) of None \<Rightarrow> False
     | Some t \<Rightarrow> et_validate t \<longrightarrow> validate_entity_attributes e t = Inr ())"

definition valid_entities :: "(string, etype) dict \<Rightarrow> entity list \<Rightarrow> bool" where
  "valid_entities types es \<longleftrightarrow> distinct (map en_id es) \<and> distinct (map (validated_ref types) es)
     \<and> (\<forall>e \<in> set es. validated_ref types e \<noteq> None \<and> attributes_ok types e)"

lemma validate_from_iff:
  "validate_entities_from ids refs types es = Inr () \<longleftrightarrow> valid_entities types es
     \<and> (\<forall>e \<in> set es. en_id e \<notin> ids \<and> the (validated_ref types e) \<notin> refs)"
proof (induction ids refs types es rule: validate_entities_from.induct)
  case (1 ids refs types)
  then show ?case by (simp add: valid_entities_def)
next
  case (2 ids refs types e es)
  show ?case
  proof (cases "en_id e \<in> ids \<or> validated_ref types e = None")
    case True
    then have "validate_entities_from ids refs types (e # es) \<noteq> Inr ()"
      by (auto simp: validated_ref_def Let_def split: option.splits pyval.splits if_splits)
    with True show ?thesis by (auto simp: valid_entities_def)
  next
    case False
    then obtain t b where t: "dget types (en_type e) = Some t" "validated_business_id e t = PStr b" "b \<noteq> []"
      and v: "validated_ref types e = Some (en_type e @ '':'' @ b)"
      by (auto simp: validated_ref_def split: option.splits pyval.splits if_splits)
    show ?thesis
    proof (cases "en_type e @ '':'' @ b \<in> refs \<or> \<not> attributes_ok types e")
      case True
      then have "validate_entities_from ids refs types (e # es) \<noteq> Inr ()"
        using False t by (auto simp: attributes_ok_def Let_def)
      with True show ?thesis using v by (auto simp: valid_entities_def)
    next
      case ok: False
      have a: "(if et_validate t then validate_entity_attributes e t else Inr ()) = Inr ()"
        using ok t(1) by (simp add: attributes_ok_def)
      have vs: "validate_entities_from ids refs types (e # es)
          = validate_entities_from (insert (en_id e) ids) (insert (en_type e @ '':'' @ b) refs) types es"
        using False ok t a by (simp add: Let_def)
      have IH: "validate_entities_from (insert (en_id e) ids) (insert (en_type e @ '':'' @ b) refs) types es = Inr ()
          \<longleftrightarrow> valid_entities types es \<and> (\<forall>x \<in> set es. en_id x \<notin> insert (en_id e) ids
            \<and> the (validated_ref types x) \<notin> insert (en_type e @ '':'' @ b) refs)"
        by (rule 2 [OF _ t(1) refl t(2) refl t(3) _ a]) (use False ok in simp_all)
      have ref: "the (validated_ref types x) = en_type e @ '':'' @ b \<longleftrightarrow> validated_ref types x = validated_ref types e"
        if "validated_ref types x \<noteq> None" for x
        using that by (cases "validated_ref types x") (auto simp: v)
      have "valid_entities types (e # es) \<longleftrightarrow> valid_entities types es
          \<and> (\<forall>x \<in> set es. en_id x \<noteq> en_id e \<and> validated_ref types x \<noteq> validated_ref types e)"
        using v ok by (auto simp: valid_entities_def image_iff)
      moreover have "valid_entities types es \<Longrightarrow> \<forall>x \<in> set es. validated_ref types x \<noteq> None"
        by (simp add: valid_entities_def)
      moreover have "en_id e \<notin> ids" "the (validated_ref types e) \<notin> refs" using False ok v by simp_all
      ultimately show ?thesis unfolding vs IH using ref by (simp only: list.set ball_simps insert_iff) blast
    qed
  qed
qed

lemma validate_entities_iff: "validate_entities es types = Inr () \<longleftrightarrow> valid_entities types es"
  by (simp add: validate_entities_def validate_from_iff)

lemma check_attribute_error: "check_attribute i k v fs = Inl x \<Longrightarrow> is_config_error x"
  by (auto simp: check_attribute_def Let_def split: if_splits)

lemma check_attributes_error: "check_attributes i attrs ps = Inl x \<Longrightarrow> is_config_error x"
  by (induction i attrs ps rule: check_attributes.induct)
    (auto simp: rbind_eq_Inl check_attribute_error split: option.splits pyval.splits)

lemma validate_attributes_error: "validate_entity_attributes e t = Inl x \<Longrightarrow> is_config_error x"
  by (auto simp: validate_entity_attributes_def Let_def check_attributes_error split: if_splits pyval.splits)

lemma validate_entities_error: "validate_entities_from ids refs types es = Inl x \<Longrightarrow> is_config_error x"
proof (induction ids refs types es rule: validate_entities_from.induct)
  case (2 ids refs types e es)
  show ?case
  proof (cases "en_id e \<in> ids \<or> validated_ref types e = None \<or> the (validated_ref types e) \<in> refs")
    case True
    with 2(2) show ?thesis
      by (auto simp: validated_ref_def Let_def split: option.splits pyval.splits if_splits)
  next
    case False
    then obtain t b where t: "dget types (en_type e) = Some t" "validated_business_id e t = PStr b" "b \<noteq> []"
      "en_type e @ '':'' @ b \<notin> refs" "en_id e \<notin> ids"
      by (auto simp: validated_ref_def split: option.splits pyval.splits if_splits)
    show ?thesis
    proof (cases "if et_validate t then validate_entity_attributes e t else Inr ()")
      case (Inl y)
      then have "x = y" using 2(2) t by (simp add: Let_def)
      with Inl show ?thesis using validate_attributes_error by (auto split: if_splits)
    next
      case (Inr u)
      then have "validate_entities_from (insert (en_id e) ids) (insert (en_type e @ '':'' @ b) refs) types es = Inl x"
        using 2(2) t by (simp add: Let_def)
      from 2(1) [OF t(5,1) refl t(2) refl t(3,4) Inr this] show ?thesis .
    qed
  qed
qed simp

lemma validate_store_Inr: "validate_store st = Inr () \<longleftrightarrow> valid_entities (es_types st) (es_entities st)"
  by (simp add: validate_store_def validate_entities_iff)

lemma validate_store_error: "validate_store st = Inl x \<Longrightarrow> is_config_error x"
  unfolding validate_store_def validate_entities_def by (rule validate_entities_error)

section \<open>Field permissions\<close>

text \<open>The dotted prefixes of a field, shortest first; the permission is that of the longest prefix with an
  entry.\<close>

definition prefixes_of :: "string list \<Rightarrow> string list \<Rightarrow> string list" where
  "prefixes_of seen ps = map (\<lambda>k. join ''.'' (seen @ take k ps)) [1..<Suc (length ps)]"

lemma prefixes_of_Cons: "prefixes_of seen (p # ps) = join ''.'' (seen @ [p]) # prefixes_of (seen @ [p]) ps"
proof -
  have "[1..<Suc (length (p # ps))] = 1 # map Suc [1..<Suc (length ps)]"
    by (simp add: upt_conv_Cons map_Suc_upt del: upt_Suc)
  then show ?thesis by (simp add: prefixes_of_def)
qed

lemma prefix_permission_last:
  "prefix_permission fp seen ps cur =
     (case filter (dhas fp) (prefixes_of seen ps) of [] \<Rightarrow> cur
      | ks \<Rightarrow> the (dget fp (last (filter (dhas fp) (prefixes_of seen ps)))))"
proof (induction fp seen ps cur rule: prefix_permission.induct)
  case (1 fp seen current)
  then show ?case by (simp add: prefixes_of_def)
next
  case (2 fp seen p ps current)
  let ?k = "join ''.'' (seen @ [p])"
  have d: "dhas fp ?k = (dget fp ?k \<noteq> None)" by (simp add: dhas_def)
  show ?case
    using 2 by (cases "dget fp ?k") (auto simp: prefixes_of_Cons d split: list.splits)
qed

definition perm_le :: "perm \<Rightarrow> perm \<Rightarrow> bool" where
  "perm_le a b \<longleftrightarrow> (can_read a \<longrightarrow> can_read b) \<and> (can_write a \<longrightarrow> can_write b)"

lemma allowed_overrides_iff: "p \<in> allowed_overrides base \<longleftrightarrow> perm_le base p"
  by (cases base; cases p) (simp_all add: allowed_overrides_def perm_le_def can_read_def can_write_def)

lemma check_field_overrides_iff:
  "check_field_overrides tn t fs = Inr () \<longleftrightarrow>
     (\<forall>f v. (f, v) \<in> set fs \<longrightarrow> (\<exists>p. perm_of_val v = Some p \<and> perm_le (field_permission t f None) p))"
  by (induction tn t fs rule: check_field_overrides.induct) (auto simp: allowed_overrides_iff split: option.splits)

lemma permission_overrides_iff:
  "validate_permission_overrides types ov = Inr () \<longleftrightarrow>
     (\<forall>tn x. (tn, x) \<in> set ov \<longrightarrow> (\<exists>t fs. dget types tn = Some t \<and> x = PDict fs
        \<and> check_field_overrides tn t fs = Inr ()))"
  by (induction types ov rule: validate_permission_overrides.induct) (auto split: option.splits pyval.splits)


section \<open>Writing attributes\<close>

lemma write_field_get:
  "dget (write_field t ov new f vals) g =
     (if g \<noteq> f then dget vals g
      else case dget new f of
          None \<Rightarrow> if field_permission t f ov = ReadWrite then None else dget vals f
        | Some v \<Rightarrow> if can_write (field_permission t f ov) then Some v else dget vals f)"
  by (cases "field_permission t f ov")
    (auto simp: write_field_def Let_def can_read_def can_write_def split: option.splits)

lemma write_fields_get:
  assumes "distinct fs"
  shows "dget (fold (write_field t ov new) fs vals) g =
     (if g \<notin> set fs then dget vals g else dget (write_field t ov new g vals) g)"
  using assms
proof (induction fs arbitrary: vals)
  case (Cons f fs)
  then show ?case by (auto simp: write_field_get split: option.splits)
qed simp

text \<open>What a field of the saved entity holds: nothing changes without write permission; a field left out
  is dropped only with both permissions.\<close>

definition saved_field :: "etype \<Rightarrow> (string, pyval) dict option \<Rightarrow> (string, pyval) dict \<Rightarrow> (string, pyval) dict
    \<Rightarrow> string \<Rightarrow> pyval option" where
  "saved_field t ov old new f = (case dget new f of
     None \<Rightarrow> if field_permission t f ov = ReadWrite then None else dget old f
   | Some v \<Rightarrow> if can_write (field_permission t f ov) then Some v else dget old f)"

lemma writable_attributes_get:
  assumes "writable_attributes st current e perms = Inr attrs" "dget (es_types st) (en_type current) = Some t"
  shows "dget attrs f = saved_field t (type_overrides (en_type current) perms) (en_attrs current) (en_attrs e) f"
proof -
  let ?ov = "type_overrides (en_type current) perms"
  let ?fs = "remdups (dkeys (en_attrs current) @ dkeys (en_attrs e))"
  have a: "attrs = fold (write_field t ?ov (en_attrs e)) ?fs (en_attrs current)"
    using assms by (simp add: writable_attributes_def)
  have n: "dget (en_attrs current) f = None \<and> dget (en_attrs e) f = None" if "f \<notin> set ?fs"
    using that by (simp add: map_of_eq_None_iff)
  show ?thesis
  proof (cases "f \<in> set ?fs")
    case True
    then show ?thesis unfolding a write_fields_get [OF distinct_remdups]
      by (simp add: write_field_get saved_field_def)
  next
    case False
    then show ?thesis unfolding a write_fields_get [OF distinct_remdups]
      using n by (simp add: saved_field_def)
  qed
qed

section \<open>Finding an entity by its id\<close>

lemma index_of_id_Some: "index_of_id i es = Some k \<Longrightarrow> k < length es \<and> en_id (es ! k) = i"
  by (induction i es arbitrary: k rule: index_of_id.induct) (auto split: if_splits)

lemma index_of_id_append: "index_of_id i es = Some k \<Longrightarrow> index_of_id i (es @ fs) = Some k"
  by (induction i es arbitrary: k rule: index_of_id.induct) (auto split: if_splits)

lemma index_of_id_None: "index_of_id i es = None \<longleftrightarrow> i \<notin> set (map en_id es)"
  by (induction i es rule: index_of_id.induct) auto

lemma remove_first_append: "i \<notin> set (map en_id es) \<Longrightarrow> en_id e = i \<Longrightarrow> remove_first i (es @ [e]) = Some es"
  by (induction es) auto

lemma remove_first_None: "remove_first i es = None \<longleftrightarrow> i \<notin> set (map en_id es)"
  by (induction i es rule: remove_first.induct) auto

lemma remove_first_index:
  "index_of_id i es = Some k \<Longrightarrow> remove_first i es = Some (take k es @ drop (Suc k) es)"
  by (induction i es arbitrary: k rule: index_of_id.induct) (auto split: if_splits)

lemma checked_update_Inr:
  assumes "checked_update st current e perms = Inr saved"
  shows "en_id saved = en_id e \<and> en_type saved = en_type e \<and> en_type current = en_type e
    \<and> writable_attributes st current e perms = Inr (en_attrs saved) \<and> validate_semantics saved = Inr ()"
  using assms by (auto simp: checked_update_def Let_def split: if_splits)

section \<open>Saving a file entity\<close>

lemma saved_file_entity:
  assumes "save e perms st = (Inr saved, st')" "index_of_id (en_id e) (es_entities st) = Some i"
    "dget (es_types st) (en_type e) = Some t"
  shows "valid_entities (es_types st') (es_entities st') \<and> es_entities st' = (es_entities st)[i := saved]
    \<and> st' = st\<lparr>es_entities := es_entities st'\<rparr> \<and> en_id saved = en_id e
    \<and> (\<forall>f. dget (en_attrs saved) f = saved_field t (type_overrides (en_type e) perms)
              (en_attrs (es_entities st ! i)) (en_attrs e) f)"
proof -
  let ?st' = "st\<lparr>es_entities := (es_entities st)[i := saved]\<rparr>"
  have s: "save_file i e perms st = (Inr saved, st')" using assms(1,2) by (simp add: save_def)
  then have cu: "checked_update st (es_entities st ! i) e perms = Inr saved"
    and v: "validate_store ?st' = Inr ()" and st': "st' = ?st'"
    by (auto simp: save_file_def Let_def split: sum.splits)
  note c = checked_update_Inr [OF cu]
  have "dget (es_types st) (en_type (es_entities st ! i)) = Some t" using c assms(3) by simp
  from writable_attributes_get [OF _ this] c
  have "dget (en_attrs saved) f = saved_field t (type_overrides (en_type e) perms)
        (en_attrs (es_entities st ! i)) (en_attrs e) f" for f by metis
  then show ?thesis using v c by (simp add: st' validate_store_Inr)
qed

lemma failed_save_file_entity:
  assumes "save e perms st = (Inl x, st')" "index_of_id (en_id e) (es_entities st) = Some i"
  shows "st' = st"
proof -
  have "save_file i e perms st = (Inl x, st')" using assms by (simp add: save_def)
  moreover have "(es_entities st)[i := saved, i := es_entities st ! i] = es_entities st" for saved
    by (simp add: list_update_overwrite)
  ultimately show ?thesis
    using validate_store_error by (auto simp: save_file_def Let_def split: sum.splits if_splits)
qed

section \<open>Properties\<close>

text \<open>The store's validation accepts a list of entities exactly when their ids are distinct, every type
  is known, every business id is a non-empty string, the references \<open>type:business id\<close> are distinct and
  the attributes satisfy the schema of every type that asks for it.\<close>

theorem validate_entities_accepts_iff:
  "validate_entities es types = Inr () \<longleftrightarrow> distinct (map en_id es) \<and> distinct (map (validated_ref types) es)
     \<and> (\<forall>e \<in> set es. validated_ref types e \<noteq> None \<and> attributes_ok types e)"
  by (simp add: validate_entities_iff valid_entities_def)

text \<open>The permission of a field is a valid override of exactly that field, otherwise the entry of its
  longest dotted prefix that has one, otherwise \<open>read-write\<close>.\<close>

theorem field_permission_spec:
  "field_permission t field ov = (case override_permission ov field of Some p \<Rightarrow> p
     | None \<Rightarrow> (let ks = filter (dhas (et_field_permissions t)) (prefixes_of [] (split_on (CHR ''.'') field)) in
         if ks = [] then ReadWrite else the (dget (et_field_permissions t) (last ks))))"
  by (simp add: field_permission_def prefix_permission_last Let_def split: option.splits list.splits)

text \<open>Permission overrides that pass validation never take a right away: whatever a field allows
  without them it still allows with them.\<close>

theorem overrides_only_widen:
  assumes "validate_permission_overrides types ov = Inr ()" "dget types tn = Some t"
  shows "perm_le (field_permission t f None) (field_permission t f (type_overrides tn (PDict ov)))"
proof (cases "override_permission (type_overrides tn (PDict ov)) f")
  case None
  then show ?thesis by (simp add: field_permission_def override_permission_def perm_le_def)
next
  case (Some p)
  then obtain fs where fs: "type_overrides tn (PDict ov) = Some fs" "fs \<noteq> []" "perm_of_val (aget fs f) = Some p"
    by (auto simp: override_permission_def split: option.splits if_splits)
  then have "aget ov tn = PDict fs" by (auto simp: type_overrides_def split: pyval.splits)
  then have "(tn, PDict fs) \<in> set ov"
    by (auto simp: aget_def dget_default_def dest: map_of_SomeD split: option.splits)
  then have ck: "check_field_overrides tn t fs = Inr ()"
    using assms by (fastforce simp: permission_overrides_iff)
  have "aget fs f \<noteq> PNone" using fs(3) by (auto simp: perm_of_val_def)
  then have "(f, aget fs f) \<in> set fs"
    by (auto simp: aget_def dget_default_def dest: map_of_SomeD split: option.splits)
  then have "perm_le (field_permission t f None) p"
    using ck fs(3) by (fastforce simp: check_field_overrides_iff)
  moreover have "field_permission t f (type_overrides tn (PDict ov)) = p"
    by (simp add: field_permission_def Some)
  ultimately show ?thesis by simp
qed

text \<open>C27: Saving an entity of the file tier keeps the store valid, touches no other entity, and each field
  of the entity changes only as its permission allows.\<close>

theorem save_respects_permissions:
  assumes "save e perms st = (Inr saved, st')" "index_of_id (en_id e) (es_entities st) = Some i"
    "dget (es_types st) (en_type e) = Some t"
  shows "valid_entities (es_types st') (es_entities st') \<and> es_entities st' = (es_entities st)[i := saved]
    \<and> st' = st\<lparr>es_entities := es_entities st'\<rparr> \<and> en_id saved = en_id e
    \<and> (\<forall>f. dget (en_attrs saved) f = saved_field t (type_overrides (en_type e) perms)
              (en_attrs (es_entities st ! i)) (en_attrs e) f)"
  by (rule saved_file_entity [OF assms])

text \<open>C32: A save of a file entity that fails leaves the store as it was.\<close>

theorem save_failure_keeps_store:
  assumes "save e perms st = (Inl x, st')" "index_of_id (en_id e) (es_entities st) = Some i"
  shows "st' = st"
  using assms by (rule failed_save_file_entity)


lemma es_simps [simp]: "es_entities (add_entity tier e st) = (if tier = Filesystem then es_entities st @ [e] else es_entities st)"
  "es_types (add_entity tier e st) = es_types st"
  "es_database (add_entity tier e st) = (if tier = Database then es_database st @ [e] else es_database st)"
  "es_relations (add_entity tier e st) = es_relations st"
  "memory_of (add_entity tier e st) r = (if tier = Memory \<and> r = [] then dset (memory_of st []) (en_id e) e else memory_of st r)"
  by (cases tier; simp add: add_entity_def memory_of_def dget_default_def)+

definition id_unused :: "string \<Rightarrow> estore \<Rightarrow> bool" where
  "id_unused i st \<longleftrightarrow> i \<notin> set (map en_id (es_entities st)) \<and> i \<notin> set (map en_id (es_database st))
     \<and> \<not> dhas (memory_of st []) i"

text \<open>Two stores hold the same entities and relations; an absent memory table counts as an empty one.\<close>

definition same_store :: "estore \<Rightarrow> estore \<Rightarrow> bool" where
  "same_store a b \<longleftrightarrow> es_entities a = es_entities b \<and> es_types a = es_types b \<and> es_relations a = es_relations b
     \<and> es_database a = es_database b \<and> (\<forall>r. memory_of a r = memory_of b r)"

lemma dpop_dset_new: "\<not> dhas d k \<Longrightarrow> dpop (dset d k v) k = d"
proof (induction d)
  case (Cons x d)
  then show ?case by (cases x) (auto simp: dhas_def split: if_splits)
qed (simp add: dhas_def)

lemma remove_new_add:
  assumes "id_unused (en_id e) st"
  shows "same_store (remove_new_entity (en_id e) (add_entity tier e st)) st"
proof (cases tier)
  case Memory
  have "dhas (memory_of (add_entity tier e st) []) (en_id e)" by (simp add: Memory)
  then show ?thesis using assms
    by (auto simp: remove_new_entity_def same_store_def Memory id_unused_def memory_of_def dget_default_def
        dpop_dset_new add_entity_def)
next
  case Database
  have "remove_first (en_id e) (es_database st @ [e]) = Some (es_database st)"
    using assms by (simp add: id_unused_def remove_first_append)
  then show ?thesis using assms
    by (simp add: remove_new_entity_def same_store_def Database id_unused_def) (simp add: memory_of_def add_entity_def)
next
  case Filesystem
  have "remove_first (en_id e) (es_entities st @ [e]) = Some (es_entities st)"
    "remove_first (en_id e) (es_database st) = None"
    using assms by (simp_all add: id_unused_def remove_first_append remove_first_None)
  then show ?thesis using assms
    by (simp add: remove_new_entity_def same_store_def Filesystem id_unused_def) (simp add: memory_of_def add_entity_def)
qed

lemma create_cases:
  assumes "create ty attrs eid fresh st = (r, st')"
  obtains (early) x where "r = Inl x" "st' = st"
  | (added) e t where "r = Inr e" "dget (es_types st) ty = Some t" "st' = add_entity (et_storage_tier t) e st"
      "validate_store st' = Inr ()" "e = \<lparr>en_id = the (or_str eid (Some fresh)), en_type = ty, en_attrs = attrs\<rparr>"
      "validate_semantics e = Inr ()"
  | (undone) e t x where "r = Inl x" "dget (es_types st) ty = Some t"
      "e = \<lparr>en_id = the (or_str eid (Some fresh)), en_type = ty, en_attrs = attrs\<rparr>"
      "validate_store (add_entity (et_storage_tier t) e st) = Inl x"
      "st' = remove_new_entity (en_id e) (add_entity (et_storage_tier t) e st)"
proof (cases "dget (es_types st) ty")
  case None
  then show ?thesis using assms early by (auto simp: create_def)
next
  case (Some t)
  define e where "e = \<lparr>en_id = the (or_str eid (Some fresh)), en_type = ty, en_attrs = attrs\<rparr>"
  show ?thesis
  proof (cases "validate_semantics e")
    case (Inl x)
    then show ?thesis using assms early Some by (auto simp: create_def e_def Let_def)
  next
    case sem: (Inr u)
    show ?thesis
    proof (cases "validate_store (add_entity (et_storage_tier t) e st)")
      case (Inl x)
      then have "r = Inl x" "st' = remove_new_entity (en_id e) (add_entity (et_storage_tier t) e st)"
        using assms Some sem validate_store_error [OF Inl] by (auto simp: create_def e_def [symmetric] Let_def)
      then show ?thesis using undone Some e_def Inl by blast
    next
      case (Inr u)
      then have "r = Inr e" "st' = add_entity (et_storage_tier t) e st"
        using assms Some sem by (auto simp: create_def e_def [symmetric] Let_def)
      then show ?thesis using added Some e_def Inr sem by simp
    qed
  qed
qed

text \<open>Creating an entity under an unused id either adds exactly that entity and leaves a valid store, or
  fails and leaves the entities and relations as they were.\<close>

theorem create_all_or_nothing:
  assumes "create ty attrs eid fresh st = (r, st')" "id_unused (the (or_str eid (Some fresh))) st"
  shows "case r of
      Inr e \<Rightarrow> valid_entities (es_types st') (es_entities st') \<and> en_type e = ty \<and> en_attrs e = attrs
        \<and> (\<exists>t. dget (es_types st) ty = Some t \<and> same_store st' (add_entity (et_storage_tier t) e st))
    | Inl x \<Rightarrow> same_store st' st"
  using assms(1)
proof (cases rule: create_cases)
  case early
  then show ?thesis by (simp add: same_store_def)
next
  case added
  then show ?thesis by (auto simp: validate_store_Inr same_store_def)
next
  case (undone e t x)
  then have "id_unused (en_id e) st" using assms(2) by simp
  from remove_new_add [OF this] undone show ?thesis by simp
qed

text \<open>Creating a file entity under the id of a file entity that exists fails, but the rollback removes
  the first entity with that id: the old entity is gone and the rejected one stays.\<close>

theorem create_duplicate_replaces:
  assumes "create ty attrs (Some i) fresh st = (r, st')" "i \<noteq> []" "dget (es_types st) ty = Some t"
    "et_storage_tier t = Filesystem" "index_of_id i (es_entities st) = Some k"
    "i \<notin> set (map en_id (es_database st))" "\<not> dhas (memory_of st []) i"
    "validate_semantics \<lparr>en_id = i, en_type = ty, en_attrs = attrs\<rparr> = Inr ()"
  shows "(\<exists>x. r = Inl x) \<and> es_entities st' = take k (es_entities st) @ drop (Suc k) (es_entities st)
     @ [\<lparr>en_id = i, en_type = ty, en_attrs = attrs\<rparr>]"
proof -
  let ?e = "\<lparr>en_id = i, en_type = ty, en_attrs = attrs\<rparr>"
  have eid: "the (or_str (Some i) (Some fresh)) = i" using assms(2) by (simp add: or_str_def)
  have k: "k < length (es_entities st)" "en_id (es_entities st ! k) = i" using index_of_id_Some [OF assms(5)] by auto
  have dup: "i \<in> set (map en_id (es_entities st))" using k by (metis in_set_conv_nth length_map nth_map)
  then have "\<not> valid_entities (es_types st) (es_entities st @ [?e])" by (simp add: valid_entities_def)
  then have "validate_store (add_entity Filesystem ?e st) \<noteq> Inr ()" by (simp add: validate_store_Inr)
  then obtain x where x: "validate_store (add_entity Filesystem ?e st) = Inl x"
    by (cases "validate_store (add_entity Filesystem ?e st)") auto
  have "index_of_id i (es_entities st @ [?e]) = Some k"
    by (rule index_of_id_append [OF assms(5)])
  then have rm: "remove_first i (es_entities st @ [?e]) = Some (take k (es_entities st) @ drop (Suc k) (es_entities st) @ [?e])"
    using remove_first_index [of i "es_entities st @ [?e]" k] k(1) by simp
  have "r = Inl x \<and> st' = remove_new_entity i (add_entity Filesystem ?e st)"
    using assms(1,3,4,8) x validate_store_error [OF x] by (simp add: create_def eid Let_def)
  moreover have "es_entities (remove_new_entity i (add_entity Filesystem ?e st))
      = take k (es_entities st) @ drop (Suc k) (es_entities st) @ [?e]"
    using assms(6,7) rm by (simp add: remove_new_entity_def remove_first_None [THEN iffD2])
  ultimately show ?thesis by simp
qed

text \<open>Deleting an entity removes it and exactly the relations that mention its id or its reference, and
  leaves a valid store; a failed deletion changes nothing.\<close>

theorem delete_removes_relations:
  assumes "delete_entity i st = (r, st')" "valid_entities (es_types st) (es_entities st)"
  shows "case r of Inl x \<Rightarrow> st' = st
    | Inr n \<Rightarrow> (\<exists>e ref. e \<in> set (es_entities st) \<and> en_id e = i \<and> entity_ref e (es_types st) = Inr ref
        \<and> i \<notin> set (map en_id (es_entities st')) \<and> es_entities st' = filter (\<lambda>x. x \<noteq> e) (es_entities st)
        \<and> es_relations st' = filter (\<lambda>x. set (rl_entities x) \<inter> {i, ref} = {}) (es_relations st)
        \<and> n + length (es_relations st') = length (es_relations st)
        \<and> valid_entities (es_types st') (es_entities st'))"
proof (cases "index_of_id i (es_entities st)")
  case None
  then have "r = Inl (not_found i)" "st' = st" using assms(1) by (auto simp: delete_entity_def)
  then show ?thesis by simp
next
  case (Some k)
  let ?es = "es_entities st" and ?e = "es_entities st ! k"
  note k = index_of_id_Some [OF Some]
  show ?thesis
  proof (cases "entity_ref ?e (es_types st)")
    case (Inl x)
    then show ?thesis using assms(1) Some by (auto simp: delete_entity_def Let_def)
  next
    case (Inr ref)
    let ?hit = "\<lambda>r. list_ex (\<lambda>x. x = i \<or> x = ref) (rl_entities r)"
    let ?st' = "st\<lparr>es_entities := take k ?es @ drop (Suc k) ?es,
       es_relations := filter (\<lambda>r. r \<notin> set (filter ?hit (es_relations st))) (es_relations st)\<rparr>"
    show ?thesis
    proof (cases "validate_store ?st'")
      case (Inl x)
      then show ?thesis using assms(1) Some \<open>entity_ref ?e (es_types st) = Inr ref\<close> validate_store_error [OF Inl] k
        by (auto simp: delete_entity_def Let_def)
    next
      case v: (Inr u)
      then have res: "r = Inr (length (filter ?hit (es_relations st)))" "st' = ?st'"
        using assms(1) Some \<open>entity_ref ?e (es_types st) = Inr ref\<close> k by (auto simp: delete_entity_def Let_def)
      have dist: "distinct (map en_id ?es)" using assms(2) by (simp add: valid_entities_def)
      have split: "?es = take k ?es @ ?e # drop (Suc k) ?es" using k by (simp add: id_take_nth_drop)
      have ids: "\<forall>x \<in> set (take k ?es @ drop (Suc k) ?es). en_id x \<noteq> i"
        using dist k by (subst (asm) split) (auto simp del: append_take_drop_id simp: image_iff)
      have flt: "take k ?es @ drop (Suc k) ?es = filter (\<lambda>x. x \<noteq> ?e) ?es"
      proof -
        have "filter (\<lambda>x. x \<noteq> ?e) ?es = filter (\<lambda>x. x \<noteq> ?e) (take k ?es) @ filter (\<lambda>x. x \<noteq> ?e) (drop (Suc k) ?es)"
          by (subst split) simp
        moreover have "filter (\<lambda>x. x \<noteq> ?e) (take k ?es) = take k ?es" "filter (\<lambda>x. x \<noteq> ?e) (drop (Suc k) ?es) = drop (Suc k) ?es"
          using ids k by (auto simp: filter_id_conv)
        ultimately show ?thesis by simp
      qed
      have rels: "filter (\<lambda>r. r \<notin> set (filter ?hit (es_relations st))) (es_relations st)
          = filter (\<lambda>x. set (rl_entities x) \<inter> {i, ref} = {}) (es_relations st)"
        by (rule filter_cong) (auto simp: list_ex_iff)
      have len: "length (filter ?hit (es_relations st)) + length (filter (\<lambda>x. set (rl_entities x) \<inter> {i, ref} = {}) (es_relations st))
          = length (es_relations st)"
      proof -
        have "filter (\<lambda>x. set (rl_entities x) \<inter> {i, ref} = {}) (es_relations st) = filter (\<lambda>x. \<not> ?hit x) (es_relations st)"
          by (rule filter_cong) (auto simp: list_ex_iff)
        then show ?thesis using sum_length_filter_compl [of ?hit "es_relations st"] by simp
      qed
      have valid: "valid_entities (es_types st') (es_entities st')" using v by (simp add: res(2) validate_store_Inr)
      have "?e \<in> set ?es" using k by simp
      moreover have "i \<notin> set (map en_id (es_entities st'))" using ids by (auto simp: res(2))
      ultimately show ?thesis
        using k valid len rels flt \<open>entity_ref ?e (es_types st) = Inr ref\<close> by (auto simp: res intro!: exI [of _ ?e])
    qed
  qed
qed


text \<open>A reference resolves to the entity the cache of the run holds for it; otherwise to the first stored
  entity whose id or business reference it is, and to nothing only when no stored entity matches.\<close>

theorem resolve_spec:
  "resolve st ref run = (case cached_entity st (or_str run (es_default_run st)) ref of Some e \<Rightarrow> Inr e
     | None \<Rightarrow> (case find (\<lambda>e. ref \<in> set (entity_refs e (es_types st))) (all_entities st) of
          Some e \<Rightarrow> Inr e | None \<Rightarrow> Inl (not_found ref)))"
proof -
  have m: "entity_matches e types ref \<longleftrightarrow> ref \<in> set (entity_refs e types)" for e types
    by (auto simp: entity_matches_def entity_refs_def split: sum.splits)
  have q: "query query_all st = all_entities st"
    by (simp add: query_def query_all_def matches_query_def)
  have f: "find P xs = (case filter P xs of [] \<Rightarrow> None | x # _ \<Rightarrow> Some x)" for P and xs :: "entity list"
    by (induction xs) auto
  show ?thesis
    by (simp add: resolve_def q m f split: option.splits list.splits)
qed

text \<open>The results of a query name each entity id once; an entity the run has cached is reported from the
  cache and hides the stored one.\<close>

theorem query_results_distinct:
  "distinct (map (en_id \<circ> qr_entity) (query_results st q run))
   \<and> (\<forall>r \<in> set (query_results st q run). matches_query q (qr_entity r)
        \<and> (qr_from_cache r \<longleftrightarrow> qr_run r \<noteq> None)
        \<and> (\<not> qr_from_cache r \<longrightarrow> qr_entity r \<in> set (all_entities st)))"
proof -
  let ?q = "query q st"
  let ?p = "\<lambda>e. \<lparr>qr_entity = e, qr_from_cache = False, qr_run = None\<rparr>"
  have da: "distinct (map en_id (all_entities st))" by (simp add: all_entities_def dedupe_entities_def dedupe_by_distinct)
  then have dq: "distinct (map en_id ?q)" by (simp add: query_def distinct_map_filter)
  then have fb: "filter (matches_query q) (dedupe_entities ?q) = ?q"
    by (simp add: dedupe_entities_def dedupe_by_id) (simp add: query_def)
  have sub: "set ?q \<subseteq> set (all_entities st)" "\<forall>e \<in> set ?q. matches_query q e" by (auto simp: query_def)
  show ?thesis
  proof (cases "or_str run (es_default_run st)")
    case None
    then show ?thesis using dq sub
      by (auto simp: query_results_def query_results_from_def fb Let_def comp_def)
  next
    case (Some r)
    let ?c = "filter (matches_query q) (dedupe_entities (dvalues (memory_of st r)))"
    have dc: "distinct (map en_id ?c)" by (simp add: dedupe_entities_def dedupe_by_distinct distinct_map_filter)
    have e: "query_results st q run = map (\<lambda>e. \<lparr>qr_entity = e, qr_from_cache = True, qr_run = Some r\<rparr>) ?c
        @ map ?p (filter (\<lambda>e. en_id e \<notin> set (map en_id ?c)) ?q)"
      by (simp add: query_results_def query_results_from_def fb Let_def Some)
    have "distinct (map en_id ?c @ map en_id (filter (\<lambda>e. en_id e \<notin> set (map en_id ?c)) ?q))"
      using dc dq by (auto simp: distinct_map_filter image_iff)
    then have "distinct (map (en_id \<circ> qr_entity) (query_results st q run))"
      unfolding e by (simp add: comp_def)
    moreover have "\<forall>x \<in> set (query_results st q run). matches_query q (qr_entity x)
        \<and> (qr_from_cache x \<longleftrightarrow> qr_run x \<noteq> None) \<and> (\<not> qr_from_cache x \<longrightarrow> qr_entity x \<in> set (all_entities st))"
      unfolding e using sub by auto
    ultimately show ?thesis by blast
  qed
qed

section \<open>Witnesses\<close>

definition note_type :: etype where
  "note_type = (base_type ''Note'' ''id'' ''{id}'' False [] [(''text'', ''string'')])
     \<lparr>et_field_permissions := [(''text'', ReadOnly)]\<rparr>"

definition mk_note :: "string \<Rightarrow> string \<Rightarrow> entity" where
  "mk_note i s = \<lparr>en_id = i, en_type = ''note'', en_attrs = [(''text'', PStr s)]\<rparr>"

definition note_store :: estore where
  "note_store = \<lparr>es_entities = [mk_note ''n1'' ''x'', mk_note ''n2'' ''y''], es_types = [(''note'', note_type)],
     es_relations = [\<lparr>rl_id = ''r'', rl_entities = [''note:n1'', ''note:n2''], rl_type = ''t'', rl_metadata = []\<rparr>],
     es_memory = [], es_database = [], es_default_run = None\<rparr>"

theorem validate_entities_accepts_iff_witness:
  "validated_ref [(''note'', note_type)] (mk_note ''n1'' ''x'') \<noteq> None"
proof -
  have "validate_entities [mk_note ''n1'' ''x''] [(''note'', note_type)] = Inr ()" by code_simp
  then show ?thesis
    using validate_entities_accepts_iff [of "[mk_note ''n1'' ''x'']" "[(''note'', note_type)]"] by simp
qed

theorem overrides_only_widen_witness:
  "perm_le (field_permission note_type ''text'' None)
     (field_permission note_type ''text'' (type_overrides ''note'' (PDict [(''note'', PDict [(''text'', PStr ''read-write'')])])))
   \<and> field_permission note_type ''text'' None = ReadOnly"
proof -
  have v: "validate_permission_overrides [(''note'', note_type)] [(''note'', PDict [(''text'', PStr ''read-write'')])] = Inr ()"
    by code_simp
  have p: "field_permission note_type ''text'' None = ReadOnly" by code_simp
  show ?thesis using overrides_only_widen [OF v, of "''note''" note_type "''text''"] p by simp
qed

theorem save_respects_permissions_witness:
  "dget (en_attrs (mk_note ''n1'' ''x'')) ''text''
     = saved_field note_type (type_overrides (en_type (mk_note ''n1'' ''z'')) PNone)
         (en_attrs (es_entities note_store ! 0)) (en_attrs (mk_note ''n1'' ''z'')) ''text''"
proof -
  have s: "save (mk_note ''n1'' ''z'') PNone note_store = (Inr (mk_note ''n1'' ''x''), note_store)" by code_simp
  have i: "index_of_id (en_id (mk_note ''n1'' ''z'')) (es_entities note_store) = Some 0" by code_simp
  have t: "dget (es_types note_store) (en_type (mk_note ''n1'' ''z'')) = Some note_type" by code_simp
  show ?thesis using save_respects_permissions [OF s i t] by blast
qed

theorem save_failure_keeps_store_witness:
  "snd (save \<lparr>en_id = ''n1'', en_type = ''memo'', en_attrs = []\<rparr> PNone note_store) = note_store"
proof -
  let ?e = "\<lparr>en_id = ''n1'', en_type = ''memo'', en_attrs = []\<rparr>"
  have s: "save ?e PNone note_store = (Inl (ConfigError ''Entity type cannot change: n1''), note_store)" by code_simp
  have i: "index_of_id (en_id ?e) (es_entities note_store) = Some 0" by code_simp
  from save_failure_keeps_store [OF s i] s show ?thesis by simp
qed

theorem create_all_or_nothing_witness:
  "valid_entities (es_types (snd (create ''note'' [] (Some ''n3'') ''f'' note_store)))
     (es_entities (snd (create ''note'' [] (Some ''n3'') ''f'' note_store)))"
proof -
  have c: "fst (create ''note'' [] (Some ''n3'') ''f'' note_store)
      = Inr \<lparr>en_id = ''n3'', en_type = ''note'', en_attrs = []\<rparr>" by code_simp
  have u: "id_unused (the (or_str (Some ''n3'') (Some ''f''))) note_store"
    by (simp add: id_unused_def or_str_def note_store_def mk_note_def memory_of_def dget_default_def dhas_def)
  show ?thesis using create_all_or_nothing [OF surjective_pairing u, of "''note''" "[]", unfolded c] by simp
qed

theorem create_duplicate_replaces_witness:
  "es_entities (snd (create ''note'' [] (Some ''n1'') ''f'' note_store))
     = [mk_note ''n2'' ''y'', \<lparr>en_id = ''n1'', en_type = ''note'', en_attrs = []\<rparr>]"
proof -
  have k: "index_of_id ''n1'' (es_entities note_store) = Some 0" by code_simp
  have "es_entities (snd (create ''note'' [] (Some ''n1'') ''f'' note_store))
      = take 0 (es_entities note_store) @ drop (Suc 0) (es_entities note_store)
      @ [\<lparr>en_id = ''n1'', en_type = ''note'', en_attrs = []\<rparr>]"
    by (rule create_duplicate_replaces [OF surjective_pairing, where t = note_type, THEN conjunct2, OF _ _ _ k])
      (simp_all add: note_store_def note_type_def base_type_def memory_of_def dget_default_def dhas_def validate_semantics_def)
  also have "\<dots> = [mk_note ''n2'' ''y'', \<lparr>en_id = ''n1'', en_type = ''note'', en_attrs = []\<rparr>]"
    by (simp add: note_store_def)
  finally show ?thesis .
qed

theorem delete_removes_relations_witness:
  "\<exists>e ref. e \<in> set (es_entities note_store) \<and> entity_ref e (es_types note_store) = Inr ref
     \<and> ''n1'' \<notin> set (map en_id (es_entities (snd (delete_entity ''n1'' note_store))))"
proof -
  have f: "fst (delete_entity ''n1'' note_store) = Inr 1" by code_simp
  have "validate_store note_store = Inr ()" by code_simp
  then have v: "valid_entities (es_types note_store) (es_entities note_store)" by (simp add: validate_store_Inr)
  show ?thesis using delete_removes_relations [OF surjective_pairing v, of "''n1''", unfolded f]
    by (simp only: sum.case) blast
qed

theorem query_results_distinct_witness:
  "distinct (map (en_id \<circ> qr_entity) (query_results note_store (query_type ''note'') None))
   \<and> list_all (\<lambda>r. matches_query (query_type ''note'') (qr_entity r)) (query_results note_store (query_type ''note'') None)"
  using query_results_distinct [of note_store "query_type ''note''" None] by (auto simp: list_all_iff)

end
