(* ===== verification/TriggerProps.thy ===== *)
theory TriggerProps
  imports Trigger TriggerExprProps EntityStoreProps "HOL-Library.Sublist"
begin

text \<open>
  What the event machinery of \<open>trigger.py\<close> guarantees: the event group as a set of flags, what a wake-up
  does to the waiters, which triggers an emission fires, that one-shot triggers are disabled and
  that the cron emitter emits a token at most once a minute.
\<close>

section \<open>The event group as a set of flags\<close>

text \<open>The contract the executor relies on: flags are raised and dropped one at a time.\<close>

locale event_flags =
  fixes flags :: "'s \<Rightarrow> string set"
    and drop_flag :: "string \<Rightarrow> 's \<Rightarrow> 's"
    and raise_flag :: "string \<Rightarrow> 's \<Rightarrow> 's res"
  assumes flags_drop: "flags (drop_flag e s) = flags s - {e}"
    and raise_ok: "e \<noteq> [] \<Longrightarrow> \<exists>s'. raise_flag e s = Inr s' \<and> flags s' = insert e (flags s)"
    and raise_blank: "\<exists>x. raise_flag [] s = Inl x"
begin

lemma flags_drop_all: "flags (fold drop_flag es s) = flags s - set es"
  by (induction es arbitrary: s) (auto simp: flags_drop)

lemma flags_raise: "raise_flag e s = Inr s' \<Longrightarrow> e \<noteq> [] \<and> flags s' = insert e (flags s)"
  using raise_ok [of e s] raise_blank [of s] by (cases "e = []") auto

end

interpretation eg: event_flags eg_events eg_clear eg_set
  by unfold_locales (auto simp: eg_clear_def eg_set_def)

lemma eg_consume_fold: "eg_consume ts g = fold eg_clear (filter (\<lambda>t. t \<noteq> ''startup'') ts) g"
  by (induction ts arbitrary: g) auto

lemma eg_consume_events: "eg_events (eg_consume ts g) = eg_events g - (set ts - {''startup''})"
  unfolding eg_consume_fold by (auto simp: eg.flags_drop_all)

definition eg_synced :: "event_group \<Rightarrow> bool" where
  "eg_synced g \<longleftrightarrow> (case eg_rows g of None \<Rightarrow> True | Some r \<Rightarrow> r = eg_events g)"

lemma eg_synced_ops:
  "eg_synced (eg_load g)" "eg_synced g \<Longrightarrow> eg_synced (eg_clear ev g)"
  "eg_synced g \<Longrightarrow> eg_set ev g = Inr g' \<Longrightarrow> eg_synced g'"
  by (auto simp: eg_synced_def eg_load_def eg_clear_def eg_set_def split: option.splits if_splits)

lemma eg_synced_consume: "eg_synced g \<Longrightarrow> eg_synced (eg_consume ts g)"
  by (induction ts arbitrary: g) (auto intro: eg_synced_ops)

section \<open>Waking waiters\<close>

lemma wr_ready_from_other:
  "f \<notin> wt_future ` set xs \<Longrightarrow> dget (wr_futures (wr_ready_from xs A p w)) f = dget (wr_futures w) f
     \<and> dget (wr_matched (wr_ready_from xs A p w)) f = dget (wr_matched w) f"
  by (induction xs A p w rule: wr_ready_from.induct) (auto split: if_splits)

lemma wr_ready_from_waiter:
  assumes "distinct (map wt_future xs)" "x \<in> set xs"
  shows "dget (wr_futures (wr_ready_from xs A p w)) (wt_future x) =
      (if \<not> fut_done w (wt_future x) \<and> evaluate (wt_expr x) A then Some (Done p)
       else dget (wr_futures w) (wt_future x))
    \<and> dget (wr_matched (wr_ready_from xs A p w)) (wt_future x) =
      (if \<not> fut_done w (wt_future x) \<and> evaluate (wt_expr x) A then Some (matched_tokens (wt_expr x) A)
       else dget (wr_matched w) (wt_future x))"
  using assms
proof (induction xs A p w rule: wr_ready_from.induct)
  case (2 y ys A p w)
  show ?case
  proof (cases "x = y")
    case True
    have "wt_future x \<notin> wt_future ` set ys" using 2(2) True by simp
    from wr_ready_from_other [OF this] show ?thesis by (auto simp: True)
  next
    case False
    then have x: "x \<in> set ys" and n: "wt_future x \<noteq> wt_future y" using 2(2,3) by (auto simp: image_iff)
    with 2(1) [OF _ x] 2(2) show ?thesis by (auto simp: fut_done_def)
  qed
qed simp

lemma wr_ready_from_waiters: "wr_waiters (wr_ready_from xs A p w) = wr_waiters w"
  by (induction xs A p w rule: wr_ready_from.induct) auto

section \<open>Firing\<close>

text \<open>A quiet callback changes nothing of the executor but the world it acts on.\<close>

definition quiet :: "'w target option \<Rightarrow> bool" where
  "quiet t \<longleftrightarrow> (case t of None \<Rightarrow> True
     | Some f \<Rightarrow> \<forall>a st. \<exists>w. snd (f a st) = st\<lparr>tx_world := w\<rparr>)"

definition quiet_targets :: "'w targets \<Rightarrow> bool" where
  "quiet_targets tg \<longleftrightarrow> quiet (tg_dag tg) \<and> quiet (tg_node tg)"

lemma quiet_adapter:
  assumes "quiet (Some f)"
  shows "\<exists>w. snd (payload_adapter f n p s st) = st\<lparr>tx_world := w\<rparr>"
proof -
  have q: "\<exists>w. snd (f a st) = st\<lparr>tx_world := w\<rparr>" for a st using assms by (simp add: quiet_def)
  let ?s1 = "snd (f (Args3 n p s) st)"
  let ?s2 = "snd (f (Args2 n p) ?s1)"
  obtain w1 where s1: "?s1 = st\<lparr>tx_world := w1\<rparr>" using q by blast
  obtain w2 where "?s2 = ?s1\<lparr>tx_world := w2\<rparr>" using q by blast
  then have s2: "?s2 = st\<lparr>tx_world := w2\<rparr>" by (simp add: s1)
  obtain w3 where "snd (f (Args1 n) ?s2) = ?s2\<lparr>tx_world := w3\<rparr>" using q by blast
  then have s3: "snd (f (Args1 n) ?s2) = st\<lparr>tx_world := w3\<rparr>" by (simp add: s2)
  have "snd (payload_adapter f n p s st) \<in> {?s1, ?s2, snd (f (Args1 n) ?s2)}"
    by (simp add: payload_adapter_def Let_def)
  then show ?thesis using s1 s2 s3 by (elim insertE) auto
qed

lemma quiet_fire:
  assumes "quiet_targets tg"
  shows "(\<exists>w. snd (fire tg target p s st) = st\<lparr>tx_world := w\<rparr>)
    \<or> (starts_with target ''clear:'' \<and> snd (fire tg target p s st) = clear_event (removeprefix target ''clear:'') st)"
proof -
  have id: "\<exists>w. st = st\<lparr>tx_world := w\<rparr>" by (metis trig.surjective trig.update_convs(8))
  show ?thesis
    using assms quiet_adapter id
    by (auto simp: fire_def Let_def quiet_targets_def split: option.splits if_splits)
qed

lemma fire_keeps:
  assumes "quiet_targets tg" "fire tg target p s st = (r, st')"
  shows "eg_events (tx_events st') \<subseteq> eg_events (tx_events st)" "tx_triggers st' = tx_triggers st"
    "tx_store st' = tx_store st" "tx_waiters st' = tx_waiters st" "tx_records st' = tx_records st"
    "tx_max_depth st' = tx_max_depth st"
  using quiet_fire [OF assms(1), of target p s st] assms(2)
  by (auto simp: clear_event_def eg.flags_drop)

lemma disable_keeps:
  assumes "disable_trigger t st = (r, st')"
  shows "tx_events st' = tx_events st" "tx_waiters st' = tx_waiters st" "tx_records st' = tx_records st"
    "tx_triggers st' = map_option (map (\<lambda>x. if en_id x = en_id t then t\<lparr>en_attrs := dset (en_attrs t) ''enabled'' (PBool False)\<rparr> else x)) (tx_triggers st)"
  using assms by (auto simp: disable_trigger_def Let_def split: prod.splits sum.splits)

lemma after_fire_cases:
  assumes "after_fire t x st = (r, st')"
  obtains st1 toks where "st1 = st\<lparr>tx_events := eg_consume toks (tx_events st)\<rparr>"
    "(is_oneshot (te_tokens x) \<and> disable_trigger t st1 = (r, st')) \<or> (\<not> is_oneshot (te_tokens x) \<and> st' = st1)"
  using assms by (auto simp: after_fire_def Let_def split: if_splits)

lemma after_fire_keeps:
  assumes "after_fire t x st = (r, st')"
  shows "eg_events (tx_events st') \<subseteq> eg_events (tx_events st) \<and> tx_records st' = tx_records st"
  using assms
proof (cases rule: after_fire_cases)
  case (1 st1 toks)
  have e: "eg_events (tx_events st1) \<subseteq> eg_events (tx_events st)" "tx_records st1 = tx_records st"
    by (auto simp: 1(1) eg_consume_events)
  show ?thesis
  proof (cases "is_oneshot (te_tokens x)")
    case True
    then have "disable_trigger t st1 = (r, st')" using 1(2) by simp
    from disable_keeps(1,3) [OF this] e show ?thesis by simp
  next
    case False
    then show ?thesis using 1(2) e by simp
  qed
qed

definition triggers_disabled :: "'w trig \<Rightarrow> string \<Rightarrow> bool" where
  "triggers_disabled st i \<longleftrightarrow> (case tx_triggers st of None \<Rightarrow> False
     | Some ts \<Rightarrow> \<forall>x \<in> set ts. en_id x = i \<longrightarrow> \<not> enabled x)"

lemma disable_disables:
  assumes "disable_trigger t st = (r, st')"
  shows "tx_triggers st \<noteq> None \<Longrightarrow> triggers_disabled st' (en_id t)"
    "triggers_disabled st i \<Longrightarrow> triggers_disabled st' i"
  by (auto simp: triggers_disabled_def disable_keeps(4) [OF assms] enabled_def split: option.splits)

lemma after_fire_disables:
  assumes "after_fire t x st = (r, st')"
  shows "tx_triggers st \<noteq> None \<Longrightarrow> is_oneshot (te_tokens x) \<Longrightarrow> triggers_disabled st' (en_id t)"
    "triggers_disabled st i \<Longrightarrow> triggers_disabled st' i" "tx_triggers st \<noteq> None \<Longrightarrow> tx_triggers st' \<noteq> None"
  using assms
proof (atomize (full), cases rule: after_fire_cases)
  case (1 st1 toks)
  have d: "triggers_disabled st1 j = triggers_disabled st j" "tx_triggers st1 = tx_triggers st" for j
    by (simp_all add: triggers_disabled_def 1(1))
  show "(tx_triggers st \<noteq> None \<longrightarrow> is_oneshot (te_tokens x) \<longrightarrow> triggers_disabled st' (en_id t))
    \<and> (triggers_disabled st i \<longrightarrow> triggers_disabled st' i) \<and> (tx_triggers st \<noteq> None \<longrightarrow> tx_triggers st' \<noteq> None)"
  proof (cases "is_oneshot (te_tokens x)")
    case True
    then have "disable_trigger t st1 = (r, st')" using 1(2) by simp
    from disable_disables [OF this] disable_keeps(4) [OF this] d show ?thesis by auto
  next
    case False
    then show ?thesis using 1(2) d by simp
  qed
qed

text \<open>\<open>fireable A t\<close>: the trigger is enabled and its expression holds in \<open>A\<close>.\<close>

definition fireable :: "string set \<Rightarrow> entity \<Rightarrow> bool" where
  "fireable A t \<longleftrightarrow> enabled t \<and> (\<exists>x. expression_of t = Inr (Some x) \<and> evaluate x A)"

lemma expression_of_parses: "expression_of t = Inr (Some x) \<Longrightarrow> \<exists>s. trigger_expression s = Inr x"
  by (auto simp: expression_of_def split: pyval.splits if_splits)

lemma evaluate_mono: "evaluate x A \<Longrightarrow> A \<subseteq> B \<Longrightarrow> evaluate x B"
  by (simp add: evaluate_def eval_mono)

lemma fireable_mono: "fireable A t \<Longrightarrow> A \<subseteq> B \<Longrightarrow> fireable B t"
  using evaluate_mono by (auto simp: fireable_def)

definition fired_by :: "'w trig \<Rightarrow> entity list \<Rightarrow> string list \<Rightarrow> 'w trig \<Rightarrow> entity list \<Rightarrow> bool" where
  "fired_by st ts fs st' us \<longleftrightarrow> subseq us ts \<and> fs = map target_text us
     \<and> (\<forall>t \<in> set us. fireable (eg_events (tx_events st)) t)
     \<and> eg_events (tx_events st') \<subseteq> eg_events (tx_events st) \<and> tx_records st' = tx_records st
     \<and> (\<forall>i. triggers_disabled st i \<longrightarrow> triggers_disabled st' i)
     \<and> (tx_triggers st \<noteq> None \<longrightarrow> (\<forall>t \<in> set us. \<forall>x. expression_of t = Inr (Some x) \<longrightarrow> is_oneshot (te_tokens x)
          \<longrightarrow> triggers_disabled st' (en_id t)))"

lemma fired_by_skip: "fired_by st ts fs st' us \<Longrightarrow> fired_by st (t # ts) fs st' us"
  by (auto simp: fired_by_def)

lemma fired_by_step:
  assumes "quiet_targets tg" "fireable (eg_events (tx_events st)) t" "expression_of t = Inr (Some x)"
    "fire tg (target_text t) p src st = (Inr v, st1)" "after_fire t x st1 = (Inr u, st2)"
    and rest: "fired_by st2 ts fs st' us"
  shows "fired_by st (t # ts) (target_text t # fs) st' (t # us)"
proof -
  note k = fire_keeps [OF assms(1,4)] and a = after_fire_keeps [OF assms(5)] and d = after_fire_disables [OF assms(5)]
  have sub: "eg_events (tx_events st2) \<subseteq> eg_events (tx_events st)" using k(1) a by blast
  have td: "triggers_disabled st1 i = triggers_disabled st i" for i by (simp add: triggers_disabled_def k(2))
  have "subseq (t # us) (t # ts)" using rest by (simp add: fired_by_def)
  moreover have "\<forall>y \<in> set (t # us). fireable (eg_events (tx_events st)) y"
    using rest assms(2) fireable_mono [OF _ sub] by (auto simp: fired_by_def)
  moreover have "eg_events (tx_events st') \<subseteq> eg_events (tx_events st)" "tx_records st' = tx_records st"
    using rest sub a k(5) by (auto simp: fired_by_def)
  moreover have "\<forall>i. triggers_disabled st i \<longrightarrow> triggers_disabled st' i"
    using rest d(2) td by (auto simp: fired_by_def)
  moreover have "\<forall>y \<in> set (t # us). \<forall>z. expression_of y = Inr (Some z) \<longrightarrow> is_oneshot (te_tokens z)
      \<longrightarrow> triggers_disabled st' (en_id y)" if "tx_triggers st \<noteq> None"
  proof -
    have "tx_triggers st1 \<noteq> None" using that k(2) by simp
    then have "tx_triggers st2 \<noteq> None" "is_oneshot (te_tokens x) \<longrightarrow> triggers_disabled st2 (en_id t)"
      using d(1,3) by blast+
    then show ?thesis using rest assms(3) by (auto simp: fired_by_def)
  qed
  ultimately show ?thesis using rest by (simp add: fired_by_def)
qed

lemma fire_triggers_fired:
  assumes "quiet_targets tg" "fire_triggers tg startup p ts st = (Inr fs, st')"
  shows "\<exists>us. fired_by st ts fs st' us"
  using assms(2)
proof (induction ts arbitrary: st fs)
  case Nil
  then show ?case by (auto simp: fired_by_def intro!: exI [of _ "[]"])
next
  case (Cons t ts)
  show ?case
  proof (cases "fireable (eg_events (tx_events st)) t")
    case False
    then have "fire_triggers tg startup p ts st = (Inr fs, st')"
      using Cons.prems by (auto simp: fireable_def split: if_splits sum.splits option.splits)
    then show ?thesis using Cons.IH fired_by_skip by blast
  next
    case True
    then obtain x where x: "enabled t" "expression_of t = Inr (Some x)" "evaluate x (eg_events (tx_events st))"
      by (auto simp: fireable_def)
    obtain r1 st1 where f: "fire tg (target_text t) p (trigger_source startup x t) st = (r1, st1)" by force
    with Cons.prems x obtain v where v: "r1 = Inr v" by (cases r1) auto
    obtain r2 st2 where a: "after_fire t x st1 = (r2, st2)" by force
    with Cons.prems x f v obtain u where u: "r2 = Inr u" by (cases r2) auto
    obtain r3 st3 where g: "fire_triggers tg startup p ts st2 = (r3, st3)" by force
    with Cons.prems x f v a u obtain fs0 where fs0: "r3 = Inr fs0" "fs = target_text t # fs0" "st3 = st'"
      by (cases r3) auto
    from Cons.IH g fs0(1,3) obtain us where "fired_by st2 ts fs0 st' us" by blast
    from fired_by_step [OF assms(1) True x(2) f [unfolded v] a [unfolded u] this] show ?thesis
      unfolding fs0(2) by blast
  qed
qed


section \<open>Emitting\<close>

lemma subseq_set_subset: "subseq xs ys \<Longrightarrow> x \<in> set xs \<Longrightarrow> x \<in> set ys"
  by (auto dest: list_emb_set)

lemma distinct_subseq: "subseq xs ys \<Longrightarrow> distinct ys \<Longrightarrow> distinct xs"
  by (auto simp: subseq_conv_nths)

lemma fold_index_get:
  "dget_default (fold (\<lambda>tok d. dset d tok (dget_default d tok [] @ [t])) toks idx) ev [] =
     dget_default idx ev [] @ replicate (count_list toks ev) t"
proof (induction toks arbitrary: idx)
  case (Cons a toks)
  then show ?case by (auto simp: dget_default_def replicate_app_Cons_same split: option.splits)
qed simp

lemma index_triggers_members:
  assumes "index_triggers ts idx = Inr idx'" "t \<in> set (dget_default idx' ev [])"
  shows "t \<in> set (dget_default idx ev []) \<or> (t \<in> set ts \<and> (\<exists>x. expression_of t = Inr (Some x) \<and> ev \<in> set (te_tokens x)))"
  using assms(1)
proof (induction ts arbitrary: idx)
  case Nil
  then show ?case using assms(2) by simp
next
  case (Cons s ts)
  then obtain x where x: "expression_of s = Inr x" by auto
  show ?case
  proof (cases x)
    case None
    then show ?thesis using Cons x by fastforce
  next
    case (Some e)
    let ?idx = "fold (\<lambda>tok d. dset d tok (dget_default d tok [] @ [s])) (te_tokens e) idx"
    have "index_triggers ts ?idx = Inr idx'" using Cons.prems x Some by simp
    from Cons.IH [OF this] have "t \<in> set (dget_default ?idx ev []) \<or> (t \<in> set ts \<and> (\<exists>x. expression_of t = Inr (Some x) \<and> ev \<in> set (te_tokens x)))" .
    then show ?thesis
      unfolding fold_index_get using x Some count_list_0_iff [of "te_tokens e" ev]
      by (auto simp: set_replicate_conv_if split: if_splits)
  qed
qed

lemma emit_event_fired:
  assumes "quiet_targets tg" "emit_event tg ev p st = (Inr fs, st')"
  obtains us where "ev \<noteq> []" "fs = map target_text us" "tx_records st' = tx_records st"
    "\<forall>t \<in> set us. t \<in> set (triggers st) \<and> fireable (insert ev (eg_events (tx_events st))) t
       \<and> (\<exists>x. expression_of t = Inr (Some x) \<and> ev \<in> set (te_tokens x))"
    "tx_triggers st \<noteq> None \<longrightarrow> (\<forall>t \<in> set us. \<forall>x. expression_of t = Inr (Some x) \<longrightarrow> is_oneshot (te_tokens x)
          \<longrightarrow> triggers_disabled st' (en_id t))"
    "eg_events (tx_events st') \<subseteq> insert ev (eg_events (tx_events st))"
proof -
  obtain g where g: "eg_set ev (tx_events st) = Inr g"
    using assms(2) by (cases "eg_set ev (tx_events st)") (auto simp: emit_event_def)
  let ?st1 = "st\<lparr>tx_events := g, tx_waiters := wr_ready (eg_events g) p (tx_waiters st)\<rparr>"
  obtain ts where ts: "affected_triggers ev ?st1 = Inr ts"
    using assms(2) g by (cases "affected_triggers ev ?st1") (auto simp: emit_event_def Let_def)
  have "fire_triggers tg (''startup'' \<in> eg_events g) p ts ?st1 = (Inr fs, st')"
    using assms(2) g ts by (simp add: emit_event_def Let_def)
  from fire_triggers_fired [OF assms(1) this] obtain us where us: "fired_by ?st1 ts fs st' us" by blast
  note ge = eg.flags_raise [OF g]
  obtain idx where idx: "index_triggers (triggers st) [] = Inr idx" "ts = dget_default idx ev []"
    using ts by (auto simp: affected_triggers_def reverse_index_def triggers_def split: option.splits)
  have mem: "t \<in> set (triggers st) \<and> (\<exists>x. expression_of t = Inr (Some x) \<and> ev \<in> set (te_tokens x))" if "t \<in> set ts" for t
    using index_triggers_members [OF idx(1), of t ev] that idx(2) by (simp add: dget_default_def)
  have "set us \<subseteq> set ts" using us by (auto simp: fired_by_def dest: subseq_set_subset)
  then have "\<forall>t \<in> set us. t \<in> set (triggers st) \<and> fireable (insert ev (eg_events (tx_events st))) t
       \<and> (\<exists>x. expression_of t = Inr (Some x) \<and> ev \<in> set (te_tokens x))"
    using us mem ge by (auto simp: fired_by_def)
  moreover have "tx_triggers st \<noteq> None \<longrightarrow> (\<forall>t \<in> set us. \<forall>x. expression_of t = Inr (Some x) \<longrightarrow> is_oneshot (te_tokens x)
          \<longrightarrow> triggers_disabled st' (en_id t))" using us by (simp add: fired_by_def)
  moreover have "fs = map target_text us" "tx_records st' = tx_records st"
    "eg_events (tx_events st') \<subseteq> insert ev (eg_events (tx_events st))"
    using us ge by (auto simp: fired_by_def)
  ultimately show ?thesis using that ge by blast
qed

lemma emit_plain:
  assumes "emit tg ev p src d st = (Inr fs, st')" "\<not> starts_with ev ''manual:''" "\<not> starts_with ev ''clear:''"
  shows "d < tx_max_depth st \<and> emit_event tg ev p (record_emit ev p src d st) = (Inr fs, st')"
  using assms by (auto simp: emit_def Let_def split: if_splits)

lemma record_emit_simps [simp]: "tx_events (record_emit ev p src d st) = tx_events st"
  "tx_triggers (record_emit ev p src d st) = tx_triggers st" "triggers (record_emit ev p src d st) = triggers st"
  "tx_records (record_emit ev p src d st) = tx_records st @ [\<lparr>er_event = ev, er_payload = p, er_source = src, er_depth = d\<rparr>]"
  by (simp_all add: record_emit_def Let_def triggers_def split: option.splits)

section \<open>Ticks of the clock\<close>

lemma tick_tokens_emitted:
  assumes "tick_tokens tg now ts em st = (Inr fs, (em', st'))"
  shows "subseq fs ts \<and> em' = em \<union> (\<lambda>t. (t, now)) ` set fs \<and> (\<forall>t \<in> set fs. (t, now) \<notin> em \<and> cron_matches (cron_value t) now = Inr True)
    \<and> (\<forall>t \<in> set ts. cron_matches (cron_value t) now = Inr True \<longrightarrow> (t, now) \<in> em')"
  using assms
proof (induction ts arbitrary: em st fs)
  case Nil
  then show ?case by simp
next
  case (Cons t ts)
  show ?case
  proof (cases "(t, now) \<in> em \<or> cron_matches (cron_value t) now \<noteq> Inr True")
    case True
    then have "tick_tokens tg now ts em st = (Inr fs, (em', st'))"
      using Cons.prems by (auto split: if_splits sum.splits bool.splits)
    from Cons.IH [OF this] True show ?thesis by auto
  next
    case False
    obtain r1 st1 where e: "emit tg t PNone ''cron'' 0 st = (r1, st1)" by force
    with Cons.prems False obtain v where v: "r1 = Inr v" by (cases r1) auto
    obtain r2 s2 where k: "tick_tokens tg now ts (insert (t, now) em) st1 = (r2, s2)" by (rule prod.exhaust)
    with Cons.prems False e v obtain fs0 where fs0: "r2 = Inr fs0" "fs = t # fs0" "s2 = (em', st')"
      by (cases r2) auto
    from Cons.IH [OF k [unfolded fs0(1,3)]] False show ?thesis by (auto simp: fs0(2))
  qed
qed

section \<open>Properties\<close>

text \<open>A successful emission of a plain event records it and fires only triggers that are enabled, wait for this event and whose
  expression holds with the event raised; the events afterwards are among the earlier ones and the new one. The targets do not
  use the trigger executor themselves; the theory \<open>TriggeredRuns\<close> has those of the controller.\<close>

lemma emit_fires:
  assumes "emit tg ev p src d st = (Inr fs, st')" "quiet_targets tg"
    "\<not> starts_with ev ''manual:''" "\<not> starts_with ev ''clear:''"
  shows "d < tx_max_depth st
    \<and> tx_records st' = tx_records st @ [\<lparr>er_event = ev, er_payload = p, er_source = src, er_depth = d\<rparr>]
    \<and> eg_events (tx_events st') \<subseteq> insert ev (eg_events (tx_events st))
    \<and> (\<exists>us. fs = map target_text us \<and> (\<forall>t \<in> set us. t \<in> set (triggers st) \<and> enabled t
          \<and> (\<exists>x. expression_of t = Inr (Some x) \<and> ev \<in> set (te_tokens x) \<and> evaluate x (insert ev (eg_events (tx_events st))))))"
proof -
  note e = emit_plain [OF assms(1,3,4)]
  from emit_event_fired [OF assms(2) conjunct2 [OF e]] obtain us where
    "fs = map target_text us" "tx_records st' = tx_records (record_emit ev p src d st)"
    "\<forall>t \<in> set us. t \<in> set (triggers st) \<and> fireable (insert ev (eg_events (tx_events st))) t
       \<and> (\<exists>x. expression_of t = Inr (Some x) \<and> ev \<in> set (te_tokens x))"
    "eg_events (tx_events st') \<subseteq> insert ev (eg_events (tx_events st))"
    by (metis record_emit_simps(1,3))
  with e show ?thesis by (fastforce simp: fireable_def)
qed

text \<open>After a successful emission every fired trigger whose expression holds a cron token with a
  restricted day, month or weekday is disabled.\<close>

theorem emit_disables_oneshot:
  assumes "emit tg ev p src d st = (Inr fs, st')" "quiet_targets tg"
    "\<not> starts_with ev ''manual:''" "\<not> starts_with ev ''clear:''" "tx_triggers st \<noteq> None"
  shows "\<exists>us. fs = map target_text us \<and> (\<forall>t \<in> set us. \<forall>x. expression_of t = Inr (Some x) \<longrightarrow> is_oneshot (te_tokens x)
     \<longrightarrow> triggers_disabled st' (en_id t))"
proof -
  note e = emit_plain [OF assms(1,3,4)]
  show ?thesis using emit_event_fired [OF assms(2) conjunct2 [OF e]] assms(5) by (metis record_emit_simps(2))
qed

text \<open>Consuming tokens drops exactly those tokens but never the \<open>startup\<close> flag, and the table of the event
  group stays equal to the flags in memory.\<close>

theorem consume_keeps_startup:
  "eg_events (eg_consume ts g) = eg_events g - (set ts - {''startup''}) \<and> (eg_synced g \<longrightarrow> eg_synced (eg_consume ts g))"
  using eg_consume_events eg_synced_consume by blast

text \<open>A wake-up resolves exactly the pending waiters whose expression holds, with the payload and their
  matched tokens, and leaves every other future alone.\<close>

theorem ready_wakes_matching:
  assumes "distinct (map wt_future (wr_waiters w))"
  shows "(\<forall>x \<in> set (wr_waiters w).
      (if \<not> fut_done w (wt_future x) \<and> evaluate (wt_expr x) active
       then dget (wr_futures (wr_ready active p w)) (wt_future x) = Some (Done p)
         \<and> wr_matched_tokens (wt_future x) (wr_ready active p w) = matched_tokens (wt_expr x) active
       else dget (wr_futures (wr_ready active p w)) (wt_future x) = dget (wr_futures w) (wt_future x)))
    \<and> (\<forall>f. f \<notin> wt_future ` set (wr_waiters w) \<longrightarrow> dget (wr_futures (wr_ready active p w)) f = dget (wr_futures w) f)"
  using wr_ready_from_waiter [OF assms] wr_ready_from_other [of _ "wr_waiters w"]
  by (auto simp: wr_ready_def wr_matched_tokens_def dget_default_def)

text \<open>A tick emits each cron token that matches the minute and was not yet emitted in it, each once, and
  remembers it; so a token is emitted at most once a minute over all ticks.\<close>

theorem tick_once_per_minute:
  assumes "tick tg now em st = (Inr fs, (em', st'))"
  shows "distinct fs \<and> em' = em \<union> (\<lambda>t. (t, now)) ` set fs
    \<and> (\<forall>t \<in> set fs. (t, now) \<notin> em \<and> cron_matches (cron_value t) now = Inr True)
    \<and> (\<forall>i t. reverse_index st = Inr i \<longrightarrow> dhas i t \<longrightarrow> starts_with t cron_open
         \<longrightarrow> cron_matches (cron_value t) now = Inr True \<longrightarrow> (t, now) \<in> em')"
proof -
  obtain i where i: "reverse_index st = Inr i"
    using assms by (auto simp: tick_def cron_tokens_def split: sum.splits)
  let ?ts = "filter (\<lambda>t. starts_with t cron_open) (dkeys i)"
  have t: "tick_tokens tg now (sort ?ts) em st = (Inr fs, (em', st'))"
    using assms i by (simp add: tick_def cron_tokens_def)
  note r = tick_tokens_emitted [OF t]
  have keys: "index_triggers ts d = Inr d' \<Longrightarrow> distinct (dkeys d) \<Longrightarrow> distinct (dkeys d')" for ts d d'
  proof (induction ts arbitrary: d)
    case (Cons s ts)
    have f: "distinct (dkeys d) \<Longrightarrow> distinct (dkeys (fold (\<lambda>tok d. dset d tok (dget_default d tok [] @ [s])) toks d))" for toks d
      by (induction toks arbitrary: d) auto
    from Cons show ?case by (auto split: option.splits intro: f)
  qed simp
  have "distinct (dkeys i)" using keys [of "triggers st" "[]"] i by (simp add: reverse_index_def)
  then have "distinct (sort ?ts)" by simp
  then have "distinct fs" using r distinct_subseq by blast
  then show ?thesis using r i by (auto simp: dhas_keys)
qed

text \<open>The cron expression the console writes for working days at nine, \<open>0 9 * * 1-5\<close>, matches from Tuesday
  to Saturday: the weekday counts from Monday as 0. A trigger that waits for it counts as one-shot, so it
  is disabled after its first firing.\<close>

theorem cron_workdays_shifted:
  "cron_matches ''0 9 * * 1-5'' t = Inr (mt_minute t = 0 \<and> mt_hour t = 9 \<and> 1 \<le> weekday t \<and> weekday t \<le> 5)
   \<and> is_oneshot [cron_open @ ''0 9 * * 1-5'' @ [CHR 0x22]]"
proof
  have f: "split_ws ''0 9 * * 1-5'' = [''0'', ''9'', ''*'', ''*'', ''1-5'']" by code_simp
  have n: "py_int_of_text ''0'' = Inr 0" "py_int_of_text ''9'' = Inr 9" "py_int_of_text ''1'' = Inr 1"
    "py_int_of_text ''5'' = Inr 5" by code_simp+
  have z: "[0..<5] = [0, 1, 2, 3, 4 :: nat]" by (simp add: upt_rec)
  show "cron_matches ''0 9 * * 1-5'' t = Inr (mt_minute t = 0 \<and> mt_hour t = 9 \<and> 1 \<le> weekday t \<and> weekday t \<le> 5)"
    by (auto simp: cron_matches_def f z cron_values_def cron_field_matches_def cron_part_matches_def n starts_with_def)
  show "is_oneshot [cron_open @ ''0 9 * * 1-5'' @ [CHR 0x22]]" by code_simp
qed

section \<open>Witnesses\<close>

definition once_token :: string where
  "once_token = cron_open @ ''0 9 30 5 *'' @ [CHR 0x22]"

definition once_trigger :: entity where
  "once_trigger = \<lparr>en_id = ''t'', en_type = ''trigger'', en_attrs = [(''name'', PStr ''t''), (''wait_for'', PStr once_token),
     (''target'', PStr ''dag:x'')]\<rparr>"

definition log_targets :: "string list targets" where
  "log_targets = \<lparr>tg_dag = Some (\<lambda>a st. (Inr PNone, st\<lparr>tx_world := (case a of Args3 n _ _ \<Rightarrow> n | Args2 n _ \<Rightarrow> n | Args1 n \<Rightarrow> n) # tx_world st\<rparr>)),
     tg_node = None\<rparr>"

definition once_state :: "string list trig" where
  "once_state = \<lparr>tx_store = \<lparr>es_entities = [once_trigger], es_types = default_core_types, es_relations = [],
       es_memory = [], es_database = [], es_default_run = None\<rparr>,
     tx_max_depth = 3, tx_events = \<lparr>eg_events = {}, eg_rows = None\<rparr>,
     tx_waiters = \<lparr>wr_waiters = [], wr_matched = [], wr_futures = [], wr_next = 0\<rparr>,
     tx_records = [], tx_table = None, tx_triggers = Some [once_trigger], tx_world = []\<rparr>"

lemma log_targets_quiet: "quiet_targets log_targets"
  by (auto simp: quiet_targets_def quiet_def log_targets_def)

lemma emit_once: "fst (emit log_targets once_token PNone ''cron'' 0 once_state) = Inr [''dag:x'']"
  by code_simp

lemma once_token_plain: "\<not> starts_with once_token ''manual:''" "\<not> starts_with once_token ''clear:''"
  by code_simp+

lemma emit_once_eq: "emit log_targets once_token PNone ''cron'' 0 once_state
    = (Inr [''dag:x''], snd (emit log_targets once_token PNone ''cron'' 0 once_state))"
  by (rule prod_eqI) (simp_all only: emit_once fst_conv snd_conv)

theorem emit_disables_oneshot_witness:
  "\<exists>us. [''dag:x''] = map target_text us"
proof -
  have "tx_triggers once_state \<noteq> None" by (simp add: once_state_def)
  from emit_disables_oneshot [OF emit_once_eq log_targets_quiet once_token_plain this]
  show ?thesis by (elim exE conjE) (rule exI)
qed

theorem consume_keeps_startup_witness:
  "eg_synced (eg_consume [''startup'', ''a''] \<lparr>eg_events = {''startup'', ''a''}, eg_rows = Some {''startup'', ''a''}\<rparr>)"
  using consume_keeps_startup [of "[''startup'', ''a'']" "\<lparr>eg_events = {''startup'', ''a''}, eg_rows = Some {''startup'', ''a''}\<rparr>"]
  by (simp add: eg_synced_def)

definition demo_registry :: wait_registry where
  "demo_registry = \<lparr>wr_waiters = [\<lparr>wt_expr = demo_trigger, wt_future = 0\<rparr>,
      \<lparr>wt_expr = \<lparr>te_root = TokenExpr ''event:a'', te_tokens = [''event:a'']\<rparr>, wt_future = 1\<rparr>],
     wr_matched = [], wr_futures = [(0, Pending), (1, Pending)], wr_next = 2\<rparr>"

theorem ready_wakes_matching_witness:
  "dget (wr_futures (wr_ready {''event:a''} (PInt 1) demo_registry)) 1 = Some (Done (PInt 1))
   \<and> dget (wr_futures (wr_ready {''event:a''} (PInt 1) demo_registry)) 0 = Some Pending"
proof -
  have "distinct (map wt_future (wr_waiters demo_registry))" by (simp add: demo_registry_def)
  note r = ready_wakes_matching [OF this, of "{''event:a''}" "PInt 1"]
  show ?thesis using r [THEN conjunct1]
    by (simp add: demo_registry_def fut_done_def evaluate_def demo_trigger_def cron_open_def)
qed

definition nine :: minute_time where
  "nine = \<lparr>mt_year = 1, mt_month = 5, mt_day = 30, mt_hour = 9, mt_minute = 0\<rparr>"

lemma tick_once: "fst (tick log_targets nine {} once_state) = Inr [once_token]"
  by code_simp

theorem tick_once_per_minute_witness:
  "(once_token, nine) \<in> fst (snd (tick log_targets nine {} once_state))"
proof -
  obtain em' st' where s: "snd (tick log_targets nine {} once_state) = (em', st')" by force
  have "tick log_targets nine {} once_state = (Inr [once_token], (em', st'))"
    by (rule prod_eqI) (simp_all only: tick_once s fst_conv snd_conv)
  from tick_once_per_minute [OF this] show ?thesis by (simp add: s)
qed

end
