(* ===== verification/Resources.thy ===== *)
theory Resources
  imports EntityStore
begin

text \<open>
  \<open>dag/resources.py\<close>: the semaphore of a resource with its queue of waiting futures, and the cache of
  semaphores by resource id. The coroutine \<open>acquire\<close> is split at its only suspension point: its first
  part (\<open>acquire_begin\<close>), its normal end after the future was granted (\<open>acquire_end\<close>) and its handler of
  \<open>CancelledError\<close> (\<open>acquire_cancelled\<close>). \<open>cancel_future\<close> is what \<open>task.cancel()\<close> does to the future the
  task waits for: a pending future becomes cancelled, a granted one stays as it is.
\<close>

datatype wait_state = Waiting | Granted | CancelledWait

record sem =
  sm_permits :: int
  sm_count :: int
  sm_waiters :: "nat list"
  sm_futures :: "(nat, wait_state) dict"
  sm_released :: bool

definition new_sem :: "int \<Rightarrow> sem" where
  "new_sem p = \<lparr>sm_permits = p, sm_count = p, sm_waiters = [], sm_futures = [], sm_released = False\<rparr>"

definition sem_available :: "sem \<Rightarrow> bool" where
  "sem_available s = (0 < sm_count s)"

definition acquire_nowait :: "sem \<Rightarrow> sem option" where
  "acquire_nowait s = (if sm_count s \<le> 0 then None else Some (s\<lparr>sm_count := sm_count s - 1\<rparr>))"

text \<open>\<open>_wakeup_next\<close>: the first waiter whose future is not done gets the permit.\<close>

fun wake_from :: "nat list \<Rightarrow> sem \<Rightarrow> sem" where
  "wake_from [] s = s\<lparr>sm_waiters := []\<rparr>"
| "wake_from (f # fs) s =
     (if sm_count s \<le> 0 then s\<lparr>sm_waiters := f # fs\<rparr>
      else if dget (sm_futures s) f = Some Waiting
      then s\<lparr>sm_waiters := fs, sm_count := sm_count s - 1, sm_futures := dset (sm_futures s) f Granted\<rparr>
      else wake_from fs s)"

definition wakeup_next :: "sem \<Rightarrow> sem" where
  "wakeup_next s = wake_from (sm_waiters s) s"

definition release :: "sem \<Rightarrow> sem" where
  "release s = wakeup_next (s\<lparr>sm_count := sm_count s + 1, sm_released := True\<rparr>)"

text \<open>The flag says whether the caller has its permit at once; otherwise it waits for the future \<open>f\<close>.\<close>

definition acquire_begin :: "nat \<Rightarrow> sem \<Rightarrow> bool \<times> sem" where
  "acquire_begin f s = (if 0 < sm_count s then (True, s\<lparr>sm_count := sm_count s - 1\<rparr>)
     else (False, s\<lparr>sm_waiters := sm_waiters s @ [f], sm_futures := dset (sm_futures s) f Waiting\<rparr>))"

definition cancel_future :: "nat \<Rightarrow> sem \<Rightarrow> sem" where
  "cancel_future f s = (if dget (sm_futures s) f = Some Waiting
     then s\<lparr>sm_futures := dset (sm_futures s) f CancelledWait\<rparr> else s)"

definition forget_future :: "nat \<Rightarrow> sem \<Rightarrow> sem" where
  "forget_future f s = s\<lparr>sm_futures := dpop (sm_futures s) f\<rparr>"

definition acquire_end :: "nat \<Rightarrow> sem \<Rightarrow> sem" where
  "acquire_end f s = forget_future f s"

definition acquire_cancelled :: "nat \<Rightarrow> sem \<Rightarrow> sem" where
  "acquire_cancelled f s = forget_future f
     (if dget (sm_futures s) f = Some Waiting then s\<lparr>sm_waiters := remove1 f (sm_waiters s)\<rparr>
      else if 0 < sm_count s then wakeup_next (s\<lparr>sm_count := sm_count s - 1\<rparr>) else s)"

section \<open>The cache of semaphores\<close>

type_synonym sem_cache = "(string, sem) dict"

definition valid_permits :: "pyval \<Rightarrow> int option" where
  "valid_permits v = (case v of PInt n \<Rightarrow> if n < 1 then None else Some n | _ \<Rightarrow> None)"

definition resource_id :: "string \<Rightarrow> estore option \<Rightarrow> entity res" where
  "resource_id ref store = (case store of None \<Rightarrow> Inl (not_found ref)
     | Some st \<Rightarrow> rbind (resolve st ref None) (\<lambda>e.
         if en_type e \<noteq> ''resource'' then Inl (ConfigError (''Entity is not a resource: '' @ ref)) else Inr e))"

text \<open>The id under which the semaphore is cached, and the cache with it.\<close>

definition get_semaphore :: "string \<Rightarrow> estore option \<Rightarrow> sem_cache \<Rightarrow> (string \<times> sem_cache) res" where
  "get_semaphore ref store cache = rbind (resource_id ref store) (\<lambda>e.
     if dhas cache (en_id e) then Inr (en_id e, cache)
     else (case valid_permits (aget (en_attrs e) ''permits'') of
         None \<Rightarrow> Inl (ConfigError (''resource '' @ ref @ '' permits must be >= 1''))
       | Some p \<Rightarrow> Inr (en_id e, dset cache (en_id e) (new_sem p))))"

section \<open>The machine of one semaphore\<close>

text \<open>\<open>sr_holders\<close> counts the callers that were told they have a permit and have not released it.\<close>

record sem_run =
  sr_sem :: sem
  sr_holders :: int

definition granted_futures :: "sem \<Rightarrow> nat set" where
  "granted_futures s = {f. dget (sm_futures s) f = Some Granted}"

text \<open>\<open>polite\<close> steps are all steps but the cancellation of a waiter.\<close>

inductive polite_step :: "sem_run \<Rightarrow> sem_run \<Rightarrow> bool" where
  nowait: "acquire_nowait (sr_sem r) = Some s \<Longrightarrow> polite_step r \<lparr>sr_sem = s, sr_holders = sr_holders r + 1\<rparr>"
| direct: "acquire_begin f (sr_sem r) = (True, s) \<Longrightarrow> polite_step r \<lparr>sr_sem = s, sr_holders = sr_holders r + 1\<rparr>"
| enqueue: "dget (sm_futures (sr_sem r)) f = None \<Longrightarrow> f \<notin> set (sm_waiters (sr_sem r)) \<Longrightarrow>
    acquire_begin f (sr_sem r) = (False, s) \<Longrightarrow> polite_step r (r\<lparr>sr_sem := s\<rparr>)"
| resume: "dget (sm_futures (sr_sem r)) f = Some Granted \<Longrightarrow>
    polite_step r \<lparr>sr_sem = acquire_end f (sr_sem r), sr_holders = sr_holders r + 1\<rparr>"
| give: "0 < sr_holders r \<Longrightarrow> polite_step r \<lparr>sr_sem = release (sr_sem r), sr_holders = sr_holders r - 1\<rparr>"

inductive sem_step :: "sem_run \<Rightarrow> sem_run \<Rightarrow> bool" where
  polite: "polite_step r r' \<Longrightarrow> sem_step r r'"
| cancel: "sem_step r (r\<lparr>sr_sem := cancel_future f (sr_sem r)\<rparr>)"
| handler: "dget (sm_futures (sr_sem r)) f \<noteq> None \<Longrightarrow> sem_step r (r\<lparr>sr_sem := acquire_cancelled f (sr_sem r)\<rparr>)"

definition sem_start :: "int \<Rightarrow> sem_run" where
  "sem_start p = \<lparr>sr_sem = new_sem p, sr_holders = 0\<rparr>"

definition sem_reachable :: "int \<Rightarrow> sem_run \<Rightarrow> bool" where
  "sem_reachable p r = sem_step\<^sup>*\<^sup>* (sem_start p) r"

end
