(* ===== verification/ResourcesProps.thy ===== *)
theory ResourcesProps
  imports Resources EntityStoreProps
begin

text \<open>
  What the semaphores of \<open>dag/resources.py\<close> guarantee: never more holders than permits, no free permit
  while a live waiter waits, first come first served, no permit lost without cancellations; and
  that a cancelled waiter can lose one for good.
\<close>

section \<open>The contract of a pool of permits\<close>

text \<open>What a client that only takes permits without waiting and gives them back may rely on, whatever other
  users of the pool do in between.\<close>

locale permit_pool =
  fixes limit :: "'p \<Rightarrow> int"
    and in_use :: "'p \<Rightarrow> int"
    and take_permit :: "'p \<Rightarrow> 'p option"
    and give_permit :: "'p \<Rightarrow> 'p"
  assumes take_ok: "take_permit s = Some s' \<Longrightarrow> in_use s' = in_use s + 1 \<and> limit s' = limit s \<and> in_use s < limit s"
    and take_full: "take_permit s = None \<Longrightarrow> limit s \<le> in_use s"
    and give_bounds: "in_use s - 1 \<le> in_use (give_permit s)" "in_use (give_permit s) \<le> in_use s"
    and give_limit: "limit (give_permit s) = limit s"
begin

definition accounted :: "int \<Rightarrow> 'p \<Rightarrow> bool" where
  "accounted k s \<longleftrightarrow> 0 \<le> k \<and> k \<le> in_use s \<and> in_use s \<le> limit s"

lemma accounted_take: "accounted k s \<Longrightarrow> take_permit s = Some s' \<Longrightarrow> accounted (k + 1) s'"
  using take_ok [of s s'] by (auto simp: accounted_def)

lemma accounted_give: "accounted k s \<Longrightarrow> 0 < k \<Longrightarrow> accounted (k - 1) (give_permit s)"
  using give_bounds [of s] give_limit [of s] by (auto simp: accounted_def)

lemma accounted_limit: "accounted k s \<Longrightarrow> k \<le> limit s"
  by (auto simp: accounted_def)

end

definition sem_in_use :: "sem \<Rightarrow> int" where
  "sem_in_use s = sm_permits s - sm_count s"

lemma wake_from_permits [simp]: "sm_permits (wake_from fs s) = sm_permits s"
  by (induction fs s rule: wake_from.induct) auto

lemma wake_from_count: "sm_count (wake_from fs s) = sm_count s \<or> (0 < sm_count s \<and> sm_count (wake_from fs s) = sm_count s - 1)"
  by (induction fs s rule: wake_from.induct) auto

interpretation pool: permit_pool sm_permits sem_in_use acquire_nowait release
proof
  fix s s' assume "acquire_nowait s = Some s'"
  then show "sem_in_use s' = sem_in_use s + 1 \<and> sm_permits s' = sm_permits s \<and> sem_in_use s < sm_permits s"
    by (auto simp: acquire_nowait_def sem_in_use_def split: if_splits)
next
  fix s assume "acquire_nowait s = None"
  then show "sm_permits s \<le> sem_in_use s" by (auto simp: acquire_nowait_def sem_in_use_def split: if_splits)
next
  fix s :: sem
  let ?t = "s\<lparr>sm_count := sm_count s + 1, sm_released := True\<rparr>"
  have "sm_count (release s) = sm_count s + 1 \<or> sm_count (release s) = sm_count s"
    using wake_from_count [of "sm_waiters ?t" ?t] by (auto simp: release_def wakeup_next_def)
  then show "sem_in_use s - 1 \<le> sem_in_use (release s)" "sem_in_use (release s) \<le> sem_in_use s"
    by (auto simp: sem_in_use_def release_def wakeup_next_def)
  show "sm_permits (release s) = sm_permits s" by (simp add: release_def wakeup_next_def)
qed

section \<open>Waking a waiter\<close>

lemma wake_from_spec:
  "wake_from fs s = (case (if 0 < sm_count s then find (\<lambda>f. dget (sm_futures s) f = Some Waiting) fs else None) of
     None \<Rightarrow> s\<lparr>sm_waiters := (if sm_count s \<le> 0 then fs else [])\<rparr>
   | Some f \<Rightarrow> s\<lparr>sm_waiters := tl (dropWhile (\<lambda>f. dget (sm_futures s) f \<noteq> Some Waiting) fs),
        sm_count := sm_count s - 1, sm_futures := dset (sm_futures s) f Granted\<rparr>)"
  by (induction fs s rule: wake_from.induct) (auto split: option.splits)

definition live_waiters :: "sem \<Rightarrow> nat list" where
  "live_waiters s = filter (\<lambda>f. dget (sm_futures s) f = Some Waiting) (sm_waiters s)"

definition sem_ok :: "sem \<Rightarrow> bool" where
  "sem_ok s \<longleftrightarrow> 0 \<le> sm_count s \<and> distinct (sm_waiters s) \<and> (0 < sm_count s \<longrightarrow> live_waiters s = [])
     \<and> (\<forall>f. dget (sm_futures s) f = Some Waiting \<longrightarrow> f \<in> set (sm_waiters s))"

lemma finite_granted: "finite (granted_futures s)"
proof (rule finite_subset)
  show "granted_futures s \<subseteq> fst ` set (sm_futures s)"
    by (force simp: granted_futures_def dest: map_of_SomeD)
qed simp

definition granted_count :: "sem \<Rightarrow> int" where
  "granted_count s = int (card (granted_futures s))"

lemma granted_set:
  "granted_futures (s\<lparr>sm_futures := dset (sm_futures s) f w\<rparr>) =
     (if w = Granted then insert f (granted_futures s) else granted_futures s - {f})"
  "granted_futures (forget_future f s) = granted_futures s - {f}"
  by (auto simp: granted_futures_def forget_future_def)

lemma granted_upd [simp]: "granted_futures (s\<lparr>sm_count := c\<rparr>) = granted_futures s"
  "granted_futures (s\<lparr>sm_waiters := ws\<rparr>) = granted_futures s"
  "granted_futures (s\<lparr>sm_released := b\<rparr>) = granted_futures s"
  by (simp_all add: granted_futures_def)

text \<open>Waking keeps the sum of the free and the granted permits.\<close>

lemma wakeup_sum: "sm_count (wakeup_next s) + granted_count (wakeup_next s) = sm_count s + granted_count s"
proof (cases "if 0 < sm_count s then find (\<lambda>f. dget (sm_futures s) f = Some Waiting) (sm_waiters s) else None")
  case None
  then show ?thesis unfolding wakeup_next_def wake_from_spec by (simp add: granted_count_def)
next
  case (Some f)
  then have w: "dget (sm_futures s) f = Some Waiting" by (auto simp: find_Some_iff split: if_splits)
  then have n: "f \<notin> granted_futures s" by (simp add: granted_futures_def)
  have g: "granted_futures (wakeup_next s) = insert f (granted_futures s)"
    unfolding wakeup_next_def wake_from_spec Some by (auto simp: granted_futures_def)
  have "sm_count (wakeup_next s) = sm_count s - 1" unfolding wakeup_next_def wake_from_spec Some by simp
  then show ?thesis using n finite_granted by (simp add: granted_count_def g)
qed

lemma find_split:
  "find P xs = Some x \<Longrightarrow> \<exists>us vs. xs = us @ x # vs \<and> (\<forall>u \<in> set us. \<not> P u) \<and> P x \<and> tl (dropWhile (\<lambda>y. \<not> P y) xs) = vs"
proof (induction xs)
  case (Cons y ys)
  show ?case
  proof (cases "P y")
    case True
    then show ?thesis using Cons.prems by (intro exI [of _ "[]"] exI [of _ ys]) auto
  next
    case False
    then obtain us vs where "ys = us @ x # vs" "\<forall>u \<in> set us. \<not> P u" "P x" "tl (dropWhile (\<lambda>y. \<not> P y) ys) = vs"
      using Cons by auto
    then show ?thesis using False by (intro exI [of _ "y # us"] exI [of _ vs]) auto
  qed
qed simp

lemma wakeup_cases:
  obtains (idle) "sm_count s \<le> 0" "wakeup_next s = s"
  | (none) "0 < sm_count s" "live_waiters s = []" "wakeup_next s = s\<lparr>sm_waiters := []\<rparr>"
  | (granted) f us vs where "0 < sm_count s" "sm_waiters s = us @ f # vs" "\<forall>u \<in> set us. dget (sm_futures s) u \<noteq> Some Waiting"
      "dget (sm_futures s) f = Some Waiting"
      "wakeup_next s = s\<lparr>sm_waiters := vs, sm_count := sm_count s - 1, sm_futures := dset (sm_futures s) f Granted\<rparr>"
proof (cases "0 < sm_count s")
  case False
  have "wakeup_next s = s\<lparr>sm_waiters := sm_waiters s\<rparr>"
    unfolding wakeup_next_def wake_from_spec using False by simp
  then show ?thesis using idle False by simp
next
  case True
  show ?thesis
  proof (cases "find (\<lambda>f. dget (sm_futures s) f = Some Waiting) (sm_waiters s)")
    case None
    then have "live_waiters s = []" by (simp add: live_waiters_def find_None_iff filter_empty_conv)
    moreover have "wakeup_next s = s\<lparr>sm_waiters := []\<rparr>" unfolding wakeup_next_def wake_from_spec using True None by simp
    ultimately show ?thesis using none True by blast
  next
    case (Some f)
    from find_split [OF this] obtain us vs where sp: "sm_waiters s = us @ f # vs"
      "\<forall>u \<in> set us. dget (sm_futures s) u \<noteq> Some Waiting" "dget (sm_futures s) f = Some Waiting"
      "tl (dropWhile (\<lambda>y. dget (sm_futures s) y \<noteq> Some Waiting) (sm_waiters s)) = vs" by blast
    have "wakeup_next s = s\<lparr>sm_waiters := vs, sm_count := sm_count s - 1, sm_futures := dset (sm_futures s) f Granted\<rparr>"
      unfolding wakeup_next_def wake_from_spec using True Some sp(4) by simp
    then show ?thesis using granted True sp by blast
  qed
qed

lemma wakeup_ok:
  assumes "0 \<le> sm_count s" "distinct (sm_waiters s)" "sm_count s \<le> 1 \<or> live_waiters s = []"
    and wait: "\<forall>f. dget (sm_futures s) f = Some Waiting \<longrightarrow> f \<in> set (sm_waiters s)"
  shows "sem_ok (wakeup_next s)"
proof (cases s rule: wakeup_cases)
  case idle
  then show ?thesis using assms by (simp add: sem_ok_def)
next
  case none
  then have "\<forall>f. dget (sm_futures s) f \<noteq> Some Waiting" using wait by (auto simp: live_waiters_def filter_empty_conv)
  then show ?thesis using none assms(1) by (simp add: sem_ok_def live_waiters_def)
next
  case (granted f us vs)
  then have "live_waiters s \<noteq> []" by (simp add: live_waiters_def)
  then have c: "sm_count s = 1" using assms(1,3) granted(1) by linarith
  have "g \<in> set vs" if "dget (dset (sm_futures s) f Granted) g = Some Waiting" for g
  proof -
    have "g \<noteq> f" "dget (sm_futures s) g = Some Waiting" using that by (auto split: if_splits)
    then show ?thesis using wait granted(2,3) by auto
  qed
  then show ?thesis using c assms(2) granted(2) by (simp add: sem_ok_def granted(5))
qed

lemma live_after_wakeup:
  assumes "0 < sm_count s" "distinct (sm_waiters s)"
  shows "live_waiters (wakeup_next s) = tl (live_waiters s)"
    "live_waiters s \<noteq> [] \<Longrightarrow> dget (sm_futures (wakeup_next s)) (hd (live_waiters s)) = Some Granted"
proof (atomize (full), cases s rule: wakeup_cases)
  case idle
  then show "live_waiters (wakeup_next s) = tl (live_waiters s) \<and> (live_waiters s \<noteq> [] \<longrightarrow>
    dget (sm_futures (wakeup_next s)) (hd (live_waiters s)) = Some Granted)" using assms by simp
next
  case none
  then show "live_waiters (wakeup_next s) = tl (live_waiters s) \<and> (live_waiters s \<noteq> [] \<longrightarrow>
    dget (sm_futures (wakeup_next s)) (hd (live_waiters s)) = Some Granted)" by (simp add: live_waiters_def)
next
  case (granted f us vs)
  have u: "filter (\<lambda>g. dget (sm_futures s) g = Some Waiting) us = []" using granted(3) by (simp add: filter_empty_conv)
  have v: "filter (\<lambda>g. dget (dset (sm_futures s) f Granted) g = Some Waiting) vs
      = filter (\<lambda>g. dget (sm_futures s) g = Some Waiting) vs"
    using assms(2) granted(2) by (intro filter_cong) auto
  show "live_waiters (wakeup_next s) = tl (live_waiters s) \<and> (live_waiters s \<noteq> [] \<longrightarrow>
    dget (sm_futures (wakeup_next s)) (hd (live_waiters s)) = Some Granted)"
    using u v granted(2,4) by (simp add: live_waiters_def granted(5))
qed

section \<open>The invariant of the machine\<close>

definition run_total :: "sem_run \<Rightarrow> int" where
  "run_total r = sm_count (sr_sem r) + sr_holders r + granted_count (sr_sem r)"

definition run_inv :: "int \<Rightarrow> sem_run \<Rightarrow> bool" where
  "run_inv p r \<longleftrightarrow> sem_ok (sr_sem r) \<and> sm_permits (sr_sem r) = p \<and> 0 \<le> sr_holders r \<and> run_total r \<le> p"

lemma sem_ok_take: "sem_ok s \<Longrightarrow> 0 < sm_count s \<Longrightarrow> sem_ok (s\<lparr>sm_count := sm_count s - 1\<rparr>)"
  by (auto simp: sem_ok_def live_waiters_def)

lemma release_ok:
  assumes "sem_ok s"
  shows "sem_ok (release s)" "sm_count (release s) + granted_count (release s) = sm_count s + 1 + granted_count s"
    "sm_permits (release s) = sm_permits s"
proof -
  let ?t = "s\<lparr>sm_count := sm_count s + 1, sm_released := True\<rparr>"
  have l: "live_waiters ?t = live_waiters s" by (simp add: live_waiters_def)
  show "sem_ok (release s)" unfolding release_def
    by (rule wakeup_ok) (use assms l in \<open>auto simp: sem_ok_def\<close>)
  show "sm_count (release s) + granted_count (release s) = sm_count s + 1 + granted_count s"
    unfolding release_def wakeup_sum by (simp add: granted_count_def granted_futures_def)
  show "sm_permits (release s) = sm_permits s" by (rule pool.give_limit)
qed

lemma forget_ok: "sem_ok s \<Longrightarrow> dget (sm_futures s) f \<noteq> Some Waiting \<Longrightarrow> sem_ok (forget_future f s)"
  by (auto simp: sem_ok_def forget_future_def live_waiters_def filter_empty_conv split: if_splits)

lemma forget_count: "granted_count (forget_future f s) = granted_count s - (if f \<in> granted_futures s then 1 else 0)"
  using finite_granted [of s] by (auto simp: granted_count_def granted_set card_Diff_singleton_if)
    (metis card_0_eq empty_iff of_nat_diff One_nat_def Suc_leI card_gt_0_iff of_nat_1)

lemma polite_inv:
  assumes "polite_step r r'" "run_inv p r"
  shows "run_inv p r' \<and> run_total r' = run_total r"
  using assms
proof (cases rule: polite_step.cases)
  case (nowait s)
  then have c: "0 < sm_count (sr_sem r)" and s: "s = sr_sem r\<lparr>sm_count := sm_count (sr_sem r) - 1\<rparr>"
    by (auto simp: acquire_nowait_def split: if_splits)
  show ?thesis using assms(2) sem_ok_take [OF _ c]
    by (simp add: run_inv_def run_total_def nowait(1) s granted_count_def)
next
  case (direct f s)
  then have c: "0 < sm_count (sr_sem r)" and s: "s = sr_sem r\<lparr>sm_count := sm_count (sr_sem r) - 1\<rparr>"
    by (auto simp: acquire_begin_def split: if_splits)
  show ?thesis using assms(2) sem_ok_take [OF _ c]
    by (simp add: run_inv_def run_total_def direct(1) s granted_count_def)
next
  case (enqueue f s)
  then have c: "sm_count (sr_sem r) \<le> 0"
    and s: "s = sr_sem r\<lparr>sm_waiters := sm_waiters (sr_sem r) @ [f], sm_futures := dset (sm_futures (sr_sem r)) f Waiting\<rparr>"
    by (auto simp: acquire_begin_def split: if_splits)
  have "f \<notin> granted_futures (sr_sem r)" using enqueue(2) by (simp add: granted_futures_def)
  then have g: "granted_futures s = granted_futures (sr_sem r)" by (auto simp: s granted_futures_def)
  have "sem_ok s" using assms(2) enqueue(3) c by (auto simp: run_inv_def sem_ok_def s)
  then show ?thesis using assms(2) by (simp add: run_inv_def run_total_def enqueue(1) granted_count_def g) (simp add: s)
next
  case (resume f)
  then have "f \<in> granted_futures (sr_sem r)" by (simp add: granted_futures_def)
  then have "granted_count (acquire_end f (sr_sem r)) = granted_count (sr_sem r) - 1"
    by (simp add: acquire_end_def forget_count)
  moreover have "sem_ok (acquire_end f (sr_sem r))"
    using assms(2) resume(2) forget_ok by (simp add: acquire_end_def run_inv_def)
  ultimately show ?thesis using assms(2)
    by (simp add: run_inv_def run_total_def resume(1)) (simp add: acquire_end_def forget_future_def)
next
  case give
  then show ?thesis using assms(2) release_ok [of "sr_sem r"] by (simp add: run_inv_def run_total_def)
qed

lemma handler_inv:
  assumes "run_inv p r"
  shows "run_inv p (r\<lparr>sr_sem := acquire_cancelled f (sr_sem r)\<rparr>)"
proof -
  let ?s = "sr_sem r"
  have ok: "sem_ok ?s" using assms by (simp add: run_inv_def)
  consider "dget (sm_futures ?s) f = Some Waiting" | "dget (sm_futures ?s) f \<noteq> Some Waiting" "0 < sm_count ?s"
    | "dget (sm_futures ?s) f \<noteq> Some Waiting" "\<not> 0 < sm_count ?s" by blast
  then show ?thesis
  proof cases
    case 1
    let ?t = "forget_future f (?s\<lparr>sm_waiters := remove1 f (sm_waiters ?s)\<rparr>)"
    have "acquire_cancelled f ?s = ?t" using 1 by (simp add: acquire_cancelled_def)
    moreover have "sem_ok ?t" using ok by (auto simp: sem_ok_def forget_future_def live_waiters_def filter_empty_conv)
    moreover have "granted_count ?t = granted_count ?s"
      using 1 by (simp add: forget_count granted_futures_def) (simp add: granted_count_def)
    ultimately show ?thesis using assms by (simp add: run_inv_def run_total_def) (simp add: forget_future_def)
  next
    case 2
    let ?u = "?s\<lparr>sm_count := sm_count ?s - 1\<rparr>"
    let ?t = "forget_future f (wakeup_next ?u)"
    have e: "acquire_cancelled f ?s = ?t" using 2 by (simp add: acquire_cancelled_def)
    have l: "live_waiters ?u = []" using ok 2(2) by (simp add: sem_ok_def live_waiters_def)
    have "sem_ok (wakeup_next ?u)" by (rule wakeup_ok) (use ok 2(2) l in \<open>auto simp: sem_ok_def\<close>)
    moreover have "dget (sm_futures (wakeup_next ?u)) f \<noteq> Some Waiting"
      using 2(1) by (cases ?u rule: wakeup_cases) auto
    ultimately have "sem_ok ?t" by (rule forget_ok)
    moreover have "sm_count ?t + granted_count ?t \<le> sm_count ?s + granted_count ?s"
      using wakeup_sum [of ?u] forget_count [of f "wakeup_next ?u"] by (simp add: forget_future_def granted_count_def split: if_splits)
    moreover have "sm_permits ?t = sm_permits ?s" by (simp add: forget_future_def wakeup_next_def)
    ultimately show ?thesis using assms by (simp add: run_inv_def run_total_def e)
  next
    case 3
    then have e: "acquire_cancelled f ?s = forget_future f ?s" by (simp add: acquire_cancelled_def)
    have "sem_ok (forget_future f ?s)" by (rule forget_ok [OF ok 3(1)])
    moreover have "granted_count (forget_future f ?s) \<le> granted_count ?s" by (simp add: forget_count)
    ultimately show ?thesis using assms by (simp add: run_inv_def run_total_def e) (simp add: forget_future_def)
  qed
qed

lemma step_inv: "sem_step r r' \<Longrightarrow> run_inv p r \<Longrightarrow> run_inv p r'"
proof (induction rule: sem_step.induct)
  case (polite r r')
  then show ?case using polite_inv by blast
next
  case (cancel r f)
  let ?s = "sr_sem r"
  show ?case
  proof (cases "dget (sm_futures ?s) f = Some Waiting")
    case True
    let ?t = "?s\<lparr>sm_futures := dset (sm_futures ?s) f CancelledWait\<rparr>"
    have "cancel_future f ?s = ?t" using True by (simp add: cancel_future_def)
    moreover have "sem_ok ?t" using cancel by (auto simp: run_inv_def sem_ok_def live_waiters_def filter_empty_conv)
    moreover have "granted_futures ?t = granted_futures ?s" using True by (auto simp: granted_futures_def)
    ultimately show ?thesis using cancel by (simp add: run_inv_def run_total_def granted_count_def)
  next
    case False
    then show ?thesis using cancel by (simp add: cancel_future_def)
  qed
next
  case (handler r f)
  then show ?case using handler_inv by blast
qed

lemma start_inv: "0 \<le> p \<Longrightarrow> run_inv p (sem_start p)" "run_total (sem_start p) = p"
  by (simp_all add: run_inv_def run_total_def sem_start_def new_sem_def sem_ok_def live_waiters_def
      granted_count_def granted_futures_def)

lemma reachable_inv: "sem_reachable p r \<Longrightarrow> 0 \<le> p \<Longrightarrow> run_inv p r"
  unfolding sem_reachable_def
proof (induction rule: rtranclp_induct)
  case base
  then show ?case using start_inv by blast
next
  case (step y z)
  then show ?case using step_inv by blast
qed

lemma polite_reachable_inv:
  "polite_step\<^sup>*\<^sup>* (sem_start p) r \<Longrightarrow> 0 \<le> p \<Longrightarrow> run_inv p r \<and> run_total r = p"
proof (induction rule: rtranclp_induct)
  case base
  then show ?case using start_inv by blast
next
  case (step y z)
  then show ?case using polite_inv by metis
qed

section \<open>Properties\<close>

text \<open>C29: Whatever happens, cancelled waits included, a semaphore never has more holders than permits, and
  while a waiter is live there is no free permit.\<close>

theorem semaphore_safe:
  assumes "sem_reachable p r" "0 \<le> p"
  shows "0 \<le> sm_count (sr_sem r) \<and> sr_holders r + granted_count (sr_sem r) + sm_count (sr_sem r) \<le> p
    \<and> sr_holders r \<le> p \<and> (live_waiters (sr_sem r) \<noteq> [] \<longrightarrow> sm_count (sr_sem r) = 0)"
  using reachable_inv [OF assms] by (auto simp: run_inv_def run_total_def sem_ok_def granted_count_def)

text \<open>Without cancellations no permit is lost: the free permits, the holders and the granted waiters
  together are always all permits.\<close>

theorem semaphore_no_loss:
  assumes "polite_step\<^sup>*\<^sup>* (sem_start p) r" "0 \<le> p"
  shows "sm_count (sr_sem r) + sr_holders r + granted_count (sr_sem r) = p"
  using polite_reachable_inv [OF assms] by (simp add: run_total_def)

text \<open>A release grants its permit to the waiter that has waited longest among the live ones.\<close>

theorem release_is_fifo:
  assumes "sem_reachable p r" "0 \<le> p" "live_waiters (sr_sem r) = f # fs"
  shows "dget (sm_futures (release (sr_sem r))) f = Some Granted \<and> live_waiters (release (sr_sem r)) = fs"
proof -
  let ?s = "sr_sem r"
  let ?t = "?s\<lparr>sm_count := sm_count ?s + 1, sm_released := True\<rparr>"
  have ok: "sem_ok ?s" using reachable_inv [OF assms(1,2)] by (simp add: run_inv_def)
  have l: "live_waiters ?t = f # fs" using assms(3) by (simp add: live_waiters_def)
  have "0 < sm_count ?t" "distinct (sm_waiters ?t)" using ok by (auto simp: sem_ok_def)
  from live_after_wakeup [OF this] show ?thesis unfolding release_def l by simp
qed

definition leaked :: sem_run where
  "leaked = \<lparr>sr_sem = \<lparr>sm_permits = 1, sm_count = 0, sm_waiters = [], sm_futures = [], sm_released = True\<rparr>, sr_holders = 0\<rparr>"

text \<open>A permit can be lost for good: with one permit, one holder and one waiter, cancelling the waiter and
  releasing the permit before the waiter's handler runs leaves a semaphore with no holder, no waiter and
  no free permit.\<close>

theorem cancelled_waiter_loses_permit:
  "sem_reachable 1 leaked \<and> sr_holders leaked = 0 \<and> granted_count (sr_sem leaked) = 0
     \<and> live_waiters (sr_sem leaked) = [] \<and> acquire_nowait (sr_sem leaked) = None"
proof -
  let ?r1 = "\<lparr>sr_sem = (new_sem 1)\<lparr>sm_count := 0\<rparr>, sr_holders = 1\<rparr>"
  let ?r2 = "?r1\<lparr>sr_sem := (new_sem 1)\<lparr>sm_count := 0, sm_waiters := [7], sm_futures := [(7, Waiting)]\<rparr>\<rparr>"
  let ?r3 = "?r2\<lparr>sr_sem := cancel_future 7 (sr_sem ?r2)\<rparr>"
  let ?r4 = "\<lparr>sr_sem = release (sr_sem ?r3), sr_holders = 0\<rparr>"
  have "sem_step (sem_start 1) ?r1"
    using nowait [of "sem_start 1"] by (simp add: sem_start_def acquire_nowait_def new_sem_def sem_step.polite)
  moreover have "sem_step ?r1 ?r2"
    using enqueue [of ?r1 7] by (simp add: acquire_begin_def new_sem_def sem_step.polite)
  moreover have "sem_step ?r2 ?r3" by (rule cancel)
  moreover have "sem_step ?r3 ?r4" using give [of ?r3] by (simp add: sem_step.polite)
  moreover have "sem_step ?r4 leaked"
    using handler [of ?r4 7]
    by (simp add: leaked_def new_sem_def cancel_future_def release_def wakeup_next_def acquire_cancelled_def forget_future_def)
  ultimately have "sem_reachable 1 leaked"
    unfolding sem_reachable_def by (meson converse_rtranclp_into_rtranclp rtranclp.rtrancl_refl)
  then show ?thesis
    by (simp add: leaked_def granted_count_def granted_futures_def live_waiters_def acquire_nowait_def)
qed

section \<open>Witnesses\<close>

lemma one_held: "polite_step\<^sup>*\<^sup>* (sem_start 1) \<lparr>sr_sem = (new_sem 1)\<lparr>sm_count := 0\<rparr>, sr_holders = 1\<rparr>"
  using nowait [of "sem_start 1"] by (simp add: sem_start_def acquire_nowait_def new_sem_def r_into_rtranclp)

lemma one_held_one_waits:
  "sem_reachable 1 \<lparr>sr_sem = (new_sem 1)\<lparr>sm_count := 0, sm_waiters := [7], sm_futures := [(7, Waiting)]\<rparr>, sr_holders = 1\<rparr>"
proof -
  let ?r1 = "\<lparr>sr_sem = (new_sem 1)\<lparr>sm_count := 0\<rparr>, sr_holders = 1\<rparr>"
  have "sem_step (sem_start 1) ?r1"
    using nowait [of "sem_start 1"] by (simp add: sem_start_def acquire_nowait_def new_sem_def sem_step.polite)
  moreover have "sem_step ?r1 (?r1\<lparr>sr_sem := (new_sem 1)\<lparr>sm_count := 0, sm_waiters := [7], sm_futures := [(7, Waiting)]\<rparr>\<rparr>)"
    using enqueue [of ?r1 7] by (simp add: acquire_begin_def new_sem_def sem_step.polite)
  ultimately show ?thesis unfolding sem_reachable_def by simp
qed

theorem semaphore_safe_witness: "sr_holders (sem_start 2) \<le> 2"
  using semaphore_safe [of 2 "sem_start 2"] by (simp add: sem_reachable_def)

theorem semaphore_no_loss_witness:
  "granted_count ((new_sem 1)\<lparr>sm_count := 0\<rparr>) = 0"
  using semaphore_no_loss [OF one_held] by simp

theorem release_is_fifo_witness:
  "dget (sm_futures (release ((new_sem 1)\<lparr>sm_count := 0, sm_waiters := [7], sm_futures := [(7, Waiting)]\<rparr>))) 7 = Some Granted"
  using release_is_fifo [OF one_held_one_waits, of 7 "[]"] by (simp add: live_waiters_def new_sem_def)

end
