(* ===== verification/Effects.thy ===== *)
theory Effects
  imports PyPrelude
begin

text \<open>
  Computations that change a state and may raise, for the parts of the core that thread many mutable
  tables through their calls: sequencing, loops, the short-circuit \<open>any(...)\<close>, \<open>try ... finally\<close>. The state
  survives an exception, as the objects of the program do. The locale \<open>effect_order\<close> is the contract of a
  relation between the states before and after: reflexive and transitive, it passes from the basic
  operations to every program built from them.
\<close>

type_synonym ('s, 'a) eff = "'s \<Rightarrow> 'a res \<times> 's"

definition eret :: "'a \<Rightarrow> ('s, 'a) eff" where
  "eret a s = (Inr a, s)"

definition ethrow :: "err \<Rightarrow> ('s, 'a) eff" where
  "ethrow e s = (Inl e, s)"

definition ebind :: "('s, 'a) eff \<Rightarrow> ('a \<Rightarrow> ('s, 'b) eff) \<Rightarrow> ('s, 'b) eff" where
  "ebind m f s = (case m s of (Inl e, s') \<Rightarrow> (Inl e, s') | (Inr a, s') \<Rightarrow> f a s')"

definition eseq :: "('s, unit) eff \<Rightarrow> ('s, 'b) eff \<Rightarrow> ('s, 'b) eff" where
  "eseq m n = ebind m (\<lambda>_. n)"

definition eget :: "('s \<Rightarrow> 'a) \<Rightarrow> ('s, 'a) eff" where
  "eget f s = (Inr (f s), s)"

definition emod :: "('s \<Rightarrow> 's) \<Rightarrow> ('s, unit) eff" where
  "emod f s = (Inr (), f s)"

definition elift :: "'a res \<Rightarrow> ('s, 'a) eff" where
  "elift r s = (r, s)"

definition ewhen :: "bool \<Rightarrow> ('s, unit) eff \<Rightarrow> ('s, unit) eff" where
  "ewhen b m = (if b then m else eret ())"

fun efor :: "('x \<Rightarrow> ('s, unit) eff) \<Rightarrow> 'x list \<Rightarrow> ('s, unit) eff" where
  "efor f [] = eret ()"
| "efor f (x # xs) = eseq (f x) (efor f xs)"

fun eany :: "('x \<Rightarrow> ('s, bool) eff) \<Rightarrow> 'x list \<Rightarrow> ('s, bool) eff" where
  "eany f [] = eret False"
| "eany f (x # xs) = ebind (f x) (\<lambda>b. if b then eret True else eany f xs)"

definition eor :: "('s, bool) eff \<Rightarrow> ('s, bool) eff \<Rightarrow> ('s, bool) eff" where
  "eor m n = ebind m (\<lambda>b. if b then eret True else n)"

fun emap :: "('x \<Rightarrow> ('s, 'y) eff) \<Rightarrow> 'x list \<Rightarrow> ('s, 'y list) eff" where
  "emap f [] = eret []"
| "emap f (x # xs) = ebind (f x) (\<lambda>y. ebind (emap f xs) (\<lambda>ys. eret (y # ys)))"

text \<open>\<open>try: m finally: fin\<close> for a \<open>fin\<close> that does not raise.\<close>

definition efinally :: "('s, 'a) eff \<Rightarrow> ('s \<Rightarrow> 's) \<Rightarrow> ('s, 'a) eff" where
  "efinally m fin s = (fst (m s), fin (snd (m s)))"

named_theorems eff_simps \<open>evaluation of computations\<close>

lemma eret_run [eff_simps]: "eret a s = (Inr a, s)"
  by (simp add: eret_def)

lemma ethrow_run [eff_simps]: "ethrow e s = (Inl e, s)"
  by (simp add: ethrow_def)

lemma eget_run [eff_simps]: "eget f s = (Inr (f s), s)"
  by (simp add: eget_def)

lemma emod_run [eff_simps]: "emod g s = (Inr (), g s)"
  by (simp add: emod_def)

lemma elift_run [eff_simps]: "elift r s = (r, s)"
  by (simp add: elift_def)

lemma ewhen_run [eff_simps]: "ewhen True m = m" "ewhen False m = eret ()"
  by (simp_all add: ewhen_def)

lemma ebind_Inr [eff_simps]: "m s = (Inr a, s') \<Longrightarrow> ebind m f s = f a s'"
  by (simp add: ebind_def)

lemma ebind_Inl [eff_simps]: "m s = (Inl e, s') \<Longrightarrow> ebind m f s = (Inl e, s')"
  by (simp add: ebind_def)

lemma ebind_ok: "ebind m f s = (Inr b, s') \<longleftrightarrow> (\<exists>a s1. m s = (Inr a, s1) \<and> f a s1 = (Inr b, s'))"
  by (auto simp: ebind_def split: prod.splits sum.splits)

lemma ebind_okE:
  assumes "ebind m f s = (Inr b, s')"
  obtains a s1 where "m s = (Inr a, s1)" "f a s1 = (Inr b, s')"
  using assms by (auto simp: ebind_ok)

lemma eseq_ok: "eseq m n s = (Inr b, s') \<longleftrightarrow> (\<exists>s1. m s = (Inr (), s1) \<and> n s1 = (Inr b, s'))"
  by (simp add: eseq_def ebind_ok)

lemma ebind_snd: "snd (ebind m f s) = (case fst (m s) of Inl e \<Rightarrow> snd (m s) | Inr a \<Rightarrow> snd (f a (snd (m s))))"
  by (auto simp: ebind_def split: prod.splits sum.splits)

section \<open>Relations that every computation keeps\<close>

locale effect_order =
  fixes R :: "'s \<Rightarrow> 's \<Rightarrow> bool"
  assumes R_refl: "R s s"
    and R_trans: "R s t \<Longrightarrow> R t u \<Longrightarrow> R s u"
begin

definition stays :: "('s, 'a) eff \<Rightarrow> bool" where
  "stays m = (\<forall>s. R s (snd (m s)))"

lemma staysD: "stays m \<Longrightarrow> R s (snd (m s))"
  by (simp add: stays_def)

lemma stays_run: "stays m \<Longrightarrow> m s = (r, s') \<Longrightarrow> R s s'"
  by (metis snd_conv stays_def)

lemma stays_eret [intro]: "stays (eret a)"
  by (simp add: stays_def eret_def R_refl)

lemma stays_ethrow [intro]: "stays (ethrow e)"
  by (simp add: stays_def ethrow_def R_refl)

lemma stays_eget [intro]: "stays (eget f)"
  by (simp add: stays_def eget_def R_refl)

lemma stays_elift [intro]: "stays (elift r)"
  by (simp add: stays_def elift_def R_refl)

lemma stays_emod: "(\<And>s. R s (f s)) \<Longrightarrow> stays (emod f)"
  by (simp add: stays_def emod_def)

lemma stays_ebind [intro]: "stays m \<Longrightarrow> (\<And>a. stays (f a)) \<Longrightarrow> stays (ebind m f)"
  by (auto simp: stays_def ebind_snd split: sum.splits intro: R_trans)

lemma stays_eseq [intro]: "stays m \<Longrightarrow> stays n \<Longrightarrow> stays (eseq m n)"
  by (simp add: eseq_def stays_ebind)

lemma stays_ewhen [intro]: "(b \<Longrightarrow> stays m) \<Longrightarrow> stays (ewhen b m)"
  by (auto simp: ewhen_def)

lemma stays_if: "(b \<Longrightarrow> stays m) \<Longrightarrow> (\<not> b \<Longrightarrow> stays n) \<Longrightarrow> stays (if b then m else n)"
  by simp

lemma stays_efor [intro]: "(\<And>x. x \<in> set xs \<Longrightarrow> stays (f x)) \<Longrightarrow> stays (efor f xs)"
  by (induction xs) auto

lemma stays_eany [intro]: "(\<And>x. x \<in> set xs \<Longrightarrow> stays (f x)) \<Longrightarrow> stays (eany f xs)"
  by (induction xs) (auto intro!: stays_ebind stays_if)

lemma stays_emap [intro]: "(\<And>x. x \<in> set xs \<Longrightarrow> stays (f x)) \<Longrightarrow> stays (emap f xs)"
  by (induction xs) (auto intro!: stays_ebind)

lemma stays_eor [intro]: "stays m \<Longrightarrow> stays n \<Longrightarrow> stays (eor m n)"
  unfolding eor_def by (intro stays_ebind stays_if) auto

end

text \<open>An invariant: what holds before holds after.\<close>

lemma effect_order_invariant: "effect_order (\<lambda>s t. P s \<longrightarrow> P t)"
  by unfold_locales auto

section \<open>Preconditions\<close>

text \<open>\<open>wp m Q E s\<close>: from \<open>s\<close> the computation ends in a state that satisfies \<open>Q\<close> with its value, or raises in a
  state that satisfies \<open>E\<close>. The equations compute it for straight-line programs; loops have a rule with an
  invariant over the elements still to come.\<close>

definition wp :: "('s, 'a) eff \<Rightarrow> ('a \<Rightarrow> 's \<Rightarrow> bool) \<Rightarrow> ('s \<Rightarrow> bool) \<Rightarrow> 's \<Rightarrow> bool" where
  "wp m Q E s = (case m s of (Inl e, s') \<Rightarrow> E s' | (Inr a, s') \<Rightarrow> Q a s')"

named_theorems wp_simps \<open>preconditions of computations\<close>

lemma wp_eret [wp_simps]: "wp (eret a) Q E = Q a"
  by (simp add: wp_def eff_simps fun_eq_iff)

lemma wp_ethrow [wp_simps]: "wp (ethrow e) Q E = E"
  by (simp add: wp_def eff_simps fun_eq_iff)

lemma wp_eget [wp_simps]: "wp (eget f) Q E = (\<lambda>s. Q (f s) s)"
  by (simp add: wp_def eff_simps fun_eq_iff)

lemma wp_emod [wp_simps]: "wp (emod g) Q E = (\<lambda>s. Q () (g s))"
  by (simp add: wp_def eff_simps fun_eq_iff)

lemma wp_elift [wp_simps]: "wp (elift r) Q E = (case r of Inl e \<Rightarrow> E | Inr a \<Rightarrow> Q a)"
  by (simp add: wp_def eff_simps fun_eq_iff split: sum.splits)

lemma wp_ebind [wp_simps]: "wp (ebind m f) Q E = wp m (\<lambda>a. wp (f a) Q E) E"
  by (auto simp: wp_def ebind_def fun_eq_iff split: prod.splits sum.splits)

lemma wp_eseq [wp_simps]: "wp (eseq m n) Q E = wp m (\<lambda>_. wp n Q E) E"
  by (simp add: eseq_def wp_ebind)

lemma wp_if [wp_simps]: "wp (if b then m else n) Q E = (if b then wp m Q E else wp n Q E)"
  by simp

lemma wp_ewhen [wp_simps]: "wp (ewhen b m) Q E = (if b then wp m Q E else Q ())"
  by (simp add: ewhen_def wp_eret)

lemma wp_eor [wp_simps]: "wp (eor m n) Q E = wp m (\<lambda>b. if b then Q True else wp n Q E) E"
  by (simp add: eor_def wp_ebind wp_if wp_eret cong: if_cong)

lemma wp_conseq: "wp m Q E s \<Longrightarrow> (\<And>a t. Q a t \<Longrightarrow> Q' a t) \<Longrightarrow> (\<And>t. E t \<Longrightarrow> E' t) \<Longrightarrow> wp m Q' E' s"
  by (auto simp: wp_def split: prod.splits sum.splits)

lemma wp_conj: "wp m Q E s \<Longrightarrow> wp m Q' E' s \<Longrightarrow> wp m (\<lambda>a t. Q a t \<and> Q' a t) (\<lambda>t. E t \<and> E' t) s"
  by (auto simp: wp_def split: prod.splits sum.splits)

lemma wp_cong: "m = m' \<Longrightarrow> (\<And>a t. Q a t = Q' a t) \<Longrightarrow> wp m Q E s = wp m' Q' E s"
  by (auto simp: wp_def split: prod.splits sum.splits)

lemma wp_efor_rest:
  assumes "I xs s" "\<And>x ys s. set (x # ys) \<subseteq> set xs \<Longrightarrow> I (x # ys) s \<Longrightarrow> wp (f x) (\<lambda>_. I ys) E s"
  shows "wp (efor f xs) (\<lambda>_. I []) E s"
  using assms
proof (induction xs arbitrary: s)
  case Nil
  then show ?case by (simp add: wp_simps)
next
  case (Cons x xs)
  have "wp (efor f xs) (\<lambda>_. I []) E t" if "I xs t" for t
  proof (rule Cons.IH [OF that])
    fix y ys u
    assume a: "set (y # ys) \<subseteq> set xs" "I (y # ys) u"
    show "wp (f y) (\<lambda>_. I ys) E u" by (rule Cons.prems(2)) (use a in auto)
  qed
  moreover have "wp (f x) (\<lambda>_. I xs) E s" by (rule Cons.prems(2)) (use Cons.prems(1) in auto)
  ultimately show ?case by (auto simp: wp_simps elim!: wp_conseq)
qed

lemma wp_efor:
  assumes "I s" "\<And>x s. x \<in> set xs \<Longrightarrow> I s \<Longrightarrow> wp (f x) (\<lambda>_. I) E s"
  shows "wp (efor f xs) (\<lambda>_. I) E s"
  by (rule wp_efor_rest [where I = "\<lambda>_. I"]) (use assms in auto)

lemma wp_eany:
  assumes "I s" "\<And>x s. x \<in> set xs \<Longrightarrow> I s \<Longrightarrow> wp (f x) (\<lambda>_. I) E s"
  shows "wp (eany f xs) (\<lambda>_. I) E s"
  using assms
proof (induction xs arbitrary: s)
  case (Cons x xs)
  have "wp (f x) (\<lambda>_. I) E s" by (rule Cons.prems(2)) (use Cons.prems(1) in auto)
  moreover have "wp (eany f xs) (\<lambda>_. I) E t" if "I t" for t
    by (rule Cons.IH [OF that]) (use Cons.prems(2) in auto)
  ultimately show ?case by (auto simp: wp_simps elim!: wp_conseq)
qed (simp add: wp_simps)

lemma wp_emap_rest:
  assumes "I xs s" "\<And>x ys s. set (x # ys) \<subseteq> set xs \<Longrightarrow> I (x # ys) s \<Longrightarrow> wp (f x) (\<lambda>_. I ys) E s"
  shows "wp (emap f xs) (\<lambda>_. I []) E s"
  using assms
proof (induction xs arbitrary: s)
  case Nil
  then show ?case by (simp add: wp_simps)
next
  case (Cons x xs)
  have "wp (emap f xs) (\<lambda>_. I []) E t" if "I xs t" for t
  proof (rule Cons.IH [OF that])
    fix y ys u
    assume a: "set (y # ys) \<subseteq> set xs" "I (y # ys) u"
    show "wp (f y) (\<lambda>_. I ys) E u" by (rule Cons.prems(2)) (use a in auto)
  qed
  moreover have "wp (f x) (\<lambda>_. I xs) E s" by (rule Cons.prems(2)) (use Cons.prems(1) in auto)
  ultimately show ?case by (auto simp: wp_simps elim!: wp_conseq)
qed

lemma wp_emap:
  assumes "I s" "\<And>x s. x \<in> set xs \<Longrightarrow> I s \<Longrightarrow> wp (f x) (\<lambda>_. I) E s"
  shows "wp (emap f xs) (\<lambda>_. I) E s"
  by (rule wp_emap_rest [where I = "\<lambda>_. I"]) (use assms in auto)

lemma wp_run: "wp m Q E s \<Longrightarrow> m s = (Inr a, t) \<Longrightarrow> Q a t"
  by (simp add: wp_def)

lemma wp_raise: "wp m Q E s \<Longrightarrow> m s = (Inl e, t) \<Longrightarrow> E t"
  by (simp add: wp_def)

end
