(* ===== verification/RunValues.thy ===== *)
theory RunValues
  imports DagLoader
begin

text \<open>
  \<open>NodeInput\<close> and \<open>NodeOutput\<close> (\<open>edera_types\<close>) and the pure functions of \<open>dag/_helpers.py\<close> and
  \<open>dag/session_loader.py\<close>: collection and merging of results, failure kinds, mapped inputs. A missing
  value (\<open>_MISSING\<close>) is \<open>None\<close>; a Python \<open>None\<close> is \<^const>\<open>PNone\<close>.
\<close>

record node_input =
  in_run :: string
  in_payload :: pyval
  in_metadata :: "(string, pyval) dict"

record node_output =
  no_name :: string
  no_ok :: bool
  no_payload :: pyval
  no_metadata :: "(string, pyval) dict"
  no_error :: "string option"

definition error_or :: "string option \<Rightarrow> string \<Rightarrow> string" where
  "error_or e d = (case e of None \<Rightarrow> d | Some m \<Rightarrow> if m = [] then d else m)"

fun collect :: "pyval list \<Rightarrow> pyval list" where
  "collect [] = []"
| "collect (v # vs) = (case v of PList xs \<Rightarrow> xs | _ \<Rightarrow> [v]) @ collect vs"

definition failure_kind :: "node_output \<Rightarrow> string option" where
  "failure_kind out = (case aget (no_metadata out) ''failure_kind'' of
     PStr s \<Rightarrow> Some s | _ \<Rightarrow> if no_ok out then None else Some ''execution_failed'')"

definition node_run_metadata :: "node_output \<Rightarrow> (string, pyval) dict option" where
  "node_run_metadata out =
     (let m = concat (map (\<lambda>k. case dget (no_metadata out) k of None \<Rightarrow> [] | Some v \<Rightarrow> [(k, v)])
                [''parent_run_id'', ''sub_dag_run_id'', ''parent_node'']) in
      if m = [] then None else Some m)"

fun walk_path :: "pyval \<Rightarrow> string list \<Rightarrow> pyval option" where
  "walk_path current [] = Some current"
| "walk_path current (p # ps) = (case current of
     PDict d \<Rightarrow> (case dget d p of None \<Rightarrow> None | Some v \<Rightarrow> walk_path v ps)
   | _ \<Rightarrow> None)"

definition path_value :: "pyval \<Rightarrow> string \<Rightarrow> pyval option" where
  "path_value payload path = walk_path payload (split_on (CHR ''.'') path)"

definition mapped_input :: "pyval \<Rightarrow> input_map \<Rightarrow> pyval option" where
  "mapped_input payload m = (case m of
     MapRef s \<Rightarrow> if s = [] then Some payload else path_value payload s
   | MapDict d \<Rightarrow> if d = [] then Some payload
       else Some (PDict (concat (map (\<lambda>(name, path).
              case path_value payload path of None \<Rightarrow> [] | Some v \<Rightarrow> [(name, v)]) d))))"

definition input_mapping_ref :: "string \<Rightarrow> string" where
  "input_mapping_ref r = (if starts_with r ''entity://''
     then ''input_mapping:'' @ removeprefix r ''entity://'' else r)"

definition str_mapping :: "pyval \<Rightarrow> (string, string) dict" where
  "str_mapping v = (case v of PDict d \<Rightarrow> map (\<lambda>(k, x). (k, py_str x)) d | _ \<Rightarrow> [])"

definition node_input_mappings :: "pyval \<Rightarrow> (string, input_map) dict" where
  "node_input_mappings v = (case v of
     PDict d \<Rightarrow> map (\<lambda>(k, m). (k, case m of PStr s \<Rightarrow> MapRef s | _ \<Rightarrow> MapDict (str_mapping m))) d
   | _ \<Rightarrow> [])"

definition str_list :: "pyval \<Rightarrow> string list" where
  "str_list v = (case v of PList xs \<Rightarrow> map py_str xs | _ \<Rightarrow> [])"

section \<open>Merging the results of several executions\<close>

definition ok_payloads :: "node_output list \<Rightarrow> pyval list" where
  "ok_payloads rs = map no_payload (filter no_ok rs)"

definition failures_of :: "(nat \<Rightarrow> string) \<Rightarrow> string \<Rightarrow> node_output list \<Rightarrow> (string, string) dict" where
  "failures_of key dflt rs =
     map (\<lambda>(i, r). (key i, error_or (no_error r) dflt)) (filter (\<lambda>(i, r). \<not> no_ok r) (enumerate 0 rs))"

definition merged_output :: "string \<Rightarrow> pyval list \<Rightarrow> (string, pyval) dict \<Rightarrow> (string, string) dict \<Rightarrow> string \<Rightarrow> node_output" where
  "merged_output node payload metadata failures none_text =
     \<lparr>no_name = node, no_ok = (payload \<noteq> []), no_payload = PList payload, no_metadata = metadata,
      no_error = (if payload \<noteq> [] then None
        else Some (error_or (Some (join ''; '' (dvalues failures))) none_text))\<rparr>"

definition merge_stream_results :: "string \<Rightarrow> node_output list \<Rightarrow> node_output" where
  "merge_stream_results node rs =
     (let failures = failures_of (\<lambda>i. node @ '':stream:'' @ nat_str i) ''node failed'' rs in
      merged_output node (ok_payloads rs)
        [(''stream_failures'', PDict (map (\<lambda>(k, e). (k, PStr e)) failures))] failures ''stream produced no output'')"

definition merge_fan_out_results :: "string \<Rightarrow> node_output list \<Rightarrow> node_output" where
  "merge_fan_out_results node rs =
     (let failures = failures_of (\<lambda>i. node @ '':fanout:'' @ nat_str i) ''node failed'' rs in
      merged_output node (ok_payloads rs)
        [(''fan_out_failures'', PDict (map (\<lambda>(k, e). (k, PStr e)) failures))] failures ''fan_out produced no output'')"

section \<open>Implicit resources of sessions\<close>

definition session_resource :: "string \<Rightarrow> string \<Rightarrow> string" where
  "session_resource dag_name v =
     (if CHR ''@'' \<in> set v then ''session:'' @ hd (split_on (CHR ''@'') v)
      else ''session:'' @ dag_name @ ''/'' @ v)"

definition with_session_resource :: "string \<Rightarrow> node_inst \<Rightarrow> node_inst" where
  "with_session_resource dag_name n = (case aget (ni_config n) ''session'' of
     PStr v \<Rightarrow> if v = [] then n
       else (let r = session_resource dag_name v;
                 existing = (case ni_resource n of None \<Rightarrow> []
                     | Some x \<Rightarrow> if x = [] then [] else split_on (CHR '','') x);
                 all = (if r \<in> set existing then existing else existing @ [r]) in
             n\<lparr>ni_resource := Some (join '','' (sort all))\<rparr>)
   | _ \<Rightarrow> n)"

definition inject_implicit_session_resources :: "dag_cfg \<Rightarrow> (string, node_inst) dict" where
  "inject_implicit_session_resources c =
     fold (\<lambda>n d. dset d (ni_id n) (with_session_resource (dc_name c) n)) (dc_nodes c) []"

section \<open>Lemmas\<close>

lemma collect_append: "collect (xs @ ys) = collect xs @ collect ys"
  by (induction xs) auto

lemma filter_enumerate_empty: "filter (\<lambda>(i, r). P r) (enumerate k rs) = [] \<longleftrightarrow> (\<forall>r \<in> set rs. \<not> P r)"
  by (induction rs arbitrary: k) auto

lemma failures_of_empty: "failures_of key d rs = [] \<longleftrightarrow> list_all no_ok rs"
  by (simp add: failures_of_def filter_enumerate_empty list_all_iff)

lemma ok_payloads_empty: "ok_payloads rs = [] \<longleftrightarrow> list_all (\<lambda>r. \<not> no_ok r) rs"
  by (auto simp: ok_payloads_def filter_empty_conv list_all_iff)

lemma error_or_nonempty: "d \<noteq> [] \<Longrightarrow> error_or e d \<noteq> []"
  by (auto simp: error_or_def split: option.splits)

lemma merged_output_simps [simp]:
  "no_ok (merged_output n p m f t) \<longleftrightarrow> p \<noteq> []" "no_payload (merged_output n p m f t) = PList p"
  "no_name (merged_output n p m f t) = n"
  by (simp_all add: merged_output_def)

lemma merge_simps [simp]:
  "no_ok (merge_stream_results n rs) \<longleftrightarrow> list_ex no_ok rs"
  "no_ok (merge_fan_out_results n rs) \<longleftrightarrow> list_ex no_ok rs"
  "no_payload (merge_stream_results n rs) = PList (ok_payloads rs)"
  "no_payload (merge_fan_out_results n rs) = PList (ok_payloads rs)"
  by (auto simp: merge_stream_results_def merge_fan_out_results_def Let_def ok_payloads_empty list_all_iff list_ex_iff)

end
