(* ===== verification/Conditions.thy ===== *)
theory Conditions
  imports EntityStore
begin

text \<open>
  \<open>dag/conditions.py\<close>: the evaluation of edge, loop and emit conditions. The parser of Python
  expressions (\<open>ast.parse\<close>), the optional custom evaluator of the deployment and the attributes of
  built-in values (\<open>getattr\<close> of something that is no dictionary) are parameters of the evaluation;
  the syntax tree has the node kinds the evaluator looks at and one constructor for all others.
\<close>

datatype cmpop = CEq | CNotEq | CGt | CGtE | CLt | CLtE | CIn | COther string

datatype pyast =
    ABoolAnd "pyast list"
  | ABoolOr "pyast list"
  | ANot pyast
  | ACompare pyast "(cmpop \<times> pyast) list"
  | AAttribute pyast string
  | ACall pyast "pyast list"
  | AName string
  | AConst pyval
  | AList "pyast list"
  | AOther string

record cond_env =
  ce_parse :: "string \<Rightarrow> pyast res"
  ce_custom :: "(string \<Rightarrow> pyval \<Rightarrow> pyval res) option"
  ce_attr :: "pyval \<Rightarrow> string \<Rightarrow> pyval"
  ce_store :: "estore option"

definition field_of :: "cond_env \<Rightarrow> pyval \<Rightarrow> string \<Rightarrow> pyval" where
  "field_of env v name = (case v of PDict d \<Rightarrow> aget d name | _ \<Rightarrow> ce_attr env v name)"

definition py_compare :: "cmpop \<Rightarrow> pyval \<Rightarrow> pyval \<Rightarrow> bool res" where
  "py_compare op l r = (case op of
     CEq \<Rightarrow> Inr (py_eq l r)
   | CNotEq \<Rightarrow> Inr (\<not> py_eq l r)
   | CGt \<Rightarrow> py_lt False r l
   | CGtE \<Rightarrow> py_lt True r l
   | CLt \<Rightarrow> py_lt False l r
   | CLtE \<Rightarrow> py_lt True l r
   | CIn \<Rightarrow> py_in l r
   | COther n \<Rightarrow> Inl (ValueError (''unsupported comparison: '' @ n)))"

text \<open>What a call \<open>entity(ref, field)\<close> yields once its arguments are evaluated.\<close>

definition entity_field :: "cond_env \<Rightarrow> pyval \<Rightarrow> pyval \<Rightarrow> pyval res" where
  "entity_field env ref field = (case (ref, field, ce_store env) of
     (PStr r, PStr f, Some st) \<Rightarrow> rbind (resolve st r None) (\<lambda>e. Inr (aget (en_attrs e) f))
   | _ \<Rightarrow> Inr PNone)"

definition is_entity_call :: "pyast \<Rightarrow> bool" where
  "is_entity_call f = (case f of AName n \<Rightarrow> n = ''entity'' | _ \<Rightarrow> False)"

text \<open>\<open>_eval\<close>: both operands lists of \<open>and\<close> and \<open>or\<close> are evaluated in full before they are combined; a chain
  of comparisons stops at the first one that fails.\<close>

fun eval :: "cond_env \<Rightarrow> pyval \<Rightarrow> pyast \<Rightarrow> pyval res"
  and eval_list :: "cond_env \<Rightarrow> pyval \<Rightarrow> pyast list \<Rightarrow> pyval list res"
  and eval_chain :: "cond_env \<Rightarrow> pyval \<Rightarrow> pyval \<Rightarrow> (cmpop \<times> pyast) list \<Rightarrow> bool res" where
  "eval env out (ABoolAnd vs) = rbind (eval_list env out vs) (\<lambda>xs. Inr (PBool (list_all truthy xs)))"
| "eval env out (ABoolOr vs) = rbind (eval_list env out vs) (\<lambda>xs. Inr (PBool (list_ex truthy xs)))"
| "eval env out (ANot a) = rbind (eval env out a) (\<lambda>v. Inr (PBool (\<not> truthy v)))"
| "eval env out (ACompare l cs) = rbind (eval env out l) (\<lambda>v. rbind (eval_chain env out v cs) (\<lambda>b. Inr (PBool b)))"
| "eval env out (AAttribute a name) = rbind (eval env out a) (\<lambda>v. Inr (field_of env v name))"
| "eval env out (ACall f args) =
     (if \<not> is_entity_call f then Inl (ValueError ''unsupported function call'')
      else (case args of
        [a, b] \<Rightarrow> rbind (eval env out a) (\<lambda>r. rbind (eval env out b) (\<lambda>fd. entity_field env r fd))
      | _ \<Rightarrow> Inl (ValueError ''entity() expects ref and field'')))"
| "eval env out (AName n) = (if n = ''output'' then Inr out else Inl (ValueError (''unsupported name: '' @ n)))"
| "eval env out (AConst v) = Inr v"
| "eval env out (AList vs) = rbind (eval_list env out vs) (\<lambda>xs. Inr (PList xs))"
| "eval env out (AOther d) = Inl (ValueError (''unsupported condition expression: '' @ d))"
| "eval_list env out [] = Inr []"
| "eval_list env out (a # as) = rbind (eval env out a) (\<lambda>v. rbind (eval_list env out as) (\<lambda>vs. Inr (v # vs)))"
| "eval_chain env out l [] = Inr True"
| "eval_chain env out l ((op, a) # cs) =
     rbind (eval env out a) (\<lambda>r. rbind (py_compare op l r) (\<lambda>b. if b then eval_chain env out r cs else Inr False))"

section \<open>Entity references in the text of a condition\<close>

text \<open>The regular expression of \<open>_rewrite_entity_refs\<close>: a type, a colon, a business id that may contain dots,
  the last dot that a field name follows, the field name.\<close>

definition type_char :: "char \<Rightarrow> bool" where
  "type_char c = (is_ascii_letter c \<or> is_ascii_digit c \<or> c = CHR ''_'' \<or> c = CHR ''-'')"

definition id_char :: "char \<Rightarrow> bool" where
  "id_char c = (type_char c \<or> c = CHR ''.'')"

definition name_start :: "char \<Rightarrow> bool" where
  "name_start c = (is_ascii_letter c \<or> c = CHR ''_'')"

definition name_char :: "char \<Rightarrow> bool" where
  "name_char c = (name_start c \<or> is_ascii_digit c)"

fun last_field_dot :: "string \<Rightarrow> string \<Rightarrow> (string \<times> string) option" where
  "last_field_dot seen [] = None"
| "last_field_dot seen (c # cs) = (case last_field_dot (seen @ [c]) cs of
     Some x \<Rightarrow> Some x
   | None \<Rightarrow> if c = CHR ''.'' \<and> seen \<noteq> [] \<and> cs \<noteq> [] \<and> name_start (hd cs) then Some (seen, cs) else None)"

definition match_ref :: "string \<Rightarrow> (string \<times> string \<times> string) option" where
  "match_ref s =
     (if \<not> starts_with s ''entity:'' then None
      else (let r = drop 7 s; t = takeWhile type_char r in
        case dropWhile type_char r of
          c # u \<Rightarrow>
            (if t = [] \<or> c \<noteq> CHR '':'' then None
             else (case last_field_dot [] (takeWhile id_char u) of None \<Rightarrow> None
               | Some (a, b) \<Rightarrow> Some (t @ '':'' @ a, takeWhile name_char b, dropWhile name_char b @ dropWhile id_char u)))
        | [] \<Rightarrow> None))"

lemma last_field_dot_split: "last_field_dot seen s = Some (a, b) \<Longrightarrow> seen @ s = a @ CHR ''.'' # b"
  by (induction seen s arbitrary: a b rule: last_field_dot.induct) (auto split: option.splits if_splits)

lemma match_ref_shorter:
  assumes "match_ref s = Some (g1, g2, r)"
  shows "length r < length s"
proof -
  let ?r = "drop 7 s"
  obtain c u a b where st: "dropWhile type_char ?r = c # u" "last_field_dot [] (takeWhile id_char u) = Some (a, b)"
    "r = dropWhile name_char b @ dropWhile id_char u"
    using assms by (auto simp: match_ref_def Let_def split: if_splits list.splits option.splits)
  have "takeWhile id_char u = a @ CHR ''.'' # b" using last_field_dot_split [OF st(2)] by simp
  then have "length b < length (takeWhile id_char u)" by simp
  moreover have "length (dropWhile name_char b) \<le> length b" by (rule length_dropWhile_le)
  moreover have "length (takeWhile id_char u) + length (dropWhile id_char u) = length u"
    by (metis length_append takeWhile_dropWhile_id)
  ultimately have "length r < length u" using st(3) by simp
  moreover have "length u < length s"
    using st(1) length_dropWhile_le [of type_char ?r] by simp
  ultimately show ?thesis by simp
qed

definition quoted :: "string \<Rightarrow> string" where
  "quoted s = [CHR 0x27] @ s @ [CHR 0x27]"

function rewrite_entity_refs :: "string \<Rightarrow> string" where
  "rewrite_entity_refs [] = []"
| "rewrite_entity_refs (c # cs) = (case match_ref (c # cs) of
     None \<Rightarrow> c # rewrite_entity_refs cs
   | Some m \<Rightarrow> ''entity('' @ quoted (fst m) @ '', '' @ quoted (fst (snd m)) @ '')'' @ rewrite_entity_refs (snd (snd m)))"
  by pat_completeness auto
termination
proof (relation "measure length", goal_cases)
  case (3 c cs m)
  then have "match_ref (c # cs) = Some (fst m, fst (snd m), snd (snd m))" by simp
  from match_ref_shorter [OF this] show ?case by simp
qed auto

text \<open>\<open>evaluate_condition\<close>: a custom evaluator that fails falls back to the built-in one.\<close>

definition evaluate_builtin :: "cond_env \<Rightarrow> string \<Rightarrow> pyval \<Rightarrow> bool res" where
  "evaluate_builtin env text out =
     rbind (ce_parse env (rewrite_entity_refs text)) (\<lambda>a. rbind (eval env out a) (\<lambda>v. Inr (truthy v)))"

definition evaluate_condition :: "cond_env \<Rightarrow> string \<Rightarrow> pyval \<Rightarrow> bool res" where
  "evaluate_condition env text out = (case ce_custom env of
     Some f \<Rightarrow> (case f text out of Inr v \<Rightarrow> Inr (truthy v) | Inl _ \<Rightarrow> evaluate_builtin env text out)
   | None \<Rightarrow> evaluate_builtin env text out)"

section \<open>Lemmas\<close>

lemma eval_list_map: "eval_list env out as = map_res (eval env out) as"
  by (induction as) auto

lemma match_ref_prefix: "match_ref s \<noteq> None \<Longrightarrow> starts_with s ''entity:''"
  by (auto simp: match_ref_def split: if_splits)

lemma rewrite_plain: "\<not> is_infix ''entity:'' s \<Longrightarrow> rewrite_entity_refs s = s"
proof (induction s)
  case (Cons c cs)
  then have "match_ref (c # cs) = None" using match_ref_prefix [of "c # cs"] by (cases "match_ref (c # cs)") auto
  then show ?case using Cons by simp
qed simp

text \<open>A chain of comparisons is the conjunction of its neighbouring pairs.\<close>

fun chain_holds :: "pyval \<Rightarrow> (cmpop \<times> pyval) list \<Rightarrow> bool res" where
  "chain_holds l [] = Inr True"
| "chain_holds l ((op, r) # cs) = rbind (py_compare op l r) (\<lambda>b. if b then chain_holds r cs else Inr False)"

lemma eval_chain_values:
  assumes "map_res (eval env out) (map snd cs) = Inr vs"
  shows "eval_chain env out l cs = chain_holds l (zip (map fst cs) vs)"
  using assms
proof (induction cs arbitrary: l vs)
  case (Cons c cs)
  obtain op a where c: "c = (op, a)" by force
  with Cons.prems obtain v ws where st: "eval env out a = Inr v" "map_res (eval env out) (map snd cs) = Inr ws" "vs = v # ws"
    by auto
  have "eval_chain env out v cs = chain_holds v (zip (map fst cs) ws)" by (rule Cons.IH [OF st(2)])
  then show ?case by (simp add: c st cong: if_cong)
qed simp

end
