(* ===== verification/Runner.thy ===== *)
theory Runner
  imports Effects RunValues Conditions Resources
begin

text \<open>
  \<open>dag/runner.py\<close>: the tables of one run, the predicates that decide which node may start, the routing of
  results along edges, and the operations of the main loop. The run is one state record; the coroutine
  \<open>DagRunner.run\<close> becomes \<open>start_run\<close> followed by turns of its \<open>while\<close> loop, each split at its suspension
  point (theory \<open>RunLoop\<close>). The tasks the loop starts are entries of the tables \<open>rs_running\<close> and
  \<open>rs_acc\<close> with their result once they have one.

  The recorder, the edge recorder and the emit callback of the deployment are parameters that may raise; what
  they are called with is kept in \<open>rs_log\<close>. A graph that was loaded has an instance for each of its nodes;
  \<open>graph.edges[n]\<close> and \<open>graph.reverse_edges[n]\<close> are \<open>succs\<close> and \<open>preds\<close>.
\<close>

section \<open>The state of a run\<close>

record edge_fact =
  ef_run :: string
  ef_from :: string
  ef_to :: string
  ef_optional :: bool
  ef_status :: string
  ef_has_payload :: bool
  ef_error :: "string option"

datatype run_event =
    NodeRec (nr_node: string) (nr_status: string) "string option" "string option" "(string, pyval) dict option"
  | EdgeRec edge_fact
  | EmitRec string pyval

record run_inputs =
  ri_shared :: pyval
  ri_nodes :: "(string, pyval) dict"
  ri_append :: "string set"

record run_env =
  re_graph :: dag_graph
  re_run :: string
  re_nodes :: "(string, node_cfg) dict"
  re_dags :: "(string, dag_cfg) dict"
  re_cond :: cond_env
  re_allowed :: "string set"
  re_inputs :: run_inputs
  re_recorder :: "(run_event \<Rightarrow> unit res) option"
  re_edge_recorder :: "(run_event \<Rightarrow> unit res) option"
  re_emit :: "(run_event \<Rightarrow> unit res) option"
  re_parse_emit :: "pyval \<Rightarrow> emit_decl res"

text \<open>A task of \<open>running\<close>: the payloads of a fan-out, whether its coroutine has begun, what it returned or
  raised. A task of \<open>accumulate_tasks\<close>: its resource key, its upstream and its result.\<close>

record task =
  tk_fan :: "pyval list option"
  tk_begun :: bool
  tk_result :: "node_output res option"

record acc_task =
  at_key :: string
  at_upstream :: string
  at_result :: "node_output res option"

datatype phase =
    AtHead
  | AwaitRelease "string list"
  | AwaitTasks "string list" "string list option"
  | Finished
  | Failed err

record run_state =
  rs_outputs :: "(string, node_output) dict"
  rs_payloads :: "(string, pyval) dict"
  rs_failures :: "(string, string) dict"
  rs_routed :: "edge set"
  rs_warnings :: "string list"
  rs_running :: "(string, task) dict"
  rs_acc :: "(string, acc_task list) dict"
  rs_acc_edges :: "edge set"
  rs_acquired :: "(string, string) dict"
  rs_started :: "string set"
  rs_sems :: sem_cache
  rs_store :: "estore option"
  rs_stop :: bool
  rs_log :: "run_event list"
  rs_phase :: phase

type_synonym 'a act = "(run_state, 'a) eff"

definition instance_of :: "dag_graph \<Rightarrow> string \<Rightarrow> node_inst" where
  "instance_of g n = the (dget (dg_instances g) n)"

definition cond_now :: "run_env \<Rightarrow> run_state \<Rightarrow> cond_env" where
  "cond_now en s = (re_cond en)\<lparr>ce_store := rs_store s\<rparr>"

section \<open>Which node may run\<close>

definition accumulates :: "dag_graph \<Rightarrow> string \<Rightarrow> bool" where
  "accumulates g n =
     (if ni_fan_in_mode (instance_of g n) \<noteq> NBarrier then True
      else list_ex (\<lambda>u. dget (dg_fan_in_modes g) (u, n) \<in> {Some EStream, Some EAccumulate}) (preds g n))"

definition is_source_type :: "run_env \<Rightarrow> string \<Rightarrow> bool" where
  "is_source_type en u = (case dget (re_nodes en) (ni_type (instance_of (re_graph en) u)) of
     None \<Rightarrow> False | Some c \<Rightarrow> nc_role c = Source)"

definition source_failure_can_be_skipped :: "run_env \<Rightarrow> run_state \<Rightarrow> string \<Rightarrow> string \<Rightarrow> bool" where
  "source_failure_can_be_skipped en s u n = (is_source_type en u
     \<and> list_ex (\<lambda>v. v \<noteq> u \<and> (v, n) \<in> rs_routed s \<and> (case dget (rs_outputs s) v of None \<Rightarrow> False
          | Some out \<Rightarrow> no_ok out \<and> \<not> is_none (no_payload out))) (preds (re_graph en) n))"

definition all_upstreams_done :: "run_env \<Rightarrow> run_state \<Rightarrow> string \<Rightarrow> bool" where
  "all_upstreams_done en s n = list_all (dhas (rs_outputs s)) (preds (re_graph en) n)"

definition upstream_passes :: "run_env \<Rightarrow> run_state \<Rightarrow> string \<Rightarrow> string \<Rightarrow> bool" where
  "upstream_passes en s n u = (case dget (rs_outputs s) u of None \<Rightarrow> False
     | Some out \<Rightarrow> if no_ok out then (u, n) \<in> rs_routed s
         else (u, n) \<in> dg_optional (re_graph en) \<or> source_failure_can_be_skipped en s u n)"

definition ready :: "run_env \<Rightarrow> run_state \<Rightarrow> string \<Rightarrow> bool" where
  "ready en s n = (all_upstreams_done en s n \<and> list_all (upstream_passes en s n) (preds (re_graph en) n))"

definition blocking_required_failures :: "run_env \<Rightarrow> run_state \<Rightarrow> string \<Rightarrow> string list" where
  "blocking_required_failures en s n = filter (\<lambda>u. (case dget (rs_outputs s) u of None \<Rightarrow> False
       | Some out \<Rightarrow> \<not> no_ok out) \<and> (u, n) \<notin> dg_optional (re_graph en)
       \<and> \<not> source_failure_can_be_skipped en s u n) (preds (re_graph en) n)"

definition blocked_by_required_failure :: "run_env \<Rightarrow> run_state \<Rightarrow> string \<Rightarrow> bool" where
  "blocked_by_required_failure en s n = (preds (re_graph en) n \<noteq> [] \<and> all_upstreams_done en s n
     \<and> blocking_required_failures en s n \<noteq> [])"

definition output_error :: "run_state \<Rightarrow> string \<Rightarrow> string" where
  "output_error s u = (case dget (rs_outputs s) u of None \<Rightarrow> ''node failed''
     | Some out \<Rightarrow> error_or (no_error out) ''node failed'')"

definition upstream_failure_error :: "run_env \<Rightarrow> run_state \<Rightarrow> string \<Rightarrow> string" where
  "upstream_failure_error en s n = ''required upstream failed: ''
     @ join ''; '' (map (\<lambda>u. u @ '': '' @ output_error s u) (blocking_required_failures en s n))"

definition is_sub_dag_instance :: "run_env \<Rightarrow> node_inst \<Rightarrow> bool" where
  "is_sub_dag_instance en i = ((ni_type i = ''dag'' \<and> (case ni_dag_ref i of None \<Rightarrow> False
     | Some r \<Rightarrow> dhas (re_dags en) r)) \<or> dhas (re_dags en) (ni_type i))"

section \<open>The input of a node\<close>

definition edge_input_fact :: "run_env \<Rightarrow> string \<Rightarrow> string \<Rightarrow> string \<Rightarrow> (string, node_output) dict \<Rightarrow> edge set \<Rightarrow> edge_fact" where
  "edge_input_fact en run u n outputs routed =
     (let fact = (\<lambda>st hp er. \<lparr>ef_run = run, ef_from = u, ef_to = n,
            ef_optional = ((u, n) \<in> dg_optional (re_graph en)), ef_status = st, ef_has_payload = hp, ef_error = er\<rparr>) in
      case dget outputs u of None \<Rightarrow> fact ''unknown'' False None
      | Some out \<Rightarrow>
          if no_ok out then
            (let hp = (\<not> is_none (no_payload out) \<and> (routed = {} \<or> (u, n) \<in> routed)) in
             fact (if hp then ''available'' else ''empty'') hp None)
          else if py_eq (aget (no_metadata out) ''runtime_status'') (PStr ''unknown'') then fact ''unknown'' False None
          else fact ''failed'' False (Some (error_or (no_error out) ''node failed'')))"

definition edge_fact_val :: "edge_fact \<Rightarrow> pyval" where
  "edge_fact_val f = PDict [(''from_node_id'', PStr (ef_from f)), (''to_node_id'', PStr (ef_to f)),
     (''edge_optional'', PBool (ef_optional f)), (''status'', PStr (ef_status f)),
     (''has_payload'', PBool (ef_has_payload f)),
     (''error_summary'', case ef_error f of None \<Rightarrow> PNone | Some e \<Rightarrow> PStr e)]"

definition run_metadata :: "run_env \<Rightarrow> run_state \<Rightarrow> string \<Rightarrow> (string, pyval) dict" where
  "run_metadata en s n =
     (let us = preds (re_graph en) n;
          facts = map (\<lambda>u. edge_fact_val (edge_input_fact en [] u n (rs_outputs s) {})) us in
      [(''upstreams'', PList (map PStr us))]
      @ (if facts = [] then [] else [(''edge_inputs'', PList facts)])
      @ (if rs_warnings s = [] then [] else [(''warnings'', PList (map PStr (rs_warnings s)))]))"

definition upstream_values :: "run_env \<Rightarrow> run_state \<Rightarrow> string \<Rightarrow> pyval list" where
  "upstream_values en s n = concat (map (\<lambda>u. case dget (rs_outputs s) u of None \<Rightarrow> []
       | Some out \<Rightarrow> if (u, n) \<in> rs_routed s \<and> no_ok out \<and> \<not> is_none (no_payload out)
           then [aget (rs_payloads s) u] else []) (preds (re_graph en) n))"

definition collect_upstream_payloads :: "run_env \<Rightarrow> run_state \<Rightarrow> string \<Rightarrow> pyval" where
  "collect_upstream_payloads en s n =
     (if preds (re_graph en) n = [] then PNone
      else (case upstream_values en s n of [] \<Rightarrow> PList [] | [v] \<Rightarrow> v | vs \<Rightarrow> PList (collect vs)))"

definition merge_payload :: "pyval \<Rightarrow> pyval \<Rightarrow> pyval" where
  "merge_payload base override = (case (base, override) of
     (PDict b, PDict v) \<Rightarrow> PDict (dmerge b v) | _ \<Rightarrow> override)"

definition get_node_input :: "run_env \<Rightarrow> run_state \<Rightarrow> string \<Rightarrow> pyval" where
  "get_node_input en s n =
     (let inputs = re_inputs en;
          current = (if preds (re_graph en) n = [] then
              (if is_none (ri_shared inputs) then aget (ni_config (instance_of (re_graph en) n)) ''default_entity''
               else ri_shared inputs)
            else collect_upstream_payloads en s n) in
      case dget (ri_nodes inputs) n of None \<Rightarrow> current
      | Some v \<Rightarrow> if n \<in> ri_append inputs then merge_payload current v else v)"

definition fan_out_payloads :: "run_env \<Rightarrow> run_state \<Rightarrow> string \<Rightarrow> pyval list option" where
  "fan_out_payloads en s n =
     (let outs = concat (map (\<lambda>u. if (u, n) \<in> dg_fan_out (re_graph en) \<and> (u, n) \<in> rs_routed s
            then (case dget (rs_outputs s) u of None \<Rightarrow> [] | Some out \<Rightarrow> if no_ok out then [no_payload out] else [])
            else []) (preds (re_graph en) n)) in
      if outs = [] then None
      else Some (concat (map (\<lambda>p. case p of PList xs \<Rightarrow> xs | PNone \<Rightarrow> [] | _ \<Rightarrow> [p]) outs)))"

definition last_payload :: "run_env \<Rightarrow> run_state \<Rightarrow> pyval" where
  "last_payload en s = (case filter (\<lambda>n. succs (re_graph en) n = []) (dg_nodes (re_graph en)) of
     [] \<Rightarrow> PNone
   | [n] \<Rightarrow> aget (rs_payloads s) n
   | ns \<Rightarrow> PList (concat (map (\<lambda>n. case dget (rs_payloads s) n of None \<Rightarrow> [] | Some p \<Rightarrow> [p]) ns)))"

section \<open>Resources of the run\<close>

definition acquire_resource :: "node_inst \<Rightarrow> string option \<Rightarrow> bool act" where
  "acquire_resource i key = (case ni_resource i of None \<Rightarrow> eret True
     | Some ref \<Rightarrow> ebind (eget (\<lambda>s. s)) (\<lambda>s. ebind (elift (get_semaphore ref (rs_store s) (rs_sems s))) (\<lambda>(rid, cache).
         ebind (emod (\<lambda>s. s\<lparr>rs_sems := cache\<rparr>)) (\<lambda>_.
         case acquire_nowait (the (dget cache rid)) of None \<Rightarrow> eret False
         | Some sm \<Rightarrow> ebind (emod (\<lambda>s. s\<lparr>rs_sems := dset cache rid sm,
               rs_acquired := dset (rs_acquired s) (the (or_str key (Some (ni_id i)))) rid\<rparr>)) (\<lambda>_. eret True)))))"

definition resource_available :: "node_inst \<Rightarrow> bool act" where
  "resource_available i = (case ni_resource i of None \<Rightarrow> eret True
     | Some ref \<Rightarrow> ebind (eget (\<lambda>s. s)) (\<lambda>s. ebind (elift (get_semaphore ref (rs_store s) (rs_sems s))) (\<lambda>(rid, cache).
         ebind (emod (\<lambda>s. s\<lparr>rs_sems := cache\<rparr>)) (\<lambda>_. eret (sem_available (the (dget cache rid)))))))"

definition release_resource :: "string \<Rightarrow> run_state \<Rightarrow> run_state" where
  "release_resource key s = (case dget (rs_acquired s) key of None \<Rightarrow> s
     | Some rid \<Rightarrow> s\<lparr>rs_acquired := dpop (rs_acquired s) key,
         rs_sems := (case dget (rs_sems s) rid of None \<Rightarrow> rs_sems s | Some sm \<Rightarrow> dset (rs_sems s) rid (release sm))\<rparr>)"

definition release_all :: "run_state \<Rightarrow> run_state" where
  "release_all s = fold release_resource (dkeys (rs_acquired s)) s"

end
