(* ===== verification/RunLoop.thy ===== *)
theory RunLoop
  imports Runner
begin

text \<open>
  The operations of \<open>DagRunner.run\<close> that change the tables (\<open>dag/runner.py\<close>): routing, storing results,
  starting nodes, the accumulate nodes, the turns of the main loop, and the transition relation \<open>run_step\<close> of one
  run with everything that may happen between two turns: tasks that begin and end, the stop event, a
  cancellation, a new entity store, and the other users of the semaphores.
\<close>

section \<open>Recording\<close>

definition call_back :: "(run_event \<Rightarrow> unit res) option \<Rightarrow> run_event \<Rightarrow> unit act" where
  "call_back f ev = (case f of None \<Rightarrow> eret ()
     | Some g \<Rightarrow> eseq (emod (\<lambda>s. s\<lparr>rs_log := rs_log s @ [ev]\<rparr>)) (elift (g ev)))"

definition record_edge_inputs :: "run_env \<Rightarrow> string \<Rightarrow> unit act" where
  "record_edge_inputs en n = efor (\<lambda>u. ebind (eget (\<lambda>s. edge_input_fact en (re_run en) u n (rs_outputs s) (rs_routed s)))
     (\<lambda>f. call_back (re_edge_recorder en) (EdgeRec f))) (preds (re_graph en) n)"

section \<open>Routing and storing\<close>

text \<open>The loop of \<open>_routed_edges\<close>: the routed edges and the number of conditions met on the way.\<close>

fun route_targets :: "cond_env \<Rightarrow> dag_graph \<Rightarrow> string \<Rightarrow> pyval \<Rightarrow> string list \<Rightarrow> (edge list \<times> nat) res" where
  "route_targets ce g n p [] = Inr ([], 0)"
| "route_targets ce g n p (d # ds) = (case dget (dg_conditions g) (n, d) of
     None \<Rightarrow> rbind (route_targets ce g n p ds) (\<lambda>r. Inr ((n, d) # fst r, snd r))
   | Some c \<Rightarrow> rbind (evaluate_condition ce c p) (\<lambda>b. rbind (route_targets ce g n p ds)
       (\<lambda>r. Inr (if b then (n, d) # fst r else fst r, Suc (snd r)))))"

definition routed_edges :: "run_env \<Rightarrow> string \<Rightarrow> pyval \<Rightarrow> edge list act" where
  "routed_edges en n p = ebind (eget (\<lambda>s. cond_now en s)) (\<lambda>ce.
     ebind (elift (route_targets ce (re_graph en) n p (succs (re_graph en) n))) (\<lambda>r.
     eseq (ewhen (snd r \<noteq> 0 \<and> fst r = []) (emod (\<lambda>s. s\<lparr>rs_warnings := rs_warnings s @ [''dead path after '' @ n]\<rparr>)))
       (eret (fst r))))"

definition add_routed :: "edge set \<Rightarrow> unit act" where
  "add_routed es = emod (\<lambda>s. s\<lparr>rs_routed := rs_routed s \<union> es\<rparr>)"

definition store_result :: "run_env \<Rightarrow> string \<Rightarrow> node_output \<Rightarrow> unit act" where
  "store_result en n out =
     eseq (emod (release_resource n))
     (eseq (emod (\<lambda>s. s\<lparr>rs_outputs := dset (rs_outputs s) n out\<rparr>))
     (if no_ok out then
        eseq (emod (\<lambda>s. s\<lparr>rs_payloads := dset (rs_payloads s) n (no_payload out)\<rparr>))
          (ebind (routed_edges en n (no_payload out)) (\<lambda>es. add_routed (set es)))
      else
        eseq (emod (\<lambda>s. s\<lparr>rs_failures := dset (rs_failures s) n (error_or (no_error out) ''node failed'')\<rparr>))
          (add_routed ((\<lambda>d. (n, d)) ` set (succs (re_graph en) n) \<inter> dg_optional (re_graph en)))))"

section \<open>Starting nodes\<close>

definition start_node :: "run_env \<Rightarrow> string \<Rightarrow> unit act" where
  "start_node en n = emod (\<lambda>s. s\<lparr>rs_running := dset (rs_running s) n
     \<lparr>tk_fan = fan_out_payloads en s n, tk_begun = False, tk_result = None\<rparr>\<rparr>)"

definition mark_started :: "string \<Rightarrow> unit act" where
  "mark_started n = emod (\<lambda>s. s\<lparr>rs_started := insert n (rs_started s)\<rparr>)"

definition acquire_for_start :: "run_env \<Rightarrow> string \<Rightarrow> bool act" where
  "acquire_for_start en n = (let i = instance_of (re_graph en) n in
     if ni_loop i = None then acquire_resource i None else eret True)"

definition fail_upstream :: "run_env \<Rightarrow> string \<Rightarrow> unit act" where
  "fail_upstream en n = eseq (record_edge_inputs en n) (ebind (eget (\<lambda>s. upstream_failure_error en s n)) (\<lambda>er.
     eseq (call_back (re_recorder en) (NodeRec n ''failed'' (Some er) (Some ''upstream_failed'') None))
     (eseq (store_result en n \<lparr>no_name = n, no_ok = False, no_payload = PNone, no_metadata = [], no_error = Some er\<rparr>)
       (mark_started n))))"

text \<open>The body of the loop of \<open>_start_ready_nodes\<close>.\<close>

definition start_one :: "run_env \<Rightarrow> string \<Rightarrow> unit act" where
  "start_one en n = ebind (eget (\<lambda>s. s)) (\<lambda>s.
     if n \<in> rs_started s \<or> n \<notin> re_allowed en \<or> dhas (rs_running s) n then eret ()
     else if accumulates (re_graph en) n then eret ()
     else if ready en s n then
       ebind (acquire_for_start en n) (\<lambda>ok. if \<not> ok then eret ()
         else eseq (record_edge_inputs en n) (eseq (start_node en n) (mark_started n)))
     else if blocked_by_required_failure en s n then fail_upstream en n
     else eret ())"

definition start_ready_nodes :: "run_env \<Rightarrow> unit act" where
  "start_ready_nodes en = ebind (eget rs_stop) (\<lambda>stop. if stop then eret ()
     else efor (start_one en) (dg_nodes (re_graph en)))"

text \<open>The body of the loop over the sources before the main loop.\<close>

definition start_source :: "run_env \<Rightarrow> string \<Rightarrow> unit act" where
  "start_source en n = ebind (eget (\<lambda>s. s)) (\<lambda>s.
     if dhas (rs_outputs s) n then eret ()
     else if n \<in> re_allowed en \<and> preds (re_graph en) n = [] then
       ebind (acquire_for_start en n) (\<lambda>ok. if \<not> ok then eret ()
         else eseq (start_node en n) (mark_started n))
     else eret ())"

section \<open>Accumulate nodes\<close>

definition stream_key :: "string \<Rightarrow> string \<Rightarrow> string" where
  "stream_key d u = d @ '':stream:'' @ u"

definition acc_of :: "run_state \<Rightarrow> string \<Rightarrow> acc_task list" where
  "acc_of s n = dget_default (rs_acc s) n []"

definition add_acc_task :: "string \<Rightarrow> string \<Rightarrow> unit act" where
  "add_acc_task d u = emod (\<lambda>s. s\<lparr>rs_acc_edges := insert (u, d) (rs_acc_edges s),
     rs_acc := dset (rs_acc s) d (acc_of s d @ [\<lparr>at_key = stream_key d u, at_upstream = u, at_result = None\<rparr>])\<rparr>)"

definition accumulate_edge :: "run_env \<Rightarrow> string \<Rightarrow> string \<Rightarrow> unit act" where
  "accumulate_edge en d u = ebind (eget (\<lambda>s. s)) (\<lambda>s.
     if \<not> dhas (rs_outputs s) u \<or> (u, d) \<notin> rs_routed s \<or> (u, d) \<in> rs_acc_edges s then eret ()
     else ebind (acquire_resource (instance_of (re_graph en) d) (Some (stream_key d u))) (\<lambda>ok.
       if ok then add_acc_task d u else eret ()))"

definition accumulate_node :: "run_env \<Rightarrow> string \<Rightarrow> unit act" where
  "accumulate_node en d = ebind (eget (\<lambda>s. s)) (\<lambda>s.
     if dhas (rs_outputs s) d \<or> d \<notin> re_allowed en then eret ()
     else if \<not> accumulates (re_graph en) d then eret ()
     else efor (accumulate_edge en d) (preds (re_graph en) d))"

definition pending_acc :: "run_state \<Rightarrow> string list" where
  "pending_acc s = map at_key (filter (\<lambda>t. at_result t = None) (concat (dvalues (rs_acc s))))"

definition pop_acc :: "string \<Rightarrow> unit act" where
  "pop_acc n = emod (\<lambda>s. s\<lparr>rs_acc := dpop (rs_acc s) n\<rparr>)"

text \<open>\<open>await asyncio.gather(*tasks)\<close> of tasks that are all done.\<close>

definition gather_results :: "acc_task list \<Rightarrow> node_output list res" where
  "gather_results ts = map_res (\<lambda>t. case at_result t of Some r \<Rightarrow> r | None \<Rightarrow> Inl (OtherError ''InvalidStateError'')) ts"

definition complete_one :: "run_env \<Rightarrow> string \<Rightarrow> bool act" where
  "complete_one en n = ebind (eget (\<lambda>s. s)) (\<lambda>s.
     if dhas (rs_outputs s) n then eseq (pop_acc n) (eret False)
     else if \<not> all_upstreams_done en s n then eret False
     else if acc_of s n = [] \<or> list_ex (\<lambda>t. at_result t = None) (acc_of s n) then eret False
     else eseq (pop_acc n) (ebind (elift (gather_results (acc_of s n))) (\<lambda>outs.
       eseq (store_result en n (merge_stream_results n outs)) (eseq (mark_started n) (eret True)))))"

definition complete_accumulate_tasks :: "run_env \<Rightarrow> bool act" where
  "complete_accumulate_tasks en = ebind (eget (\<lambda>s. dkeys (rs_acc s))) (\<lambda>ns.
     ebind (emap (complete_one en) ns) (\<lambda>bs. eret (list_ex (\<lambda>b. b) bs)))"

definition run_accumulate_downstreams :: "run_env \<Rightarrow> unit act" where
  "run_accumulate_downstreams en = ebind (eget rs_stop) (\<lambda>stop. if stop then eret ()
     else eseq (efor (accumulate_node en) (dg_nodes (re_graph en)))
       (ebind (complete_accumulate_tasks en) (\<lambda>_. eret ())))"

section \<open>Events of a node\<close>

definition declared_emits :: "run_env \<Rightarrow> node_inst \<Rightarrow> emit_decl list res" where
  "declared_emits en i =
     rbind (if is_sub_dag_instance en i then Inr []
            else rbind (lookup_key (re_nodes en) (ni_type i)) (\<lambda>c. Inr (nc_emits c))) (\<lambda>ds.
     case aget (ni_config i) ''emits'' of PList xs \<Rightarrow> map_res (re_parse_emit en) xs | _ \<Rightarrow> Inr ds)"

definition emit_one :: "run_env \<Rightarrow> pyval \<Rightarrow> emit_decl \<Rightarrow> unit act" where
  "emit_one en p d = ebind (eget (\<lambda>s. cond_now en s)) (\<lambda>ce.
     case or_str (ed_condition d) None of
       None \<Rightarrow> call_back (re_emit en) (EmitRec (ed_event d) p)
     | Some c \<Rightarrow> (case evaluate_condition ce c p of Inl _ \<Rightarrow> eret ()
         | Inr b \<Rightarrow> ewhen b (call_back (re_emit en) (EmitRec (ed_event d) p))))"

definition emit_node_events :: "run_env \<Rightarrow> string \<Rightarrow> pyval \<Rightarrow> unit act" where
  "emit_node_events en n p = (if re_emit en = None then eret ()
     else ebind (elift (declared_emits en (instance_of (re_graph en) n))) (efor (emit_one en p)))"

section \<open>The main loop\<close>

definition has_startable :: "run_env \<Rightarrow> bool \<Rightarrow> bool act" where
  "has_startable en free = eany (\<lambda>n. ebind (eget (\<lambda>s. n \<notin> rs_started s \<and> n \<in> re_allowed en
       \<and> \<not> accumulates (re_graph en) n \<and> ready en s n)) (\<lambda>b.
     if b then ebind (resource_available (instance_of (re_graph en) n)) (\<lambda>a. eret (a = free)) else eret False))
     (dg_nodes (re_graph en))"

definition has_required_failure :: "run_env \<Rightarrow> run_state \<Rightarrow> bool" where
  "has_required_failure en s = list_ex (\<lambda>n. n \<notin> rs_started s \<and> n \<in> re_allowed en
     \<and> \<not> accumulates (re_graph en) n \<and> blocked_by_required_failure en s n) (dg_nodes (re_graph en))"

definition waiting_edge :: "run_env \<Rightarrow> run_state \<Rightarrow> string \<Rightarrow> string \<Rightarrow> bool" where
  "waiting_edge en s n u = (n \<notin> rs_started s \<and> n \<in> re_allowed en \<and> accumulates (re_graph en) n
     \<and> ni_resource (instance_of (re_graph en) n) \<noteq> None \<and> dhas (rs_outputs s) u
     \<and> (u, n) \<in> rs_routed s \<and> (u, n) \<notin> rs_acc_edges s)"

definition node_edges :: "run_env \<Rightarrow> (string \<times> string) list" where
  "node_edges en = concat (map (\<lambda>n. map (\<lambda>u. (n, u)) (preds (re_graph en) n)) (dg_nodes (re_graph en)))"

definition has_blocked_accumulate :: "run_env \<Rightarrow> bool act" where
  "has_blocked_accumulate en = eany (\<lambda>(n, u). ebind (eget (\<lambda>s. waiting_edge en s n u)) (\<lambda>b.
     if b then ebind (resource_available (instance_of (re_graph en) n)) (\<lambda>a. eret (\<not> a)) else eret False))
     (node_edges en)"

definition can_continue :: "run_env \<Rightarrow> bool act" where
  "can_continue en = eor (eget (\<lambda>s. rs_running s \<noteq> [])) (eor (eget (\<lambda>s. pending_acc s \<noteq> []))
     (eor (has_startable en True) (eor (has_startable en False)
     (eor (eget (has_required_failure en)) (has_blocked_accumulate en)))))"

text \<open>\<open>_wait_for_resource_release\<close> up to its suspension: the ids of the semaphores it waits for.\<close>

definition semaphore_of :: "run_env \<Rightarrow> string \<Rightarrow> string act" where
  "semaphore_of en n = ebind (eget (\<lambda>s. s)) (\<lambda>s.
     case ni_resource (instance_of (re_graph en) n) of None \<Rightarrow> ethrow (TypeError ''resource'')
     | Some ref \<Rightarrow> ebind (elift (get_semaphore ref (rs_store s) (rs_sems s))) (\<lambda>(rid, cache).
         eseq (emod (\<lambda>s. s\<lparr>rs_sems := cache\<rparr>)) (eret rid)))"

definition blocked_resources :: "run_env \<Rightarrow> string list act" where
  "blocked_resources en = ebind (eget (\<lambda>s. filter (\<lambda>n. n \<notin> rs_started s \<and> n \<in> re_allowed en
        \<and> ni_resource (instance_of (re_graph en) n) \<noteq> None \<and> \<not> accumulates (re_graph en) n \<and> ready en s n)
        (dg_nodes (re_graph en))
      @ map fst (filter (\<lambda>(n, u). waiting_edge en s n u) (node_edges en)))) (emap (semaphore_of en))"

definition clear_released :: "string list \<Rightarrow> sem_cache \<Rightarrow> sem_cache" where
  "clear_released ids cache = fold (\<lambda>i c. case dget c i of None \<Rightarrow> c
     | Some sm \<Rightarrow> dset c i (sm\<lparr>sm_released := False\<rparr>)) ids cache"

definition release_fired :: "string list \<Rightarrow> run_state \<Rightarrow> bool" where
  "release_fired ids s = (ids = [] \<or> rs_stop s
     \<or> list_ex (\<lambda>i. case dget (rs_sems s) i of None \<Rightarrow> False | Some sm \<Rightarrow> sm_released sm) ids)"

text \<open>The end of the run: every source failed, or the result.\<close>

definition all_sources_failed :: "run_env \<Rightarrow> run_state \<Rightarrow> bool" where
  "all_sources_failed en s =
     (let src = filter (\<lambda>n. n \<in> re_allowed en \<and> preds (re_graph en) n = []) (dg_nodes (re_graph en)) in
      src \<noteq> [] \<and> \<not> rs_stop s
      \<and> list_all (\<lambda>n. case dget (rs_outputs s) n of None \<Rightarrow> False | Some out \<Rightarrow> \<not> no_ok out) src
      \<and> \<not> list_ex (\<lambda>n. is_sub_dag_instance en (instance_of (re_graph en) n)) src)"

definition finish_phase :: "run_env \<Rightarrow> run_state \<Rightarrow> phase" where
  "finish_phase en s = (if all_sources_failed en s then Failed (DagError ''all source nodes failed'') else Finished)"

text \<open>From the head of the loop to its next suspension. A failure inside the release task is never
  looked at: the task is then simply done, like one that has nothing to wait for.\<close>

definition await_tasks :: "run_env \<Rightarrow> phase act" where
  "await_tasks en = ebind (eor (has_startable en False) (has_blocked_accumulate en)) (\<lambda>b.
     if b then (\<lambda>s. case blocked_resources en s of
         (Inl _, s') \<Rightarrow> (Inr (AwaitTasks (pending_acc s) (Some [])), s')
       | (Inr ids, s') \<Rightarrow> (Inr (AwaitTasks (pending_acc s) (Some ids)), s'))
     else eget (\<lambda>s. AwaitTasks (pending_acc s) None))"

definition loop_head :: "run_env \<Rightarrow> phase act" where
  "loop_head en = ebind (can_continue en) (\<lambda>c. ebind (eget (\<lambda>s. s)) (\<lambda>s.
     if \<not> c \<or> rs_stop s \<and> rs_running s = [] then eget (finish_phase en)
     else eseq (ewhen (rs_running s = []) (start_ready_nodes en)) (ebind (eget (\<lambda>s. s)) (\<lambda>s'.
       if rs_running s = [] \<and> rs_running s' = [] \<and> pending_acc s' = []
       then ebind (blocked_resources en) (\<lambda>ids. eret (if ids = [] then AtHead else AwaitRelease ids))
       else await_tasks en))))"

definition take_result :: "string \<Rightarrow> (string \<times> node_output) act" where
  "take_result n = ebind (eget (\<lambda>s. dget (rs_running s) n)) (\<lambda>t.
     case t of None \<Rightarrow> ethrow (KeyError n)
     | Some tk \<Rightarrow> ebind (elift (case tk_result tk of Some r \<Rightarrow> r | None \<Rightarrow> Inl (OtherError ''InvalidStateError''))) (\<lambda>out.
         eseq (emod (\<lambda>s. s\<lparr>rs_running := dpop (rs_running s) n\<rparr>)) (eret (n, out))))"

definition handle_done :: "run_env \<Rightarrow> string \<times> node_output \<Rightarrow> unit act" where
  "handle_done en ev = eseq (store_result en (fst ev) (snd ev))
     (eseq (ewhen (no_ok (snd ev)) (eseq (emit_node_events en (fst ev) (no_payload (snd ev))) (run_accumulate_downstreams en)))
       (start_ready_nodes en))"

text \<open>From the end of \<open>asyncio.wait\<close> to the head of the loop; \<open>ds\<close> is the order in which the loop meets the
  finished tasks.\<close>

definition loop_turn :: "run_env \<Rightarrow> string list \<Rightarrow> phase act" where
  "loop_turn en ds = ebind (emap take_result ds) (\<lambda>evs.
     ebind (complete_accumulate_tasks en) (\<lambda>c.
     eseq (efor (handle_done en) evs)
       (eseq (ewhen (c \<or> list_ex (\<lambda>ev. no_ok (snd ev)) evs) (start_ready_nodes en)) (eret AtHead))))"

text \<open>The two handlers of the \<open>try\<close> around the loop cancel the running tasks and give every permit back.\<close>

definition abort_run :: "err \<Rightarrow> run_state \<Rightarrow> run_state" where
  "abort_run e s = (release_all (s\<lparr>rs_running := []\<rparr>))\<lparr>rs_phase := Failed e\<rparr>"

definition settle :: "phase res \<times> run_state \<Rightarrow> run_state" where
  "settle r = (case r of (Inr p, s) \<Rightarrow> s\<lparr>rs_phase := p\<rparr> | (Inl e, s) \<Rightarrow> abort_run e s)"

text \<open>Everything before the loop: an exception here leaves \<open>run\<close> outside of that \<open>try\<close>.\<close>

definition prefill_one :: "run_env \<Rightarrow> string \<times> node_output \<Rightarrow> unit act" where
  "prefill_one en kv = (if \<not> dhas (dg_instances (re_graph en)) (fst kv) then eret ()
     else eseq (emod (\<lambda>s. s\<lparr>rs_outputs := dset (rs_outputs s) (fst kv) (snd kv)\<rparr>))
       (ewhen (no_ok (snd kv) \<and> \<not> is_none (no_payload (snd kv)))
         (eseq (emod (\<lambda>s. s\<lparr>rs_payloads := dset (rs_payloads s) (fst kv) (no_payload (snd kv))\<rparr>))
           (ebind (routed_edges en (fst kv) (no_payload (snd kv))) (\<lambda>es. add_routed (set es))))))"

definition start_run :: "run_env \<Rightarrow> (string, node_output) dict \<Rightarrow> phase act" where
  "start_run en prefilled = ebind (elift (topological_layers (re_graph en))) (\<lambda>_.
     eseq (efor (prefill_one en) prefilled)
     (eseq (emod (\<lambda>s. s\<lparr>rs_started := fst ` set (rs_outputs s)\<rparr>))
     (eseq (efor (start_source en) (dg_nodes (re_graph en))) (eret AtHead))))"

definition fresh_run :: "sem_cache \<Rightarrow> estore option \<Rightarrow> run_state" where
  "fresh_run sems store = \<lparr>rs_outputs = [], rs_payloads = [], rs_failures = [], rs_routed = {}, rs_warnings = [],
     rs_running = [], rs_acc = [], rs_acc_edges = {}, rs_acquired = [], rs_started = {}, rs_sems = sems,
     rs_store = store, rs_stop = False, rs_log = [], rs_phase = AtHead\<rparr>"

definition initial_run :: "run_env \<Rightarrow> (string, node_output) dict \<Rightarrow> sem_cache \<Rightarrow> estore option \<Rightarrow> run_state" where
  "initial_run en prefilled sems store = (case start_run en prefilled (fresh_run sems store) of
     (Inr p, s) \<Rightarrow> s\<lparr>rs_phase := p\<rparr> | (Inl e, s) \<Rightarrow> s\<lparr>rs_phase := Failed e\<rparr>)"

section \<open>The tasks\<close>

text \<open>\<open>_run_node\<close> and \<open>_run_fan_out_node\<close> around the execution of the node itself: what happens when the
  task begins, and when the execution has returned or raised. A fan-out gathers one result per payload.\<close>

definition set_task :: "string \<Rightarrow> task \<Rightarrow> unit act" where
  "set_task n t = emod (\<lambda>s. s\<lparr>rs_running := dset (rs_running s) n t\<rparr>)"

definition begin_task :: "run_env \<Rightarrow> string \<Rightarrow> task \<Rightarrow> run_state \<Rightarrow> run_state" where
  "begin_task en n t s = (case call_back (re_recorder en) (NodeRec n ''running'' None None None) s of
     (Inr _, s') \<Rightarrow> snd (set_task n (t\<lparr>tk_begun := True\<rparr>) s')
   | (Inl e, s') \<Rightarrow> snd (set_task n (t\<lparr>tk_begun := True, tk_result := Some (Inl e)\<rparr>) s'))"

definition task_output :: "string \<Rightarrow> task \<Rightarrow> node_output res list \<Rightarrow> node_output res" where
  "task_output n t rs = (case tk_fan t of
     None \<Rightarrow> hd rs
   | Some ps \<Rightarrow> rbind (map_res (\<lambda>r. r) rs) (\<lambda>outs. Inr (merge_fan_out_results n outs)))"

definition end_task :: "run_env \<Rightarrow> string \<Rightarrow> task \<Rightarrow> node_output res list \<Rightarrow> run_state \<Rightarrow> run_state" where
  "end_task en n t rs s = (case task_output n t rs of
     Inl e \<Rightarrow> snd (set_task n (t\<lparr>tk_result := Some (Inl e)\<rparr>) s)
   | Inr out \<Rightarrow> (case call_back (re_recorder en) (NodeRec n (if no_ok out then ''succeeded'' else ''failed'')
          (no_error out) (failure_kind out) (node_run_metadata out)) s of
        (Inr _, s') \<Rightarrow> snd (set_task n (t\<lparr>tk_result := Some (Inr out)\<rparr>) s')
      | (Inl e, s') \<Rightarrow> snd (set_task n (t\<lparr>tk_result := Some (Inl e)\<rparr>) s')))"

text \<open>\<open>_run_stream_node_releasing\<close>: the result of the task with this key, then its permit is given back.\<close>

definition set_acc_result :: "string \<Rightarrow> node_output res \<Rightarrow> acc_task list \<Rightarrow> acc_task list" where
  "set_acc_result key r ts = map (\<lambda>t. if at_key t = key then t\<lparr>at_result := Some r\<rparr> else t) ts"

definition end_acc_task :: "string \<Rightarrow> node_output res \<Rightarrow> run_state \<Rightarrow> run_state" where
  "end_acc_task key r s = release_resource key
     (s\<lparr>rs_acc := map (\<lambda>(d, ts). (d, set_acc_result key r ts)) (rs_acc s)\<rparr>)"

section \<open>The transition relation of a run\<close>

definition own_permits :: "run_state \<Rightarrow> string \<Rightarrow> int" where
  "own_permits s rid = int (length (filter (\<lambda>kv. snd kv = rid) (rs_acquired s)))"

definition awaiting :: "run_state \<Rightarrow> bool" where
  "awaiting s = (case rs_phase s of AwaitRelease _ \<Rightarrow> True | AwaitTasks _ _ \<Rightarrow> True | _ \<Rightarrow> False)"

definition done_tasks :: "run_state \<Rightarrow> string set" where
  "done_tasks s = {n. \<exists>t. dget (rs_running s) n = Some t \<and> tk_result t \<noteq> None}"

text \<open>The pair of a run and, per semaphore, the permits that its other users hold: other runs, and the loops
  of this run, which acquire inside their tasks.\<close>

type_synonym world = "run_state \<times> (string \<Rightarrow> int)"

inductive run_step :: "run_env \<Rightarrow> world \<Rightarrow> world \<Rightarrow> bool" for en where
  head: "rs_phase s = AtHead \<Longrightarrow> run_step en (s, k) (settle (loop_head en s), k)"
| released: "rs_phase s = AwaitRelease ids \<Longrightarrow> release_fired ids s \<Longrightarrow>
    run_step en (s, k) (s\<lparr>rs_sems := clear_released ids (rs_sems s), rs_phase := AtHead\<rparr>, k)"
| woken: "rs_phase s = AwaitTasks keys rel \<Longrightarrow> distinct ds \<Longrightarrow> set ds = done_tasks s \<Longrightarrow>
    ds \<noteq> [] \<or> \<not> set keys \<subseteq> set (pending_acc s) \<Longrightarrow>
    run_step en (s, k) (settle (loop_turn en ds s), k)"
| woken_release: "rs_phase s = AwaitTasks keys (Some ids) \<Longrightarrow> distinct ds \<Longrightarrow> set ds = done_tasks s \<Longrightarrow>
    release_fired ids s \<Longrightarrow>
    run_step en (s, k) (settle (loop_turn en ds (s\<lparr>rs_sems := clear_released ids (rs_sems s)\<rparr>)), k)"
| cancelled: "awaiting s \<Longrightarrow> run_step en (s, k) (abort_run (OtherError ''CancelledError'') s, k)"
| begin_task: "awaiting s \<Longrightarrow> dget (rs_running s) n = Some t \<Longrightarrow> \<not> tk_begun t \<Longrightarrow> tk_result t = None \<Longrightarrow>
    run_step en (s, k) (begin_task en n t s, k)"
| end_task: "awaiting s \<Longrightarrow> dget (rs_running s) n = Some t \<Longrightarrow> tk_begun t \<Longrightarrow> tk_result t = None \<Longrightarrow>
    length rs = (case tk_fan t of None \<Rightarrow> 1 | Some ps \<Rightarrow> length ps) \<Longrightarrow>
    run_step en (s, k) (end_task en n t rs s, k)"
| end_acc_task: "key \<in> set (pending_acc s) \<Longrightarrow> run_step en (s, k) (end_acc_task key r s, k)"
| stop: "run_step en (s, k) (s\<lparr>rs_stop := True\<rparr>, k)"
| new_store: "run_step en (s, k) (s\<lparr>rs_store := st\<rparr>, k)"
| new_semaphore: "dget (rs_sems s) rid = None \<Longrightarrow> 0 \<le> p \<Longrightarrow>
    run_step en (s, k) (s\<lparr>rs_sems := dset (rs_sems s) rid (new_sem p)\<rparr>, k)"
| others: "dget (rs_sems s) rid = Some sm \<Longrightarrow>
    polite_step \<lparr>sr_sem = sm, sr_holders = k rid + own_permits s rid\<rparr> \<lparr>sr_sem = sm', sr_holders = h\<rparr> \<Longrightarrow>
    own_permits s rid \<le> h \<Longrightarrow>
    run_step en (s, k) (s\<lparr>rs_sems := dset (rs_sems s) rid sm'\<rparr>, k(rid := h - own_permits s rid))"
| others_clear: "dget (rs_sems s) rid = Some sm \<Longrightarrow>
    run_step en (s, k) (s\<lparr>rs_sems := dset (rs_sems s) rid (sm\<lparr>sm_released := False\<rparr>)\<rparr>, k)"

definition reachable_run :: "run_env \<Rightarrow> (string, node_output) dict \<Rightarrow> sem_cache \<Rightarrow> estore option \<Rightarrow> run_state \<Rightarrow> bool" where
  "reachable_run en prefilled sems store s =
     (\<exists>k k0. (run_step en)\<^sup>*\<^sup>* (initial_run en prefilled sems store, k0) (s, k))"

end
