(* ===== verification/RunInv.thy ===== *)
theory RunInv
  imports RunLoop
begin

text \<open>
  The invariants of a run: what the tables of results say about the outputs (\<open>results_ok\<close>), which edges are
  routed (\<open>routes_ok\<close>), in which order nodes finish (\<open>order_ok\<close>), and how the tables that drive the loop fit
  together (\<open>control_ok\<close>). Each operation of the loop keeps them, also when it raises half-way.
\<close>

section \<open>Statements\<close>

definition results_ok :: "string set \<Rightarrow> run_state \<Rightarrow> bool" where
  "results_ok pre s = (distinct (dkeys (rs_outputs s))
     \<and> (\<forall>n. dget (rs_payloads s) n = (case dget (rs_outputs s) n of None \<Rightarrow> None
          | Some out \<Rightarrow> if no_ok out \<and> \<not> (n \<in> pre \<and> is_none (no_payload out)) then Some (no_payload out) else None))
     \<and> (\<forall>n. dget (rs_failures s) n = (case dget (rs_outputs s) n of None \<Rightarrow> None
          | Some out \<Rightarrow> if no_ok out \<or> n \<in> pre then None else Some (error_or (no_error out) ''node failed''))))"

definition route_ok :: "run_env \<Rightarrow> string \<Rightarrow> node_output \<Rightarrow> string \<Rightarrow> bool" where
  "route_ok en u out v = (v \<in> set (succs (re_graph en) u)
     \<and> (if no_ok out then (case dget (dg_conditions (re_graph en)) (u, v) of None \<Rightarrow> True
          | Some c \<Rightarrow> \<exists>st. evaluate_condition ((re_cond en)\<lparr>ce_store := st\<rparr>) c (no_payload out) = Inr True)
        else (u, v) \<in> dg_optional (re_graph en)))"

definition routes_ok :: "run_env \<Rightarrow> run_state \<Rightarrow> bool" where
  "routes_ok en s = (\<forall>u v. (u, v) \<in> rs_routed s \<longrightarrow>
     (\<exists>out. dget (rs_outputs s) u = Some out \<and> route_ok en u out v))"

definition order_ok :: "run_env \<Rightarrow> string set \<Rightarrow> run_state \<Rightarrow> bool" where
  "order_ok en pre s = (\<forall>n. dhas (rs_outputs s) n \<longrightarrow> n \<in> pre \<or> all_upstreams_done en s n)"

text \<open>\<open>bs\<close>: outputs that were there at an earlier moment and must not change any more.\<close>

definition frozen_ok :: "(string \<Rightarrow> node_output option) \<Rightarrow> run_state \<Rightarrow> bool" where
  "frozen_ok bs s = (bs \<subseteq>\<^sub>m dget (rs_outputs s))"

definition core_ok :: "run_env \<Rightarrow> string set \<Rightarrow> (string \<Rightarrow> node_output option) \<Rightarrow> run_state \<Rightarrow> bool" where
  "core_ok en pre bs s = (results_ok pre s \<and> routes_ok en s \<and> order_ok en pre s \<and> frozen_ok bs s)"

text \<open>\<open>pre\<close> holds the nodes with a prefilled output, \<open>P\<close> the nodes whose tasks are finished and taken from \<open>running\<close> but not stored yet.\<close>

definition active :: "string set \<Rightarrow> run_state \<Rightarrow> string set" where
  "active P s = {n. dhas (rs_running s) n} \<union> P"

definition outs :: "run_state \<Rightarrow> string set" where
  "outs s = {n. dhas (rs_outputs s) n}"

definition control_ok :: "run_env \<Rightarrow> string set \<Rightarrow> run_state \<Rightarrow> bool" where
  "control_ok en P s = (distinct (dkeys (rs_running s)) \<and> {n. dhas (rs_running s) n} \<inter> P = {}
     \<and> active P s \<inter> outs s = {} \<and> rs_started s = active P s \<union> outs s
     \<and> (\<forall>n \<in> active P s. all_upstreams_done en s n \<and> n \<in> re_allowed en
          \<and> (accumulates (re_graph en) n \<longrightarrow> preds (re_graph en) n = []))
     \<and> distinct (dkeys (rs_acc s))
     \<and> (\<forall>n. dhas (rs_acc s) n \<longrightarrow> n \<in> re_allowed en \<and> accumulates (re_graph en) n \<and> preds (re_graph en) n \<noteq> []))"

definition run_ok :: "run_env \<Rightarrow> string set \<Rightarrow> (string \<Rightarrow> node_output option) \<Rightarrow> string set \<Rightarrow> run_state \<Rightarrow> bool" where
  "run_ok en pre bs P s = (core_ok en pre bs s \<and> control_ok en P s \<and> pre \<subseteq> outs s)"

section \<open>Operations that leave the tables alone\<close>

text \<open>Recording and the semaphores do not touch the tables these invariants speak of.\<close>

definition same_tables :: "run_state \<Rightarrow> run_state \<Rightarrow> bool" where
  "same_tables s t = (rs_outputs t = rs_outputs s \<and> rs_payloads t = rs_payloads s \<and> rs_failures t = rs_failures s
     \<and> rs_routed t = rs_routed s \<and> rs_warnings t = rs_warnings s \<and> rs_running t = rs_running s \<and> rs_acc t = rs_acc s
     \<and> rs_acc_edges t = rs_acc_edges s \<and> rs_started t = rs_started s \<and> rs_stop t = rs_stop s
     \<and> rs_store t = rs_store s \<and> rs_phase t = rs_phase s)"

interpretation tables: effect_order same_tables
  by unfold_locales (auto simp: same_tables_def)

lemma same_tables_refl [simp]: "same_tables s s"
  by (simp add: same_tables_def)

lemma tables_wp: "tables.stays m \<Longrightarrow> wp m (\<lambda>_. same_tables s) (same_tables s) s"
  by (auto simp: wp_def tables.stays_run split: prod.splits sum.splits)

lemma tables_call_back [intro]: "tables.stays (call_back f ev)"
  unfolding call_back_def by (auto split: option.splits intro!: tables.stays_eseq tables.stays_emod simp: same_tables_def)

lemma tables_record_edges [intro]: "tables.stays (record_edge_inputs en n)"
  unfolding record_edge_inputs_def by (intro tables.stays_efor tables.stays_ebind tables.stays_eget tables_call_back)

lemma tables_acquire [intro]: "tables.stays (acquire_resource i k)"
  unfolding acquire_resource_def
  by (auto split: option.splits intro!: tables.stays_ebind tables.stays_emod simp: same_tables_def)

lemma tables_acquire_start [intro]: "tables.stays (acquire_for_start en n)"
  unfolding acquire_for_start_def Let_def by (auto intro!: tables.stays_if)

lemma tables_available [intro]: "tables.stays (resource_available i)"
  unfolding resource_available_def
  by (auto split: option.splits intro!: tables.stays_ebind tables.stays_emod simp: same_tables_def)

lemma tables_semaphore_of [intro]: "tables.stays (semaphore_of en n)"
  unfolding semaphore_of_def
  by (auto split: option.splits intro!: tables.stays_ebind tables.stays_eseq tables.stays_emod simp: same_tables_def)

lemma tables_emit [intro]: "tables.stays (emit_node_events en n p)"
  unfolding emit_node_events_def emit_one_def
  by (auto split: option.splits sum.splits intro!: tables.stays_if tables.stays_ebind tables.stays_efor tables.stays_ewhen)

lemma tables_release [simp]: "same_tables s (release_resource k s)"
  by (auto simp: release_resource_def same_tables_def split: option.splits)

lemma tables_release_all [simp]: "same_tables s (release_all s)"
proof -
  have "same_tables s (fold release_resource ks s)" for ks
    by (induction ks arbitrary: s) (auto intro: tables.R_trans [OF tables_release])
  then show ?thesis by (simp add: release_all_def)
qed

lemma tables_has_startable [intro]: "tables.stays (has_startable en free)"
  unfolding has_startable_def by (intro tables.stays_eany tables.stays_ebind tables.stays_if) auto

lemma tables_has_blocked_accumulate [intro]: "tables.stays (has_blocked_accumulate en)"
  unfolding has_blocked_accumulate_def
  by (rule tables.stays_eany) (auto split: prod.splits intro!: tables.stays_ebind tables.stays_if)

lemma tables_can_continue [intro]: "tables.stays (can_continue en)"
  unfolding can_continue_def by (intro tables.stays_eor tables.stays_eget tables_has_startable tables_has_blocked_accumulate)

lemma tables_blocked_resources [intro]: "tables.stays (blocked_resources en)"
  unfolding blocked_resources_def by (intro tables.stays_ebind tables.stays_eget tables.stays_emap tables_semaphore_of)

lemma core_same: "same_tables s t \<Longrightarrow> core_ok en pre bs t = core_ok en pre bs s"
  by (simp add: same_tables_def core_ok_def results_ok_def routes_ok_def order_ok_def frozen_ok_def all_upstreams_done_def)

lemma core_upd [simp]:
  "core_ok en pre bs (s\<lparr>rs_running := x0\<rparr>) = core_ok en pre bs s"
  "core_ok en pre bs (s\<lparr>rs_started := x1\<rparr>) = core_ok en pre bs s"
  "core_ok en pre bs (s\<lparr>rs_acc := x2\<rparr>) = core_ok en pre bs s"
  "core_ok en pre bs (s\<lparr>rs_acc_edges := x3\<rparr>) = core_ok en pre bs s"
  "core_ok en pre bs (s\<lparr>rs_sems := x4\<rparr>) = core_ok en pre bs s"
  "core_ok en pre bs (s\<lparr>rs_acquired := x5\<rparr>) = core_ok en pre bs s"
  "core_ok en pre bs (s\<lparr>rs_log := x6\<rparr>) = core_ok en pre bs s"
  "core_ok en pre bs (s\<lparr>rs_stop := x7\<rparr>) = core_ok en pre bs s"
  "core_ok en pre bs (s\<lparr>rs_store := x8\<rparr>) = core_ok en pre bs s"
  "core_ok en pre bs (s\<lparr>rs_phase := x9\<rparr>) = core_ok en pre bs s"
  "core_ok en pre bs (s\<lparr>rs_warnings := x10\<rparr>) = core_ok en pre bs s"
  by (simp_all add: core_ok_def results_ok_def routes_ok_def order_ok_def frozen_ok_def all_upstreams_done_def)

lemma upstreams_upd [simp]:
  "all_upstreams_done en (s\<lparr>rs_running := x0\<rparr>) n = all_upstreams_done en s n"
  "all_upstreams_done en (s\<lparr>rs_started := x1\<rparr>) n = all_upstreams_done en s n"
  "all_upstreams_done en (s\<lparr>rs_acc := x2\<rparr>) n = all_upstreams_done en s n"
  "all_upstreams_done en (s\<lparr>rs_acc_edges := x3\<rparr>) n = all_upstreams_done en s n"
  "all_upstreams_done en (s\<lparr>rs_sems := x4\<rparr>) n = all_upstreams_done en s n"
  "all_upstreams_done en (s\<lparr>rs_acquired := x5\<rparr>) n = all_upstreams_done en s n"
  "all_upstreams_done en (s\<lparr>rs_log := x6\<rparr>) n = all_upstreams_done en s n"
  "all_upstreams_done en (s\<lparr>rs_stop := x7\<rparr>) n = all_upstreams_done en s n"
  "all_upstreams_done en (s\<lparr>rs_store := x8\<rparr>) n = all_upstreams_done en s n"
  "all_upstreams_done en (s\<lparr>rs_phase := x9\<rparr>) n = all_upstreams_done en s n"
  "all_upstreams_done en (s\<lparr>rs_warnings := x10\<rparr>) n = all_upstreams_done en s n"
  by (simp_all add: all_upstreams_done_def)

lemma outs_upd [simp]:
  "outs (s\<lparr>rs_running := x0\<rparr>) = outs s"
  "outs (s\<lparr>rs_started := x1\<rparr>) = outs s"
  "outs (s\<lparr>rs_acc := x2\<rparr>) = outs s"
  "outs (s\<lparr>rs_acc_edges := x3\<rparr>) = outs s"
  "outs (s\<lparr>rs_sems := x4\<rparr>) = outs s"
  "outs (s\<lparr>rs_acquired := x5\<rparr>) = outs s"
  "outs (s\<lparr>rs_log := x6\<rparr>) = outs s"
  "outs (s\<lparr>rs_stop := x7\<rparr>) = outs s"
  "outs (s\<lparr>rs_store := x8\<rparr>) = outs s"
  "outs (s\<lparr>rs_phase := x9\<rparr>) = outs s"
  "outs (s\<lparr>rs_warnings := x10\<rparr>) = outs s"
  by (simp_all add: outs_def)

lemma run_same: "same_tables s t \<Longrightarrow> run_ok en pre bs P t = run_ok en pre bs P s"
  by (simp add: run_ok_def core_same) (simp add: same_tables_def control_ok_def active_def outs_def all_upstreams_done_def)

lemma ready_same:
  assumes "rs_outputs t = rs_outputs s" "rs_routed t = rs_routed s"
  shows "ready en t n = ready en s n" "blocking_required_failures en t n = blocking_required_failures en s n"
    "blocked_by_required_failure en t n = blocked_by_required_failure en s n"
proof -
  have sk: "source_failure_can_be_skipped en t = source_failure_can_be_skipped en s"
    by (intro ext) (simp add: source_failure_can_be_skipped_def assms cong: option.case_cong)
  then have "upstream_passes en t = upstream_passes en s"
    by (intro ext) (simp add: upstream_passes_def assms cong: option.case_cong)
  then show "ready en t n = ready en s n"
    by (simp add: ready_def all_upstreams_done_def assms)
  show b: "blocking_required_failures en t n = blocking_required_failures en s n"
    by (simp add: blocking_required_failures_def assms sk cong: option.case_cong)
  show "blocked_by_required_failure en t n = blocked_by_required_failure en s n"
    by (simp add: blocked_by_required_failure_def b all_upstreams_done_def assms)
qed

section \<open>Storing a result\<close>

text \<open>What \<open>store_result\<close> does to the tables, whether it returns or a condition raises.\<close>

definition stored :: "run_env \<Rightarrow> string \<Rightarrow> node_output \<Rightarrow> run_state \<Rightarrow> run_state \<Rightarrow> bool" where
  "stored en n out s t = (\<exists>es. rs_outputs t = dset (rs_outputs s) n out
     \<and> rs_payloads t = (if no_ok out then dset (rs_payloads s) n (no_payload out) else rs_payloads s)
     \<and> rs_failures t = (if no_ok out then rs_failures s
          else dset (rs_failures s) n (error_or (no_error out) ''node failed''))
     \<and> rs_routed t = rs_routed s \<union> Pair n ` es \<and> (\<forall>v \<in> es. route_ok en n out v)
     \<and> rs_running t = rs_running s \<and> rs_acc t = rs_acc s \<and> rs_acc_edges t = rs_acc_edges s
     \<and> rs_started t = rs_started s \<and> rs_stop t = rs_stop s \<and> rs_store t = rs_store s \<and> rs_phase t = rs_phase s)"

lemma route_targets_ok:
  "route_targets ((re_cond en)\<lparr>ce_store := st\<rparr>) (re_graph en) n (no_payload out) ds = Inr r \<Longrightarrow> no_ok out \<Longrightarrow>
     set ds \<subseteq> set (succs (re_graph en) n) \<Longrightarrow> \<exists>es. set (fst r) = Pair n ` es \<and> (\<forall>v \<in> es. route_ok en n out v)"
proof (induction ds arbitrary: r)
  case Nil
  then show ?case by auto
next
  case (Cons d ds)
  have step: "\<exists>es. insert (n, d) (set (fst q)) = Pair n ` es \<and> (\<forall>v \<in> es. route_ok en n out v)"
    if "\<exists>es. set (fst q) = Pair n ` es \<and> (\<forall>v \<in> es. route_ok en n out v)" "route_ok en n out d" for q :: "edge list \<times> nat"
    using that by (metis image_insert insert_iff)
  show ?case
  proof (cases "dget (dg_conditions (re_graph en)) (n, d)")
    case None
    then have "route_ok en n out d" using Cons.prems by (simp add: route_ok_def)
    with None Cons step show ?thesis by auto
  next
    case (Some c)
    with Cons.prems obtain b q where q: "evaluate_condition ((re_cond en)\<lparr>ce_store := st\<rparr>) c (no_payload out) = Inr b"
      "route_targets ((re_cond en)\<lparr>ce_store := st\<rparr>) (re_graph en) n (no_payload out) ds = Inr q"
      "r = (if b then (n, d) # fst q else fst q, Suc (snd q))" by auto
    have IH: "\<exists>es. set (fst q) = Pair n ` es \<and> (\<forall>v \<in> es. route_ok en n out v)"
      using Cons.IH [OF q(2)] Cons.prems by auto
    have "route_ok en n out d" if b using Some Cons.prems q(1) that by (auto simp: route_ok_def)
    then show ?thesis using IH step q(3) by (cases b) auto
  qed
qed

lemma wp_routed_edges:
  assumes "no_ok out"
  shows "wp (routed_edges en n (no_payload out)) (\<lambda>es t. (\<exists>vs. set es = Pair n ` vs \<and> (\<forall>v \<in> vs. route_ok en n out v))
      \<and> (\<exists>w. t = s\<lparr>rs_warnings := w\<rparr>)) (\<lambda>t. t = s) s"
proof (cases "route_targets (cond_now en s) (re_graph en) n (no_payload out) (succs (re_graph en) n)")
  case (Inl e)
  then show ?thesis by (simp add: routed_edges_def wp_simps)
next
  case (Inr r)
  then have "\<exists>es. set (fst r) = Pair n ` es \<and> (\<forall>v \<in> es. route_ok en n out v)"
    using route_targets_ok [OF _ assms order_refl] by (simp add: cond_now_def)
  moreover have "\<exists>w. s = s\<lparr>rs_warnings := w\<rparr>" by (rule exI [of _ "rs_warnings s"]) simp
  ultimately show ?thesis by (auto simp: routed_edges_def wp_simps Inr)
qed

lemma release_fields [simp]:
  "rs_outputs (release_resource k s) = rs_outputs s" "rs_payloads (release_resource k s) = rs_payloads s"
  "rs_failures (release_resource k s) = rs_failures s" "rs_routed (release_resource k s) = rs_routed s"
  "rs_running (release_resource k s) = rs_running s" "rs_acc (release_resource k s) = rs_acc s"
  "rs_acc_edges (release_resource k s) = rs_acc_edges s" "rs_started (release_resource k s) = rs_started s"
  "rs_stop (release_resource k s) = rs_stop s" "rs_store (release_resource k s) = rs_store s"
  "rs_phase (release_resource k s) = rs_phase s" "rs_warnings (release_resource k s) = rs_warnings s"
  "rs_log (release_resource k s) = rs_log s"
  by (auto simp: release_resource_def split: option.splits)

lemma wp_store_result: "wp (store_result en n out) (\<lambda>_. stored en n out s) (stored en n out s) s"
proof (cases "no_ok out")
  case True
  show ?thesis
    unfolding store_result_def wp_simps if_P [OF True]
  proof (rule wp_conseq [OF wp_routed_edges [OF True]])
    fix es t
    assume "(\<exists>vs. set es = Pair n ` vs \<and> (\<forall>v \<in> vs. route_ok en n out v)) \<and>
      (\<exists>w. t = release_resource n s\<lparr>rs_outputs := dset (rs_outputs (release_resource n s)) n out,
          rs_payloads := dset (rs_payloads (release_resource n s\<lparr>rs_outputs := dset (rs_outputs (release_resource n s)) n out\<rparr>)) n
            (no_payload out), rs_warnings := w\<rparr>)"
    then show "wp (add_routed (set es)) (\<lambda>_. stored en n out s) (stored en n out s) t"
      using True by (fastforce simp: add_routed_def wp_simps stored_def)
  qed (auto simp: stored_def True intro!: exI [of _ "{}"])
next
  case False
  have "(\<lambda>d. (n, d)) ` set (succs (re_graph en) n) \<inter> dg_optional (re_graph en)
      = Pair n ` {d \<in> set (succs (re_graph en) n). (n, d) \<in> dg_optional (re_graph en)}" by auto
  then show ?thesis using False
    by (auto simp: store_result_def add_routed_def wp_simps stored_def route_ok_def
        intro!: exI [of _ "{d \<in> set (succs (re_graph en) n). (n, d) \<in> dg_optional (re_graph en)}"])
qed

lemma stored_upstreams: "stored en n out s t \<Longrightarrow> all_upstreams_done en s m \<Longrightarrow> all_upstreams_done en t m"
  by (auto simp: stored_def all_upstreams_done_def list_all_iff)

lemma stored_core:
  assumes st: "stored en n out s t" and core: "core_ok en pre bs s"
    and n: "\<not> dhas (rs_outputs s) n" "all_upstreams_done en s n" "n \<notin> pre"
  shows "core_ok en pre bs t"
proof -
  obtain es where t: "rs_outputs t = dset (rs_outputs s) n out"
    "rs_payloads t = (if no_ok out then dset (rs_payloads s) n (no_payload out) else rs_payloads s)"
    "rs_failures t = (if no_ok out then rs_failures s else dset (rs_failures s) n (error_or (no_error out) ''node failed''))"
    "rs_routed t = rs_routed s \<union> Pair n ` es" "\<forall>v \<in> es. route_ok en n out v"
    using st by (auto simp: stored_def)
  have none: "dget (rs_outputs s) n = None" using n(1) by (simp add: dhas_def)
  have "results_ok pre t" using core none n(3) by (auto simp: core_ok_def results_ok_def t simp del: set_map)
  moreover have "routes_ok en t"
    unfolding routes_ok_def
  proof (intro allI impI)
    fix u v
    assume "(u, v) \<in> rs_routed t"
    then consider "(u, v) \<in> rs_routed s" | "u = n" "v \<in> es" using t(4) by auto
    then show "\<exists>out. dget (rs_outputs t) u = Some out \<and> route_ok en u out v"
    proof cases
      case 1
      then obtain o' where o': "dget (rs_outputs s) u = Some o'" "route_ok en u o' v"
        using core by (auto simp: core_ok_def routes_ok_def)
      then show ?thesis using none by (auto simp: t(1))
    next
      case 2
      then show ?thesis using t(5) by (auto simp: t(1))
    qed
  qed
  moreover have "order_ok en pre t"
    using core stored_upstreams [OF st] n(2) by (auto simp: core_ok_def order_ok_def t(1))
  moreover have "frozen_ok bs t"
    using core none by (auto simp: core_ok_def frozen_ok_def t(1) map_le_def dom_def)
  ultimately show ?thesis by (simp add: core_ok_def)
qed

section \<open>The control tables\<close>

lemma run_okD:
  assumes "run_ok en pre bs P s"
  shows "core_ok en pre bs s" "control_ok en P s" "pre \<subseteq> outs s"
  using assms by (auto simp: run_ok_def)

lemma control_not_started:
  assumes "control_ok en P s" "n \<notin> rs_started s"
  shows "n \<notin> P" "\<not> dhas (rs_running s) n" "\<not> dhas (rs_outputs s) n"
  using assms by (auto simp: control_ok_def active_def outs_def)

lemma stored_outs: "stored en n out s t \<Longrightarrow> outs t = insert n (outs s)"
  by (auto simp: stored_def outs_def)

lemma stored_active: "stored en n out s t \<Longrightarrow> active P t = active P s"
  by (auto simp: stored_def active_def)

lemma stored_event:
  assumes st: "stored en n out s t" and ok: "run_ok en pre bs (insert n P) s" and n: "n \<notin> P"
  shows "run_ok en pre bs P t"
proof -
  note c = run_okD [OF ok]
  have a: "n \<in> active (insert n P) s" "\<not> dhas (rs_running s) n" using c(2) by (auto simp: active_def control_ok_def)
  then have no: "\<not> dhas (rs_outputs s) n" "all_upstreams_done en s n" using c(2) by (auto simp: control_ok_def outs_def)
  then have "n \<notin> pre" using c(3) by (auto simp: outs_def)
  with stored_core [OF st c(1) no] have "core_ok en pre bs t" by simp
  moreover have "control_ok en P t"
  proof -
    have ac: "active (insert n P) s = insert n (active P s)" "n \<notin> active P s" using n a(2) by (auto simp: active_def)
    have f: "rs_running t = rs_running s" "rs_started t = rs_started s" "rs_acc t = rs_acc s"
      using st by (auto simp: stored_def)
    show ?thesis
      using c(2) stored_upstreams [OF st] ac
      unfolding control_ok_def stored_outs [OF st] stored_active [OF st] f by auto
  qed
  ultimately show ?thesis using c(3) stored_outs [OF st] by (auto simp: run_ok_def)
qed

lemma stored_new:
  assumes st: "stored en n out s t" and ok: "run_ok en pre bs P s"
    and n: "n \<notin> rs_started s" "all_upstreams_done en s n"
  shows "core_ok en pre bs t" "run_ok en pre bs P (t\<lparr>rs_started := insert n (rs_started t)\<rparr>)"
proof -
  note c = run_okD [OF ok] and ns = control_not_started [OF run_okD(2) [OF ok] n(1)]
  have "n \<notin> pre" using c(3) ns(3) by (auto simp: outs_def)
  with stored_core [OF st c(1) ns(3) n(2)] show core: "core_ok en pre bs t" by simp
  let ?t = "t\<lparr>rs_started := insert n (rs_started t)\<rparr>"
  have f: "rs_running ?t = rs_running s" "rs_started ?t = insert n (rs_started s)" "rs_acc ?t = rs_acc s"
    "outs ?t = insert n (outs s)" "active P ?t = active P s"
    using st by (auto simp: stored_def outs_def active_def)
  have up: "all_upstreams_done en ?t m" if "all_upstreams_done en s m" for m
    using stored_upstreams [OF st that] by (simp add: all_upstreams_done_def)
  have na: "n \<notin> active P s" using ns by (auto simp: active_def)
  have "control_ok en P ?t" using c(2) up na unfolding control_ok_def f by auto
  moreover have "core_ok en pre bs ?t" using core by simp
  ultimately show "run_ok en pre bs P ?t" using c(3) f(4) by (auto simp: run_ok_def)
qed

lemma started_new:
  assumes ok: "run_ok en pre bs P s" and n: "n \<notin> rs_started s" "n \<in> re_allowed en" "all_upstreams_done en s n"
    "accumulates (re_graph en) n \<longrightarrow> preds (re_graph en) n = []"
  shows "wp (eseq (start_node en n) (mark_started n)) (\<lambda>_. run_ok en pre bs P) E s"
proof -
  note c = run_okD [OF ok] and ns = control_not_started [OF run_okD(2) [OF ok] n(1)]
  have up: "all_upstreams_done en (s\<lparr>rs_running := r, rs_started := st\<rparr>) m = all_upstreams_done en s m" for r st m
    by (simp add: all_upstreams_done_def)
  have "control_ok en P (s\<lparr>rs_running := dset (rs_running s) n tk, rs_started := insert n (rs_started s)\<rparr>)" for tk
    using c(2) ns n unfolding control_ok_def up by (auto simp: active_def outs_def)
  then show ?thesis using c
    by (simp add: start_node_def mark_started_def wp_simps run_ok_def)
qed

section \<open>Every operation of the loop keeps the invariants\<close>

text \<open>From a computation that leaves the tables alone to what follows it.\<close>

lemma wp_tables:
  assumes "tables.stays m" "run_ok en pre bs P s"
    "\<And>a t. same_tables s t \<Longrightarrow> run_ok en pre bs P t \<Longrightarrow> Q a t"
  shows "wp m Q (core_ok en pre bs) s"
  by (rule wp_conseq [OF tables_wp [OF assms(1)]])
    (use assms(2,3) run_okD(1) [OF assms(2)] in \<open>simp_all add: run_same core_same\<close>)

lemma wp_fail_upstream:
  assumes "run_ok en pre bs P s" "n \<notin> rs_started s" "all_upstreams_done en s n"
  shows "wp (fail_upstream en n) (\<lambda>_. run_ok en pre bs P) (core_ok en pre bs) s"
  unfolding fail_upstream_def wp_simps
proof (rule wp_tables [OF tables_record_edges assms(1)], rule wp_tables [OF tables_call_back])
  fix t u assume t: "same_tables s t" "run_ok en pre bs P t" "same_tables t u" "run_ok en pre bs P u"
  have u: "n \<notin> rs_started u" "all_upstreams_done en u n"
    using t assms by (auto simp: same_tables_def all_upstreams_done_def)
  show "wp (store_result en n out) (\<lambda>_. wp (mark_started n) (\<lambda>_. run_ok en pre bs P) (core_ok en pre bs)) (core_ok en pre bs) u" for out
    by (rule wp_conseq [OF wp_store_result])
      (use stored_new [OF _ t(4) u] in \<open>auto simp: mark_started_def wp_simps\<close>)
qed

lemma wp_start_one:
  assumes ok: "run_ok en pre bs P s"
  shows "wp (start_one en n) (\<lambda>_. run_ok en pre bs P) (core_ok en pre bs) s"
proof -
  have start: "wp (acquire_for_start en n) (\<lambda>ok. wp (if \<not> ok then eret ()
       else eseq (record_edge_inputs en n) (eseq (start_node en n) (mark_started n))) (\<lambda>_. run_ok en pre bs P) (core_ok en pre bs))
       (core_ok en pre bs) s"
    if g: "n \<notin> rs_started s" "n \<in> re_allowed en" "\<not> accumulates (re_graph en) n" "ready en s n"
  proof (rule wp_tables [OF tables_acquire_start ok])
    fix b t assume t: "same_tables s t" "run_ok en pre bs P t"
    show "wp (if \<not> b then eret () else eseq (record_edge_inputs en n) (eseq (start_node en n) (mark_started n)))
        (\<lambda>_. run_ok en pre bs P) (core_ok en pre bs) t"
    proof (cases b)
      case True
      have "wp (eseq (record_edge_inputs en n) (eseq (start_node en n) (mark_started n))) (\<lambda>_. run_ok en pre bs P) (core_ok en pre bs) t"
        unfolding wp_eseq [of "record_edge_inputs en n"]
      proof (rule wp_tables [OF tables_record_edges t(2)])
        fix u assume u: "same_tables t u" "run_ok en pre bs P u"
        have "n \<notin> rs_started u" "all_upstreams_done en u n"
          using g t u by (auto simp: same_tables_def all_upstreams_done_def ready_def)
        then show "wp (eseq (start_node en n) (mark_started n)) (\<lambda>_. run_ok en pre bs P) (core_ok en pre bs) u"
          using g by (intro started_new [OF u(2)]) auto
      qed
      then show ?thesis using True by simp
    qed (simp add: wp_simps t)
  qed
  show ?thesis
    using ok start wp_fail_upstream [OF ok, of n]
    by (auto simp: start_one_def wp_simps blocked_by_required_failure_def)
qed

lemma wp_start_ready:
  assumes "run_ok en pre bs P s"
  shows "wp (start_ready_nodes en) (\<lambda>_. run_ok en pre bs P) (core_ok en pre bs) s"
  using assms by (auto simp: start_ready_nodes_def wp_simps intro!: wp_efor wp_start_one)

lemma run_ok_acc:
  assumes "run_ok en pre bs P s" "distinct (dkeys a)"
    "\<And>n. dhas a n \<Longrightarrow> n \<in> re_allowed en \<and> accumulates (re_graph en) n \<and> preds (re_graph en) n \<noteq> []"
  shows "run_ok en pre bs P (s\<lparr>rs_acc_edges := es, rs_acc := a\<rparr>)"
  using assms by (simp add: run_ok_def control_ok_def active_def)

lemma wp_complete_one:
  assumes ok: "run_ok en pre bs P s"
  shows "wp (complete_one en n) (\<lambda>_. run_ok en pre bs P) (core_ok en pre bs) s"
proof -
  note c = run_okD [OF ok]
  have pop: "run_ok en pre bs P (s\<lparr>rs_acc := dpop (rs_acc s) n\<rparr>)"
    using run_ok_acc [OF ok, of "dpop (rs_acc s) n" "rs_acc_edges s"] c(2) by (auto simp: control_ok_def)
  have main: "wp (elift (gather_results (acc_of s n))) (\<lambda>outs. wp (eseq (store_result en n (merge_stream_results n outs))
        (eseq (mark_started n) (eret True))) (\<lambda>_. run_ok en pre bs P) (core_ok en pre bs)) (core_ok en pre bs) (s\<lparr>rs_acc := dpop (rs_acc s) n\<rparr>)"
    if g: "\<not> dhas (rs_outputs s) n" "all_upstreams_done en s n" "acc_of s n \<noteq> []"
  proof -
    have "dhas (rs_acc s) n" using g(3) by (auto simp: acc_of_def dget_default_def dhas_def split: option.splits)
    then have "accumulates (re_graph en) n" "preds (re_graph en) n \<noteq> []" using c(2) by (auto simp: control_ok_def)
    then have "n \<notin> active P s" using c(2) by (auto simp: control_ok_def)
    then have ns: "n \<notin> rs_started s" using c(2) g(1) by (auto simp: control_ok_def outs_def)
    have "wp (store_result en n out) (\<lambda>_. wp (eseq (mark_started n) (eret True)) (\<lambda>_. run_ok en pre bs P) (core_ok en pre bs))
        (core_ok en pre bs) (s\<lparr>rs_acc := dpop (rs_acc s) n\<rparr>)" for out
      by (rule wp_conseq [OF wp_store_result])
        (use stored_new [OF _ pop, of n] ns g(2) in \<open>auto simp: mark_started_def wp_simps all_upstreams_done_def\<close>)
    then show ?thesis using pop by (auto simp: wp_simps run_ok_def split: sum.splits)
  qed
  show ?thesis
    using ok pop main by (auto simp: complete_one_def pop_acc_def wp_simps)
qed

lemma wp_complete_accumulate:
  assumes "run_ok en pre bs P s"
  shows "wp (complete_accumulate_tasks en) (\<lambda>_. run_ok en pre bs P) (core_ok en pre bs) s"
  using assms by (auto simp: complete_accumulate_tasks_def wp_simps intro!: wp_emap wp_complete_one)

lemma wp_accumulate_node:
  assumes ok: "run_ok en pre bs P s"
  shows "wp (accumulate_node en d) (\<lambda>_. run_ok en pre bs P) (core_ok en pre bs) s"
proof -
  have edge: "wp (accumulate_edge en d u) (\<lambda>_. run_ok en pre bs P) (core_ok en pre bs) t"
    if g: "d \<in> re_allowed en" "accumulates (re_graph en) d" "u \<in> set (preds (re_graph en) d)" and t: "run_ok en pre bs P t" for u t
  proof -
    have add: "run_ok en pre bs P (v\<lparr>rs_acc_edges := es, rs_acc := dset (rs_acc v) d ts\<rparr>)" if v: "run_ok en pre bs P v" for v ts es
      by (rule run_ok_acc [OF v]) (use run_okD(2) [OF v] g in \<open>auto simp: control_ok_def\<close>)
    have "wp (acquire_resource i k) (\<lambda>b. wp (if b then add_acc_task d u else eret ()) (\<lambda>_. run_ok en pre bs P) (core_ok en pre bs))
        (core_ok en pre bs) t" for i k
      by (rule wp_tables [OF tables_acquire t]) (auto simp: wp_simps add_acc_task_def intro: add)
    then show ?thesis using t by (auto simp: accumulate_edge_def wp_simps)
  qed
  show ?thesis
    using ok by (auto simp: accumulate_node_def wp_simps intro!: wp_efor edge)
qed

lemma wp_run_accumulate:
  assumes "run_ok en pre bs P s"
  shows "wp (run_accumulate_downstreams en) (\<lambda>_. run_ok en pre bs P) (core_ok en pre bs) s"
proof -
  have "wp (efor (accumulate_node en) ns) (\<lambda>_. wp (complete_accumulate_tasks en) (\<lambda>_. run_ok en pre bs P) (core_ok en pre bs))
      (core_ok en pre bs) s" for ns
    by (rule wp_conseq [OF wp_efor [OF assms wp_accumulate_node]]) (auto intro: wp_complete_accumulate)
  then show ?thesis using assms by (auto simp: run_accumulate_downstreams_def wp_simps)
qed

lemma frozen_dom: "core_ok en pre bs s \<Longrightarrow> dom bs \<subseteq> outs s"
  by (auto simp: core_ok_def frozen_ok_def map_le_def outs_def dhas_def) (metis domI option.distinct(1))

lemma core_weaken: "core_ok en pre bs' s \<Longrightarrow> bs \<subseteq>\<^sub>m bs' \<Longrightarrow> core_ok en pre bs s"
  by (auto simp: core_ok_def frozen_ok_def intro: map_le_trans)

lemma run_weaken: "run_ok en pre bs' P s \<Longrightarrow> bs \<subseteq>\<^sub>m bs' \<Longrightarrow> run_ok en pre bs P s"
  by (auto simp: run_ok_def intro: core_weaken)

lemma run_strengthen:
  assumes "run_ok en pre bs P s" "dget (rs_outputs s) n = Some out"
  shows "run_ok en pre (bs(n \<mapsto> out)) P s"
  using assms by (auto simp: run_ok_def core_ok_def frozen_ok_def map_le_def)

lemma wp_handle_done:
  assumes "run_ok en pre bs (insert (fst ev) P) s" "fst ev \<notin> P"
  shows "wp (handle_done en ev) (\<lambda>_. run_ok en pre (bs(fst ev \<mapsto> snd ev)) P) (core_ok en pre bs) s"
proof -
  let ?bs = "bs(fst ev \<mapsto> snd ev)"
  have ready: "wp (start_ready_nodes en) (\<lambda>_. run_ok en pre ?bs P) (core_ok en pre ?bs) t" if "run_ok en pre ?bs P t" for t
    by (rule wp_start_ready [OF that])
  have acc: "wp (emit_node_events en n p) (\<lambda>_. wp (run_accumulate_downstreams en)
      (\<lambda>_. wp (start_ready_nodes en) (\<lambda>_. run_ok en pre ?bs P) (core_ok en pre ?bs)) (core_ok en pre ?bs)) (core_ok en pre ?bs) t"
    if t: "run_ok en pre ?bs P t" for n p t
  proof (rule wp_tables [OF tables_emit t])
    fix u assume "run_ok en pre ?bs P u"
    from wp_run_accumulate [OF this] show "wp (run_accumulate_downstreams en)
      (\<lambda>_. wp (start_ready_nodes en) (\<lambda>_. run_ok en pre ?bs P) (core_ok en pre ?bs)) (core_ok en pre ?bs) u"
      by (rule wp_conseq) (auto intro: ready)
  qed
  note c = run_okD [OF assms(1)]
  have no: "\<not> dhas (rs_outputs s) (fst ev)" "all_upstreams_done en s (fst ev)" "fst ev \<notin> pre"
    using c by (auto simp: control_ok_def active_def outs_def)
  have le: "bs \<subseteq>\<^sub>m ?bs" using no(1) frozen_dom [OF c(1)] by (auto simp: map_le_def outs_def)
  have new: "run_ok en pre ?bs P t" if t: "stored en (fst ev) (snd ev) s t" for t
  proof (rule run_strengthen [OF stored_event [OF t assms]])
    show "dget (rs_outputs t) (fst ev) = Some (snd ev)" using t by (auto simp: stored_def)
  qed
  have "wp (handle_done en ev) (\<lambda>_. run_ok en pre ?bs P) (core_ok en pre ?bs) s"
    unfolding handle_done_def wp_simps
    by (intro wp_conseq [OF wp_store_result]) (auto intro: ready acc new dest: new run_okD(1))
  then show ?thesis by (rule wp_conseq) (auto intro: core_weaken [OF _ le])
qed

lemma wp_take_results:
  assumes "run_ok en pre bs P s" "distinct ds" "\<forall>n \<in> set ds. dhas (rs_running s) n" "\<forall>n \<in> set ds. n \<notin> P"
  shows "wp (emap take_result ds) (\<lambda>evs t. map fst evs = ds \<and> run_ok en pre bs (P \<union> set ds) t) (core_ok en pre bs) s"
  using assms
proof (induction ds arbitrary: s P)
  case (Cons n ds)
  note c = run_okD [OF Cons.prems(1)]
  obtain tk where tk: "dget (rs_running s) n = Some tk" using Cons.prems(3) by (auto elim: dhasE)
  let ?s = "s\<lparr>rs_running := dpop (rs_running s) n\<rparr>"
  have act: "active (insert n P) ?s = active P s" using tk by (auto simp: active_def dhas_def)
  have "control_ok en (insert n P) ?s"
    using c(2) unfolding control_ok_def act by auto
  then have ok: "run_ok en pre bs (insert n P) ?s" using c by (simp add: run_ok_def)
  have "wp (emap take_result ds) (\<lambda>evs t. map fst evs = ds \<and> run_ok en pre bs (insert n P \<union> set ds) t) (core_ok en pre bs) ?s"
    by (rule Cons.IH [OF ok]) (use Cons.prems in auto)
  then have "wp (emap take_result ds) (\<lambda>evs t. map fst ((n, out) # evs) = n # ds \<and> run_ok en pre bs (P \<union> set (n # ds)) t)
      (core_ok en pre bs) ?s" for out :: node_output
    by (rule wp_conseq) auto
  moreover have "wp (take_result n) Q (core_ok en pre bs) s" if "\<And>out. Q (n, out) ?s" for Q
    using that c(1) by (auto simp: take_result_def wp_simps tk split: sum.splits option.splits)
  ultimately show ?case by (simp add: wp_simps)
qed (simp add: wp_simps)

lemma wp_handle_events:
  assumes "distinct (map fst evs)" "run_ok en pre bs (fst ` set evs) s"
  shows "wp (efor (handle_done en) evs) (\<lambda>_ t. run_ok en pre bs {} t \<and> fst ` set evs \<subseteq> outs t) (core_ok en pre bs) s"
proof -
  let ?I = "\<lambda>(ys :: (string \<times> node_output) list) t. distinct (map fst ys) \<and> (\<exists>bs'. bs \<subseteq>\<^sub>m bs' \<and> fst ` set evs - fst ` set ys \<subseteq> dom bs'
    \<and> run_ok en pre bs' (fst ` set ys) t)"
  have "wp (efor (handle_done en) evs) (\<lambda>_. ?I []) (core_ok en pre bs) s"
  proof (rule wp_efor_rest [where I = ?I])
    show "?I evs s" using assms by (intro conjI exI [of _ bs]) auto
    fix ev ys t assume "?I (ev # ys) t"
    then obtain bs' where bs': "bs \<subseteq>\<^sub>m bs'" "fst ` set evs - fst ` set (ev # ys) \<subseteq> dom bs'"
      "run_ok en pre bs' (insert (fst ev) (fst ` set ys)) t" "fst ev \<notin> fst ` set ys" "distinct (map fst ys)" by auto
    have "fst ev \<notin> dom bs'"
      using run_okD(2) [OF bs'(3)] frozen_dom [OF run_okD(1) [OF bs'(3)]] by (auto simp: control_ok_def active_def)
    then have le: "bs \<subseteq>\<^sub>m bs'(fst ev \<mapsto> snd ev)" using bs'(1) by (auto simp: map_le_def dom_def)
    show "wp (handle_done en ev) (\<lambda>_. ?I ys) (core_ok en pre bs) t"
    proof (rule wp_conseq [OF wp_handle_done [OF bs'(3,4)]])
      fix u assume "run_ok en pre (bs'(fst ev \<mapsto> snd ev)) (fst ` set ys) u"
      then show "?I ys u" using le bs'(2,5) by (intro conjI exI [of _ "bs'(fst ev \<mapsto> snd ev)"]) auto
    qed (rule core_weaken [OF _ bs'(1)])
  qed
  then show ?thesis
  proof (rule wp_conseq)
    fix t assume "?I [] t"
    then obtain bs' where "bs \<subseteq>\<^sub>m bs'" "fst ` set evs \<subseteq> dom bs'" "run_ok en pre bs' {} t" by auto
    moreover from this have "dom bs' \<subseteq> outs t" by (blast dest: frozen_dom run_okD(1))
    ultimately show "run_ok en pre bs {} t \<and> fst ` set evs \<subseteq> outs t" by (auto intro: run_weaken)
  qed auto
qed

lemma wp_start_ready_outs:
  assumes "run_ok en pre bs P s" "X \<subseteq> outs s"
  shows "wp (start_ready_nodes en) (\<lambda>_ t. run_ok en pre bs P t \<and> X \<subseteq> outs t) (core_ok en pre bs) s"
proof -
  have le: "bs \<subseteq>\<^sub>m dget (rs_outputs s)" using run_okD(1) [OF assms(1)] by (simp add: core_ok_def frozen_ok_def)
  have "run_ok en pre (dget (rs_outputs s)) P s" using assms(1) by (simp add: run_ok_def core_ok_def frozen_ok_def)
  from wp_start_ready [OF this] show ?thesis
  proof (rule wp_conseq)
    fix t assume t: "run_ok en pre (dget (rs_outputs s)) P t"
    then have "outs s \<subseteq> outs t" using frozen_dom [OF run_okD(1) [OF t]] by (auto simp: outs_def dhas_def dom_def)
    then show "run_ok en pre bs P t \<and> X \<subseteq> outs t" using assms(2) run_weaken [OF t le] by auto
  qed (auto intro: core_weaken [OF _ le])
qed

lemma wp_loop_turn:
  assumes ok: "run_ok en pre bs {} s" and ds: "distinct ds" "\<forall>n \<in> set ds. dhas (rs_running s) n"
  shows "wp (loop_turn en ds) (\<lambda>_ t. run_ok en pre bs {} t \<and> set ds \<subseteq> outs t) (core_ok en pre bs) s"
proof -
  let ?Q = "\<lambda>_ t. run_ok en pre bs {} t \<and> set ds \<subseteq> outs t"
  have final: "wp (eseq (ewhen x (start_ready_nodes en)) (eret AtHead)) ?Q (core_ok en pre bs) t"
    if "run_ok en pre bs {} t" "set ds \<subseteq> outs t" for x t
    using that wp_start_ready_outs by (auto simp: wp_simps)
  have rest: "wp (complete_accumulate_tasks en) (\<lambda>c. wp (eseq (efor (handle_done en) evs)
      (eseq (ewhen (c \<or> list_ex (\<lambda>ev. no_ok (snd ev)) evs) (start_ready_nodes en)) (eret AtHead))) ?Q (core_ok en pre bs))
      (core_ok en pre bs) t" if "map fst evs = ds" "run_ok en pre bs (fst ` set evs) t" for evs t
  proof (rule wp_conseq [OF wp_complete_accumulate [OF that(2)]])
    fix c u assume u: "run_ok en pre bs (fst ` set evs) u"
    have e: "distinct (map fst evs)" "fst ` set evs = set ds" using that(1) ds(1) by (auto simp flip: set_map)
    show "wp (eseq (efor (handle_done en) evs)
      (eseq (ewhen (c \<or> list_ex (\<lambda>ev. no_ok (snd ev)) evs) (start_ready_nodes en)) (eret AtHead))) ?Q (core_ok en pre bs) u"
      unfolding wp_eseq [of "efor (handle_done en) evs"]
      by (rule wp_conseq [OF wp_handle_events [OF e(1) u]]) (auto simp: e(2) intro: final)
  qed auto
  show ?thesis
    unfolding loop_turn_def wp_ebind
  proof (rule wp_conseq [OF wp_take_results [OF ok ds]])
    fix evs :: "(string \<times> node_output) list" and t assume a: "map fst evs = ds \<and> run_ok en pre bs ({} \<union> set ds) t"
    then have "run_ok en pre bs (fst ` set evs) t" by (auto simp flip: set_map)
    with a show "wp (complete_accumulate_tasks en) (\<lambda>c. wp (eseq (efor (handle_done en) evs)
      (eseq (ewhen (c \<or> list_ex (\<lambda>ev. no_ok (snd ev)) evs) (start_ready_nodes en)) (eret AtHead))) ?Q (core_ok en pre bs))
      (core_ok en pre bs) t" by (intro rest) auto
  qed auto
qed

lemma wp_loop_head:
  assumes ok: "run_ok en pre bs {} s"
  shows "wp (loop_head en) (\<lambda>_. run_ok en pre bs {}) (core_ok en pre bs) s"
proof -
  have await: "wp (await_tasks en) (\<lambda>_. run_ok en pre bs {}) (core_ok en pre bs) t" if t: "run_ok en pre bs {} t" for t
  proof -
    have inner: "wp (\<lambda>s. case blocked_resources en s of
         (Inl _, s') \<Rightarrow> (Inr (AwaitTasks (pending_acc s) (Some [])), s')
       | (Inr ids, s') \<Rightarrow> (Inr (AwaitTasks (pending_acc s) (Some ids)), s')) (\<lambda>_. run_ok en pre bs {}) (core_ok en pre bs) u"
      if "run_ok en pre bs {} u" for u
      using tables.staysD [OF tables_blocked_resources, of u en] that
      by (auto simp: wp_def run_same split: prod.splits sum.splits)
    have tb: "tables.stays (eor (has_startable en False) (has_blocked_accumulate en))" by auto
    show ?thesis
      unfolding await_tasks_def wp_ebind
      by (rule wp_tables [OF tb t]) (auto simp: wp_simps inner)
  qed
  have block: "wp (blocked_resources en) (\<lambda>ids. wp (eret (if ids = [] then AtHead else AwaitRelease ids)) (\<lambda>_. run_ok en pre bs {}) (core_ok en pre bs))
      (core_ok en pre bs) t" if "run_ok en pre bs {} t" for t
    by (rule wp_tables [OF tables_blocked_resources that]) (simp add: wp_simps)
  show ?thesis
    unfolding loop_head_def wp_ebind
  proof (rule wp_tables [OF tables_can_continue ok])
    fix c t assume t: "run_ok en pre bs {} t"
    have "wp (start_ready_nodes en) (\<lambda>_ t'. (rs_running t' = [] \<and> pending_acc t' = [] \<longrightarrow>
          wp (blocked_resources en) (\<lambda>ids. wp (eret (if ids = [] then AtHead else AwaitRelease ids)) (\<lambda>_. run_ok en pre bs {}) (core_ok en pre bs)) (core_ok en pre bs) t')
        \<and> wp (await_tasks en) (\<lambda>_. run_ok en pre bs {}) (core_ok en pre bs) t') (core_ok en pre bs) t"
      by (rule wp_conseq [OF wp_start_ready [OF t]]) (auto intro: block await)
    then show "wp (eget (\<lambda>s. s)) (\<lambda>s. wp (if \<not> c \<or> rs_stop s \<and> rs_running s = [] then eget (finish_phase en)
     else eseq (ewhen (rs_running s = []) (start_ready_nodes en)) (ebind (eget (\<lambda>s. s)) (\<lambda>s'.
       if rs_running s = [] \<and> rs_running s' = [] \<and> pending_acc s' = []
       then ebind (blocked_resources en) (\<lambda>ids. eret (if ids = [] then AtHead else AwaitRelease ids))
       else await_tasks en))) (\<lambda>_. run_ok en pre bs {}) (core_ok en pre bs)) (core_ok en pre bs) t"
      using t await [OF t] by (auto simp: wp_simps elim!: wp_conseq)
  qed
qed

section \<open>The start of a run\<close>

definition prefilled_nodes :: "run_env \<Rightarrow> (string, node_output) dict \<Rightarrow> string set" where
  "prefilled_nodes en d = {n \<in> set (dkeys d). dhas (dg_instances (re_graph en)) n}"

text \<open>While the prefilled outputs go in, \<open>d\<close> holds the ones still to come.\<close>

definition filling :: "run_env \<Rightarrow> string set \<Rightarrow> (string \<Rightarrow> node_output option) \<Rightarrow> (string, node_output) dict \<Rightarrow> run_state \<Rightarrow> bool" where
  "filling en pre bs d s = (core_ok en pre bs s \<and> distinct (dkeys d) \<and> outs s = pre - prefilled_nodes en d
     \<and> prefilled_nodes en d \<subseteq> pre \<and> rs_running s = [] \<and> rs_acc s = [])"

lemma wp_prefill_one:
  assumes f: "filling en pre bs (kv # d) s"
  shows "wp (prefill_one en kv) (\<lambda>_. filling en pre bs d) (core_ok en pre bs) s"
proof (cases "dhas (dg_instances (re_graph en)) (fst kv)")
  case False
  then have "prefilled_nodes en (kv # d) = prefilled_nodes en d" by (auto simp: prefilled_nodes_def)
  then show ?thesis using f False by (simp add: prefill_one_def wp_simps filling_def)
next
  case True
  let ?n = "fst kv" and ?out = "snd kv"
  have pn: "prefilled_nodes en (kv # d) = insert ?n (prefilled_nodes en d)" using True by (auto simp: prefilled_nodes_def)
  have c: "core_ok en pre bs s" "?n \<in> pre" "?n \<notin> prefilled_nodes en d" "rs_running s = []" "rs_acc s = []"
    using f unfolding filling_def pn by (auto simp: prefilled_nodes_def)
  have "?n \<notin> outs s" using f unfolding filling_def pn by auto
  then have none: "dget (rs_outputs s) ?n = None" by (simp add: outs_def dhas_def)
  have core: "core_ok en pre bs t" and fill: "filling en pre bs d t"
    if t: "rs_outputs t = dset (rs_outputs s) ?n ?out" "rs_running t = []" "rs_acc t = []"
      "rs_payloads t = (if no_ok ?out \<and> \<not> is_none (no_payload ?out) then dset (rs_payloads s) ?n (no_payload ?out) else rs_payloads s)"
      "rs_failures t = rs_failures s" "rs_routed t = rs_routed s \<union> Pair ?n ` vs" "\<forall>v \<in> vs. route_ok en ?n ?out v" for t vs
  proof -
    have "results_ok pre t" using c(1,2) none by (auto simp: core_ok_def results_ok_def t(1,4,5) simp del: set_map)
    moreover have "routes_ok en t"
      unfolding routes_ok_def
    proof (intro allI impI)
      fix u v assume "(u, v) \<in> rs_routed t"
      then consider "(u, v) \<in> rs_routed s" | "u = ?n" "v \<in> vs" using t(6) by auto
      then show "\<exists>out. dget (rs_outputs t) u = Some out \<and> route_ok en u out v"
      proof cases
        case 1
        then obtain o' where o': "dget (rs_outputs s) u = Some o'" "route_ok en u o' v"
          using c(1) by (auto simp: core_ok_def routes_ok_def)
        then show ?thesis using none by (auto simp: t(1))
      qed (use t(7) in \<open>auto simp: t(1)\<close>)
    qed
    moreover have "order_ok en pre t"
      using c(1,2) by (auto simp: core_ok_def order_ok_def t(1) all_upstreams_done_def list_all_iff)
    moreover have "frozen_ok bs t"
      using c(1) none by (auto simp: core_ok_def frozen_ok_def t(1) map_le_def dom_def)
    ultimately show core: "core_ok en pre bs t" by (simp add: core_ok_def)
    have "outs t = insert ?n (outs s)" by (auto simp: outs_def t(1))
    then show "filling en pre bs d t" using core f c unfolding filling_def pn by (auto simp: t(2,3))
  qed
  show ?thesis
  proof (cases "no_ok ?out \<and> \<not> is_none (no_payload ?out)")
    case True
    then have ok: "no_ok ?out" by simp
    let ?t = "s\<lparr>rs_outputs := dset (rs_outputs s) ?n ?out, rs_payloads := dset (rs_payloads s) ?n (no_payload ?out)\<rparr>"
    have "wp (routed_edges en ?n (no_payload ?out)) (\<lambda>es. wp (add_routed (set es)) (\<lambda>_. filling en pre bs d) (core_ok en pre bs))
        (core_ok en pre bs) ?t"
    proof (rule wp_conseq [OF wp_routed_edges [OF ok]])
      fix es u assume "(\<exists>vs. set es = Pair ?n ` vs \<and> (\<forall>v \<in> vs. route_ok en ?n ?out v)) \<and> (\<exists>w. u = ?t\<lparr>rs_warnings := w\<rparr>)"
      then obtain vs w where e: "set es = Pair ?n ` vs" "\<forall>v \<in> vs. route_ok en ?n ?out v" "u = ?t\<lparr>rs_warnings := w\<rparr>" by auto
      show "wp (add_routed (set es)) (\<lambda>_. filling en pre bs d) (core_ok en pre bs) u"
        unfolding add_routed_def wp_simps by (rule fill [of _ vs]) (use e True c in auto)
    next
      fix t assume "t = ?t"
      then show "core_ok en pre bs t" using True c by (intro core [of _ "{}"]) auto
    qed
    then show ?thesis using True \<open>dhas (dg_instances (re_graph en)) ?n\<close> by (simp add: prefill_one_def wp_simps)
  next
    case False
    then have "filling en pre bs d (s\<lparr>rs_outputs := dset (rs_outputs s) ?n ?out\<rparr>)"
      using c by (intro fill [of _ "{}"]) auto
    then show ?thesis using False \<open>dhas (dg_instances (re_graph en)) ?n\<close> by (auto simp: prefill_one_def wp_simps)
  qed
qed

lemma wp_start_source:
  assumes ok: "run_ok en pre bs {} s" and n: "n \<in> rs_started s \<longrightarrow> dhas (rs_outputs s) n"
  shows "wp (start_source en n) (\<lambda>_ t. run_ok en pre bs {} t \<and> outs t = outs s \<and> rs_started t \<subseteq> insert n (rs_started s))
    (core_ok en pre bs) s"
proof -
  have start: "wp (acquire_for_start en n) (\<lambda>ok. wp (if \<not> ok then eret () else eseq (start_node en n) (mark_started n))
       (\<lambda>_ t. run_ok en pre bs {} t \<and> outs t = outs s \<and> rs_started t \<subseteq> insert n (rs_started s)) (core_ok en pre bs)) (core_ok en pre bs) s"
    if g: "\<not> dhas (rs_outputs s) n" "n \<in> re_allowed en" "preds (re_graph en) n = []"
  proof (rule wp_tables [OF tables_acquire_start ok])
    fix b t assume t: "same_tables s t" "run_ok en pre bs {} t"
    have "n \<notin> rs_started t" using t(1) n g(1) by (auto simp: same_tables_def)
    from started_new [OF t(2) this g(2)] g(3)
    have "wp (eseq (start_node en n) (mark_started n)) (\<lambda>_. run_ok en pre bs {}) (core_ok en pre bs) t"
      by (simp add: all_upstreams_done_def)
    moreover have "wp (eseq (start_node en n) (mark_started n)) (\<lambda>_ u. outs u = outs s \<and> rs_started u \<subseteq> insert n (rs_started s))
        (core_ok en pre bs) t" using t(1) by (auto simp: start_node_def mark_started_def wp_simps same_tables_def outs_def)
    ultimately have "wp (eseq (start_node en n) (mark_started n))
       (\<lambda>_ t. run_ok en pre bs {} t \<and> outs t = outs s \<and> rs_started t \<subseteq> insert n (rs_started s)) (core_ok en pre bs) t"
      by (auto dest: wp_conj elim: wp_conseq)
    then show "wp (if \<not> b then eret () else eseq (start_node en n) (mark_started n))
       (\<lambda>_ t. run_ok en pre bs {} t \<and> outs t = outs s \<and> rs_started t \<subseteq> insert n (rs_started s)) (core_ok en pre bs) t"
      using t by (auto simp: wp_simps same_tables_def outs_def)
  qed
  show ?thesis using ok start by (auto simp: start_source_def wp_simps)
qed

lemma wp_start_run:
  assumes d: "distinct (dkeys d)" and nodes: "distinct (dg_nodes (re_graph en))"
  shows "wp (start_run en d) (\<lambda>_. run_ok en (prefilled_nodes en d) Map.empty {}) (core_ok en (prefilled_nodes en d) Map.empty) (fresh_run sems store)"
proof -
  let ?pre = "prefilled_nodes en d"
  have fresh: "filling en ?pre Map.empty d (fresh_run sems store)"
    using d by (auto simp: filling_def fresh_run_def core_ok_def results_ok_def routes_ok_def order_ok_def frozen_ok_def outs_def)
  have sources: "wp (efor (start_source en) (dg_nodes (re_graph en))) (\<lambda>_. run_ok en ?pre Map.empty {}) (core_ok en ?pre Map.empty) t"
    if "run_ok en ?pre Map.empty {} t" "rs_started t \<subseteq> outs t" for t
  proof -
    let ?I = "\<lambda>ys t. distinct ys \<and> run_ok en ?pre Map.empty {} t \<and> rs_started t \<inter> set ys \<subseteq> outs t"
    have "wp (efor (start_source en) (dg_nodes (re_graph en))) (\<lambda>_. ?I []) (core_ok en ?pre Map.empty) t"
    proof (rule wp_efor_rest [where I = ?I])
      show "?I (dg_nodes (re_graph en)) t" using that nodes by auto
      fix n ys u assume u: "?I (n # ys) u"
      then have "n \<in> rs_started u \<longrightarrow> dhas (rs_outputs u) n" by (auto simp: outs_def)
      from wp_start_source [OF _ this] u have "wp (start_source en n)
        (\<lambda>_ t. run_ok en ?pre Map.empty {} t \<and> outs t = outs u \<and> rs_started t \<subseteq> insert n (rs_started u)) (core_ok en ?pre Map.empty) u" by blast
      then show "wp (start_source en n) (\<lambda>_. ?I ys) (core_ok en ?pre Map.empty) u"
        by (rule wp_conseq) (use u in auto)
    qed
    then show ?thesis by (rule wp_conseq) auto
  qed
  have prefill: "wp (efor (prefill_one en) d) (\<lambda>_. filling en ?pre Map.empty []) (core_ok en ?pre Map.empty) (fresh_run sems store)"
    by (rule wp_efor_rest [where I = "filling en ?pre Map.empty"]) (use fresh in \<open>auto intro: wp_prefill_one\<close>)
  have started: "run_ok en ?pre Map.empty {} (t\<lparr>rs_started := fst ` set (rs_outputs t)\<rparr>)" "fst ` set (rs_outputs t) \<subseteq> outs t"
    if "filling en ?pre Map.empty [] t" for t
  proof -
    have o': "outs t = fst ` set (rs_outputs t)" by (auto simp: outs_def dhas_keys)
    then show "fst ` set (rs_outputs t) \<subseteq> outs t" by simp
    show "run_ok en ?pre Map.empty {} (t\<lparr>rs_started := fst ` set (rs_outputs t)\<rparr>)"
      using that o' by (auto simp: filling_def run_ok_def control_ok_def active_def prefilled_nodes_def)
  qed
  have core: "core_ok en ?pre Map.empty (fresh_run sems store)" using fresh by (simp add: filling_def)
  have "wp (efor (prefill_one en) d) (\<lambda>_ t. wp (efor (start_source en) (dg_nodes (re_graph en))) (\<lambda>_. run_ok en ?pre Map.empty {})
      (core_ok en ?pre Map.empty) (t\<lparr>rs_started := fst ` set (rs_outputs t)\<rparr>)) (core_ok en ?pre Map.empty) (fresh_run sems store)"
  proof (rule wp_conseq [OF prefill])
    fix t assume t: "filling en ?pre Map.empty [] t"
    show "wp (efor (start_source en) (dg_nodes (re_graph en))) (\<lambda>_. run_ok en ?pre Map.empty {})
      (core_ok en ?pre Map.empty) (t\<lparr>rs_started := fst ` set (rs_outputs t)\<rparr>)"
      by (rule sources [OF started(1) [OF t]]) (simp add: started(2) [OF t])
  qed
  then show ?thesis using core by (simp add: start_run_def wp_simps split: sum.splits)
qed

section \<open>Reachable states\<close>

definition run_inv :: "run_env \<Rightarrow> string set \<Rightarrow> (string \<Rightarrow> node_output option) \<Rightarrow> run_state \<Rightarrow> bool" where
  "run_inv en pre bs s = (case rs_phase s of Failed _ \<Rightarrow> core_ok en pre bs s | _ \<Rightarrow> run_ok en pre bs {} s)"

lemma run_inv_core: "run_inv en pre bs s \<Longrightarrow> core_ok en pre bs s"
  by (auto simp: run_inv_def run_ok_def split: phase.splits)

lemma run_ok_upd [simp]:
  "run_ok en pre bs P (s\<lparr>rs_sems := x1\<rparr>) = run_ok en pre bs P s"
  "run_ok en pre bs P (s\<lparr>rs_stop := x2\<rparr>) = run_ok en pre bs P s"
  "run_ok en pre bs P (s\<lparr>rs_store := x3\<rparr>) = run_ok en pre bs P s"
  "run_ok en pre bs P (s\<lparr>rs_phase := x4\<rparr>) = run_ok en pre bs P s"
  by (simp_all add: run_ok_def control_ok_def active_def)

lemma run_inv_of_ok: "run_ok en pre bs {} s \<Longrightarrow> run_inv en pre bs s"
  by (auto simp: run_inv_def run_ok_def split: phase.splits)

lemma run_inv_upd [simp]:
  "run_inv en pre bs (s\<lparr>rs_sems := x1\<rparr>) = run_inv en pre bs s"
  "run_inv en pre bs (s\<lparr>rs_stop := x2\<rparr>) = run_inv en pre bs s"
  "run_inv en pre bs (s\<lparr>rs_store := x3\<rparr>) = run_inv en pre bs s"
  by (simp_all add: run_inv_def cong: phase.case_cong)

lemma abort_core: "core_ok en pre bs s \<Longrightarrow> run_inv en pre bs (abort_run e s)"
  using core_same [OF tables_release_all, of en pre bs "s\<lparr>rs_running := []\<rparr>"] by (simp add: abort_run_def run_inv_def)

lemma settle_inv:
  assumes "wp m (\<lambda>_. run_ok en pre bs {}) (core_ok en pre bs) s"
  shows "run_inv en pre bs (settle (m s))"
  using assms by (auto simp: wp_def settle_def abort_core run_inv_of_ok split: prod.splits sum.splits)

lemma set_task_ok:
  assumes ok: "run_ok en pre bs {} s" and n: "dhas (rs_running s) n"
  shows "run_ok en pre bs {} (s\<lparr>rs_running := dset (rs_running s) n t\<rparr>)"
proof -
  have "active {} (s\<lparr>rs_running := dset (rs_running s) n t\<rparr>) = active {} s" using n by (auto simp: active_def)
  then show ?thesis using ok by (auto simp: run_ok_def control_ok_def)
qed

lemma call_back_tables: "same_tables s (snd (call_back f ev s))"
  by (rule tables.staysD [OF tables_call_back])

lemma begin_task_ok:
  assumes "run_ok en pre bs {} s" "dhas (rs_running s) n"
  shows "run_ok en pre bs {} (begin_task en n t s)"
proof -
  let ?c = "call_back (re_recorder en) (NodeRec n ''running'' None None None) s"
  have "same_tables s (snd ?c)" by (rule call_back_tables)
  then have "run_ok en pre bs {} (snd ?c)" "dhas (rs_running (snd ?c)) n" using assms by (simp_all add: run_same) (simp add: same_tables_def)
  then show ?thesis by (auto simp: begin_task_def set_task_def eff_simps set_task_ok split: prod.splits sum.splits)
qed

lemma end_task_ok:
  assumes "run_ok en pre bs {} s" "dhas (rs_running s) n"
  shows "run_ok en pre bs {} (end_task en n t rs s)"
proof -
  have "run_ok en pre bs {} (snd (call_back (re_recorder en) ev s))" "dhas (rs_running (snd (call_back (re_recorder en) ev s))) n" for ev
    using call_back_tables [of s "re_recorder en" ev] assms by (simp_all add: run_same) (simp add: same_tables_def)
  then show ?thesis using assms
    by (auto simp: end_task_def set_task_def eff_simps set_task_ok split: prod.splits sum.splits) (metis snd_conv set_task_ok)+
qed

end
