(* ===== verification/RunProps.thy ===== *)
theory RunProps
  imports RunInv DagLoaderProps
begin

text \<open>
  What holds in every reachable state of a run: the properties of \<open>dag/runner.py\<close>. The invariants of
  \<open>RunInv\<close> go through the transition relation once, in \<open>run_step_inv\<close>.
\<close>

section \<open>The invariants along the steps\<close>

definition run_setup :: "run_env \<Rightarrow> (string, node_output) dict \<Rightarrow> bool" where
  "run_setup en d = (distinct (dkeys d) \<and> distinct (dg_nodes (re_graph en)))"

lemma run_inv_ok: "run_inv en pre bs s \<Longrightarrow> awaiting s \<or> rs_phase s = AtHead \<Longrightarrow> run_ok en pre bs {} s"
  by (auto simp: run_inv_def awaiting_def split: phase.splits)

lemma initial_inv:
  assumes "run_setup en d"
  shows "run_inv en (prefilled_nodes en d) Map.empty (initial_run en d sems store)"
proof -
  have "wp (start_run en d) (\<lambda>_. run_ok en (prefilled_nodes en d) Map.empty {})
      (core_ok en (prefilled_nodes en d) Map.empty) (fresh_run sems store)"
    using assms by (intro wp_start_run) (auto simp: run_setup_def)
  then show ?thesis
    by (auto simp: initial_run_def wp_def run_inv_def split: prod.splits sum.splits phase.splits dest: run_okD(1))
qed

lemma acc_keys:
  assumes "dkeys a = dkeys (rs_acc s)"
  shows "control_ok en P (s\<lparr>rs_acc := a\<rparr>) = control_ok en P s"
proof -
  have "dhas a = dhas (rs_acc s)" by (intro ext) (simp only: dhas_keys assms)
  then show ?thesis by (simp add: control_ok_def active_def assms)
qed

lemma end_acc_inv:
  assumes "run_inv en pre bs s"
  shows "run_inv en pre bs (end_acc_task key r s)"
proof -
  let ?a = "map (\<lambda>(d, ts). (d, set_acc_result key r ts)) (rs_acc s)"
  have k: "dkeys ?a = dkeys (rs_acc s)" by (simp add: comp_def case_prod_unfold)
  from acc_keys [OF k] have "control_ok en P (s\<lparr>rs_acc := ?a\<rparr>) = control_ok en P s" for P .
  then have "run_ok en pre bs P (s\<lparr>rs_acc := ?a\<rparr>) = run_ok en pre bs P s" for P by (simp add: run_ok_def)
  then have "run_inv en pre bs (s\<lparr>rs_acc := ?a\<rparr>)" using assms by (simp add: run_inv_def cong: phase.case_cong)
  then show ?thesis
    by (simp add: end_acc_task_def run_inv_def run_same [OF tables_release] core_same [OF tables_release] cong: phase.case_cong)
qed

lemma turn_inv:
  assumes "run_ok en pre bs {} s" "distinct ds" "\<forall>n \<in> set ds. dhas (rs_running s) n"
  shows "run_inv en pre bs (settle (loop_turn en ds s))"
  by (rule settle_inv, rule wp_conseq [OF wp_loop_turn [OF assms]]) auto

lemma run_step_inv:
  assumes "run_step en w w'" "run_inv en pre bs (fst w)"
  shows "run_inv en pre bs (fst w')"
  using assms
proof (induction rule: run_step.induct)
  case (head s k)
  have "run_ok en pre bs {} s" by (rule run_inv_ok [OF head(2) [simplified]]) (simp add: head)
  then show ?case by (simp add: settle_inv wp_loop_head)
next
  case (released s ids k)
  have "run_ok en pre bs {} s" by (rule run_inv_ok [OF released(3) [simplified]]) (simp add: released awaiting_def)
  then show ?case by (simp add: run_inv_of_ok)
next
  case (woken s keys rel ds k)
  have "run_ok en pre bs {} s" by (rule run_inv_ok [OF woken(5) [simplified]]) (simp add: woken(1) awaiting_def)
  moreover have "\<forall>n \<in> set ds. dhas (rs_running s) n" using woken(3) by (auto simp: done_tasks_def dhas_def)
  ultimately show ?case using woken(2) by (simp add: turn_inv)
next
  case (woken_release s keys ids ds k)
  let ?s = "s\<lparr>rs_sems := clear_released ids (rs_sems s)\<rparr>"
  have "run_ok en pre bs {} s"
    by (rule run_inv_ok [OF woken_release(5) [simplified]]) (simp add: woken_release(1) awaiting_def)
  moreover have "\<forall>n \<in> set ds. dhas (rs_running s) n" using woken_release(3) by (auto simp: done_tasks_def dhas_def)
  ultimately show ?case using woken_release(2) turn_inv [of en pre bs ?s ds] by simp
next
  case (cancelled s k)
  then show ?case using run_inv_core [of en pre bs s] by (simp add: abort_core)
next
  case (begin_task s n t k)
  have "run_ok en pre bs {} s" by (rule run_inv_ok [OF begin_task(5) [simplified]]) (simp add: begin_task(1))
  then show ?case using begin_task(2) by (simp add: run_inv_of_ok begin_task_ok dhas_def)
next
  case (end_task s n t rs k)
  have "run_ok en pre bs {} s" by (rule run_inv_ok [OF end_task(6) [simplified]]) (simp add: end_task(1))
  then show ?case using end_task(2) by (simp add: run_inv_of_ok end_task_ok dhas_def)
next
  case (end_acc_task key s r k)
  then show ?case by (simp add: end_acc_inv)
qed simp_all

lemma reachable_induct [consumes 1, case_names start step]:
  assumes "reachable_run en d sems store s"
    and "P (initial_run en d sems store)"
    and "\<And>s k t k'. reachable_run en d sems store s \<Longrightarrow> P s \<Longrightarrow> run_step en (s, k) (t, k') \<Longrightarrow> P t"
  shows "P s"
proof -
  obtain k k0 where r: "(run_step en)\<^sup>*\<^sup>* (initial_run en d sems store, k0) (s, k)"
    using assms(1) by (auto simp: reachable_run_def)
  from r have "P s \<and> reachable_run en d sems store s"
  proof (induction "(s, k)" arbitrary: s k rule: rtranclp_induct)
    case base
    then show ?case using assms(2) by (auto simp: reachable_run_def)
  next
    case (step w)
    obtain u j where w: "w = (u, j)" by force
    with step have "P u" "reachable_run en d sems store u" by auto
    moreover have "reachable_run en d sems store s"
      using step(1,2) w unfolding reachable_run_def by (meson rtranclp.rtrancl_into_rtrancl)
    ultimately show ?case using assms(3) step(2) w by blast
  qed
  then show ?thesis by simp
qed

lemma run_reachable_inv:
  assumes "reachable_run en d sems store s" "run_setup en d"
  shows "run_inv en (prefilled_nodes en d) Map.empty s"
  using assms
proof (induction rule: reachable_induct)
  case start
  then show ?case by (simp add: initial_inv)
next
  case (step s k t k')
  then show ?case using run_step_inv [of en "(s, k)" "(t, k')"] by simp
qed

section \<open>What a finished run leaves behind\<close>

text \<open>The cache of semaphores only grows while the loop asks whether a resource is free.\<close>

definition sems_grow :: "run_state \<Rightarrow> run_state \<Rightarrow> bool" where
  "sems_grow s t = (same_tables s t \<and> dget (rs_sems s) \<subseteq>\<^sub>m dget (rs_sems t))"

interpretation growing: effect_order sems_grow
  by unfold_locales (auto simp: sems_grow_def intro: tables.R_trans map_le_trans)

lemma get_semaphore_cache:
  assumes "get_semaphore ref store cache = Inr (rid, cache')"
  shows "dget cache \<subseteq>\<^sub>m dget cache'" "\<exists>sm. dget cache' rid = Some sm"
    "\<exists>e. resource_id ref store = Inr e \<and> en_id e = rid"
proof -
  obtain e where e: "resource_id ref store = Inr e" using assms by (auto simp: get_semaphore_def)
  then have "rid = en_id e" using assms by (auto simp: get_semaphore_def split: if_splits option.splits)
  moreover have "cache' = cache \<and> dhas cache (en_id e)
      \<or> (\<exists>p. cache' = dset cache (en_id e) (new_sem p) \<and> \<not> dhas cache (en_id e))"
    using assms e by (auto simp: get_semaphore_def split: if_splits option.splits)
  ultimately show "dget cache \<subseteq>\<^sub>m dget cache'" "\<exists>sm. dget cache' rid = Some sm"
    "\<exists>e. resource_id ref store = Inr e \<and> en_id e = rid"
    using e by (auto simp: map_le_def dhas_def)
qed

lemma wp_available:
  "wp (resource_available i) (\<lambda>a t. sems_grow s t \<and> (ni_resource i = None \<longrightarrow> a) \<and> (\<forall>ref. ni_resource i = Some ref \<longrightarrow>
      (\<exists>e sm. resource_id ref (rs_store s) = Inr e \<and> dget (rs_sems t) (en_id e) = Some sm \<and> a = sem_available sm)))
    (\<lambda>_. True) s"
proof (cases "ni_resource i")
  case (Some ref)
  show ?thesis
  proof (cases "get_semaphore ref (rs_store s) (rs_sems s)")
    case (Inr rc)
    obtain rid cache' where rc: "rc = (rid, cache')" by force
    note g = get_semaphore_cache [OF Inr [unfolded rc]]
    then obtain e sm where "resource_id ref (rs_store s) = Inr e" "en_id e = rid" "dget cache' rid = Some sm" by blast
    then show ?thesis using g(1) by (simp add: resource_available_def wp_simps Some Inr rc sems_grow_def same_tables_def)
  qed (simp add: resource_available_def wp_simps Some)
qed (simp add: resource_available_def wp_simps growing.R_refl)

text \<open>The nodes the two questions \<open>has_startable\<close> look at.\<close>

definition candidate :: "run_env \<Rightarrow> run_state \<Rightarrow> string \<Rightarrow> bool" where
  "candidate en s n = (n \<notin> rs_started s \<and> n \<in> re_allowed en \<and> \<not> accumulates (re_graph en) n \<and> ready en s n)"

lemma candidate_same: "same_tables s t \<Longrightarrow> candidate en t = candidate en s"
  using ready_same(1) [of t s en] by (intro ext) (simp add: candidate_def same_tables_def)

definition free_in :: "run_state \<Rightarrow> node_inst \<Rightarrow> bool option" where
  "free_in t i = (case ni_resource i of None \<Rightarrow> Some True
     | Some ref \<Rightarrow> (case resource_id ref (rs_store t) of Inl _ \<Rightarrow> None
         | Inr e \<Rightarrow> map_option sem_available (dget (rs_sems t) (en_id e))))"

lemma free_in_grow: "sems_grow s t \<Longrightarrow> free_in s i = Some a \<Longrightarrow> free_in t i = Some a"
  by (auto simp: free_in_def sems_grow_def same_tables_def map_le_def dom_def split: option.splits sum.splits)

lemma eany_answers:
  assumes "\<And>n s. n \<in> set ns \<Longrightarrow> same_tables s0 s \<Longrightarrow>
      wp (f n) (\<lambda>b t. sems_grow s t \<and> (\<not> b \<longrightarrow> candidate en s0 n \<longrightarrow> free_in t (instance_of g n) = Some (\<not> free))) (\<lambda>_. True) s"
    and "same_tables s0 s"
  shows "wp (eany f ns) (\<lambda>b t. sems_grow s t \<and> (\<not> b \<longrightarrow> (\<forall>n \<in> set ns. candidate en s0 n \<longrightarrow>
      free_in t (instance_of g n) = Some (\<not> free)))) (\<lambda>_. True) s"
  using assms
proof (induction ns arbitrary: s)
  case (Cons n ns)
  show ?case
    unfolding eany.simps wp_simps
  proof (rule wp_conseq [OF Cons.prems(1) [of n, OF _ Cons.prems(2)]])
    fix b t assume t: "sems_grow s t \<and> (\<not> b \<longrightarrow> candidate en s0 n \<longrightarrow> free_in t (instance_of g n) = Some (\<not> free))"
    then have "same_tables s0 t" using Cons.prems(2) by (auto simp: sems_grow_def intro: tables.R_trans)
    from Cons.IH [OF Cons.prems(1) this]
    have "wp (eany f ns) (\<lambda>b u. sems_grow t u \<and> (\<not> b \<longrightarrow> (\<forall>n \<in> set ns. candidate en s0 n \<longrightarrow>
      free_in u (instance_of g n) = Some (\<not> free)))) (\<lambda>_. True) t" by simp
    then have "wp (eany f ns) (\<lambda>b' u. sems_grow s u \<and> (\<not> b' \<and> \<not> b \<longrightarrow> (\<forall>n \<in> set (n # ns). candidate en s0 n \<longrightarrow>
      free_in u (instance_of g n) = Some (\<not> free)))) (\<lambda>_. True) t"
      by (rule wp_conseq) (use t in \<open>auto intro: growing.R_trans free_in_grow\<close>)
    then show "(if b then (\<lambda>t. sems_grow s t \<and> (\<not> True \<longrightarrow> (\<forall>n \<in> set (n # ns). candidate en s0 n \<longrightarrow>
      free_in t (instance_of g n) = Some (\<not> free)))) else wp (eany f ns) (\<lambda>b u. sems_grow s u \<and> (\<not> b \<longrightarrow>
      (\<forall>n \<in> set (n # ns). candidate en s0 n \<longrightarrow> free_in u (instance_of g n) = Some (\<not> free)))) (\<lambda>_. True)) t"
      using t by (auto elim: wp_conseq)
  qed auto
qed (simp add: wp_simps growing.R_refl)

lemma wp_has_startable:
  "wp (has_startable en free) (\<lambda>b t. sems_grow s t \<and> (\<not> b \<longrightarrow> (\<forall>n \<in> set (dg_nodes (re_graph en)).
      candidate en s n \<longrightarrow> free_in t (instance_of (re_graph en) n) = Some (\<not> free)))) (\<lambda>_. True) s"
  unfolding has_startable_def
proof (rule eany_answers)
  fix n u assume u: "same_tables s u"
  have av: "wp (resource_available i) (\<lambda>a t. sems_grow u t \<and> free_in t i = Some a) (\<lambda>_. True) u" for i
    by (rule wp_conseq [OF wp_available])
      (auto simp: free_in_def sems_grow_def same_tables_def split: option.splits sum.splits)
  have c: "candidate en u n = candidate en s n" by (simp add: candidate_same [OF u])
  show "wp (ebind (eget (\<lambda>s. n \<notin> rs_started s \<and> n \<in> re_allowed en \<and> \<not> accumulates (re_graph en) n \<and> ready en s n))
      (\<lambda>b. if b then ebind (resource_available (instance_of (re_graph en) n)) (\<lambda>a. eret (a = free)) else eret False))
      (\<lambda>b t. sems_grow u t \<and> (\<not> b \<longrightarrow> candidate en s n \<longrightarrow> free_in t (instance_of (re_graph en) n) = Some (\<not> free))) (\<lambda>_. True) u"
  proof (cases "candidate en s n")
    case True
    then show ?thesis using c wp_conseq [OF av] by (simp add: wp_simps candidate_def)
  next
    case False
    then show ?thesis using c by (auto simp: wp_simps candidate_def growing.R_refl)
  qed
qed simp

text \<open>Nothing is left to do: no task runs and every node the run may start has its output, waits for an upstream
  without one, or has an upstream that succeeded without routing this edge.\<close>

definition run_complete :: "run_env \<Rightarrow> run_state \<Rightarrow> bool" where
  "run_complete en s = (rs_running s = [] \<and> pending_acc s = []
     \<and> (\<forall>n \<in> set (dg_nodes (re_graph en)). n \<in> re_allowed en \<and> \<not> accumulates (re_graph en) n \<longrightarrow>
          dhas (rs_outputs s) n \<or> (\<exists>u \<in> set (preds (re_graph en) n). \<not> dhas (rs_outputs s) u)
          \<or> (\<exists>u \<in> set (preds (re_graph en) n). \<exists>out. dget (rs_outputs s) u = Some out \<and> no_ok out
               \<and> (u, n) \<notin> rs_routed s)))"

lemma ready_or_blocked:
  assumes "all_upstreams_done en s n" "\<not> ready en s n"
    "\<not> (\<exists>u \<in> set (preds (re_graph en) n). \<exists>out. dget (rs_outputs s) u = Some out \<and> no_ok out \<and> (u, n) \<notin> rs_routed s)"
  shows "blocked_by_required_failure en s n"
proof -
  obtain u where u: "u \<in> set (preds (re_graph en) n)" "\<not> upstream_passes en s n u"
    using assms(1,2) by (auto simp: ready_def list_all_iff)
  then obtain out where out: "dget (rs_outputs s) u = Some out"
    using assms(1) by (auto simp: all_upstreams_done_def list_all_iff elim: dhasE)
  then have "u \<in> set (blocking_required_failures en s n)"
    using u assms(3) by (auto simp: upstream_passes_def blocking_required_failures_def split: if_splits)
  then show ?thesis using u(1) assms(1) by (auto simp: blocked_by_required_failure_def)
qed

lemma wp_can_continue:
  assumes ok: "run_ok en pre bs {} s"
  shows "wp (can_continue en) (\<lambda>c t. same_tables s t \<and> (\<not> c \<longrightarrow> run_complete en t)) (\<lambda>_. True) s"
proof -
  let ?g = "re_graph en"
  have last: "wp (has_blocked_accumulate en) (\<lambda>c u. same_tables s u \<and> (\<not> c \<longrightarrow> run_complete en u)) (\<lambda>_. True) t"
    if t: "sems_grow s t" "run_complete en t" for t
  proof (rule wp_conseq [OF tables_wp [OF tables_has_blocked_accumulate]])
    fix a u assume u: "same_tables t u"
    then have "run_complete en u = run_complete en t"
      by (simp add: run_complete_def same_tables_def pending_acc_def)
    then show "same_tables s u \<and> (\<not> a \<longrightarrow> run_complete en u)"
      using t u by (auto simp: sems_grow_def intro: tables.R_trans)
  qed simp
  have complete: "run_complete en v"
    if idle: "rs_running s = []" "pending_acc s = []" and v: "sems_grow s t" "sems_grow t v"
      and a: "\<forall>n \<in> set (dg_nodes ?g). candidate en s n \<longrightarrow> free_in t (instance_of ?g n) = Some False"
      and b: "\<forall>n \<in> set (dg_nodes ?g). candidate en t n \<longrightarrow> free_in v (instance_of ?g n) = Some True"
      and f: "\<not> has_required_failure en v" for t v
  proof -
    have same: "same_tables s t" "same_tables s v" using v by (auto simp: sems_grow_def intro: tables.R_trans)
    have no_cand: "\<not> candidate en s n" if n: "n \<in> set (dg_nodes ?g)" for n
    proof
      assume c: "candidate en s n"
      with a n have "free_in v (instance_of ?g n) = Some False" by (blast intro: free_in_grow [OF v(2)])
      moreover have "free_in v (instance_of ?g n) = Some True" using b n c candidate_same [OF same(1), of en] by simp
      ultimately show False by simp
    qed
    have e: "rs_outputs v = rs_outputs s" "rs_routed v = rs_routed s" "rs_running v = rs_running s" "rs_acc v = rs_acc s"
      "rs_started v = rs_started s" using same(2) by (auto simp: same_tables_def)
    have st: "rs_started s = outs s" using run_okD(2) [OF ok] idle(1) by (auto simp: control_ok_def active_def)
    have "dhas (rs_outputs v) n \<or> (\<exists>u \<in> set (preds ?g n). \<not> dhas (rs_outputs v) u)
          \<or> (\<exists>u \<in> set (preds ?g n). \<exists>out. dget (rs_outputs v) u = Some out \<and> no_ok out \<and> (u, n) \<notin> rs_routed v)"
      if n: "n \<in> set (dg_nodes ?g)" "n \<in> re_allowed en" "\<not> accumulates ?g n" for n
    proof (rule ccontr)
      assume c: "\<not> ?thesis"
      then have ns: "n \<notin> rs_started v" using st e by (auto simp: outs_def)
      have up: "all_upstreams_done en v n" using c by (auto simp: all_upstreams_done_def list_all_iff)
      have "\<not> ready en v n" using no_cand [OF n(1)] n ns ready_same(1) [of v s en n] e by (simp add: candidate_def)
      then have "blocked_by_required_failure en v n" using ready_or_blocked [OF up] c by blast
      then show False using f n ns by (auto simp: has_required_failure_def list_ex_iff)
    qed
    then show ?thesis using idle e by (simp add: run_complete_def pending_acc_def)
  qed
  have rest: "wp (eor (eget (has_required_failure en)) (has_blocked_accumulate en))
      (\<lambda>c u. same_tables s u \<and> (\<not> c \<longrightarrow> run_complete en u)) (\<lambda>_. True) v"
    if "rs_running s = []" "pending_acc s = []" "sems_grow s t" "sems_grow t v"
      "\<forall>n \<in> set (dg_nodes ?g). candidate en s n \<longrightarrow> free_in t (instance_of ?g n) = Some False"
      "\<forall>n \<in> set (dg_nodes ?g). candidate en t n \<longrightarrow> free_in v (instance_of ?g n) = Some True" for t v
  proof -
    have g: "sems_grow s v" by (rule growing.R_trans [OF that(3,4)])
    then show ?thesis using complete [OF that] last [OF g] by (auto simp: wp_simps sems_grow_def)
  qed
  have second: "wp (eor (has_startable en False) (eor (eget (has_required_failure en)) (has_blocked_accumulate en)))
      (\<lambda>c u. same_tables s u \<and> (\<not> c \<longrightarrow> run_complete en u)) (\<lambda>_. True) t"
    if "rs_running s = []" "pending_acc s = []" "sems_grow s t"
      "\<forall>n \<in> set (dg_nodes ?g). candidate en s n \<longrightarrow> free_in t (instance_of ?g n) = Some False" for t
    unfolding wp_eor [of "has_startable en False"]
  proof (rule wp_conseq [OF wp_has_startable])
    fix c v assume v: "sems_grow t v \<and> (\<not> c \<longrightarrow> (\<forall>n \<in> set (dg_nodes ?g). candidate en t n \<longrightarrow> free_in v (instance_of ?g n) = Some (\<not> False)))"
    have "same_tables s v" using v that(3) by (auto simp: sems_grow_def intro: tables.R_trans)
    then show "(if c then (\<lambda>u. same_tables s u \<and> (\<not> True \<longrightarrow> run_complete en u))
      else wp (eor (eget (has_required_failure en)) (has_blocked_accumulate en))
        (\<lambda>c u. same_tables s u \<and> (\<not> c \<longrightarrow> run_complete en u)) (\<lambda>_. True)) v"
      using rest [OF that(1-3) _ that(4), of v] v by (cases c) auto
  qed auto
  have first: "wp (eor (has_startable en True) (eor (has_startable en False) (eor (eget (has_required_failure en)) (has_blocked_accumulate en))))
      (\<lambda>c u. same_tables s u \<and> (\<not> c \<longrightarrow> run_complete en u)) (\<lambda>_. True) s"
    if "rs_running s = []" "pending_acc s = []"
    unfolding wp_eor [of "has_startable en True"]
  proof (rule wp_conseq [OF wp_has_startable])
    fix c t assume t: "sems_grow s t \<and> (\<not> c \<longrightarrow> (\<forall>n \<in> set (dg_nodes ?g). candidate en s n \<longrightarrow> free_in t (instance_of ?g n) = Some (\<not> True)))"
    show "(if c then (\<lambda>u. same_tables s u \<and> (\<not> True \<longrightarrow> run_complete en u))
      else wp (eor (has_startable en False) (eor (eget (has_required_failure en)) (has_blocked_accumulate en)))
        (\<lambda>c u. same_tables s u \<and> (\<not> c \<longrightarrow> run_complete en u)) (\<lambda>_. True)) t"
      using second [OF that, of t] t by (cases c) (auto simp: sems_grow_def)
  qed auto
  show ?thesis using first by (simp add: can_continue_def wp_eor [of "eget f" for f] wp_eget)
qed

lemma wp_loop_head_finish:
  assumes ok: "run_ok en pre bs {} s"
  shows "wp (loop_head en) (\<lambda>p t. p = Finished \<longrightarrow> rs_stop t \<or> run_complete en t) (\<lambda>_. True) s"
proof -
  have phase: "wp m (\<lambda>p t. p = Finished \<longrightarrow> Q p t) (\<lambda>_. True) t" if "wp m (\<lambda>p _. p \<noteq> Finished) (\<lambda>_. True) t" for m Q t
    by (rule wp_conseq [OF that]) auto
  have await: "wp (await_tasks en) (\<lambda>p _. p \<noteq> Finished) (\<lambda>_. True) t" for t
    by (auto simp: await_tasks_def wp_def ebind_def eff_simps split: prod.splits sum.splits if_splits)
  have block: "wp (blocked_resources en) (\<lambda>ids. wp (eret (if ids = [] then AtHead else AwaitRelease ids)) (\<lambda>p _. p \<noteq> Finished) (\<lambda>_. True))
      (\<lambda>_. True) t" for t
    by (auto simp: wp_def eff_simps split: prod.splits sum.splits)
  have body: "wp (eseq (ewhen x (start_ready_nodes en)) (ebind (eget (\<lambda>s. s)) (\<lambda>s'.
       if y \<and> rs_running s' = [] \<and> pending_acc s' = []
       then ebind (blocked_resources en) (\<lambda>ids. eret (if ids = [] then AtHead else AwaitRelease ids))
       else await_tasks en))) (\<lambda>p _. p \<noteq> Finished) (\<lambda>_. True) t" for x y t
  proof -
    have any: "wp m (\<lambda>_. Q) (\<lambda>_. True) t" if "\<And>u. Q u" for m :: "(run_state, unit) eff" and Q t
      using that by (auto simp: wp_def split: prod.splits sum.splits)
    have inner: "wp (ebind (eget (\<lambda>s. s)) (\<lambda>s'. if y \<and> rs_running s' = [] \<and> pending_acc s' = []
       then ebind (blocked_resources en) (\<lambda>ids. eret (if ids = [] then AtHead else AwaitRelease ids))
       else await_tasks en)) (\<lambda>p _. p \<noteq> Finished) (\<lambda>_. True) u" for u
      using block await by (simp add: wp_ebind wp_eget)
    show ?thesis unfolding wp_eseq by (rule any [OF inner])
  qed
  show ?thesis
    unfolding loop_head_def wp_ebind [of "can_continue en"]
  proof (rule wp_conseq [OF wp_can_continue [OF ok]])
    fix c t assume t: "same_tables s t \<and> (\<not> c \<longrightarrow> run_complete en t)"
    show "wp (ebind (eget (\<lambda>s. s)) (\<lambda>s. if \<not> c \<or> rs_stop s \<and> rs_running s = [] then eget (finish_phase en)
     else eseq (ewhen (rs_running s = []) (start_ready_nodes en)) (ebind (eget (\<lambda>s. s)) (\<lambda>s'.
       if rs_running s = [] \<and> rs_running s' = [] \<and> pending_acc s' = []
       then ebind (blocked_resources en) (\<lambda>ids. eret (if ids = [] then AtHead else AwaitRelease ids))
       else await_tasks en)))) (\<lambda>p t. p = Finished \<longrightarrow> rs_stop t \<or> run_complete en t) (\<lambda>_. True) t"
      using t phase [OF body [of "rs_running t = []" "rs_running t = []" t], of "\<lambda>_ t. rs_stop t \<or> run_complete en t"]
      by (auto simp: wp_ebind wp_eget)
  qed auto
qed

definition done_ok :: "run_env \<Rightarrow> run_state \<Rightarrow> bool" where
  "done_ok en s = (rs_phase s = Finished \<longrightarrow> rs_stop s \<or> run_complete en s)"

lemma complete_same: "same_tables s t \<Longrightarrow> run_complete en t = run_complete en s"
  by (simp add: run_complete_def same_tables_def pending_acc_def)

lemma complete_upd [simp]:
  "run_complete en (s\<lparr>rs_sems := x1\<rparr>) = run_complete en s" "run_complete en (s\<lparr>rs_store := x2\<rparr>) = run_complete en s"
  "run_complete en (s\<lparr>rs_phase := x3\<rparr>) = run_complete en s"
  by (simp_all add: run_complete_def pending_acc_def)

lemma settle_phase: "rs_phase (settle (m s)) = Finished \<Longrightarrow> \<exists>t. m s = (Inr Finished, t) \<and> settle (m s) = t\<lparr>rs_phase := Finished\<rparr>"
  by (auto simp: settle_def abort_run_def split: prod.splits sum.splits)

lemma set_task_phase [simp]: "rs_phase (snd (set_task n t s)) = rs_phase s"
  by (simp add: set_task_def eff_simps)

lemma task_phase: "rs_phase (begin_task en n t s) = rs_phase s" "rs_phase (end_task en n t rs s) = rs_phase s"
proof -
  have c: "rs_phase (snd (call_back f ev s)) = rs_phase s" for f ev
    using call_back_tables [of s f ev] by (simp add: same_tables_def)
  show "rs_phase (begin_task en n t s) = rs_phase s"
    using c [of "re_recorder en"] by (auto simp: begin_task_def split: prod.splits sum.splits) (metis snd_conv)+
  show "rs_phase (end_task en n t rs s) = rs_phase s"
    using c [of "re_recorder en"] by (auto simp: end_task_def split: prod.splits sum.splits) (metis snd_conv)+
qed

lemma awaiting_not_finished: "awaiting s \<Longrightarrow> rs_phase s \<noteq> Finished"
  by (auto simp: awaiting_def)

lemma loop_turn_phase: "loop_turn en ds s = (Inr p, t) \<Longrightarrow> p = AtHead"
  by (auto simp: loop_turn_def ebind_ok eseq_ok eff_simps)

lemma step_done:
  assumes "run_step en w w'" "run_inv en pre bs (fst w)" "done_ok en (fst w)"
  shows "done_ok en (fst w')"
  using assms
proof (induction rule: run_step.induct)
  case (head s k)
  have ok: "run_ok en pre bs {} s" by (rule run_inv_ok [OF head(2) [simplified]]) (simp add: head)
  show ?case
    unfolding done_ok_def
  proof
    assume "rs_phase (fst (settle (loop_head en s), k)) = Finished"
    then obtain t where t: "loop_head en s = (Inr Finished, t)" "settle (loop_head en s) = t\<lparr>rs_phase := Finished\<rparr>"
      using settle_phase [of "loop_head en" s] by auto
    from wp_run [OF wp_loop_head_finish [OF ok] t(1)] t(2)
    show "rs_stop (fst (settle (loop_head en s), k)) \<or> run_complete en (fst (settle (loop_head en s), k))" by simp
  qed
next
  case (woken s keys rel ds k)
  then show ?case using settle_phase [of "loop_turn en ds" s] loop_turn_phase [of en ds s] by (auto simp: done_ok_def)
next
  case (woken_release s keys ids ds k)
  then show ?case using settle_phase [of "loop_turn en ds"] loop_turn_phase [of en ds] by (fastforce simp: done_ok_def)
next
  case (end_acc_task key s r k)
  then have "\<not> run_complete en s" by (auto simp: run_complete_def)
  then show ?case using end_acc_task by (simp add: done_ok_def end_acc_task_def)
qed (auto simp: done_ok_def abort_run_def task_phase dest: awaiting_not_finished)

lemma reachable_done:
  assumes "reachable_run en d sems store s" "run_setup en d"
  shows "done_ok en s"
  using assms
proof (induction rule: reachable_induct)
  case start
  have "rs_phase (initial_run en d sems store) \<noteq> Finished"
    by (auto simp: initial_run_def start_run_def ebind_ok eseq_ok eff_simps split: prod.splits sum.splits)
  then show ?case by (simp add: done_ok_def)
next
  case (step s k t k')
  then show ?case using step_done [of en "(s, k)" "(t, k')"] run_reachable_inv [OF step(1)] by fastforce
qed

section \<open>A run of two nodes\<close>

text \<open>The graph \<open>a\<close> to \<open>b\<close>: \<open>a\<close> returns 1, then \<open>b\<close> returns 2.\<close>

definition demo_cond :: cond_env where
  "demo_cond = \<lparr>ce_parse = (\<lambda>_. Inr (AConst (PBool True))), ce_custom = None, ce_attr = (\<lambda>_ _. PNone), ce_store = None\<rparr>"

definition demo_env :: run_env where
  "demo_env = \<lparr>re_graph = demo_graph, re_run = ''r'', re_nodes = [(''t'', demo_type)], re_dags = [],
     re_cond = demo_cond, re_allowed = {''a'', ''b''},
     re_inputs = \<lparr>ri_shared = PNone, ri_nodes = [], ri_append = {}\<rparr>,
     re_recorder = None, re_edge_recorder = None, re_emit = None, re_parse_emit = (\<lambda>_. Inl (OtherError []))\<rparr>"

definition demo_out :: "string \<Rightarrow> int \<Rightarrow> node_output" where
  "demo_out n i = \<lparr>no_name = n, no_ok = True, no_payload = PInt i, no_metadata = [], no_error = None\<rparr>"

definition demo_task :: "bool \<Rightarrow> task" where
  "demo_task b = \<lparr>tk_fan = None, tk_begun = b, tk_result = None\<rparr>"

text \<open>One node: the head of the loop, its task begins and ends, the turn that stores its result.\<close>

definition demo_mid :: "string \<Rightarrow> int \<Rightarrow> run_state \<Rightarrow> run_state" where
  "demo_mid n i s = end_task demo_env n (demo_task True) [Inr (demo_out n i)]
     (begin_task demo_env n (demo_task False) (settle (loop_head demo_env s)))"

definition demo_round :: "string \<Rightarrow> int \<Rightarrow> run_state \<Rightarrow> run_state" where
  "demo_round n i s = settle (loop_turn demo_env [n] (demo_mid n i s))"

definition demo_run :: run_state where
  "demo_run = settle (loop_head demo_env (demo_round ''b'' 2 (demo_round ''a'' 1 (initial_run demo_env [] [] None))))"

definition demo_round_ok :: "string \<Rightarrow> int \<Rightarrow> run_state \<Rightarrow> bool" where
  "demo_round_ok n i s =
     (let s1 = settle (loop_head demo_env s);
          s2 = begin_task demo_env n (demo_task False) s1;
          s3 = demo_mid n i s in
      rs_phase s = AtHead \<and> awaiting s1 \<and> dget (rs_running s1) n = Some (demo_task False)
      \<and> awaiting s2 \<and> dget (rs_running s2) n = Some (demo_task True)
      \<and> rs_phase s3 = AwaitTasks [] None \<and> dkeys (rs_running s3) = [n]
      \<and> list_all (\<lambda>kt. tk_result (snd kt) \<noteq> None) (rs_running s3))"

lemma single_done: "dkeys r = [n] \<Longrightarrow> list_all (\<lambda>kt. tk_result (snd kt) \<noteq> None) r \<Longrightarrow> rs_running s = r \<Longrightarrow> done_tasks s = {n}"
  by (auto simp: done_tasks_def)

lemma demo_round_steps:
  assumes "demo_round_ok n i s"
  shows "(run_step demo_env)\<^sup>*\<^sup>* (s, k) (demo_mid n i s, k)" "(run_step demo_env)\<^sup>*\<^sup>* (s, k) (demo_round n i s, k)"
    "awaiting (demo_mid n i s)" "done_tasks (demo_mid n i s) = {n}"
proof -
  let ?s1 = "settle (loop_head demo_env s)"
  let ?s2 = "begin_task demo_env n (demo_task False) ?s1"
  let ?s3 = "demo_mid n i s"
  have a: "rs_phase s = AtHead" "awaiting ?s1" "dget (rs_running ?s1) n = Some (demo_task False)"
    "awaiting ?s2" "dget (rs_running ?s2) n = Some (demo_task True)" "rs_phase ?s3 = AwaitTasks [] None" "done_tasks ?s3 = {n}"
    using assms single_done [OF _ _ refl, of ?s3 n] by (simp_all add: demo_round_ok_def Let_def)
  have "run_step demo_env (s, k) (?s1, k)" by (rule run_step.head [OF a(1)])
  moreover have "run_step demo_env (?s1, k) (?s2, k)" by (rule run_step.begin_task [OF a(2,3)]) (simp_all add: demo_task_def)
  moreover have "run_step demo_env (?s2, k) (?s3, k)"
    unfolding demo_mid_def by (rule run_step.end_task [OF a(4,5)]) (simp_all add: demo_task_def)
  ultimately show mid: "(run_step demo_env)\<^sup>*\<^sup>* (s, k) (?s3, k)"
    by (meson converse_rtranclp_into_rtranclp rtranclp.rtrancl_refl)
  have "run_step demo_env (?s3, k) (settle (loop_turn demo_env [n] ?s3), k)"
    by (rule run_step.woken [OF a(6)]) (simp_all add: a(7))
  then show "(run_step demo_env)\<^sup>*\<^sup>* (s, k) (demo_round n i s, k)"
    unfolding demo_round_def by (rule rtranclp.rtrancl_into_rtrancl [OF mid])
  show "awaiting ?s3" "done_tasks ?s3 = {n}" using a(6,7) by (simp_all add: awaiting_def)
qed

lemma demo_rounds_ok:
  "demo_round_ok ''a'' 1 (initial_run demo_env [] [] None)"
  "demo_round_ok ''b'' 2 (demo_round ''a'' 1 (initial_run demo_env [] [] None))"
  by code_simp+

lemma demo_run_end: "rs_phase (demo_round ''b'' 2 (demo_round ''a'' 1 (initial_run demo_env [] [] None))) = AtHead"
  by code_simp

lemma demo_reachable: "reachable_run demo_env [] [] None demo_run"
proof -
  let ?s = "initial_run demo_env [] [] None"
  have "(run_step demo_env)\<^sup>*\<^sup>* (?s, \<lambda>_. 0) (demo_round ''b'' 2 (demo_round ''a'' 1 ?s), \<lambda>_. 0)"
    by (rule rtranclp_trans [OF demo_round_steps(2) [OF demo_rounds_ok(1)] demo_round_steps(2) [OF demo_rounds_ok(2)]])
  moreover have "run_step demo_env (demo_round ''b'' 2 (demo_round ''a'' 1 ?s), \<lambda>_. 0) (demo_run, \<lambda>_. 0)"
    unfolding demo_run_def by (rule run_step.head [OF demo_run_end])
  ultimately show ?thesis unfolding reachable_run_def by (meson rtranclp.rtrancl_into_rtrancl)
qed

definition demo_half :: run_state where
  "demo_half = demo_mid ''a'' 1 (initial_run demo_env [] [] None)"

lemma demo_half_reachable: "reachable_run demo_env [] [] None demo_half"
  using demo_round_steps(1) [OF demo_rounds_ok(1)] unfolding demo_half_def reachable_run_def by blast

lemma demo_half_done: "awaiting demo_half" "set [''a''] = done_tasks demo_half"
  using demo_round_steps(3,4) [OF demo_rounds_ok(1)] by (simp_all add: demo_half_def)

lemma demo_half_turn: "fst (loop_turn demo_env [''a''] demo_half) = Inr AtHead"
  by code_simp

lemma demo_setup: "run_setup demo_env []"
  by (simp add: run_setup_def demo_env_def demo_graph_def)

lemma demo_run_tables:
  "rs_phase demo_run = Finished" "rs_stop demo_run = False"
  "rs_outputs demo_run = [(''a'', demo_out ''a'' 1), (''b'', demo_out ''b'' 2)]"
  "rs_routed demo_run = {(''a'', ''b'')}"
  by code_simp+

section \<open>The properties\<close>

text \<open>C10: In every reachable state of a run, also one that finished, raised or was cancelled: for a node that was not prefilled, the
  table of payloads has an entry exactly if the node has a successful output, and it is its payload; the table of failures has
  an entry exactly if it has a failed output, and it is its error text (or \<open>node failed\<close>). No node has two outputs.
  The graph and the prefilled outputs name each node once.\<close>

theorem run_results:
  assumes "reachable_run en d sems store s" "run_setup en d"
  shows "distinct (dkeys (rs_outputs s)) \<and> (\<forall>n. n \<notin> prefilled_nodes en d \<longrightarrow>
    (case dget (rs_outputs s) n of
       None \<Rightarrow> \<not> dhas (rs_payloads s) n \<and> \<not> dhas (rs_failures s) n
     | Some out \<Rightarrow> dget (rs_payloads s) n = (if no_ok out then Some (no_payload out) else None)
         \<and> dget (rs_failures s) n = (if no_ok out then None else Some (error_or (no_error out) ''node failed''))))"
  using run_inv_core [OF run_reachable_inv [OF assms]]
  by (auto simp: core_ok_def results_ok_def dhas_def split: option.splits)

theorem run_results_witness:
  "dget (rs_payloads demo_run) ''b'' = Some (PInt 2) \<and> dget (rs_failures demo_run) ''b'' = None"
proof -
  have "''b'' \<notin> prefilled_nodes demo_env []" by (simp add: prefilled_nodes_def)
  then show ?thesis using run_results [OF demo_reachable demo_setup]
    by (auto simp: demo_run_tables demo_out_def dest!: spec [of _ "''b''"])
qed

text \<open>C11: Nodes finish in the order of the graph. In every reachable state, a node with an output that was not prefilled has all its
  upstreams finished. Unless the run has failed, a node in the table of running nodes has all its upstreams finished, no output
  yet, is allowed and is marked as started. Calls of accumulate nodes that are streamed per upstream are not in that table and
  start earlier. The graph and the prefilled outputs name each node once.\<close>

theorem run_order:
  assumes "reachable_run en d sems store s" "run_setup en d"
  shows "(\<forall>n. dhas (rs_outputs s) n \<and> n \<notin> prefilled_nodes en d \<longrightarrow> all_upstreams_done en s n)
    \<and> ((\<forall>e. rs_phase s \<noteq> Failed e) \<longrightarrow> (\<forall>n. dhas (rs_running s) n \<longrightarrow>
          all_upstreams_done en s n \<and> \<not> dhas (rs_outputs s) n \<and> n \<in> re_allowed en \<and> n \<in> rs_started s))"
proof -
  note inv = run_reachable_inv [OF assms]
  have "run_ok en (prefilled_nodes en d) Map.empty {} s" if "\<forall>e. rs_phase s \<noteq> Failed e"
    using inv that by (auto simp: run_inv_def split: phase.splits)
  then have "\<forall>e. rs_phase s \<noteq> Failed e \<Longrightarrow> control_ok en {} s" by (blast dest: run_okD(2))
  then have "all_upstreams_done en s n \<and> \<not> dhas (rs_outputs s) n \<and> n \<in> re_allowed en \<and> n \<in> rs_started s"
    if "\<forall>e. rs_phase s \<noteq> Failed e" "dhas (rs_running s) n" for n
    using that unfolding control_ok_def active_def outs_def by blast
  then show ?thesis using run_inv_core [OF inv] by (auto simp: core_ok_def order_ok_def)
qed

theorem run_order_witness: "all_upstreams_done demo_env demo_run ''b'' \<and> preds demo_graph ''b'' = [''a'']"
proof -
  have "dhas (rs_outputs demo_run) ''b'' \<and> ''b'' \<notin> prefilled_nodes demo_env []"
    by (simp add: demo_run_tables dhas_def prefilled_nodes_def)
  then show ?thesis using run_order [OF demo_reachable demo_setup]
    by (auto simp: preds_def demo_graph_def dget_default_def)
qed

text \<open>In every reachable state an edge is routed only from a node with an output: from a successful one along an edge without
  condition or whose condition held of the payload in some state of the entity store, from a failed one along an optional edge.
  The graph and the prefilled outputs name each node once.\<close>

theorem run_routes:
  assumes "reachable_run en d sems store s" "run_setup en d" "(u, v) \<in> rs_routed s"
  shows "\<exists>out. dget (rs_outputs s) u = Some out \<and> v \<in> set (succs (re_graph en) u)
    \<and> (if no_ok out then (case dget (dg_conditions (re_graph en)) (u, v) of None \<Rightarrow> True
          | Some c \<Rightarrow> \<exists>st. evaluate_condition ((re_cond en)\<lparr>ce_store := st\<rparr>) c (no_payload out) = Inr True)
        else (u, v) \<in> dg_optional (re_graph en))"
  using run_inv_core [OF run_reachable_inv [OF assms(1,2)]] assms(3) by (simp add: core_ok_def routes_ok_def route_ok_def)

theorem run_routes_witness:
  "\<exists>out. dget (rs_outputs demo_run) ''a'' = Some out \<and> ''b'' \<in> set (succs (re_graph demo_env) ''a'')"
proof -
  have "(''a'', ''b'') \<in> rs_routed demo_run" by (simp add: demo_run_tables)
  from run_routes [OF demo_reachable demo_setup this] show ?thesis by blast
qed

text \<open>An output never changes once it is stored, so no node is executed twice in a run.\<close>

theorem outputs_final:
  assumes "reachable_run en d sems store s" "run_setup en d" "run_step en (s, k) (t, k')"
    "dget (rs_outputs s) n = Some out"
  shows "dget (rs_outputs t) n = Some out"
proof -
  have "run_inv en (prefilled_nodes en d) (dget (rs_outputs s)) s"
    using run_reachable_inv [OF assms(1,2)] by (auto simp: run_inv_def run_ok_def core_ok_def frozen_ok_def split: phase.splits)
  then have "core_ok en (prefilled_nodes en d) (dget (rs_outputs s)) t"
    using run_step_inv [OF assms(3)] run_inv_core by fastforce
  then show ?thesis using assms(4) by (auto simp: core_ok_def frozen_ok_def map_le_def dom_def)
qed

theorem outputs_final_witness:
  "dget (rs_outputs (demo_run\<lparr>rs_stop := True\<rparr>)) ''a'' = Some (demo_out ''a'' 1)"
  by (rule outputs_final [OF demo_reachable demo_setup run_step.stop [of demo_env demo_run "\<lambda>_. 0"]])
    (simp add: demo_run_tables)

text \<open>C25: A run that finished without being stopped left nothing undone that the loop could start: no task is pending, and each
  allowed node that is not an accumulate node has its output unless an upstream has none or succeeded without routing the edge
  to it. (An accumulate node is completed only after a successful upstream and may be left without output.) The graph and the
  prefilled outputs name each node once.\<close>

theorem finished_run_complete:
  assumes "reachable_run en d sems store s" "run_setup en d" "rs_phase s = Finished" "\<not> rs_stop s"
  shows "rs_running s = [] \<and> pending_acc s = [] \<and> (\<forall>n \<in> set (dg_nodes (re_graph en)).
    n \<in> re_allowed en \<and> \<not> accumulates (re_graph en) n \<longrightarrow>
      dhas (rs_outputs s) n \<or> (\<exists>u \<in> set (preds (re_graph en) n). \<not> dhas (rs_outputs s) u)
      \<or> (\<exists>u \<in> set (preds (re_graph en) n). \<exists>out. dget (rs_outputs s) u = Some out \<and> no_ok out
           \<and> (u, n) \<notin> rs_routed s))"
  using reachable_done [OF assms(1,2)] assms(3,4) by (simp add: done_ok_def run_complete_def)

theorem finished_run_complete_witness: "rs_running demo_run = [] \<and> pending_acc demo_run = []"
  using finished_run_complete [OF demo_reachable demo_setup] by (simp add: demo_run_tables)

text \<open>C35: Each turn of the loop makes progress: if it does not raise, every task that was done has its output
  stored afterwards, none of them had one before, and no output is lost.\<close>

theorem turn_progress:
  assumes "reachable_run en d sems store s" "run_setup en d" "awaiting s" "distinct ds" "set ds = done_tasks s"
    "loop_turn en ds s = (Inr p, t)"
  shows "set ds \<inter> outs s = {} \<and> outs s \<union> set ds \<subseteq> outs t \<and> p = AtHead"
proof -
  let ?pre = "prefilled_nodes en d"
  have ok: "run_ok en ?pre Map.empty {} s" by (rule run_inv_ok [OF run_reachable_inv [OF assms(1,2)]]) (use assms in simp)
  then have ok': "run_ok en ?pre (dget (rs_outputs s)) {} s" by (simp add: run_ok_def core_ok_def frozen_ok_def)
  have ds: "\<forall>n \<in> set ds. dhas (rs_running s) n" using assms(5) by (auto simp: done_tasks_def dhas_def)
  from wp_run [OF wp_loop_turn [OF ok' assms(4) ds] assms(6)]
  have t: "run_ok en ?pre (dget (rs_outputs s)) {} t" "set ds \<subseteq> outs t" by auto
  have "outs s \<subseteq> outs t" using frozen_dom [OF run_okD(1) [OF t(1)]] by (auto simp: outs_def dhas_def dom_def)
  moreover have "set ds \<inter> outs s = {}" using run_okD(2) [OF ok] ds by (auto simp: control_ok_def active_def)
  ultimately show ?thesis using t(2) loop_turn_phase [OF assms(6)] by auto
qed

theorem turn_progress_witness:
  "''a'' \<in> outs (snd (loop_turn demo_env [''a''] demo_half)) \<and> ''a'' \<notin> outs demo_half"
  using turn_progress [OF demo_half_reachable demo_setup demo_half_done(1) _ demo_half_done(2) 
      surjective_pairing [of "loop_turn demo_env [''a''] demo_half", unfolded demo_half_turn]] by simp

end
