(* ===== verification/RunRefine.thy ===== *)
theory RunRefine
  imports RunProps
begin

text \<open>
  A run refines data flow: forgetting its tasks, resources, routes and records, what a run does to its table of
  outputs is a sequence of firings. A firing gives one node without output an output, once all its upstreams
  have theirs.
\<close>

section \<open>The specification\<close>

type_synonym firing_state = "string \<Rightarrow> node_output option"

inductive fire :: "dag_graph \<Rightarrow> firing_state \<Rightarrow> firing_state \<Rightarrow> bool" for g where
  fire: "n \<notin> dom m \<Longrightarrow> set (preds g n) \<subseteq> dom m \<Longrightarrow> fire g m (m(n \<mapsto> out))"

inductive_cases fireE: "fire g m m'"

lemma fire_extends: "fire g m m' \<Longrightarrow> m \<subseteq>\<^sub>m m'"
  by (auto elim!: fireE simp: map_le_def)

lemma fires_extend: "(fire g)\<^sup>*\<^sup>* m m' \<Longrightarrow> m \<subseteq>\<^sub>m m'"
  by (induction rule: rtranclp_induct) (auto intro: map_le_trans fire_extends)

text \<open>A larger table of outputs whose new nodes have all their upstreams is reached by firings, in an order
  along the graph.\<close>

lemma fire_all:
  assumes "wf (edge_rel g)" "\<And>n u. u \<in> set (preds g n) \<Longrightarrow> (u, n) \<in> edge_rel g"
    and "finite (dom m')" "m \<subseteq>\<^sub>m m'" "\<And>n. n \<in> dom m' - dom m \<Longrightarrow> set (preds g n) \<subseteq> dom m'"
  shows "(fire g)\<^sup>*\<^sup>* m m'"
  using assms(4,5)
proof (induction "card (dom m' - dom m)" arbitrary: m)
  case 0
  then have "dom m' - dom m = {}" using assms(3) by simp
  then have d: "dom m' \<subseteq> dom m" by blast
  have "m x = m' x" for x
  proof (cases "m' x")
    case None
    then show ?thesis using 0(2) by (metis domIff map_le_def)
  next
    case (Some y)
    then show ?thesis using 0(2) d by (metis domI map_le_def subsetD)
  qed
  then have "m = m'" by blast
  then show ?case by simp
next
  case (Suc k)
  then obtain n0 where "n0 \<in> dom m' - dom m" by (metis card.empty ex_in_conv nat.distinct(1))
  with assms(1) obtain n where n: "n \<in> dom m' - dom m" and min: "\<And>u. (u, n) \<in> edge_rel g \<Longrightarrow> u \<notin> dom m' - dom m"
    by (rule wfE_min) blast
  obtain out where out: "m' n = Some out" using n by blast
  let ?m = "m(n \<mapsto> out)"
  have "set (preds g n) \<subseteq> dom m" using Suc.prems(2) [OF n] min assms(2) by blast
  then have "fire g m ?m" using n by (intro fire.fire) auto
  moreover have "(fire g)\<^sup>*\<^sup>* ?m m'"
  proof (rule Suc.hyps(1))
    have "dom m' - dom ?m = (dom m' - dom m) - {n}" by auto
    then show "k = card (dom m' - dom ?m)" using Suc.hyps(2) n assms(3) by simp
    show "?m \<subseteq>\<^sub>m m'" using Suc.prems(1) out by (auto simp: map_le_def)
  qed (use Suc.prems(2) in auto)
  ultimately show ?case by (rule converse_rtranclp_into_rtranclp)
qed

section \<open>The steps of a run\<close>

lemma settled_step_outputs:
  assumes "run_step en (s, k) (t, k')" "\<not> awaiting s" "rs_phase s \<noteq> AtHead"
  shows "rs_outputs t = rs_outputs s"
  using assms
proof (cases rule: run_step.cases)
  case (end_acc_task key r)
  then show ?thesis using tables_release [of "s\<lparr>rs_acc := map (\<lambda>(d, ts). (d, set_acc_result key r ts)) (rs_acc s)\<rparr>" key]
    by (simp add: end_acc_task_def same_tables_def)
qed (use assms(2,3) in \<open>simp_all add: awaiting_def\<close>)

lemma step_fires:
  assumes r: "reachable_run en d sems store s" "run_setup en d" and st: "run_step en (s, k) (t, k')"
    and wf: "wf_graph (re_graph en)" "acyclic (edge_rel (re_graph en))"
  shows "(fire (re_graph en))\<^sup>*\<^sup>* (dget (rs_outputs s)) (dget (rs_outputs t))"
proof (cases "awaiting s \<or> rs_phase s = AtHead")
  case True
  let ?pre = "prefilled_nodes en d"
  note inv = run_reachable_inv [OF r]
  have pre: "?pre \<subseteq> outs s" using run_inv_ok [OF inv True] by (simp add: run_ok_def)
  have "run_inv en ?pre (dget (rs_outputs s)) s"
    using inv by (auto simp: run_inv_def run_ok_def core_ok_def frozen_ok_def split: phase.splits)
  then have c: "core_ok en ?pre (dget (rs_outputs s)) t" using run_step_inv [OF st] run_inv_core by fastforce
  show ?thesis
  proof (rule fire_all)
    show "wf (edge_rel (re_graph en))" by (rule finite_acyclic_wf [OF finite_edge_rel [OF wf(1)] wf(2)])
    show "u \<in> set (preds (re_graph en) n) \<Longrightarrow> (u, n) \<in> edge_rel (re_graph en)" for u n
      using wf_graph_preds [OF wf(1)] by (simp add: edge_rel_def)
    show "finite (dom (dget (rs_outputs t)))" by (rule finite_dom_map_of)
    show "dget (rs_outputs s) \<subseteq>\<^sub>m dget (rs_outputs t)" using c by (simp add: core_ok_def frozen_ok_def)
    fix n assume n: "n \<in> dom (dget (rs_outputs t)) - dom (dget (rs_outputs s))"
    then have "n \<notin> ?pre" using pre by (auto simp: outs_def dhas_def)
    then have "all_upstreams_done en t n" using c n by (auto simp: core_ok_def order_ok_def dhas_def)
    then show "set (preds (re_graph en) n) \<subseteq> dom (dget (rs_outputs t))"
      by (auto simp: all_upstreams_done_def list_all_iff dhas_def)
  qed
next
  case False
  then show ?thesis using settled_step_outputs [OF st] by simp
qed

section \<open>The start\<close>

definition fills :: "string set \<Rightarrow> (run_state, 'a) eff \<Rightarrow> bool" where
  "fills pre m = effect_order.stays (\<lambda>s t. outs t \<subseteq> outs s \<union> pre) m"

lemma fills_order: "effect_order (\<lambda>s t. outs t \<subseteq> outs s \<union> pre)"
  by unfold_locales auto

lemmas fills_intros = effect_order.stays_ebind [OF fills_order, folded fills_def] effect_order.stays_eseq [OF fills_order, folded fills_def]
  effect_order.stays_eret [OF fills_order, folded fills_def] effect_order.stays_eget [OF fills_order, folded fills_def]
  effect_order.stays_elift [OF fills_order, folded fills_def] effect_order.stays_ewhen [OF fills_order, folded fills_def]
  effect_order.stays_efor [OF fills_order, folded fills_def] effect_order.stays_emod [OF fills_order, folded fills_def]

lemma fills_tables: "tables.stays m \<Longrightarrow> fills pre m"
  unfolding fills_def effect_order.stays_def [OF fills_order] tables.stays_def
  by (simp add: same_tables_def outs_def)

lemma fills_routed: "fills pre (routed_edges en n p)" "fills pre (add_routed es)"
  unfolding routed_edges_def add_routed_def
  by (intro fills_intros; simp add: outs_def)+

lemma fills_start_run: "fills (prefilled_nodes en d) (start_run en d)"
proof -
  have p: "fills (prefilled_nodes en d) (prefill_one en kv)" if "kv \<in> set d" for kv
  proof (cases "dhas (dg_instances (re_graph en)) (fst kv)")
    case True
    then have "fst kv \<in> prefilled_nodes en d" using that by (auto simp: prefilled_nodes_def)
    then show ?thesis using True
      by (auto simp: prefill_one_def outs_def intro!: fills_intros fills_routed)
  next
    case False
    then show ?thesis by (simp add: prefill_one_def fills_intros)
  qed
  have s: "fills (prefilled_nodes en d) (start_source en n)" for n
    unfolding start_source_def
    by (auto simp: start_node_def mark_started_def outs_def intro!: fills_intros fills_tables [OF tables_acquire_start])
  show ?thesis unfolding start_run_def by (intro fills_intros p s) (simp_all add: outs_def)
qed

lemma initial_outputs: "dom (dget (rs_outputs (initial_run en d sems store))) \<subseteq> prefilled_nodes en d"
proof -
  have "outs (snd (start_run en d (fresh_run sems store))) \<subseteq> outs (fresh_run sems store) \<union> prefilled_nodes en d"
    using fills_start_run [of en d] by (simp add: fills_def effect_order.stays_def [OF fills_order])
  moreover have "outs (fresh_run sems store) = {}" by (simp add: outs_def fresh_run_def)
  moreover have "rs_outputs (initial_run en d sems store) = rs_outputs (snd (start_run en d (fresh_run sems store)))"
    by (auto simp: initial_run_def split: prod.splits sum.splits)
  ultimately show ?thesis by (auto simp: outs_def dhas_def)
qed

section \<open>The refinement\<close>

text \<open>C2: A run refines data flow: the outputs of every reachable state arise from prefilled ones by firings of
  single nodes, each fired at most once and only after all its upstreams, and each step of the run is a
  sequence of such firings.\<close>

theorem run_refines_dataflow:
  assumes "reachable_run en d sems store s" "run_setup en d" "wf_graph (re_graph en)" "acyclic (edge_rel (re_graph en))"
  shows "(\<exists>m. dom m \<subseteq> prefilled_nodes en d \<and> (fire (re_graph en))\<^sup>*\<^sup>* m (dget (rs_outputs s)))
    \<and> (\<forall>k t k'. run_step en (s, k) (t, k') \<longrightarrow> (fire (re_graph en))\<^sup>*\<^sup>* (dget (rs_outputs s)) (dget (rs_outputs t)))"
proof -
  have "(fire (re_graph en))\<^sup>*\<^sup>* (dget (rs_outputs (initial_run en d sems store))) (dget (rs_outputs s))"
    using assms(1)
  proof (induction rule: reachable_induct)
    case (step s k t k')
    then show ?case using step_fires [OF step(1) assms(2) step(2) assms(3,4)] by (meson rtranclp_trans)
  qed simp
  then show ?thesis using initial_outputs step_fires [OF assms(1,2) _ assms(3,4)] by blast
qed

theorem run_refines_dataflow_witness:
  "\<exists>m. dom m = {} \<and> (fire demo_graph)\<^sup>*\<^sup>* m (dget (rs_outputs demo_run)) \<and> card (dom (dget (rs_outputs demo_run))) = 2"
proof -
  have g: "re_graph demo_env = demo_graph" by (simp add: demo_env_def)
  have p: "prefilled_nodes demo_env [] = {}" by (simp add: prefilled_nodes_def)
  have c: "card (dom (dget (rs_outputs demo_run))) = 2" by (simp add: demo_run_tables)
  from run_refines_dataflow [OF demo_reachable demo_setup, unfolded g, OF load_graph_wf(1,2) [OF load_demo]] c p
  show ?thesis by auto
qed

end
