(* ===== verification/RunPermits.thy ===== *)
theory RunPermits
  imports RunProps
begin

text \<open>
  The permits of a run: every key under which the run holds a permit is that of a running node, of a finished one
  that is about to be stored, or of a pending task of an accumulate node; so nothing is held once the run is over.
\<close>

section \<open>Keys of permits\<close>

definition held :: "run_state \<Rightarrow> string set" where
  "held s = {k. dhas (rs_acquired s) k}"

lemma held_release [simp]: "held (release_resource k s) = held s - {k}"
  by (auto simp: held_def release_resource_def dhas_def split: option.splits if_splits)

lemma held_release_all [simp]: "held (release_all s) = {}"
proof -
  have "held (fold release_resource ks t) = held t - set ks" for ks t
    by (induction ks arbitrary: t) auto
  then show ?thesis by (auto simp: release_all_def held_def dhas_keys)
qed


definition pending :: "run_state \<Rightarrow> string set" where
  "pending s = set (pending_acc s)"


definition holding :: "run_env \<Rightarrow> string set \<Rightarrow> run_state \<Rightarrow> bool" where
  "holding en P s = (held s \<subseteq> active P s \<union> pending s \<and> distinct (dkeys (rs_acc s))
     \<and> (\<forall>n. dhas (rs_acc s) n \<longrightarrow> accumulates (re_graph en) n \<and> preds (re_graph en) n \<noteq> [] \<and> n \<notin> outs s)
     \<and> (\<forall>n \<in> active P s. accumulates (re_graph en) n \<longrightarrow> preds (re_graph en) n = []))"

section \<open>Operations that hold the same permits\<close>

definition same_held :: "run_state \<Rightarrow> run_state \<Rightarrow> bool" where
  "same_held s t = (same_tables s t \<and> rs_acquired t = rs_acquired s)"

interpretation holds: effect_order same_held
  by unfold_locales (auto simp: same_held_def intro: tables.R_trans)




lemma holds_available [intro]: "holds.stays (resource_available i)"
  unfolding resource_available_def
  by (auto split: option.splits intro!: holds.stays_ebind holds.stays_emod simp: same_held_def same_tables_def)










section \<open>Acquiring and storing\<close>



lemma holding_upd [simp]:
  "holding en P (s\<lparr>rs_started := x1\<rparr>) = holding en P s" "holding en P (s\<lparr>rs_phase := x2\<rparr>) = holding en P s"
  "holding en P (s\<lparr>rs_sems := x3\<rparr>) = holding en P s" "holding en P (s\<lparr>rs_stop := x4\<rparr>) = holding en P s"
  "holding en P (s\<lparr>rs_store := x5\<rparr>) = holding en P s" "holding en P (s\<lparr>rs_routed := x6\<rparr>) = holding en P s"
  by (simp_all add: holding_def held_def active_def pending_def pending_acc_def outs_def)


section \<open>The operations of the loop\<close>









section \<open>Accumulate nodes\<close>








section \<open>Turns of the loop\<close>




definition permits_ok :: "run_env \<Rightarrow> run_state \<Rightarrow> bool" where
  "permits_ok en s = (case rs_phase s of Failed _ \<Rightarrow> held s = {}
     | Finished \<Rightarrow> held s \<subseteq> pending s \<and> (rs_stop s \<or> held s = {})
     | _ \<Rightarrow> holding en {} s)"


section \<open>Every step of a run\<close>






lemma permits_upd [simp]:
  "permits_ok en (s\<lparr>rs_sems := x1\<rparr>) = permits_ok en s" "permits_ok en (s\<lparr>rs_store := x2\<rparr>) = permits_ok en s"
  by (simp_all add: permits_ok_def held_def pending_def pending_acc_def cong: phase.case_cong)





section \<open>The start of a run\<close>





section \<open>The property\<close>



end
