(* ===== verification/NodeModels.thy ===== *)
theory NodeModels
  imports RunValues EntityStore Effects
begin

text \<open>
  \<open>node/models.py\<close>: the context a node runs in and its guarded access to the entity store; \<open>node/sessions.py\<close>:
  session references and the directories they stand for. A path is the list of its components.
\<close>

record node_context =
  cx_run :: string
  cx_instance :: string
  cx_type :: string
  cx_dag :: string
  cx_permissions :: pyval

definition bare_context :: "string \<Rightarrow> string \<Rightarrow> string \<Rightarrow> string \<Rightarrow> node_context" where
  "bare_context run inst ty dag = \<lparr>cx_run = run, cx_instance = inst, cx_type = ty, cx_dag = dag, cx_permissions = PNone\<rparr>"

section \<open>Guarded access to entities\<close>

text \<open>The entity store of the context is \<open>None\<close> or the store these operations read and change.\<close>

type_synonym 'a store_act = "(estore option, 'a) eff"

definition type_of_entity :: "estore \<Rightarrow> entity \<Rightarrow> etype res" where
  "type_of_entity st e = lookup_key (es_types st) (en_type e)"

definition readable_attributes :: "etype \<Rightarrow> (string, pyval) dict option \<Rightarrow> (string, pyval) dict \<Rightarrow> (string, pyval) dict" where
  "readable_attributes t ov attrs = filter (\<lambda>kv. can_read (field_permission t (fst kv) ov)) attrs"

definition get_entity :: "node_context \<Rightarrow> string \<Rightarrow> estore option \<Rightarrow> entity option res" where
  "get_entity cx ref store = (case store of None \<Rightarrow> Inr None
     | Some st \<Rightarrow> rbind (resolve st ref None) (\<lambda>e. rbind (type_of_entity st e) (\<lambda>t.
         Inr (Some (e\<lparr>en_attrs := readable_attributes t (type_overrides (en_type e) (cx_permissions cx)) (en_attrs e)\<rparr>)))))"

definition on_store :: "(estore \<Rightarrow> 'a res \<times> estore) \<Rightarrow> 'a option store_act" where
  "on_store f s = (case s of None \<Rightarrow> (Inr None, None)
     | Some st \<Rightarrow> (case f st of (Inl e, st') \<Rightarrow> (Inl e, Some st') | (Inr a, st') \<Rightarrow> (Inr (Some a), Some st')))"

definition save_entity :: "node_context \<Rightarrow> entity \<Rightarrow> entity option store_act" where
  "save_entity cx e = on_store (save e (cx_permissions cx))"

definition create_entity :: "string \<Rightarrow> (string, pyval) dict \<Rightarrow> string \<Rightarrow> entity option store_act" where
  "create_entity ty attrs fresh = on_store (create ty attrs None fresh)"

definition field_right :: "node_context \<Rightarrow> estore \<Rightarrow> entity \<Rightarrow> string \<Rightarrow> perm res" where
  "field_right cx st e f = rbind (type_of_entity st e)
     (\<lambda>t. Inr (field_permission t f (type_overrides (en_type e) (cx_permissions cx))))"

definition read_entity_field :: "node_context \<Rightarrow> string \<Rightarrow> string \<Rightarrow> estore option \<Rightarrow> pyval res" where
  "read_entity_field cx ref f store = rbind (get_entity cx ref store) (\<lambda>r.
     case (r, store) of
       (Some e, Some st) \<Rightarrow> rbind (field_right cx st e f) (\<lambda>p.
          Inr (if can_read p then aget (en_attrs e) f else PNone))
     | _ \<Rightarrow> Inr PNone)"

definition write_entity_field :: "node_context \<Rightarrow> string \<Rightarrow> string \<Rightarrow> pyval \<Rightarrow> bool store_act" where
  "write_entity_field cx ref f v = ebind (eget (\<lambda>s. s)) (\<lambda>store. ebind (elift (get_entity cx ref store)) (\<lambda>r.
     case (r, store) of
       (Some e, Some st) \<Rightarrow> ebind (elift (field_right cx st e f)) (\<lambda>p.
          if \<not> can_write p then eret False
          else ebind (save_entity cx (e\<lparr>en_attrs := dset (en_attrs e) f v\<rparr>)) (\<lambda>_. eret True))
     | _ \<Rightarrow> eret False))"

section \<open>Session references\<close>

text \<open>The regular expression \<open>^([^/@]+)/([^/@]+)@(latest|list)$\<close>; the \<open>$\<close> also matches before a final line break.\<close>

definition plain_part :: "string \<Rightarrow> bool" where
  "plain_part s = (s \<noteq> [] \<and> list_all (\<lambda>c. c \<noteq> CHR ''/'' \<and> c \<noteq> CHR ''@'') s)"

definition mode_text :: "string \<Rightarrow> string option" where
  "mode_text s = (let t = (if s \<noteq> [] \<and> last s = CHR 0x0A then butlast s else s) in
     if t = ''latest'' \<or> t = ''list'' then Some t else None)"

definition cross_dag_match :: "string \<Rightarrow> (string \<times> string \<times> string) option" where
  "cross_dag_match v = (case split_on (CHR ''@'') v of
     [ref, m] \<Rightarrow> (case (split_on (CHR ''/'') ref, mode_text m) of
        ([d, g], Some mode) \<Rightarrow> if plain_part d \<and> plain_part g then Some (d, g, mode) else None
      | _ \<Rightarrow> None)
   | _ \<Rightarrow> None)"

definition parse_session_reference :: "string option \<Rightarrow> (string \<times> string \<times> string option) res" where
  "parse_session_reference v = (case or_str v None of None \<Rightarrow> Inr ([], [], None)
     | Some s \<Rightarrow> (case cross_dag_match s of Some (d, g, m) \<Rightarrow> Inr (d, g, Some m)
       | None \<Rightarrow> if CHR ''/'' \<notin> set s \<and> CHR ''@'' \<notin> set s then Inr ([], s, None)
           else Inl (ValueError (''Invalid session reference format: '' @ s))))"

type_synonym path = "string list"

definition resolve_session_path :: "path \<Rightarrow> string \<Rightarrow> string \<Rightarrow> string \<Rightarrow> string option \<Rightarrow> path res" where
  "resolve_session_path base dag inst run v = rbind (parse_session_reference v) (\<lambda>(d, g, m).
     if or_str v None = None then Inr (base @ [''sessions'', dag, inst, run])
     else if d = [] then Inr (base @ [''sessions'', dag, g, run])
     else Inl (ValueError (''Cross-DAG session reference requires registry resolution: '' @ the v)))"

definition invocation_dir :: "path \<Rightarrow> string \<Rightarrow> path" where
  "invocation_dir dir node = dir @ [''invocations'', node]"

end
