(* ===== verification/RunTasks.thy ===== *)
theory RunTasks
  imports RunLoop NodeModels
begin

text \<open>
  What a task of a run executes (\<open>dag/runner.py\<close>): one node with its loop, its fallback model or its sub-DAG.
  The node executor, the semaphores, the run of a child DAG and the life-cycle callback are parameters
  (\<open>task_env\<close>) over a state \<open>'w\<close>; the runner's own part of the state is the table of instances the executor
  looks into.
\<close>

section \<open>The surroundings of a task\<close>

record run_result =
  rr_run :: string
  rr_outputs :: "(string, node_output) dict"
  rr_failures :: "(string, string) dict"
  rr_payload :: pyval
  rr_warnings :: "string list"

definition run_result_ok :: "run_result \<Rightarrow> bool" where
  "run_result_ok r = (rr_outputs r \<noteq> [] \<and> \<not> list_all (\<lambda>kv. \<not> no_ok (snd kv)) (rr_outputs r))"

definition result_of_run :: "run_env \<Rightarrow> run_state \<Rightarrow> run_result" where
  "result_of_run en s = \<lparr>rr_run = re_run en, rr_outputs = rs_outputs s, rr_failures = rs_failures s,
     rr_payload = last_payload en s, rr_warnings = rs_warnings s\<rparr>"

record 'w task_state =
  ts_instances :: "(string, node_inst) dict"
  ts_world :: 'w

type_synonym ('w, 'a) task_act = "('w task_state, 'a) eff"

record 'w task_env =
  te_dags :: "(string, dag_cfg) dict"
  te_nodes :: "(string, node_cfg) dict"
  te_depth :: int
  te_path :: "path_step list"
  te_max_depth :: int
  te_cond :: cond_env
  te_execute :: "string \<Rightarrow> node_input \<Rightarrow> node_context \<Rightarrow> ('w, node_output) task_act"
  te_semaphore :: "string \<Rightarrow> ('w, unit) task_act"
  te_acquire :: "string \<Rightarrow> ('w, unit) task_act"
  te_release :: "string \<Rightarrow> 'w task_state \<Rightarrow> 'w task_state"
  te_fresh_run :: "('w, string) task_act"
  te_lifecycle :: "(string \<Rightarrow> string \<Rightarrow> string \<Rightarrow> string option \<Rightarrow> ('w, unit) task_act) option"
  te_run_child :: "dag_graph \<Rightarrow> string \<Rightarrow> int \<Rightarrow> path_step list \<Rightarrow> run_inputs \<Rightarrow> ('w, run_result) task_act"

section \<open>Fallback to another model\<close>

definition dict_or_empty :: "pyval \<Rightarrow> (string, pyval) dict" where
  "dict_or_empty v = (case v of PDict d \<Rightarrow> d | _ \<Rightarrow> [])"

definition with_model :: "node_inst \<Rightarrow> string \<Rightarrow> node_inst" where
  "with_model i m = (let ps = dset (dict_or_empty (aget (ni_config i) ''parameters'')) ''model'' (PStr m) in
     i\<lparr>ni_config := dset (dset (ni_config i) ''model'' (PStr m)) ''parameters'' (PDict ps)\<rparr>)"

definition set_instance :: "string \<Rightarrow> node_inst \<Rightarrow> 'w task_state \<Rightarrow> 'w task_state" where
  "set_instance k i s = s\<lparr>ts_instances := dset (ts_instances s) k i\<rparr>"

definition restore_instance :: "string \<Rightarrow> node_inst option \<Rightarrow> 'w task_state \<Rightarrow> 'w task_state" where
  "restore_instance k current s = (case current of None \<Rightarrow> s | Some i \<Rightarrow> set_instance k i s)"

definition fallback :: "'w task_env \<Rightarrow> node_inst \<Rightarrow> node_input \<Rightarrow> node_context \<Rightarrow> node_output \<Rightarrow> ('w, node_output) task_act" where
  "fallback te i inp cx out = (if no_ok out then eret out
     else (case (if ni_switch_model i then or_str (ni_fallback_model i) None else None) of
       None \<Rightarrow> eret out
     | Some m \<Rightarrow> ebind (eget (\<lambda>s. dget (ts_instances s) (ni_id i))) (\<lambda>current.
         ebind (emod (set_instance (ni_id i) (with_model i m))) (\<lambda>_.
         efinally (te_execute te (ni_id i) inp cx) (restore_instance (ni_id i) current)))))"

section \<open>Loops\<close>

definition loop_count :: "loop_cfg \<Rightarrow> nat" where
  "loop_count lp = (case lp_count lp of None \<Rightarrow> 1 | Some k \<Rightarrow> k)"

definition iteration_context :: "node_context \<Rightarrow> string \<Rightarrow> nat \<Rightarrow> node_context" where
  "iteration_context cx node k = bare_context (cx_run cx) (node @ '':'' @ nat_str k) (cx_type cx) (cx_dag cx)"

text \<open>One iteration holds the permit while the node executes and gives it back in any case.\<close>

definition run_iteration :: "'w task_env \<Rightarrow> string option \<Rightarrow> string \<Rightarrow> node_input \<Rightarrow> node_context \<Rightarrow> ('w, node_output) task_act" where
  "run_iteration te res node inp cx = (case res of
     None \<Rightarrow> te_execute te node inp cx
   | Some r \<Rightarrow> ebind (te_acquire te r) (\<lambda>_. efinally (te_execute te node inp cx) (te_release te r)))"

definition loop_semaphore :: "'w task_env \<Rightarrow> node_inst \<Rightarrow> ('w, string option) task_act" where
  "loop_semaphore te i = (case or_str (ni_resource i) None of None \<Rightarrow> eret None
     | Some r \<Rightarrow> ebind (te_semaphore te r) (\<lambda>_. eret (Some r)))"

definition until_holds :: "cond_env \<Rightarrow> string option \<Rightarrow> pyval \<Rightarrow> bool res" where
  "until_holds ce u p = (case or_str u None of None \<Rightarrow> Inr False | Some c \<Rightarrow> evaluate_condition ce c p)"

definition no_loop_output :: "string \<Rightarrow> node_output" where
  "no_loop_output node = \<lparr>no_name = node, no_ok = False, no_payload = PNone, no_metadata = [],
     no_error = Some ''loop produced no output''\<rparr>"

text \<open>The loop over \<open>range(count)\<close>: the index, the iterations that are left, the input and the last output.\<close>

fun serial_from :: "'w task_env \<Rightarrow> string option \<Rightarrow> string option \<Rightarrow> string \<Rightarrow> node_context \<Rightarrow> nat \<Rightarrow> nat \<Rightarrow> node_input
    \<Rightarrow> node_output option \<Rightarrow> ('w, node_output) task_act" where
  "serial_from te res u node cx k 0 inp prev = eret (case prev of None \<Rightarrow> no_loop_output node | Some out \<Rightarrow> out)"
| "serial_from te res u node cx k (Suc left) inp prev =
     ebind (run_iteration te res node inp (iteration_context cx node k)) (\<lambda>out.
     if \<not> no_ok out then eret out
     else ebind (elift (until_holds (te_cond te) u (no_payload out))) (\<lambda>b.
       if b then eret out
       else serial_from te res u node cx (Suc k) left (inp\<lparr>in_payload := no_payload out\<rparr>) (Some out)))"

definition execute_serial_loop :: "'w task_env \<Rightarrow> node_inst \<Rightarrow> loop_cfg \<Rightarrow> string \<Rightarrow> node_input \<Rightarrow> node_context
    \<Rightarrow> ('w, node_output) task_act" where
  "execute_serial_loop te i lp node inp cx = ebind (loop_semaphore te i) (\<lambda>res.
     serial_from te res (lp_until lp) node cx 0 (loop_count lp) inp None)"

text \<open>The parallel loop meets its iterations in the order in which they complete; \<open>None\<close> stands for one that
  was cancelled. An exception of an iteration or of the condition leaves the loop.\<close>

fun collect_completed :: "(pyval \<Rightarrow> bool res) \<Rightarrow> (node_output res) option list \<Rightarrow> node_output list \<Rightarrow> (node_output list \<times> bool) res" where
  "collect_completed until [] seen = Inr (seen, False)"
| "collect_completed until (None # cs) seen = collect_completed until cs seen"
| "collect_completed until (Some (Inl e) # cs) seen = Inl e"
| "collect_completed until (Some (Inr out) # cs) seen =
     (if no_ok out then rbind (until (no_payload out)) (\<lambda>b.
        if b then Inr ([out], True) else collect_completed until cs (seen @ [out]))
      else collect_completed until cs (seen @ [out]))"

definition parallel_output :: "string \<Rightarrow> node_output list \<Rightarrow> bool \<Rightarrow> node_output" where
  "parallel_output node rs matched =
     (let failures = failures_of (\<lambda>k. node @ '':'' @ nat_str k) ''iteration failed'' rs in
      merged_output node (ok_payloads rs)
        [(''loop_failures'', PDict (map (\<lambda>(k, e). (k, PStr e)) failures)), (''loop_until_matched'', PBool matched)]
        failures ''loop produced no output'')"

definition parallel_loop_result :: "cond_env \<Rightarrow> loop_cfg \<Rightarrow> string \<Rightarrow> (node_output res) option list \<Rightarrow> node_output res" where
  "parallel_loop_result ce lp node cs =
     rbind (collect_completed (until_holds ce (lp_until lp)) cs []) (\<lambda>(rs, m). Inr (parallel_output node rs m))"

section \<open>Sub-DAGs\<close>

definition plain_inputs :: "pyval \<Rightarrow> run_inputs" where
  "plain_inputs v = \<lparr>ri_shared = v, ri_nodes = [], ri_append = {}\<rparr>"

definition mapped_nodes :: "pyval \<Rightarrow> (string, input_map) dict \<Rightarrow> (string, pyval) dict" where
  "mapped_nodes payload ms = fold (\<lambda>(n, m) d. case mapped_input payload m of None \<Rightarrow> d | Some v \<Rightarrow> dset d n v) ms []"

definition resolve_input_mapping_entity :: "estore option \<Rightarrow> pyval \<Rightarrow> string \<Rightarrow> run_inputs res" where
  "resolve_input_mapping_entity store payload ref =
     (let missing = Inl (DagError (''InputMapping entity not found: '' @ ref)) in
      case store of None \<Rightarrow> missing
      | Some st \<Rightarrow> (case resolve st (input_mapping_ref ref) None of Inl _ \<Rightarrow> missing
          | Inr e \<Rightarrow>
             (let attrs = en_attrs e; shared = str_mapping (aget attrs ''shared'') in
              Inr \<lparr>ri_shared = (if shared = [] then PNone
                      else (case mapped_input payload (MapDict shared) of None \<Rightarrow> PNone | Some v \<Rightarrow> v)),
                   ri_nodes = mapped_nodes payload (node_input_mappings (aget attrs ''nodes'')),
                   ri_append = set (str_list (aget attrs ''append_nodes''))\<rparr>)))"

definition resolve_input_mapping :: "estore option \<Rightarrow> pyval \<Rightarrow> input_map \<Rightarrow> run_inputs res" where
  "resolve_input_mapping store payload m = (case m of
     MapRef ref \<Rightarrow> resolve_input_mapping_entity store payload ref
   | MapDict d \<Rightarrow> if d = [] then Inr (plain_inputs PNone)
       else Inr (plain_inputs (case mapped_input payload m of None \<Rightarrow> PNone | Some v \<Rightarrow> v)))"

definition failed_output :: "string \<Rightarrow> (string, pyval) dict \<Rightarrow> string \<Rightarrow> node_output" where
  "failed_output n meta er = \<lparr>no_name = n, no_ok = False, no_payload = PNone, no_metadata = meta, no_error = Some er\<rparr>"

definition lifecycle :: "'w task_env \<Rightarrow> string \<Rightarrow> string \<Rightarrow> string \<Rightarrow> string option \<Rightarrow> ('w, unit) task_act" where
  "lifecycle te run dag status er = (case te_lifecycle te of None \<Rightarrow> eret () | Some f \<Rightarrow> f run dag status er)"

definition failures_text :: "run_result \<Rightarrow> string option" where
  "failures_text r = (let t = join ''; '' (dvalues (rr_failures r)) in if t = [] then None else Some t)"

definition sub_dag_output :: "node_inst \<Rightarrow> string \<Rightarrow> string \<Rightarrow> run_result \<Rightarrow> node_output" where
  "sub_dag_output i parent child r =
     (let meta = [(''sub_dag_run_id'', PStr child), (''parent_run_id'', PStr parent), (''parent_node'', PStr (ni_id i))] in
      if run_result_ok r then \<lparr>no_name = ni_id i, no_ok = True, no_payload = rr_payload r,
         no_metadata = meta @ [(''sub_dag_failures'', PDict (map (\<lambda>(k, e). (k, PStr e)) (rr_failures r))),
           (''warnings'', PList (map PStr (rr_warnings r)))], no_error = None\<rparr>
      else failed_output (ni_id i) meta (case failures_text r of None \<Rightarrow> ''sub DAG failed'' | Some t \<Rightarrow> t))"

fun is_dag_error :: "err \<Rightarrow> bool" where
  "is_dag_error (DagError _) = True"
| "is_dag_error _ = False"

definition finish_sub_dag :: "'w task_env \<Rightarrow> node_inst \<Rightarrow> string \<Rightarrow> string \<Rightarrow> string \<Rightarrow> run_result res \<Rightarrow> ('w, node_output) task_act" where
  "finish_sub_dag te i ref parent child r = (case r of
     Inl e \<Rightarrow> if is_dag_error e
       then eseq (lifecycle te child ref ''failed'' (Some (err_text e))) (eret (failed_output (ni_id i) [] (err_text e)))
       else ethrow e
   | Inr res \<Rightarrow> eseq (lifecycle te child ref (if run_result_ok res then ''succeeded'' else ''failed'') (failures_text res))
       (eret (sub_dag_output i parent child res)))"

text \<open>\<open>try: m except\<close>: the outcome as a value.\<close>

definition ecatch :: "('s, 'a) eff \<Rightarrow> ('s, 'a res) eff" where
  "ecatch m s = (Inr (fst (m s)), snd (m s))"

definition execute_sub_dag :: "'w task_env \<Rightarrow> estore option \<Rightarrow> node_inst \<Rightarrow> string \<Rightarrow> input_map \<Rightarrow> node_input \<Rightarrow> ('w, node_output) task_act" where
  "execute_sub_dag te store i ref m inp =
     (let chain = te_path te @ [\<lparr>ps_dag = ref, ps_via = Some (ni_id i)\<rparr>] in
      if ref \<in> ps_dag ` set (te_path te)
      then eret (failed_output (ni_id i) [] (format_cycle_error chain (case te_path te of [] \<Rightarrow> ref | st # _ \<Rightarrow> ps_dag st)))
      else if te_max_depth te \<le> te_depth te
      then eret (failed_output (ni_id i) [] (''max DAG depth exceeded: '' @ join '' -> '' (map ps_dag chain)))
      else ebind (elift (lookup_key (te_dags te) ref)) (\<lambda>c.
           ebind (elift (load_graph c (te_nodes te) (Some (te_dags te)))) (\<lambda>g.
           ebind (te_fresh_run te) (\<lambda>child.
           ebind (elift (resolve_input_mapping store (in_payload inp) m)) (\<lambda>inputs.
           eseq (lifecycle te child ref ''started'' None)
             (ebind (ecatch (te_run_child te g child (te_depth te + 1) chain inputs))
               (finish_sub_dag te i ref (in_run inp) child)))))))"

definition execute_dag_node_config :: "'w task_env \<Rightarrow> estore option \<Rightarrow> string \<Rightarrow> input_map \<Rightarrow> string \<Rightarrow> node_input \<Rightarrow> ('w, node_output) task_act" where
  "execute_dag_node_config te store ref m node inp = ebind (eget (\<lambda>s. dget (ts_instances s) node)) (\<lambda>i.
     case i of None \<Rightarrow> eret (failed_output node [] (''missing dag node instance: '' @ node))
     | Some inst \<Rightarrow> if \<not> dhas (te_dags te) ref then eret (failed_output node [] (''missing dag config: '' @ ref))
         else execute_sub_dag te store inst ref m inp)"

section \<open>One node\<close>

text \<open>\<open>par\<close>: the completions of the parallel loop, for an instance that has one.\<close>

definition execute_node :: "'w task_env \<Rightarrow> estore option \<Rightarrow> (node_output res) option list \<Rightarrow> node_inst \<Rightarrow> string \<Rightarrow> node_input
    \<Rightarrow> node_context \<Rightarrow> ('w, node_output) task_act" where
  "execute_node te store par i node inp cx = (case ni_loop i of
     None \<Rightarrow>
       (case (if ni_type i = ''dag'' then or_str (ni_dag_ref i) None else None) of
          Some ref \<Rightarrow> execute_sub_dag te store i ref (ni_input_mapping i) inp
        | None \<Rightarrow> if dhas (te_dags te) (ni_type i) then execute_sub_dag te store i (ni_type i) (MapDict []) inp
            else ebind (te_execute te node inp cx) (fallback te i inp cx))
   | Some lp \<Rightarrow> (case lp_mode lp of
       LParallel \<Rightarrow> ebind (loop_semaphore te i) (\<lambda>_. elift (parallel_loop_result (te_cond te) lp node par))
     | LSerial \<Rightarrow> execute_serial_loop te i lp node inp cx))"

text \<open>The inputs and contexts \<open>_run_node\<close>, \<open>_run_fan_out_item\<close> and \<open>_run_stream_node\<close> hand to it.\<close>

definition node_task_input :: "run_env \<Rightarrow> run_state \<Rightarrow> string \<Rightarrow> node_input" where
  "node_task_input en s n = \<lparr>in_run = re_run en, in_payload = get_node_input en s n, in_metadata = run_metadata en s n\<rparr>"

definition item_input :: "run_env \<Rightarrow> run_state \<Rightarrow> string \<Rightarrow> pyval \<Rightarrow> node_input" where
  "item_input en s n p = \<lparr>in_run = re_run en, in_payload = p, in_metadata = run_metadata en s n\<rparr>"

definition task_context :: "run_env \<Rightarrow> string \<Rightarrow> string \<Rightarrow> node_context" where
  "task_context en n suffix = bare_context (re_run en) (n @ suffix) (ni_type (instance_of (re_graph en) n)) (dg_name (re_graph en))"

definition run_node_task :: "'w task_env \<Rightarrow> run_env \<Rightarrow> run_state \<Rightarrow> (node_output res) option list \<Rightarrow> string \<Rightarrow> ('w, node_output) task_act" where
  "run_node_task te en s par n =
     execute_node te (rs_store s) par (instance_of (re_graph en) n) n (node_task_input en s n) (task_context en n [])"

definition run_fan_out_item :: "'w task_env \<Rightarrow> run_env \<Rightarrow> run_state \<Rightarrow> (node_output res) option list \<Rightarrow> string \<Rightarrow> nat \<Rightarrow> pyval
    \<Rightarrow> ('w, node_output) task_act" where
  "run_fan_out_item te en s par n k p =
     execute_node te (rs_store s) par (instance_of (re_graph en) n) n (item_input en s n p) (task_context en n ('':fanout:'' @ nat_str k))"

definition run_stream_item :: "'w task_env \<Rightarrow> run_env \<Rightarrow> run_state \<Rightarrow> (node_output res) option list \<Rightarrow> string \<Rightarrow> string
    \<Rightarrow> ('w, node_output) task_act" where
  "run_stream_item te en s par n u =
     execute_node te (rs_store s) par (instance_of (re_graph en) n) n
       (item_input en s n (case dget (rs_outputs s) u of None \<Rightarrow> PNone | Some out \<Rightarrow> no_payload out)) (task_context en n '':stream'')"

end
