(* ===== verification/NodeValues.thy ===== *)
theory NodeValues
  imports RunTasks
begin

text \<open>
  The functions at the end of \<open>node/executor.py\<close> that compute values: the effective configuration of an
  instance, the input with its entities, the configuration a node entity stands for, the prompt and the
  runtime context of an agent, its result, the entity type of an output. A function node without handler has
  the handler \<open>[]\<close> (\<open>None\<close> and the empty text are both false where the code looks). What pydantic makes of
  attributes and what \<open>json\<close> prints are parameters.
\<close>

section \<open>Outputs\<close>

definition output_metadata :: "node_input \<Rightarrow> (string, pyval) dict" where
  "output_metadata inp = [(''run_id'', PStr (in_run inp))]"

definition failed_node :: "string \<Rightarrow> node_input \<Rightarrow> string \<Rightarrow> node_output" where
  "failed_node n inp er = \<lparr>no_name = n, no_ok = False, no_payload = PNone, no_metadata = output_metadata inp, no_error = Some er\<rparr>"

definition payload_empty :: "pyval \<Rightarrow> bool" where
  "payload_empty p = (p = PNone \<or> p = PList [] \<or> p = PDict [])"

definition summary_failure_kind :: "node_output \<Rightarrow> string option" where
  "summary_failure_kind out = (if no_ok out then None else (case aget (no_metadata out) ''failure_kind'' of
     PStr s \<Rightarrow> if s = [] then Some ''executor_error'' else Some s | _ \<Rightarrow> Some ''executor_error''))"

section \<open>Effective configuration\<close>

definition attribute_error :: "string \<Rightarrow> err" where
  "attribute_error a = OtherError (''object has no attribute '' @ a)"

definition uses_pi :: "node_cfg \<Rightarrow> bool res" where
  "uses_pi c = (case nc_variant c of FunctionNode h _ _ _ _ _ _ \<Rightarrow> Inr (h \<in> {''run-pi'', ''pi'', ''llm''})
     | _ \<Rightarrow> Inl (attribute_error ''handler''))"

text \<open>The \<open>updates\<close> of \<open>model_copy\<close> that concern the parameters; \<open>None\<close> when there is none.\<close>

definition update_parameters :: "(string, pyval) dict option \<Rightarrow> (string, pyval) dict \<Rightarrow> (string, pyval) dict \<Rightarrow> (string, pyval) dict" where
  "update_parameters current defaults values = dmerge (case current of Some d \<Rightarrow> d | None \<Rightarrow> defaults) values"

definition model_of :: "node_inst \<Rightarrow> string option res" where
  "model_of i = (case aget (ni_config i) ''model'' of PNone \<Rightarrow> Inr None
     | PStr m \<Rightarrow> if m = [] then Inl (NodeExecutionError ''model must be a non-empty string'') else Inr (Some m)
     | _ \<Rightarrow> Inl (NodeExecutionError ''model must be a non-empty string''))"

definition model_update :: "node_cfg \<Rightarrow> node_inst \<Rightarrow> node_variant res" where
  "model_update c i = rbind (model_of i) (\<lambda>m. case m of
     Some t \<Rightarrow> (case nc_variant c of
         AgentNode _ wd sk ts pf p sc \<Rightarrow> Inr (AgentNode t wd sk ts pf p sc)
       | FunctionNode h sk sn ps pf p sc \<Rightarrow> Inr (FunctionNode h sk sn (update_parameters None ps [(''model'', PStr t)]) pf p sc)
       | _ \<Rightarrow> Inl (attribute_error ''parameters''))
   | None \<Rightarrow> rbind (uses_pi c) (\<lambda>b. if b then Inl (NodeExecutionError ''model not configured for instance'')
       else Inr (nc_variant c)))"

definition list_update_of :: "pyval \<Rightarrow> string list \<Rightarrow> string list" where
  "list_update_of v d = (case v of PList xs \<Rightarrow> map py_str xs | _ \<Rightarrow> d)"

definition apply_instance_config :: "node_cfg \<Rightarrow> node_inst option \<Rightarrow> node_cfg res" where
  "apply_instance_config c inst = (case inst of None \<Rightarrow> Inr c
     | Some i \<Rightarrow> rbind (model_update c i) (\<lambda>v. Inr (c\<lparr>nc_variant := (case v of
          AgentNode m wd sk ts pf p sc \<Rightarrow> AgentNode m wd sk (list_update_of (aget (ni_config i) ''tools'') ts) pf p sc
        | FunctionNode h sk sn ps pf p sc \<Rightarrow> FunctionNode h sk (list_update_of (aget (ni_config i) ''source_names'') sn)
            (case aget (ni_config i) ''parameters'' of PDict d \<Rightarrow> update_parameters (Some ps) ps d | _ \<Rightarrow> ps) pf p sc
        | w \<Rightarrow> w)\<rparr>)))"

definition nonempty_str :: "pyval \<Rightarrow> string \<Rightarrow> string" where
  "nonempty_str v d = (case v of PStr s \<Rightarrow> if s = [] then d else s | _ \<Rightarrow> d)"

definition apply_agent_instance_config :: "node_cfg \<Rightarrow> node_inst option \<Rightarrow> node_cfg" where
  "apply_agent_instance_config c inst = (case (inst, nc_variant c) of
     (Some i, AgentNode m wd sk ts pf p sc) \<Rightarrow>
       (let g = aget (ni_config i) in
        c\<lparr>nc_variant := AgentNode (nonempty_str (g ''model'') m)
            (case g ''workdir'' of PStr s \<Rightarrow> if s = [] then wd else Some s | _ \<Rightarrow> wd)
            (list_update_of (g ''skills'') sk) (list_update_of (g ''tools'') ts) pf p sc\<rparr>)
   | _ \<Rightarrow> c)"

section \<open>Input with entities\<close>

definition instance_permissions :: "node_inst option \<Rightarrow> (string, pyval) dict" where
  "instance_permissions inst = (case inst of None \<Rightarrow> [] | Some i \<Rightarrow>
     (case aget (ni_config i) ''entity_permissions'' of PDict d \<Rightarrow> d | _ \<Rightarrow> []))"

definition instance_entities :: "node_inst option \<Rightarrow> estore option \<Rightarrow> string list res" where
  "instance_entities inst store = (case (inst, store) of
     (Some i, Some st) \<Rightarrow> (case aget (ni_config i) ''entities'' of PList xs \<Rightarrow> Inr (map py_str xs)
       | _ \<Rightarrow> (case aget (ni_config i) ''source'' of PStr s \<Rightarrow> related_refs st s None | _ \<Rightarrow> Inr []))
   | _ \<Rightarrow> Inr [])"

definition source_name_of :: "string \<Rightarrow> string list" where
  "source_name_of ref = concat (map (\<lambda>p. if starts_with ref p then [removeprefix ref p] else [])
     [''rss-source:'', ''web-source:'', ''api-source:''])"

definition source_names_of :: "string list \<Rightarrow> string list" where
  "source_names_of refs = concat (map source_name_of refs)"

definition cfg_source_names :: "node_cfg \<Rightarrow> string list" where
  "cfg_source_names c = (case nc_variant c of FunctionNode _ _ sn _ _ _ _ \<Rightarrow> sn | _ \<Rightarrow> [])"

definition strs_val :: "string list \<Rightarrow> pyval" where
  "strs_val xs = PList (map PStr xs)"

definition apply_instance_input :: "node_cfg \<Rightarrow> node_input \<Rightarrow> node_inst option \<Rightarrow> estore option \<Rightarrow> node_input res" where
  "apply_instance_input c inp inst store = rbind (instance_entities inst store) (\<lambda>es.
     if cfg_source_names c = [] \<and> es = [] then Inr inp
     else (let p = dict_or_empty (in_payload inp) in
       Inr (inp\<lparr>in_payload := PDict (if es \<noteq> [] then dset (dset p ''entities'' (strs_val es)) ''source_names'' (strs_val (source_names_of es))
         else dset p ''source_names'' (strs_val (cfg_source_names c)))\<rparr>)))"

section \<open>Configuration from an entity\<close>

text \<open>\<open>model_construct\<close> does not validate; the role is not read by the executor, so a text that is no role
  stands for the default.\<close>

definition role_or_default :: "pyval \<Rightarrow> role" where
  "role_or_default v = (if v = PStr ''source'' then Source else if v = PStr ''sink'' then Sink else Processor)"

definition constructed_node :: "entity \<Rightarrow> (string, pyval) dict \<Rightarrow> node_cfg" where
  "constructed_node e attrs =
     \<lparr>nc_name = str_or (aget attrs ''name'') (en_id e), nc_role = role_or_default (aget attrs ''role''),
      nc_input_type = str_or (aget attrs ''input_type'') [], nc_output_type = str_or (aget attrs ''output_type'') [],
      nc_optional = False, nc_timeout = num_of (aget attrs ''timeout_seconds''), nc_emits = [],
      nc_variant = FunctionNode [] [] (list_update_of (aget attrs ''source_names'') []) (dict_or_empty (aget attrs ''parameters''))
        None None (dict_or_empty (aget attrs ''parameters_schema''))\<rparr>"

definition node_from_entity :: "((string, pyval) dict \<Rightarrow> node_cfg res) \<Rightarrow> entity \<Rightarrow> node_cfg res" where
  "node_from_entity validate e = (let attrs = dsetdefault (en_attrs e) ''name'' (PStr (en_id e)) in
     if truthy (aget attrs ''handler'') \<or> py_eq (aget attrs ''type'') (PStr ''wait'') then validate attrs
     else Inr (constructed_node e attrs))"

section \<open>Prompt, context and result of an agent\<close>

definition agent_runtime_context :: "node_input \<Rightarrow> node_context \<Rightarrow> string option \<Rightarrow> (string, pyval) dict option \<Rightarrow> (string, pyval) dict" where
  "agent_runtime_context inp cx result_path schema =
     [(''run_id'', PStr (in_run inp)), (''dag_name'', PStr (cx_dag cx)), (''node_id'', PStr (cx_instance cx)),
      (''edge_inputs'', dget_default (in_metadata inp) ''edge_inputs'' (PList []))]
     @ (case or_str result_path None of None \<Rightarrow> [] | Some p \<Rightarrow> [(''result_path'', PStr p)])
     @ (case schema of None \<Rightarrow> [] | Some d \<Rightarrow> if d = [] then [] else [(''output_schema'', PDict d)])"

definition main_prompt :: "pyval \<Rightarrow> string" where
  "main_prompt payload = (case payload of
     PDict d \<Rightarrow> (case aget d ''prompt'' of PStr s \<Rightarrow> s | _ \<Rightarrow> [])
   | PStr s \<Rightarrow> s | _ \<Rightarrow> [])"

definition blank_line :: string where
  "blank_line = [CHR 0x0A, CHR 0x0A]"

definition agent_prompt :: "(pyval \<Rightarrow> string) \<Rightarrow> pyval \<Rightarrow> (string, pyval) dict \<Rightarrow> string" where
  "agent_prompt dumps payload context =
     (let prefix = ''Runtime context: '' @ dumps (PDict context); main = main_prompt payload in
      if truthy (aget context ''result_path'') then
        prefix @ blank_line @ main @ blank_line @ ''IMPORTANT: Write your final result as JSON to the file: ''
          @ py_str (aget context ''result_path'') @ [CHR 0x0A] @ ''The result must be valid JSON.''
          @ (if truthy (aget context ''output_schema'')
             then '' It should conform to the provided output_schema in the runtime context.'' else [])
      else if main \<noteq> [] then prefix @ blank_line @ main else prefix)"

definition agent_env :: "string option \<Rightarrow> string \<Rightarrow> (string, string) dict" where
  "agent_env server_addr inst = [(''EDERA_SERVER_ADDR'', case server_addr of None \<Rightarrow> ''127.0.0.1:9090'' | Some a \<Rightarrow> a),
     (''EDERA_IDENTITY'', ''node:'' @ inst)]"

fun has_required :: "(string, pyval) dict \<Rightarrow> pyval list \<Rightarrow> bool res" where
  "has_required data [] = Inr True"
| "has_required data (f # fs) = rbind (py_in f (PDict data)) (\<lambda>b. if b then has_required data fs else Inr False)"

definition validate_simple_schema :: "pyval \<Rightarrow> (string, pyval) dict \<Rightarrow> bool res" where
  "validate_simple_schema data schema = (case data of
     PDict d \<Rightarrow> (case aget schema ''required'' of PList fs \<Rightarrow> has_required d fs | _ \<Rightarrow> Inr True)
   | _ \<Rightarrow> Inr False)"

text \<open>\<open>loaded\<close> is the parsed result file, \<open>None\<close> when it is missing, unreadable or not JSON.\<close>

definition read_agent_result :: "pyval option \<Rightarrow> (string, pyval) dict option \<Rightarrow> string \<Rightarrow> (pyval \<times> bool) res" where
  "read_agent_result loaded schema out = (let degraded = (PDict [(''stdout'', PStr out)], True) in
     case loaded of None \<Rightarrow> Inr degraded
     | Some r \<Rightarrow> (case schema of
         None \<Rightarrow> Inr (r, False)
       | Some d \<Rightarrow> if d = [] then Inr (r, False)
           else rbind (validate_simple_schema r d) (\<lambda>b. Inr (if b then (r, False) else degraded))))"

section \<open>The entity type of an output\<close>

fun camel_to_kebab_from :: "bool \<Rightarrow> string \<Rightarrow> string" where
  "camel_to_kebab_from first [] = []"
| "camel_to_kebab_from first (c # cs) =
     (if \<not> first \<and> CHR ''A'' \<le> c \<and> c \<le> CHR ''Z'' then CHR ''-'' # c # camel_to_kebab_from False cs
      else c # camel_to_kebab_from False cs)"

definition camel_to_kebab :: "string \<Rightarrow> string" where
  "camel_to_kebab s = camel_to_kebab_from True s"

definition kebab_char :: "char \<Rightarrow> bool" where
  "kebab_char c = (CHR ''a'' \<le> c \<and> c \<le> CHR ''z'' \<or> CHR ''0'' \<le> c \<and> c \<le> CHR ''9'' \<or> c = CHR ''-'')"

definition list_element_type :: "string \<Rightarrow> string" where
  "list_element_type name = (if starts_with name ''list['' \<and> ends_with name '']''
     then strip_ws (removesuffix (drop 5 name) '']'') else name)"

definition entity_type_from_output :: "string \<Rightarrow> string" where
  "entity_type_from_output output_type =
     (let name = list_element_type (strip_ws output_type);
          normalized = map (\<lambda>c. if c = CHR ''_'' \<or> c = CHR '' '' then CHR ''-'' else c) name;
          key = filter kebab_char (str_lower (camel_to_kebab normalized)) in
      if key \<in> {''rawitem'', ''raw-item''} then ''raw-item''
      else if key \<in> {''analysisresult'', ''analysis-result''} then ''analysis''
      else if key = [] then ''node-output'' else key)"

end
