(* ===== verification/SessionRegistry.thy ===== *)
theory SessionRegistry
  imports PyPrelude
begin

text \<open>
  The registry of sessions (\<open>storage/session_registry.py\<close>): the table of session runs and the ledger of
  consumptions, with the statements the code executes on them. A table is the list of its rows; where
  \<open>ORDER BY created_at\<close> leaves ties open, rows keep the order of the table. Creation times are the texts
  \<open>datetime.isoformat\<close> writes; the database compares them as texts.
\<close>

record session_run =
  sr_dag :: string
  sr_group :: string
  sr_run :: string
  sr_session :: string
  sr_path :: string
  sr_status :: string
  sr_created :: string

record registry =
  rg_runs :: "session_run list"
  rg_consumed :: "(string \<times> string) list"

definition empty_registry :: registry where
  "empty_registry = \<lparr>rg_runs = [], rg_consumed = []\<rparr>"

definition row_key :: "session_run \<Rightarrow> string \<times> string \<times> string" where
  "row_key r = (sr_dag r, sr_group r, sr_run r)"

text \<open>\<open>INSERT OR REPLACE\<close> on the primary key \<open>(dag_name, group_name, run_id)\<close>.\<close>

definition register_run :: "string \<Rightarrow> string \<Rightarrow> string \<Rightarrow> string \<Rightarrow> string \<Rightarrow> string \<Rightarrow> registry \<Rightarrow> registry" where
  "register_run d g r sid p now rg = rg\<lparr>rg_runs := filter (\<lambda>x. row_key x \<noteq> (d, g, r)) (rg_runs rg)
     @ [\<lparr>sr_dag = d, sr_group = g, sr_run = r, sr_session = sid, sr_path = p, sr_status = ''active'', sr_created = now\<rparr>]\<rparr>"

definition finish_run :: "string \<Rightarrow> string \<Rightarrow> string \<Rightarrow> string \<Rightarrow> registry \<Rightarrow> registry" where
  "finish_run d g r status rg = rg\<lparr>rg_runs := map (\<lambda>x. if row_key x = (d, g, r) then x\<lparr>sr_status := status\<rparr> else x) (rg_runs rg)\<rparr>"

definition reconcile :: "string set \<Rightarrow> registry \<Rightarrow> registry" where
  "reconcile active rg = rg\<lparr>rg_runs := map (\<lambda>x. if sr_status x = ''active'' \<and> sr_run x \<notin> active
     then x\<lparr>sr_status := ''failed''\<rparr> else x) (rg_runs rg)\<rparr>"

definition in_group :: "string \<Rightarrow> string \<Rightarrow> session_run \<Rightarrow> bool" where
  "in_group d g x = (sr_dag x = d \<and> sr_group x = g)"

definition oldest_first :: "session_run list \<Rightarrow> session_run list" where
  "oldest_first rs = sort_key sr_created rs"

definition newest_first :: "session_run list \<Rightarrow> session_run list" where
  "newest_first rs = rev (sort_key sr_created (rev rs))"

definition list_sessions :: "string \<Rightarrow> string \<Rightarrow> registry \<Rightarrow> session_run list" where
  "list_sessions d g rg = newest_first (filter (in_group d g) (rg_runs rg))"

definition first_row :: "session_run list \<Rightarrow> session_run option" where
  "first_row rs = (case rs of [] \<Rightarrow> None | r # _ \<Rightarrow> Some r)"

definition completed_in :: "string \<Rightarrow> string \<Rightarrow> registry \<Rightarrow> session_run list" where
  "completed_in d g rg = filter (\<lambda>x. in_group d g x \<and> sr_status x = ''completed'') (rg_runs rg)"

definition get_latest :: "string \<Rightarrow> string \<Rightarrow> registry \<Rightarrow> session_run option" where
  "get_latest d g rg = first_row (newest_first (completed_in d g rg))"

text \<open>\<open>INSERT OR IGNORE\<close> on the primary key \<open>(source_session_id, consumer)\<close>.\<close>

definition mark_consumed :: "string \<Rightarrow> string \<Rightarrow> registry \<Rightarrow> registry" where
  "mark_consumed sid consumer rg = (if (sid, consumer) \<in> set (rg_consumed rg) then rg
     else rg\<lparr>rg_consumed := rg_consumed rg @ [(sid, consumer)]\<rparr>)"

definition is_consumed :: "string \<Rightarrow> registry \<Rightarrow> session_run \<Rightarrow> bool" where
  "is_consumed consumer rg x = ((sr_session x, consumer) \<in> set (rg_consumed rg))"

definition list_with_consumption :: "string \<Rightarrow> string \<Rightarrow> string \<Rightarrow> registry \<Rightarrow> (session_run \<times> bool) list" where
  "list_with_consumption d g consumer rg =
     map (\<lambda>x. (x, is_consumed consumer rg x)) (oldest_first (completed_in d g rg))"

definition get_oldest_unconsumed :: "string \<Rightarrow> string \<Rightarrow> string \<Rightarrow> registry \<Rightarrow> session_run option" where
  "get_oldest_unconsumed d g consumer rg =
     first_row (oldest_first (filter (\<lambda>x. \<not> is_consumed consumer rg x) (completed_in d g rg)))"

end
