(* ===== verification/NodeExec.thy ===== *)
theory NodeExec
  imports NodeValues SessionRegistry
begin

text \<open>
  \<open>node/executor.py\<close>: the executor that runs one node. Its state is the table of instances (shared with the
  runner, \<^const>\<open>ts_instances\<close>), the entity store, the loaded handler modules, the running agent processes and
  the session registry. Outside it, as parameters (\<open>exec_env\<close>): the extension handlers and their import, the
  recorders, the trigger executor behind a wait node, the file system, the clock and the agent process. An
  error of a computation is an \<open>Exception\<close>; the cancellation of a task is not modelled here.
\<close>

section \<open>State and surroundings\<close>

record handler_meta =
  hm_path :: string
  hm_function :: string
  hm_extension :: "string option"

record 'w exec_state =
  xs_store :: "estore option"
  xs_modules :: "(string, nat) dict"
  xs_meta :: "(string, handler_meta) dict"
  xs_agents :: "(string \<times> string, nat) dict"
  xs_registry :: "registry option"
  xs_world :: 'w

type_synonym ('w, 'a) exec = "('w exec_state, 'a) task_act"

datatype handler_result = HPayload pyval | HOutput node_output

record handler_ctx =
  hc_input :: node_input
  hc_params :: "(string, pyval) dict"
  hc_node :: string
  hc_type :: string
  hc_run :: string
  hc_tables :: "(string, string) dict option"

text \<open>What the executor gets from the trigger executor (\<open>_configure_wait_executor\<close>; the theory \<open>WaitNodes\<close> builds it on
  the model of \<open>trigger.py\<close>). \<open>we_wait\<close> is \<open>asyncio.wait\<close> on the waiter and the stop
  event: whether the run was stopped and the payload of the waiter, if it is resolved.\<close>

record 'w wait_env =
  we_payload :: "string \<Rightarrow> ('w, (pyval \<times> string list) option) exec"
  we_register :: "string \<Rightarrow> bool \<Rightarrow> ('w, nat) exec"
  we_unregister :: "nat \<Rightarrow> 'w exec_state task_state \<Rightarrow> 'w exec_state task_state"
  we_matched :: "nat \<Rightarrow> ('w, string list) exec"
  we_consume :: "string list \<Rightarrow> ('w, unit) exec"
  we_wait :: "nat \<Rightarrow> rat option \<Rightarrow> ('w, bool \<times> pyval option) exec"
  we_cancel :: "nat \<Rightarrow> 'w exec_state task_state \<Rightarrow> 'w exec_state task_state"

record 'w agent_env =
  ae_pi_bin :: string
  ae_environ :: "(string, string) dict"
  ae_daemon_dir :: "path option"
  ae_workspace_root :: string
  ae_skills_dir :: path
  ae_path :: "string \<Rightarrow> path"
  ae_text :: "path \<Rightarrow> string"
  ae_absolute :: "path \<Rightarrow> path"
  ae_dumps :: "pyval \<Rightarrow> string"
  ae_mkdir :: "path \<Rightarrow> ('w, unit) exec"
  ae_write :: "path \<Rightarrow> string \<Rightarrow> ('w, unit) exec"
  ae_exists :: "path \<Rightarrow> ('w, bool) exec"
  ae_loaded :: "path \<Rightarrow> ('w, pyval option) exec"
  ae_uuid :: "('w, string) exec"
  ae_now :: "('w, string) exec"
  ae_certificate :: "(string \<Rightarrow> int \<Rightarrow> ('w, (string, string) dict) exec) option"
  ae_spawn :: "string list \<Rightarrow> string \<Rightarrow> (string, string) dict \<Rightarrow> ('w, nat) exec"
  ae_stream :: "nat \<Rightarrow> string \<Rightarrow> string \<Rightarrow> path \<Rightarrow> rat option \<Rightarrow> ('w, string list) exec"
  ae_code :: "nat \<Rightarrow> ('w, int) exec"
  ae_returncode :: "nat \<Rightarrow> 'w exec_state task_state \<Rightarrow> int option"
  ae_terminate :: "nat \<Rightarrow> ('w, unit) exec"

record 'w exec_env =
  xe_nodes :: "(string, node_cfg) dict"
  xe_validate :: "(string, pyval) dict \<Rightarrow> node_cfg res"
  xe_root_dag :: string
  xe_llm_timeout :: rat
  xe_uuid :: "('w, string) exec"
  xe_resolve :: "string \<Rightarrow> ('w, handler_meta option) exec"
  xe_import :: "string \<Rightarrow> handler_meta \<Rightarrow> ('w, nat option) exec"
  xe_callable :: "nat \<Rightarrow> string \<Rightarrow> bool"
  xe_call :: "nat \<Rightarrow> string \<Rightarrow> handler_ctx \<Rightarrow> rat option \<Rightarrow> ('w, handler_result option) exec"
  xe_tables :: "(string, (string, string) dict) dict"
  xe_output_rec :: "(string \<Rightarrow> string \<Rightarrow> string \<Rightarrow> pyval \<Rightarrow> string option \<Rightarrow> ('w, unit) exec) option"
  xe_summary_rec :: "(string \<Rightarrow> string \<Rightarrow> (string, pyval) dict \<Rightarrow> ('w, unit) exec) option"
  xe_dag :: "(node_cfg \<Rightarrow> string \<Rightarrow> node_input \<Rightarrow> node_context \<Rightarrow> ('w, node_output) exec) option"
  xe_wait_rec :: "(string \<Rightarrow> string \<Rightarrow> string \<Rightarrow> ('w, unit) exec) option"
  xe_waiting :: "string \<Rightarrow> string \<Rightarrow> string \<Rightarrow> ('w, unit) exec"
  xe_wait :: "'w wait_env option"
  xe_agent :: "'w agent_env"

text \<open>A field of the executor object.\<close>

definition xget :: "('w exec_state \<Rightarrow> 'a) \<Rightarrow> ('w, 'a) exec" where
  "xget f = eget (\<lambda>s. f (ts_world s))"

definition xmod :: "('w exec_state \<Rightarrow> 'w exec_state) \<Rightarrow> ('w, unit) exec" where
  "xmod f = emod (\<lambda>s. s\<lparr>ts_world := f (ts_world s)\<rparr>)"

section \<open>Recording\<close>

definition str_field :: "(string, pyval) dict \<Rightarrow> string \<Rightarrow> string option" where
  "str_field d k = (case aget d k of PStr s \<Rightarrow> Some s | _ \<Rightarrow> None)"

definition record_output :: "'w exec_env \<Rightarrow> node_input \<Rightarrow> string \<Rightarrow> node_cfg \<Rightarrow> pyval \<Rightarrow> (string, pyval) dict \<Rightarrow> ('w, unit) exec" where
  "record_output xe inp n c p meta = (case xe_output_rec xe of None \<Rightarrow> eret ()
     | Some rec \<Rightarrow> if payload_empty p then eret ()
         else rec (in_run inp) n (entity_type_from_output (nc_output_type c)) p (str_field meta ''session_id''))"

definition opt_str_val :: "string option \<Rightarrow> pyval" where
  "opt_str_val x = (case x of None \<Rightarrow> PNone | Some s \<Rightarrow> PStr s)"

definition summary_of :: "string \<Rightarrow> node_input \<Rightarrow> node_output \<Rightarrow> (string, pyval) dict" where
  "summary_of n inp out =
     [(''run_id'', PStr (in_run inp)), (''node_id'', PStr n), (''ok'', PBool (no_ok out)),
      (''status'', PStr (if no_ok out then ''succeeded'' else ''failed'')), (''error'', opt_str_val (no_error out)),
      (''failure_kind'', opt_str_val (summary_failure_kind out)), (''payload_empty'', PBool (payload_empty (no_payload out))),
      (''session_id'', opt_str_val (str_field (no_metadata out) ''session_id'')),
      (''raw_log_path'', opt_str_val (str_field (no_metadata out) ''raw_log_path''))]"

definition record_execution_summary :: "'w exec_env \<Rightarrow> string \<Rightarrow> node_input \<Rightarrow> node_output \<Rightarrow> ('w, unit) exec" where
  "record_execution_summary xe n inp out = (case xe_summary_rec xe of None \<Rightarrow> eret ()
     | Some rec \<Rightarrow> rec (in_run inp) n (summary_of n inp out))"

section \<open>Configuration and handler\<close>

definition node_config :: "'w exec_env \<Rightarrow> estore option \<Rightarrow> string \<Rightarrow> node_cfg res" where
  "node_config xe store n =
     (let stored = (case store of
          Some st \<Rightarrow> if dhas (es_types st) ''node''
            then (case rbind (resolve st (''node:'' @ n) None) (node_from_entity (xe_validate xe)) of
                Inr c \<Rightarrow> Some (Inr c)
              | Inl e \<Rightarrow> if is_config_error e then None else Some (Inl e))
            else None
        | None \<Rightarrow> None) in
      case stored of Some r \<Rightarrow> r
      | None \<Rightarrow> (case dget (xe_nodes xe) n of Some c \<Rightarrow> Inr c
          | None \<Rightarrow> Inl (NodeExecutionError (''missing node config: '' @ n))))"

definition check_callable :: "'w exec_env \<Rightarrow> string \<Rightarrow> nat \<Rightarrow> handler_meta \<Rightarrow> ('w, nat \<times> string) exec" where
  "check_callable xe n m entry = (if xe_callable xe m (hm_function entry) then eret (m, hm_function entry)
     else ethrow (NodeExecutionError (''handler missing function '' @ hm_function entry @ '': '' @ n)))"

definition import_handler :: "'w exec_env \<Rightarrow> string \<Rightarrow> handler_meta \<Rightarrow> ('w, nat) exec" where
  "import_handler xe n entry = ebind (ecatch (xe_import xe n entry)) (\<lambda>r. case r of
     Inl (SyntaxErr t) \<Rightarrow> ethrow (NodeExecutionError (''syntax error in handler '' @ hm_path entry @ '': '' @ t))
   | Inl e \<Rightarrow> ethrow e
   | Inr None \<Rightarrow> ethrow (NodeExecutionError (''cannot load handler: '' @ n))
   | Inr (Some m) \<Rightarrow> eseq (xmod (\<lambda>w. w\<lparr>xs_modules := dset (xs_modules w) n m\<rparr>)) (eret m))"

definition load_handler :: "'w exec_env \<Rightarrow> string \<Rightarrow> ('w, nat \<times> string) exec" where
  "load_handler xe n = ebind (xget (\<lambda>w. (dget (xs_modules w) n, dget (xs_meta w) n))) (\<lambda>c. case c of
     (Some m, Some entry) \<Rightarrow> check_callable xe n m entry
   | (mo, _) \<Rightarrow> ebind (xe_resolve xe n) (\<lambda>eo. case eo of
       None \<Rightarrow> ethrow (NodeExecutionError (''handler not found: '' @ n))
     | Some entry \<Rightarrow> eseq (xmod (\<lambda>w. w\<lparr>xs_meta := dset (xs_meta w) n entry\<rparr>))
         (ebind (case mo of Some m \<Rightarrow> eret m | None \<Rightarrow> import_handler xe n entry) (\<lambda>m. check_callable xe n m entry))))"

definition handler_storage :: "'w exec_env \<Rightarrow> (string, handler_meta) dict \<Rightarrow> string \<Rightarrow> (string, string) dict option" where
  "handler_storage xe meta n =
     (let direct = dget_default (xe_tables xe) n [];
          ext = (case dget meta n of None \<Rightarrow> None | Some entry \<Rightarrow> hm_extension entry);
          tables = (if direct = [] then (case ext of None \<Rightarrow> direct | Some x \<Rightarrow> dget_default (xe_tables xe) x []) else direct) in
      if tables = [] then None else Some tables)"

definition storage_table :: "(string, string) dict \<Rightarrow> string \<Rightarrow> string res" where
  "storage_table tables n = (case dget tables n of Some t \<Rightarrow> Inr t
     | None \<Rightarrow> Inl (NodeExecutionError (''extension table not declared: '' @ n)))"

definition effective_timeout :: "'w exec_env \<Rightarrow> node_cfg \<Rightarrow> rat option" where
  "effective_timeout xe c = (let t = (case nc_timeout c of Some q \<Rightarrow> q | None \<Rightarrow> xe_llm_timeout xe) in
     if t = 0 then None else Some t)"

definition cfg_parameters :: "node_cfg \<Rightarrow> (string, pyval) dict" where
  "cfg_parameters c = (case nc_variant c of FunctionNode _ _ _ ps _ _ _ \<Rightarrow> ps | _ \<Rightarrow> [])"

definition execute_payload :: "'w exec_env \<Rightarrow> string \<Rightarrow> node_cfg \<Rightarrow> node_input \<Rightarrow> node_context \<Rightarrow> ('w, handler_result) exec" where
  "execute_payload xe h c inp cx = ebind (load_handler xe h) (\<lambda>(m, f).
     ebind (xget xs_meta) (\<lambda>meta.
     ebind (xe_call xe m f \<lparr>hc_input = inp, hc_params = cfg_parameters c, hc_node = cx_instance cx, hc_type = nc_name c,
         hc_run = in_run inp, hc_tables = handler_storage xe meta h\<rparr> (effective_timeout xe c)) (\<lambda>r. case r of
       None \<Rightarrow> ethrow (NodeExecutionError (''handler must be async: '' @ h))
     | Some v \<Rightarrow> eret v)))"

section \<open>Wait nodes\<close>

datatype wait_result = Stopped | TimedOut | Resolved pyval

definition cancel_waiter :: "'w wait_env \<Rightarrow> nat \<Rightarrow> ('w, unit) exec" where
  "cancel_waiter we f = emod (we_cancel we f)"

text \<open>The stop event wins over a waiter that is resolved at the same time.\<close>

definition await_waiter :: "'w wait_env \<Rightarrow> nat \<Rightarrow> rat option \<Rightarrow> ('w, wait_result) exec" where
  "await_waiter we f t = ebind (we_wait we f t) (\<lambda>(stopped, v).
     if \<not> stopped \<and> v = None then eseq (cancel_waiter we f) (eret TimedOut)
     else if stopped then eseq (cancel_waiter we f) (eret Stopped)
     else eret (Resolved (the v)))"

definition ok_output :: "string \<Rightarrow> pyval \<Rightarrow> (string, pyval) dict \<Rightarrow> node_output" where
  "ok_output n p meta = \<lparr>no_name = n, no_ok = True, no_payload = p, no_metadata = meta, no_error = None\<rparr>"

definition wait_record :: "'w exec_env \<Rightarrow> string \<Rightarrow> string \<Rightarrow> string \<Rightarrow> ('w, unit) exec" where
  "wait_record xe run n status = (case xe_wait_rec xe of None \<Rightarrow> eret () | Some rec \<Rightarrow> rec run n status)"

definition deliver :: "'w exec_env \<Rightarrow> 'w wait_env \<Rightarrow> node_cfg \<Rightarrow> bool \<Rightarrow> string \<Rightarrow> node_input \<Rightarrow> pyval \<Rightarrow> string list \<Rightarrow> ('w, node_output) exec" where
  "deliver xe we c consume n inp p tokens = eseq (record_output xe inp n c p (output_metadata inp))
     (eseq (ewhen consume (we_consume we tokens)) (eret (ok_output n p (output_metadata inp))))"

definition wait_suspended :: "'w exec_env \<Rightarrow> 'w wait_env \<Rightarrow> node_cfg \<Rightarrow> string \<Rightarrow> bool \<Rightarrow> string \<Rightarrow> node_input \<Rightarrow> nat \<Rightarrow> ('w, node_output) exec" where
  "wait_suspended xe we c wait_for consume n inp f =
     eseq (wait_record xe (in_run inp) n ''waiting'') (eseq (xe_waiting xe (in_run inp) n wait_for)
     (ebind (await_waiter we f (nc_timeout c)) (\<lambda>r. case r of
        Stopped \<Rightarrow> eret (failed_output n [(''runtime_status'', PStr ''cancelled'')] ''cancelled'')
      | TimedOut \<Rightarrow> eret (failed_output n [(''failure_kind'', PStr ''wait_timeout'')] ''wait timeout'')
      | Resolved p \<Rightarrow> eseq (wait_record xe (in_run inp) n ''running'')
          (ebind (we_matched we f) (\<lambda>tokens. deliver xe we c consume n inp p tokens)))))"

definition execute_wait :: "'w exec_env \<Rightarrow> node_cfg \<Rightarrow> string \<Rightarrow> bool \<Rightarrow> string \<Rightarrow> node_input \<Rightarrow> ('w, node_output) exec" where
  "execute_wait xe c wait_for consume n inp = (case xe_wait xe of
     None \<Rightarrow> eret (failed_node n inp ''wait executor not configured'')
   | Some we \<Rightarrow> ebind (we_payload we wait_for) (\<lambda>cur. case cur of
       Some (p, tokens) \<Rightarrow> deliver xe we c consume n inp p tokens
     | None \<Rightarrow> ebind (we_register we wait_for consume) (\<lambda>f.
         efinally (ebind (we_payload we wait_for) (\<lambda>cur. case cur of
             Some (p, tokens) \<Rightarrow> deliver xe we c consume n inp p tokens
           | None \<Rightarrow> wait_suspended xe we c wait_for consume n inp f))
           (we_unregister we f))))"

section \<open>Agent nodes\<close>

definition agent_data_dir :: "'w agent_env \<Rightarrow> path" where
  "agent_data_dir ae = (case ae_daemon_dir ae of Some d \<Rightarrow> d
     | None \<Rightarrow> ae_path ae (dget_default (ae_environ ae) ''EDERA_DATA_DIR'' (ae_workspace_root ae)))"

definition session_value :: "node_inst option \<Rightarrow> string option res" where
  "session_value inst = (case inst of None \<Rightarrow> Inr None | Some i \<Rightarrow> (case aget (ni_config i) ''session'' of
     PStr s \<Rightarrow> Inr (or_str (Some s) None)
   | v \<Rightarrow> if truthy v then Inl (TypeError ''expected string'') else Inr None))"

definition found_session :: "'w agent_env \<Rightarrow> session_run option \<Rightarrow> string \<Rightarrow> (path \<times> string option \<times> bool) res" where
  "found_session ae r msg = (case r of None \<Rightarrow> Inl (NodeExecutionError msg)
     | Some x \<Rightarrow> Inr (ae_path ae (sr_path x), Some (sr_session x), False))"

definition own_session :: "'w agent_env \<Rightarrow> node_input \<Rightarrow> node_context \<Rightarrow> string \<Rightarrow> path \<Rightarrow> registry \<Rightarrow> ('w, path \<times> string option \<times> bool) exec" where
  "own_session ae inp cx g dir rg =
     (case filter (\<lambda>x. sr_run x = in_run inp \<and> sr_status x = ''active'') (list_sessions (cx_dag cx) g rg) of
        x # _ \<Rightarrow> eret (dir, Some (sr_session x), False)
      | [] \<Rightarrow> ebind (ae_uuid ae) (\<lambda>sid. ebind (ae_now ae) (\<lambda>now.
          eseq (xmod (\<lambda>w. w\<lparr>xs_registry := map_option
              (register_run (cx_dag cx) g (in_run inp) sid (ae_text ae dir) now) (xs_registry w)\<rparr>))
            (eret (dir, Some sid, True)))))"

definition locate_session :: "'w agent_env \<Rightarrow> string \<Rightarrow> node_input \<Rightarrow> node_context \<Rightarrow> registry option \<Rightarrow> string option
    \<Rightarrow> ('w, path \<times> string option \<times> bool) exec" where
  "locate_session ae n inp cx reg v =
     (let local_dir = resolve_session_path (ae_absolute ae (agent_data_dir ae)) (cx_dag cx) (cx_instance cx) (in_run inp) v in
      case v of None \<Rightarrow> ebind (elift local_dir) (\<lambda>dir. eret (dir, None, False))
      | Some _ \<Rightarrow> ebind (elift (parse_session_reference v)) (\<lambda>(d, g, m).
          case (if d = [] then None else reg) of
            Some rg \<Rightarrow> (if m = Some ''latest''
               then elift (found_session ae (get_latest d g rg) (''No completed session found for '' @ d @ ''/'' @ g))
               else elift (found_session ae (get_oldest_unconsumed d g (cx_instance cx) rg)
                 (''No unconsumed session found for '' @ d @ ''/'' @ g)))
          | None \<Rightarrow> ebind (elift local_dir) (\<lambda>dir. (case reg of
               Some rg \<Rightarrow> if g = [] then eret (dir, None, False) else own_session ae inp cx g dir rg
             | None \<Rightarrow> eret (dir, None, False)))))"

definition resolve_agent_session :: "'w agent_env \<Rightarrow> string \<Rightarrow> node_input \<Rightarrow> node_context \<Rightarrow> node_inst option
    \<Rightarrow> ('w, path \<times> string option \<times> bool) exec" where
  "resolve_agent_session ae n inp cx inst = ebind (elift (session_value inst)) (\<lambda>v.
     ebind (xget xs_registry) (\<lambda>reg. ebind (locate_session ae n inp cx reg v) (\<lambda>r.
     eseq (ae_mkdir ae (fst r)) (eret r))))"

definition output_schema :: "estore option \<Rightarrow> node_cfg \<Rightarrow> (string, pyval) dict option" where
  "output_schema store c = (case store of
     Some st \<Rightarrow> if nc_output_type c = [] then None else map_option et_schema (dget (es_types st) (nc_output_type c))
   | None \<Rightarrow> None)"

fun resolve_skills :: "'w agent_env \<Rightarrow> string list \<Rightarrow> ('w, path list \<times> string list) exec" where
  "resolve_skills ae [] = eret ([], [])"
| "resolve_skills ae (n # ns) = ebind (ae_exists ae (ae_skills_dir ae @ [n, ''SKILL.md''])) (\<lambda>b.
     ebind (resolve_skills ae ns) (\<lambda>(ps, ms). eret (if b then ((ae_skills_dir ae @ [n]) # ps, ms) else (ps, n # ms))))"

text \<open>The command line up to the prompt, which goes to a file.\<close>

definition session_flags :: "string option \<Rightarrow> bool \<Rightarrow> string list" where
  "session_flags sid is_first = (case or_str sid None of None \<Rightarrow> []
     | Some s \<Rightarrow> if is_first then [''--session-id'', s] else [''--session'', s])"

definition opt_flag :: "string \<Rightarrow> string option \<Rightarrow> string list" where
  "opt_flag f v = (case or_str v None of None \<Rightarrow> [] | Some s \<Rightarrow> [f, s])"

definition agent_arguments :: "'w agent_env \<Rightarrow> node_cfg \<Rightarrow> path \<Rightarrow> string option \<Rightarrow> bool \<Rightarrow> path list \<Rightarrow> string list" where
  "agent_arguments ae c dir sid is_first skills = (case nc_variant c of
     AgentNode model wd sk tools pfile prompt _ \<Rightarrow>
       [ae_pi_bin ae, ''--model'', model, ''--session-dir'', ae_text ae dir] @ session_flags sid is_first
       @ [''--no-skills'', ''--no-context-files''] @ concat (map (\<lambda>p. [''--skill'', ae_text ae p]) skills)
       @ opt_flag ''--system-prompt'' prompt @ opt_flag ''--append-system-prompt'' pfile
       @ (if tools = [] then [''--no-tools''] else [''--tools'', join '','' tools])
   | _ \<Rightarrow> [])"

definition build_agent_command :: "'w agent_env \<Rightarrow> node_cfg \<Rightarrow> path \<Rightarrow> string option \<Rightarrow> bool \<Rightarrow> path \<Rightarrow> node_input
    \<Rightarrow> (string, pyval) dict \<Rightarrow> path list \<Rightarrow> ('w, string list) exec" where
  "build_agent_command ae c dir sid is_first idir inp context skills =
     (let args = agent_arguments ae c dir sid is_first skills; prompt = agent_prompt (ae_dumps ae) (in_payload inp) context in
      if prompt = [] then eret args
      else eseq (ae_write ae (idir @ [''prompt.md'']) prompt)
        (eret (args @ [''-p'', ''@'' @ ae_text ae (idir @ [''prompt.md''])])))"

definition put_agent :: "string \<Rightarrow> string \<Rightarrow> nat \<Rightarrow> 'w exec_state \<Rightarrow> 'w exec_state" where
  "put_agent run n p w = w\<lparr>xs_agents := dset (xs_agents w) (run, n) p\<rparr>"

definition drop_agent :: "string \<Rightarrow> string \<Rightarrow> 'w exec_state task_state \<Rightarrow> 'w exec_state task_state" where
  "drop_agent run n s = s\<lparr>ts_world := (ts_world s)\<lparr>xs_agents := dpop (xs_agents (ts_world s)) (run, n)\<rparr>\<rparr>"

definition run_agent :: "'w agent_env \<Rightarrow> string \<Rightarrow> string \<Rightarrow> string list \<Rightarrow> string \<Rightarrow> (string, string) dict \<Rightarrow> path \<Rightarrow> rat option
    \<Rightarrow> ('w, string list \<times> int) exec" where
  "run_agent ae run n cmd workdir env lfile timeout =
     efinally (ebind (ae_spawn ae cmd workdir env) (\<lambda>p. eseq (xmod (put_agent run n p))
       (ebind (ae_stream ae p run n lfile timeout) (\<lambda>ls. ebind (ae_code ae p) (\<lambda>code. eret (ls, code))))))
     (drop_agent run n)"

definition agent_certificate :: "'w agent_env \<Rightarrow> string \<Rightarrow> rat option \<Rightarrow> ('w, (string, string) dict) exec" where
  "agent_certificate ae inst timeout = (case ae_certificate ae of None \<Rightarrow> eret []
     | Some issue \<Rightarrow> issue inst (case timeout of None \<Rightarrow> 3600 | Some q \<Rightarrow> floor q))"

definition agent_metadata :: "'w agent_env \<Rightarrow> node_input \<Rightarrow> string option \<Rightarrow> path \<Rightarrow> path \<Rightarrow> (string, pyval) dict" where
  "agent_metadata ae inp sid dir idir = output_metadata inp
     @ [(''session_id'', PStr (case or_str sid None of None \<Rightarrow> ae_text ae dir | Some s \<Rightarrow> s)),
        (''raw_log_path'', PStr (ae_text ae (idir @ [''stdout.log''])))]"

definition finish_agent :: "'w exec_env \<Rightarrow> node_cfg \<Rightarrow> string \<Rightarrow> node_input \<Rightarrow> (string, pyval) dict option \<Rightarrow> (string, pyval) dict \<Rightarrow> path
    \<Rightarrow> string list \<Rightarrow> int \<Rightarrow> ('w, node_output) exec" where
  "finish_agent xe c n inp schema meta result_path ls code =
     (if code \<noteq> 0 then eret (failed_output n meta (''pi exited with code '' @ int_str code))
      else ebind (ae_loaded (xe_agent xe) result_path) (\<lambda>loaded.
        ebind (elift (read_agent_result loaded schema (join [CHR 0x0A] ls))) (\<lambda>(p, degraded).
        let meta' = (if degraded then meta @ [(''result_degraded'', PBool True)] else meta) in
        eseq (record_output xe inp n c p meta') (eret (ok_output n p meta')))))"

definition launch_agent :: "'w exec_env \<Rightarrow> node_cfg \<Rightarrow> node_cfg \<Rightarrow> string \<Rightarrow> node_input \<Rightarrow> node_context \<Rightarrow> path \<times> string option \<times> bool
    \<Rightarrow> path \<Rightarrow> path list \<Rightarrow> ('w, node_output) exec" where
  "launch_agent xe c eff n inp cx session idir skills =
     (let ae = xe_agent xe; (dir, sid, is_first) = session; result_path = idir @ [''result.json'']; timeout = effective_timeout xe eff in
      ebind (xget xs_store) (\<lambda>store.
      let schema = output_schema store eff; context = agent_runtime_context inp cx (Some (ae_text ae result_path)) schema in
      eseq (ae_write ae (idir @ [''runtime-context.json'']) (ae_dumps ae (PDict context)))
      (ebind (build_agent_command ae eff dir sid is_first idir inp context skills) (\<lambda>cmd.
       ebind (agent_certificate ae (cx_instance cx) timeout) (\<lambda>cert.
       let env = dmerge (dmerge (ae_environ ae) (agent_env (dget (ae_environ ae) ''EDERA_SERVER_ADDR'') (cx_instance cx))) cert;
           workdir = (case nc_variant eff of AgentNode _ (Some wd) _ _ _ _ _ \<Rightarrow> wd | _ \<Rightarrow> ae_text ae idir) in
       ebind (ecatch (run_agent ae (in_run inp) n cmd workdir env (idir @ [''stdout.log'']) timeout)) (\<lambda>r. case r of
         Inl e \<Rightarrow> eret (failed_node n inp (err_text e))
       | Inr (ls, code) \<Rightarrow> finish_agent xe c n inp schema (agent_metadata ae inp sid dir idir) result_path ls code))))))"

definition agent_skills :: "node_cfg \<Rightarrow> string list" where
  "agent_skills c = (case nc_variant c of AgentNode _ _ sk _ _ _ _ \<Rightarrow> sk | _ \<Rightarrow> [])"

definition execute_agent :: "'w exec_env \<Rightarrow> node_cfg \<Rightarrow> string \<Rightarrow> node_input \<Rightarrow> node_context \<Rightarrow> node_inst option \<Rightarrow> ('w, node_output) exec" where
  "execute_agent xe c n inp cx inst =
     (let eff = apply_agent_instance_config c inst; ae = xe_agent xe in
      ebind (resolve_agent_session ae n inp cx inst) (\<lambda>session.
      let idir = invocation_dir (fst session) (cx_instance cx) in
      eseq (ae_mkdir ae idir) (ebind (resolve_skills ae (agent_skills eff)) (\<lambda>(skills, missing).
        if missing \<noteq> [] then eret (failed_node n inp (''missing skill: '' @ join '', '' (sort missing)))
        else launch_agent xe c eff n inp cx session idir skills))))"

definition stop_agent :: "'w agent_env \<Rightarrow> string \<Rightarrow> string \<Rightarrow> ('w, bool) exec" where
  "stop_agent ae run n = ebind (xget xs_agents) (\<lambda>ps. case dget ps (run, n) of None \<Rightarrow> eret False
     | Some p \<Rightarrow> ebind (eget (ae_returncode ae p)) (\<lambda>code. if code \<noteq> None then eret False
         else eseq (ae_terminate ae p) (eret True)))"

section \<open>Executing a node\<close>

definition handler_name :: "node_cfg \<Rightarrow> string" where
  "handler_name c = (case nc_variant c of FunctionNode h _ _ _ _ _ _ \<Rightarrow> if h = [] then nc_name c else h | _ \<Rightarrow> nc_name c)"

definition function_payload :: "'w exec_env \<Rightarrow> node_cfg \<Rightarrow> node_input \<Rightarrow> node_context \<Rightarrow> node_inst option
    \<Rightarrow> ('w, node_cfg \<times> node_input \<times> handler_result) exec" where
  "function_payload xe c inp cx inst = ebind (elift (apply_instance_config c inst)) (\<lambda>eff.
     ebind (xget xs_store) (\<lambda>store. ebind (elift (apply_instance_input eff inp inst store)) (\<lambda>inp'.
     ebind (execute_payload xe (handler_name c) eff inp' cx) (\<lambda>p. eret (eff, inp', p)))))"

definition execute_function :: "'w exec_env \<Rightarrow> node_cfg \<Rightarrow> string \<Rightarrow> node_input \<Rightarrow> node_context \<Rightarrow> node_inst option
    \<Rightarrow> ('w, node_output) exec" where
  "execute_function xe c n inp cx inst =
     (let cx' = cx\<lparr>cx_type := nc_name c, cx_permissions := PDict (instance_permissions inst)\<rparr> in
      ebind (ecatch (function_payload xe c inp cx' inst)) (\<lambda>r. case r of
        Inl e \<Rightarrow> eret (failed_node n inp (err_text e))
      | Inr (eff, inp', HOutput out) \<Rightarrow>
          eseq (ewhen (no_ok out) (record_output xe inp' n eff (no_payload out) (output_metadata inp'))) (eret out)
      | Inr (eff, inp', HPayload p) \<Rightarrow>
          eseq (record_output xe inp' n eff p (output_metadata inp')) (eret (ok_output n p (output_metadata inp')))))"

fun is_node_error :: "err \<Rightarrow> bool" where
  "is_node_error (NodeExecutionError _) = True"
| "is_node_error _ = False"

definition dispatch_node :: "'w exec_env \<Rightarrow> string \<Rightarrow> node_input \<Rightarrow> node_context \<Rightarrow> node_inst option \<Rightarrow> node_cfg \<Rightarrow> ('w, node_output) exec" where
  "dispatch_node xe n inp cx inst c = (case nc_variant c of
     WaitNode w consume \<Rightarrow> execute_wait xe c w consume n inp
   | AgentNode _ _ _ _ _ _ _ \<Rightarrow> execute_agent xe c n inp cx inst
   | DagNode _ _ \<Rightarrow> (case xe_dag xe of None \<Rightarrow> eret (failed_node n inp ''dag executor not configured'')
       | Some f \<Rightarrow> f c n inp cx)
   | FunctionNode _ _ _ _ _ _ _ \<Rightarrow> execute_function xe c n inp cx inst)"

definition default_context :: "'w exec_env \<Rightarrow> string \<Rightarrow> node_input \<Rightarrow> ('w, node_context) exec" where
  "default_context xe n inp = ebind (if n = [] then xe_uuid xe else eret n) (\<lambda>i. eret (bare_context (in_run inp) i [] (xe_root_dag xe)))"

definition type_name :: "node_inst option \<Rightarrow> node_context \<Rightarrow> string \<Rightarrow> string" where
  "type_name inst cx n = (case inst of Some i \<Rightarrow> ni_type i | None \<Rightarrow> if cx_type cx = [] then n else cx_type cx)"

definition execute_inner :: "'w exec_env \<Rightarrow> string \<Rightarrow> node_input \<Rightarrow> node_context option \<Rightarrow> ('w, node_output) exec" where
  "execute_inner xe n inp cxo = ebind (eget (\<lambda>s. dget (ts_instances s) n)) (\<lambda>inst.
     ebind (case cxo of Some cx \<Rightarrow> eret cx | None \<Rightarrow> default_context xe n inp) (\<lambda>cx.
     ebind (xget xs_store) (\<lambda>store. case node_config xe store (type_name inst cx n) of
       Inl e \<Rightarrow> if is_node_error e then eret (failed_node n inp (err_text e)) else ethrow e
     | Inr c \<Rightarrow> dispatch_node xe n inp cx inst c)))"

definition execute :: "'w exec_env \<Rightarrow> string \<Rightarrow> node_input \<Rightarrow> node_context option \<Rightarrow> ('w, node_output) exec" where
  "execute xe n inp cxo = ebind (execute_inner xe n inp cxo) (\<lambda>out.
     eseq (record_execution_summary xe n inp out) (eret out))"

section \<open>The executor of a runner\<close>

text \<open>A runner and the runners of its sub-DAGs share one executor. \<open>DagRunner.__init__\<close> sets \<open>dag_executor\<close> only when it is
  not set yet: nodes whose type is a DAG are executed by the runner that was created first, with its depth and its chain
  of DAGs, also when they stand in a child run.\<close>

definition dag_node_executor :: "'w exec_state task_env \<Rightarrow> node_cfg \<Rightarrow> string \<Rightarrow> node_input \<Rightarrow> node_context \<Rightarrow> ('w, node_output) exec" where
  "dag_node_executor te c n inp cx = (case nc_variant c of
     DagNode ref m \<Rightarrow> ebind (xget xs_store) (\<lambda>store. execute_dag_node_config te store ref m n inp)
   | _ \<Rightarrow> ethrow (attribute_error ''dag_ref''))"

definition bind_dag_executor :: "'w exec_state task_env \<Rightarrow> 'w exec_env \<Rightarrow> 'w exec_env" where
  "bind_dag_executor te xe = (case xe_dag xe of None \<Rightarrow> xe\<lparr>xe_dag := Some (dag_node_executor te)\<rparr> | Some _ \<Rightarrow> xe)"

definition executor_env :: "'w exec_env \<Rightarrow> 'w exec_state task_env \<Rightarrow> 'w exec_state task_env" where
  "executor_env xe te = te\<lparr>te_execute := (\<lambda>n inp cx. execute xe n inp (Some cx))\<rparr>"

text \<open>What a runner with the surroundings \<open>te\<close> executes its nodes in, when the executor was first given to the runner \<open>base\<close>.\<close>

definition runner_env :: "'w exec_env \<Rightarrow> 'w exec_state task_env \<Rightarrow> 'w exec_state task_env \<Rightarrow> 'w exec_state task_env" where
  "runner_env xe base te = executor_env (bind_dag_executor te (bind_dag_executor base xe)) te"

end
