(* ===== verification/TaskProps.thy ===== *)
theory TaskProps
  imports RunTasks EntityStoreProps
begin

text \<open>
  Properties of the tasks of a run (\<open>RunTasks\<close>) and of the node context and the session references
  (\<open>NodeModels\<close>): which child runs a sub-DAG node starts, how often and on which inputs a serial loop executes its
  node, that its permits are given back, what the fallback leaves behind, and what a node can read and write.
\<close>

section \<open>Sub-DAGs\<close>

text \<open>The chain of DAGs a runner is in: as many steps as its depth, which starts at 1, and no name twice.\<close>

definition chain_ok :: "'w task_env \<Rightarrow> bool" where
  "chain_ok te = (int (length (te_path te)) = te_depth te \<and> distinct (map ps_dag (te_path te)))"

definition child_call_ok :: "'w task_env \<Rightarrow> int \<Rightarrow> path_step list \<Rightarrow> bool" where
  "child_call_ok te d p = (d = te_depth te + 1 \<and> d \<le> te_max_depth te \<and> int (length p) = d
     \<and> distinct (map ps_dag p) \<and> butlast p = te_path te \<and> p \<noteq> [])"

lemma child_call_okI:
  assumes "chain_ok te" "ref \<notin> ps_dag ` set (te_path te)" "te_depth te < te_max_depth te"
  shows "child_call_ok te (te_depth te + 1) (te_path te @ [\<lparr>ps_dag = ref, ps_via = v\<rparr>])"
  using assms by (auto simp: chain_ok_def child_call_ok_def)

lemma lifecycle_child [simp]: "lifecycle (te\<lparr>te_run_child := f\<rparr>) = lifecycle te"
  by (simp add: lifecycle_def fun_eq_iff)

lemma finish_child [simp]: "finish_sub_dag (te\<lparr>te_run_child := f\<rparr>) = finish_sub_dag te"
  by (simp add: finish_sub_dag_def fun_eq_iff cong: sum.case_cong if_cong)

lemma sub_dag_cong:
  assumes "chain_ok te" "\<And>g c d p r. child_call_ok te d p \<Longrightarrow> f g c d p r = h g c d p r"
  shows "execute_sub_dag (te\<lparr>te_run_child := f\<rparr>) store i ref m inp
    = execute_sub_dag (te\<lparr>te_run_child := h\<rparr>) store i ref m inp"
proof (cases "ref \<in> ps_dag ` set (te_path te) \<or> te_max_depth te \<le> te_depth te")
  case True
  then show ?thesis by (auto simp: execute_sub_dag_def Let_def)
next
  case False
  then have "f g c (te_depth te + 1) (te_path te @ [\<lparr>ps_dag = ref, ps_via = Some (ni_id i)\<rparr>]) r
      = h g c (te_depth te + 1) (te_path te @ [\<lparr>ps_dag = ref, ps_via = Some (ni_id i)\<rparr>]) r" for g c r
    by (intro assms(2) child_call_okI [OF assms(1)]) auto
  then show ?thesis using False
    by (simp add: execute_sub_dag_def Let_def)
qed

lemma serial_child: "serial_from (te\<lparr>te_run_child := f\<rparr>) res u n cx k left inp prev = serial_from te res u n cx k left inp prev"
proof (induction left arbitrary: k inp prev)
  case (Suc left)
  have "run_iteration (te\<lparr>te_run_child := f\<rparr>) res n inp c = run_iteration te res n inp c" for c
    by (cases res) (simp_all add: run_iteration_def)
  then show ?case using Suc.IH by (simp cong: if_cong)
qed simp

lemma fallback_child [simp]: "fallback (te\<lparr>te_run_child := f\<rparr>) = fallback te"
  by (simp add: fallback_def fun_eq_iff cong: option.case_cong if_cong)

lemma serial_loop_child [simp]:
  "execute_serial_loop (te\<lparr>te_run_child := f\<rparr>) = execute_serial_loop te"
  by (simp add: execute_serial_loop_def loop_semaphore_def serial_child fun_eq_iff cong: option.case_cong)

lemma execute_node_cong:
  assumes "chain_ok te" "\<And>g c d p r. child_call_ok te d p \<Longrightarrow> f g c d p r = h g c d p r"
  shows "execute_node (te\<lparr>te_run_child := f\<rparr>) store par i n inp cx = execute_node (te\<lparr>te_run_child := h\<rparr>) store par i n inp cx"
proof -
  have "execute_sub_dag (te\<lparr>te_run_child := f\<rparr>) = execute_sub_dag (te\<lparr>te_run_child := h\<rparr>)"
    using sub_dag_cong [of te f h, OF assms] by (simp add: fun_eq_iff)
  then show ?thesis by (simp add: execute_node_def loop_semaphore_def cong: option.case_cong if_cong loop_mode.case_cong)
qed

section \<open>Serial loops\<close>

text \<open>\<open>held\<close> counts the permits of \<open>r\<close> the task holds: what it promises of the environment.\<close>

definition counts_permits :: "'w task_env \<Rightarrow> string \<Rightarrow> ('w task_state \<Rightarrow> int) \<Rightarrow> bool" where
  "counts_permits te r held = ((\<forall>n inp cx s. held (snd (te_execute te n inp cx s)) = held s)
     \<and> (\<forall>s. held (snd (te_semaphore te r s)) = held s)
     \<and> (\<forall>s. held (snd (te_acquire te r s)) = held s + (if is_ok (fst (te_acquire te r s)) then 1 else 0))
     \<and> (\<forall>s. held (te_release te r s) = held s - 1))"

lemma run_iteration_held:
  assumes "counts_permits te r held"
  shows "held (snd (run_iteration te (Some r) n inp cx s)) = held s"
proof -
  obtain a t where a: "te_acquire te r s = (a, t)" by (cases "te_acquire te r s")
  have "held t = held s + (if is_ok a then 1 else 0)" using assms a by (auto simp: counts_permits_def dest!: spec [of _ s])
  then show ?thesis using assms by (cases a) (auto simp: run_iteration_def ebind_def efinally_def counts_permits_def a)
qed

lemma serial_from_held:
  assumes "counts_permits te r held"
  shows "held (snd (serial_from te (Some r) u n cx k left inp prev s)) = held s"
proof (induction left arbitrary: k inp prev s)
  case (Suc left)
  show ?case
    using run_iteration_held [OF assms, of n inp "iteration_context cx n k" s] Suc.IH
    by (cases "run_iteration te (Some r) n inp (iteration_context cx n k) s"; cases "fst (run_iteration te (Some r) n inp (iteration_context cx n k) s)")
      (auto simp: ebind_def elift_def eret_def split: sum.splits)
qed (simp add: eret_def split: option.splits)

text \<open>A node without effects apart from the log of its inputs, for counting the iterations.\<close>

definition logs_runs :: "'w task_env \<Rightarrow> (pyval \<Rightarrow> node_output) \<Rightarrow> ('w task_state \<Rightarrow> (string \<times> pyval) list) \<Rightarrow> bool" where
  "logs_runs te f lg = (\<forall>n inp cx s. fst (te_execute te n inp cx s) = Inr (f (in_payload inp))
     \<and> lg (snd (te_execute te n inp cx s)) = lg s @ [(cx_instance cx, in_payload inp)])"

text \<open>The input of iteration \<open>k\<close>: each payload is the input of the next iteration.\<close>

definition payload_at :: "(pyval \<Rightarrow> node_output) \<Rightarrow> pyval \<Rightarrow> nat \<Rightarrow> pyval" where
  "payload_at f p k = ((\<lambda>x. no_payload (f x)) ^^ k) p"

definition loop_stops :: "cond_env \<Rightarrow> string option \<Rightarrow> node_output \<Rightarrow> bool" where
  "loop_stops ce u out = (\<not> no_ok out \<or> until_holds ce u (no_payload out) = Inr True)"

lemma serial_from_runs:
  assumes "logs_runs te f lg" "\<And>x. is_ok (until_holds (te_cond te) u x)" "left > 0"
  shows "\<exists>m \<ge> 1. m \<le> left \<and> fst (serial_from te None u n cx k left inp prev s) = Inr (f (payload_at f (in_payload inp) (m - 1)))
    \<and> lg (snd (serial_from te None u n cx k left inp prev s)) = lg s @ map (\<lambda>j. (n @ '':'' @ nat_str (k + j), payload_at f (in_payload inp) j)) [0..<m]
    \<and> (\<forall>j < m - 1. \<not> loop_stops (te_cond te) u (f (payload_at f (in_payload inp) j)))
    \<and> (m < left \<longrightarrow> loop_stops (te_cond te) u (f (payload_at f (in_payload inp) (m - 1))))"
  using assms(3)
proof (induction left arbitrary: k inp prev s)
  case (Suc left)
  let ?p = "in_payload inp"
  obtain t where t: "te_execute te n inp (iteration_context cx n k) s = (Inr (f ?p), t)"
    and lt: "lg t = lg s @ [(n @ '':'' @ nat_str k, ?p)]"
    using assms(1) by (cases "te_execute te n inp (iteration_context cx n k) s")
      (auto simp: logs_runs_def iteration_context_def bare_context_def dest!: spec [of _ n] spec [of _ inp] spec [of _ "iteration_context cx n k"] spec [of _ s])
  obtain b where b: "until_holds (te_cond te) u (no_payload (f ?p)) = Inr b"
    using assms(2) [of "no_payload (f ?p)"] by (auto simp: is_ok_iff)
  have run: "serial_from te None u n cx k (Suc left) inp prev s =
      (if loop_stops (te_cond te) u (f ?p) then (Inr (f ?p), t)
       else serial_from te None u n cx (Suc k) left (inp\<lparr>in_payload := no_payload (f ?p)\<rparr>) (Some (f ?p)) t)"
    using t b by (auto simp: run_iteration_def ebind_def eret_def elift_def loop_stops_def)
  show ?case
  proof (cases "loop_stops (te_cond te) u (f ?p) \<or> left = 0")
    case True
    then show ?thesis using run lt by (intro exI [of _ 1]) (auto simp: payload_at_def eret_def)
  next
    case False
    have sh: "payload_at f (no_payload (f ?p)) j = payload_at f ?p (Suc j)" for j
      using funpow_swap1 [of "\<lambda>x. no_payload (f x)" j ?p] by (simp add: payload_at_def)
    have up: "map g [0..<Suc q] = g 0 # map (\<lambda>j. g (Suc j)) [0..<q]" for g :: "nat \<Rightarrow> string \<times> pyval" and q
      by (simp add: upt_conv_Cons map_Suc_upt [symmetric] del: upt_Suc)
    let ?inp = "inp\<lparr>in_payload := no_payload (f ?p)\<rparr>"
    let ?r = "serial_from te None u n cx (Suc k) left ?inp (Some (f ?p)) t"
    have run': "serial_from te None u n cx k (Suc left) inp prev s = ?r" using run False by simp
    obtain m where m: "m \<ge> 1" "m \<le> left" "fst ?r = Inr (f (payload_at f ?p m))"
      "lg (snd ?r) = lg t @ map (\<lambda>j. (n @ '':'' @ nat_str (k + Suc j), payload_at f ?p (Suc j))) [0..<m]"
      "\<forall>j < m - 1. \<not> loop_stops (te_cond te) u (f (payload_at f ?p (Suc j)))"
      "m < left \<longrightarrow> loop_stops (te_cond te) u (f (payload_at f ?p m))"
      using Suc.IH [of "Suc k" ?inp "Some (f ?p)" t] False by (auto simp: sh)
    have q: "\<not> loop_stops (te_cond te) u (f (payload_at f ?p j))" if "j < m" for j
      using m(5) that False by (cases j) (auto simp: payload_at_def)
    have "lg (snd ?r) = lg s @ map (\<lambda>j. (n @ '':'' @ nat_str (k + j), payload_at f ?p j)) [0..<Suc m]"
      unfolding m(4) lt up by (simp add: payload_at_def)
    with m q show ?thesis unfolding run' by (intro exI [of _ "Suc m"]) simp
  qed
qed simp

section \<open>Parallel loops\<close>

lemma collect_completed_spec:
  assumes "collect_completed until cs seen = Inr (rs, m)"
  shows "if m then \<exists>out. Some (Inr out) \<in> set cs \<and> rs = [out] \<and> no_ok out \<and> until (no_payload out) = Inr True
    else \<exists>new. rs = seen @ new \<and> map (\<lambda>r. Some (Inr r)) new = filter (\<lambda>c. c \<noteq> None) cs
      \<and> (\<forall>out \<in> set new. no_ok out \<longrightarrow> until (no_payload out) = Inr False)"
  using assms
proof (induction until cs seen rule: collect_completed.induct)
  case (4 until out cs seen)
  consider (stop) "no_ok out" "until (no_payload out) = Inr True"
    | (go) "collect_completed until cs (seen @ [out]) = Inr (rs, m)" "no_ok out \<longrightarrow> until (no_payload out) = Inr False"
    using "4.prems" by (auto simp: rbind_eq_Inr split: if_splits)
  then show ?case
  proof cases
    case stop
    then show ?thesis using "4.prems" by (auto split: if_splits)
  next
    case go
    then have "if m then \<exists>out. Some (Inr out) \<in> set cs \<and> rs = [out] \<and> no_ok out \<and> until (no_payload out) = Inr True
      else \<exists>new. rs = (seen @ [out]) @ new \<and> map (\<lambda>r. Some (Inr r)) new = filter (\<lambda>c. c \<noteq> None) cs
        \<and> (\<forall>out \<in> set new. no_ok out \<longrightarrow> until (no_payload out) = Inr False)"
      using "4.IH"(1) [of False] "4.IH"(2) by (cases "no_ok out") auto
    then show ?thesis using go(2) by (cases m) (auto intro: exI [of _ "out # _"])
  qed
qed auto

section \<open>Access to entities\<close>

lemma readable_get:
  "dget (readable_attributes t ov attrs) f = (if can_read (field_permission t f ov) then dget attrs f else None)"
  unfolding readable_attributes_def by (induction attrs) auto

text \<open>A read answers with the value exactly when the permission of the field allows it, and with nothing otherwise.\<close>

lemma read_guarded:
  assumes "resolve st ref None = Inr e" "dget (es_types st) (en_type e) = Some t"
  shows "read_entity_field cx ref f (Some st) = Inr (if can_read (field_permission t f (type_overrides (en_type e) (cx_permissions cx)))
     then aget (en_attrs e) f else PNone)"
  using assms by (simp add: read_entity_field_def get_entity_def type_of_entity_def field_right_def lookup_key_def
      rbind_simps aget_def dget_default_def readable_get)

definition entity_view :: "node_context \<Rightarrow> etype \<Rightarrow> entity \<Rightarrow> entity" where
  "entity_view cx t e = e\<lparr>en_attrs := readable_attributes t (type_overrides (en_type e) (cx_permissions cx)) (en_attrs e)\<rparr>"

lemma write_cases:
  assumes "resolve st ref None = Inr e" "dget (es_types st) (en_type e) = Some t"
  shows "write_entity_field cx ref f v (Some st) =
    (if can_write (field_permission t f (type_overrides (en_type e) (cx_permissions cx)))
     then (case save ((entity_view cx t e)\<lparr>en_attrs := dset (en_attrs (entity_view cx t e)) f v\<rparr>) (cx_permissions cx) st of
        (Inl x, st') \<Rightarrow> (Inl x, Some st') | (Inr _, st') \<Rightarrow> (Inr True, Some st'))
     else (Inr False, Some st))"
  using assms by (auto simp: write_entity_field_def get_entity_def type_of_entity_def field_right_def lookup_key_def
      rbind_simps ebind_def eget_def elift_def eret_def save_entity_def on_store_def entity_view_def split: prod.splits sum.splits)

lemma write_keeps_fields:
  assumes r: "resolve st ref None = Inr e" and t: "dget (es_types st) (en_type e) = Some t"
    and i: "index_of_id (en_id e) (es_entities st) = Some i" "es_entities st ! i = e"
    and w: "write_entity_field cx ref f v (Some st) = (Inr True, store)"
  shows "\<exists>saved. store = Some (st\<lparr>es_entities := (es_entities st)[i := saved]\<rparr>) \<and> en_id saved = en_id e
    \<and> valid_entities (es_types st) ((es_entities st)[i := saved])
    \<and> dget (en_attrs saved) f = Some v \<and> (\<forall>g. g \<noteq> f \<longrightarrow> dget (en_attrs saved) g = dget (en_attrs e) g)"
proof -
  let ?e = "(entity_view cx t e)\<lparr>en_attrs := dset (en_attrs (entity_view cx t e)) f v\<rparr>"
  let ?p = "\<lambda>g. field_permission t g (type_overrides (en_type e) (cx_permissions cx))"
  obtain st' saved where s: "save ?e (cx_permissions cx) st = (Inr saved, st')" and st': "store = Some st'" and p: "can_write (?p f)"
    using w unfolding write_cases [OF r t] by (auto split: if_splits prod.splits sum.splits)
  have id: "en_id ?e = en_id e" "en_type ?e = en_type e" by (simp_all add: entity_view_def)
  note sv = saved_file_entity [OF s, unfolded id, OF i(1) t]
  have at: "dget (en_attrs ?e) g = (if g = f then Some v else if can_read (?p g) then dget (en_attrs e) g else None)" for g
    by (simp add: entity_view_def readable_get)
  have "dget (en_attrs saved) g = (if g = f then Some v else dget (en_attrs e) g)" for g
    using sv p unfolding saved_field_def at i(2)
    by (cases "?p g") (auto simp: can_read_def can_write_def split: option.splits)
  then show ?thesis using sv by (intro exI [of _ saved]) (auto simp: st')
qed

section \<open>Session references\<close>

lemma plain_part_iff: "plain_part p \<longleftrightarrow> p \<noteq> [] \<and> CHR ''/'' \<notin> set p \<and> CHR ''@'' \<notin> set p"
  by (auto simp: plain_part_def list_all_iff)

lemma mode_text_iff: "mode_text s = Some m \<longleftrightarrow> m \<in> {''latest'', ''list''} \<and> (s = m \<or> s = m @ [CHR 0x0A])"
proof (cases s rule: rev_cases)
  case (snoc ys y)
  then show ?thesis by (auto simp: mode_text_def Let_def)
qed (auto simp: mode_text_def)

lemma cross_match_text:
  assumes "plain_part d" "plain_part g" "mode_text t = Some m"
  shows "cross_dag_match (d @ CHR ''/'' # g @ CHR ''@'' # t) = Some (d, g, m)"
proof -
  have "CHR ''@'' \<notin> set t" using assms(3) unfolding mode_text_iff by auto
  moreover have "split_on (CHR ''@'') ((d @ CHR ''/'' # g) @ CHR ''@'' # t) = (d @ CHR ''/'' # g) # split_on (CHR ''@'') t"
    by (rule split_on_append) (use assms in \<open>auto simp: plain_part_iff\<close>)
  ultimately have "split_on (CHR ''@'') (d @ CHR ''/'' # g @ CHR ''@'' # t) = [d @ CHR ''/'' # g, t]"
    by (simp add: split_on_single)
  moreover have "split_on (CHR ''/'') (d @ CHR ''/'' # g) = [d, g]"
    using assms by (simp add: split_on_append split_on_single plain_part_iff)
  ultimately show ?thesis using assms by (simp add: cross_dag_match_def)
qed

lemma cross_match_only:
  assumes "cross_dag_match s = Some (d, g, m)"
  shows "plain_part d \<and> plain_part g \<and> (\<exists>t. mode_text t = Some m \<and> s = d @ CHR ''/'' # g @ CHR ''@'' # t)"
proof -
  obtain ref t where st: "split_on (CHR ''@'') s = [ref, t]" and rt: "split_on (CHR ''/'') ref = [d, g]" "mode_text t = Some m"
    "plain_part d" "plain_part g"
    using assms by (auto simp: cross_dag_match_def split: list.splits option.splits if_splits)
  have "s = ref @ CHR ''@'' # t" "ref = d @ CHR ''/'' # g"
    using join_split_on [of "CHR ''@''" s] join_split_on [of "CHR ''/''" ref] st rt by simp_all
  then show ?thesis using rt by auto
qed

section \<open>A small environment\<close>

text \<open>One resource \<open>r\<close>; the world is the log of the inputs and the number of permits held.\<close>

definition wrap_out :: "pyval \<Rightarrow> node_output" where
  "wrap_out p = \<lparr>no_name = ''n'', no_ok = True, no_payload = PList [p], no_metadata = [], no_error = None\<rparr>"

definition small_cond :: cond_env where
  "small_cond = \<lparr>ce_parse = (\<lambda>_. Inr (AConst (PBool True))), ce_custom = None, ce_attr = (\<lambda>_ _. PNone), ce_store = None\<rparr>"

definition small_env :: "((string \<times> pyval) list \<times> int) task_env" where
  "small_env = \<lparr>te_dags = [], te_nodes = [], te_depth = 1, te_path = [\<lparr>ps_dag = ''main'', ps_via = None\<rparr>], te_max_depth = 2,
     te_cond = small_cond,
     te_execute = (\<lambda>n inp cx s. (Inr (wrap_out (in_payload inp)),
        s\<lparr>ts_world := (fst (ts_world s) @ [(cx_instance cx, in_payload inp)], snd (ts_world s))\<rparr>)),
     te_semaphore = (\<lambda>_. eret ()), te_acquire = (\<lambda>_. emod (\<lambda>s. s\<lparr>ts_world := (fst (ts_world s), snd (ts_world s) + 1)\<rparr>)),
     te_release = (\<lambda>_ s. s\<lparr>ts_world := (fst (ts_world s), snd (ts_world s) - 1)\<rparr>),
     te_fresh_run = eret ''c'', te_lifecycle = None, te_run_child = (\<lambda>_ _ _ _ _. ethrow (DagError ''x''))\<rparr>"

definition small_inst :: "string option \<Rightarrow> node_inst" where
  "small_inst res = \<lparr>ni_id = ''n'', ni_type = ''t'', ni_dag_ref = None, ni_input_mapping = MapDict [], ni_alias = None,
     ni_config = [(''model'', PStr ''big'')], ni_optional = False, ni_fan_in_mode = NBarrier, ni_loop = None, ni_switch_model = True,
     ni_fallback_model = Some ''small'', ni_resource = res\<rparr>"

definition small_loop :: loop_cfg where
  "small_loop = \<lparr>lp_mode = LSerial, lp_count = Some 2, lp_until = None\<rparr>"

definition small_input :: node_input where
  "small_input = \<lparr>in_run = ''r'', in_payload = PInt 1, in_metadata = []\<rparr>"

definition small_state :: "((string \<times> pyval) list \<times> int) task_state" where
  "small_state = \<lparr>ts_instances = [(''n'', small_inst None)], ts_world = ([], 0)\<rparr>"

section \<open>Properties\<close>

text \<open>C33: A serial loop without a resource executes its node between once and \<open>count\<close> times, iteration \<open>k\<close>
  under the id \<open>node:k\<close> and on the payload of iteration \<open>k - 1\<close>; it ends with the first output that failed or
  met the until condition, or after \<open>count\<close> iterations, and returns the last output.\<close>

theorem serial_loop_runs:
  assumes "logs_runs te f lg" "\<And>x. is_ok (until_holds (te_cond te) (lp_until lp) x)" "loop_count lp > 0"
    "or_str (ni_resource i) None = None"
  shows "\<exists>m \<ge> 1. m \<le> loop_count lp
    \<and> fst (execute_serial_loop te i lp n inp cx s) = Inr (f (payload_at f (in_payload inp) (m - 1)))
    \<and> lg (snd (execute_serial_loop te i lp n inp cx s))
        = lg s @ map (\<lambda>j. (n @ '':'' @ nat_str j, payload_at f (in_payload inp) j)) [0..<m]
    \<and> (\<forall>j < m - 1. \<not> loop_stops (te_cond te) (lp_until lp) (f (payload_at f (in_payload inp) j)))
    \<and> (m < loop_count lp \<longrightarrow> loop_stops (te_cond te) (lp_until lp) (f (payload_at f (in_payload inp) (m - 1))))"
proof -
  have "execute_serial_loop te i lp n inp cx s = serial_from te None (lp_until lp) n cx 0 (loop_count lp) inp None s"
    using assms(4) by (simp add: execute_serial_loop_def loop_semaphore_def ebind_def eret_def)
  then show ?thesis using serial_from_runs [OF assms(1-3), of n cx 0 inp None s] by simp
qed

theorem serial_loop_runs_witness:
  "fst (ts_world (snd (execute_serial_loop small_env (small_inst None) small_loop ''n'' small_input
      (bare_context ''r'' ''n'' ''t'' ''main'') small_state))) = [(''n:0'', PInt 1), (''n:1'', PList [PInt 1])]"
proof -
  have l: "logs_runs small_env wrap_out (\<lambda>s. fst (ts_world s))" by (simp add: logs_runs_def small_env_def)
  have u: "is_ok (until_holds (te_cond small_env) (lp_until small_loop) x)" for x
    by (simp add: until_holds_def small_loop_def or_str_def)
  have st: "\<not> loop_stops (te_cond small_env) (lp_until small_loop) (wrap_out x)" for x
    by (simp add: loop_stops_def until_holds_def small_loop_def or_str_def wrap_out_def)
  have "nat_str 0 = ''0''" "nat_str 1 = ''1''" by code_simp+
  then show ?thesis
    using serial_loop_runs [OF l u, of "small_inst None" "''n''" small_input "bare_context ''r'' ''n'' ''t'' ''main''" small_state] st
    by (auto simp: small_loop_def loop_count_def small_inst_def or_str_def small_input_def small_state_def payload_at_def
        wrap_out_def le_Suc_eq numeral_2_eq_2)
qed

text \<open>A serial loop gives back every permit it takes, whether it ends, raises or is refused one.\<close>

theorem serial_loop_permits:
  assumes "counts_permits te r held" "or_str (ni_resource i) None = Some r"
  shows "held (snd (execute_serial_loop te i lp n inp cx s)) = held s"
proof -
  have "held (snd (te_semaphore te r s)) = held s" using assms(1) by (simp add: counts_permits_def)
  then show ?thesis using assms serial_from_held [OF assms(1)]
    by (cases "te_semaphore te r s"; cases "fst (te_semaphore te r s)")
      (auto simp: execute_serial_loop_def loop_semaphore_def ebind_def eret_def)
qed

theorem serial_loop_permits_witness:
  "snd (ts_world (snd (execute_serial_loop small_env (small_inst (Some ''r'')) small_loop ''n'' small_input
      (bare_context ''r'' ''n'' ''t'' ''main'') small_state))) = 0"
proof -
  have "counts_permits small_env ''r'' (\<lambda>s. snd (ts_world s))"
    by (simp add: counts_permits_def small_env_def eret_def emod_def)
  from serial_loop_permits [OF this, of "small_inst (Some ''r'')" small_loop "''n''" small_input
      "bare_context ''r'' ''n'' ''t'' ''main''" small_state]
  show ?thesis by (simp add: small_inst_def or_str_def small_state_def)
qed

text \<open>After a failure a node with a fallback model is executed once more with its model replaced, in its
  configuration and its parameters, and the executor has its own instance back afterwards, also when the
  second execution raises.\<close>

theorem fallback_switches_model:
  assumes "\<not> no_ok out" "ni_switch_model i" "or_str (ni_fallback_model i) None = Some m"
    "dget (ts_instances s) (ni_id i) = Some current"
  shows "fst (fallback te i inp cx out s) = fst (te_execute te (ni_id i) inp cx (set_instance (ni_id i) (with_model i m) s))
    \<and> dget (ts_instances (snd (fallback te i inp cx out s))) (ni_id i) = Some current
    \<and> aget (ni_config (with_model i m)) ''model'' = PStr m
    \<and> aget (dict_or_empty (aget (ni_config (with_model i m)) ''parameters'')) ''model'' = PStr m"
  using assms by (simp add: fallback_def ebind_def eget_def emod_def efinally_def restore_instance_def set_instance_def
      with_model_def Let_def aget_def dget_default_def dict_or_empty_def)

theorem fallback_switches_model_witness:
  "dget (ts_instances (snd (fallback small_env (small_inst None) small_input (bare_context ''r'' ''n'' ''t'' ''main'')
      (failed_output ''n'' [] ''e'') small_state))) ''n'' = Some (small_inst None)"
  using fallback_switches_model [of "failed_output ''n'' [] ''e''" "small_inst None" "''small''" small_state "small_inst None" small_env
      small_input "bare_context ''r'' ''n'' ''t'' ''main''"]
  by (simp add: failed_output_def small_inst_def or_str_def small_state_def)

text \<open>A parallel loop that meets its condition returns exactly the payload that met it; otherwise the
  payloads of all successful iterations that were not cancelled, in the order of their completion, none of
  which met the condition. It succeeds exactly when there is such a payload.\<close>

theorem parallel_loop_spec:
  assumes "parallel_loop_result ce lp n cs = Inr out"
  shows "(\<exists>p. no_payload out = PList [p] \<and> until_holds ce (lp_until lp) p = Inr True)
    \<or> (\<exists>rs. map (\<lambda>r. Some (Inr r)) rs = filter (\<lambda>c. c \<noteq> None) cs
        \<and> (\<forall>r \<in> set rs. no_ok r \<longrightarrow> until_holds ce (lp_until lp) (no_payload r) = Inr False)
        \<and> no_payload out = PList (map no_payload (filter no_ok rs)) \<and> (no_ok out \<longleftrightarrow> (\<exists>r \<in> set rs. no_ok r)))"
proof -
  obtain rs m where c: "collect_completed (until_holds ce (lp_until lp)) cs [] = Inr (rs, m)" and out: "out = parallel_output n rs m"
    using assms by (auto simp: parallel_loop_result_def rbind_eq_Inr)
  show ?thesis using collect_completed_spec [OF c]
    by (cases m) (auto simp: out parallel_output_def Let_def merged_output_def ok_payloads_def filter_empty_conv)
qed

theorem parallel_loop_spec_witness:
  "\<exists>rs. map (\<lambda>r. Some (Inr r)) rs = [Some (Inr (wrap_out PNone)) :: node_output res option]
     \<and> PList [PList [PNone]] = PList (map no_payload (filter no_ok rs))"
proof -
  have r: "parallel_loop_result small_cond small_loop ''n'' [None, Some (Inr (wrap_out PNone))]
      = Inr (parallel_output ''n'' [wrap_out PNone] False)"
    by (simp add: parallel_loop_result_def small_loop_def until_holds_def or_str_def wrap_out_def rbind_simps)
  have p: "no_payload (parallel_output ''n'' [wrap_out PNone] False) = PList [PList [PNone]]"
    by (simp add: parallel_output_def Let_def ok_payloads_def wrap_out_def)
  have nu: "until_holds small_cond (lp_until small_loop) q \<noteq> Inr True" for q
    by (simp add: until_holds_def small_loop_def or_str_def)
  from parallel_loop_spec [OF r] nu obtain rs where
    "map (\<lambda>r. Some (Inr r)) rs = filter (\<lambda>c. c \<noteq> None) [None, Some (Inr (wrap_out PNone)) :: node_output res option]"
    "no_payload (parallel_output ''n'' [wrap_out PNone] False) = PList (map no_payload (filter no_ok rs))"
    by blast
  then show ?thesis unfolding p by (intro exI [of _ rs]) simp
qed

text \<open>C37: A node writes a field of an entity of the file tier (one that the reference resolves to and that is stored in the list of
  the file tier, under a known type) only with the permission to write it. A successful write keeps the entities of that tier
  valid and sets that field; every other field keeps its value, also those the node cannot read. A refused or failed write
  leaves the store as it was. The tiers of memory and database are not validated on a write and not covered.\<close>

theorem node_writes_permitted:
  assumes "resolve st ref None = Inr e" "dget (es_types st) (en_type e) = Some t"
    "index_of_id (en_id e) (es_entities st) = Some i" "es_entities st ! i = e"
    "write_entity_field cx ref f v (Some st) = (r, store)"
  shows "if r = Inr True
    then can_write (field_permission t f (type_overrides (en_type e) (cx_permissions cx)))
      \<and> (\<exists>saved. store = Some (st\<lparr>es_entities := (es_entities st)[i := saved]\<rparr>)
          \<and> valid_entities (es_types st) ((es_entities st)[i := saved])
          \<and> dget (en_attrs saved) f = Some v \<and> (\<forall>g. g \<noteq> f \<longrightarrow> dget (en_attrs saved) g = dget (en_attrs e) g))
    else store = Some st"
proof (cases "r = Inr True")
  case True
  then have "can_write (field_permission t f (type_overrides (en_type e) (cx_permissions cx)))"
    using assms(5) unfolding write_cases [OF assms(1,2)] by (auto split: if_splits)
  then show ?thesis using write_keeps_fields [OF assms(1-4), of cx f v store] assms(5) True by auto
next
  case False
  let ?e = "(entity_view cx t e)\<lparr>en_attrs := dset (en_attrs (entity_view cx t e)) f v\<rparr>"
  have "index_of_id (en_id ?e) (es_entities st) = Some i" using assms(3) by (simp add: entity_view_def)
  then have "st' = st" if "save ?e (cx_permissions cx) st = (Inl x, st')" for x st'
    using failed_save_file_entity that by blast
  then show ?thesis using assms(5) False unfolding write_cases [OF assms(1,2)]
    by (cases "save ?e (cx_permissions cx) st"; cases "fst (save ?e (cx_permissions cx) st)") (auto split: if_splits)
qed

theorem node_writes_permitted_witness:
  "snd (write_entity_field (bare_context ''r'' ''n'' ''t'' ''main'') ''n1'' ''text'' (PStr ''z'') (Some note_store)) = Some note_store"
proof -
  have r: "resolve note_store ''n1'' None = Inr (mk_note ''n1'' ''x'')" by code_simp
  have t: "dget (es_types note_store) (en_type (mk_note ''n1'' ''x'')) = Some note_type" by code_simp
  have i: "index_of_id (en_id (mk_note ''n1'' ''x'')) (es_entities note_store) = Some 0" "es_entities note_store ! 0 = mk_note ''n1'' ''x''"
    by code_simp+
  have w: "fst (write_entity_field (bare_context ''r'' ''n'' ''t'' ''main'') ''n1'' ''text'' (PStr ''z'') (Some note_store)) = Inr False"
    by code_simp
  show ?thesis using node_writes_permitted [OF r t i surjective_pairing] w by simp
qed

text \<open>The texts of session references: nothing, a group name, or \<open>dag/group@latest\<close> and \<open>dag/group@list\<close>, with
  non-empty names without slash and at sign; each parses into its parts, and (up to one final line
  break after the mode) nothing else is accepted.\<close>

theorem session_reference_round_trip:
  assumes "v \<noteq> Some []"
  shows "parse_session_reference v = Inr (d, g, m) \<longleftrightarrow>
    (v = None \<and> d = [] \<and> g = [] \<and> m = None)
    \<or> (v = Some g \<and> d = [] \<and> m = None \<and> plain_part g)
    \<or> (\<exists>k \<in> {''latest'', ''list''}. m = Some k \<and> plain_part d \<and> plain_part g
        \<and> (v = Some (d @ ''/'' @ g @ ''@'' @ k) \<or> v = Some (d @ ''/'' @ g @ ''@'' @ k @ [CHR 0x0A])))"
proof (cases v)
  case v: (Some s)
  then have s: "s \<noteq> []" using assms by simp
  have iff: "cross_dag_match s = Some (d, g, k) \<longleftrightarrow> k \<in> {''latest'', ''list''} \<and> plain_part d \<and> plain_part g
      \<and> (s = d @ ''/'' @ g @ ''@'' @ k \<or> s = d @ ''/'' @ g @ ''@'' @ k @ [CHR 0x0A])" for d g k
    using cross_match_only [of s d g k] cross_match_text [of d g _ k] by (auto simp: mode_text_iff)
  have no: "cross_dag_match s = None" if "CHR ''/'' \<notin> set s"
    using that cross_match_only [of s] by (cases "cross_dag_match s") fastforce+
  show ?thesis
  proof (cases "cross_dag_match s")
    case None
    then have "parse_session_reference v = Inr (d, g, m) \<longleftrightarrow> v = Some g \<and> d = [] \<and> m = None \<and> plain_part g"
      using s by (auto simp: v parse_session_reference_def or_str_def plain_part_iff)
    moreover have "\<not> (\<exists>k \<in> {''latest'', ''list''}. m = Some k \<and> plain_part d \<and> plain_part g
        \<and> (v = Some (d @ ''/'' @ g @ ''@'' @ k) \<or> v = Some (d @ ''/'' @ g @ ''@'' @ k @ [CHR 0x0A])))"
      using iff None v by (metis option.distinct(1) option.sel)
    ultimately show ?thesis using v by blast
  next
    case (Some x)
    obtain d' g' k' where x: "x = (d', g', k')" by (cases x)
    have "CHR ''/'' \<in> set s" using no Some by auto
    then have "\<not> plain_part s" by (simp add: plain_part_iff)
    moreover have "parse_session_reference v = Inr (d, g, m) \<longleftrightarrow> (\<exists>k. m = option.Some k \<and> cross_dag_match s = option.Some (d, g, k))"
      using s by (auto simp: v Some x parse_session_reference_def or_str_def)
    ultimately show ?thesis unfolding iff v by blast
  qed
qed (auto simp: parse_session_reference_def or_str_def)

theorem session_reference_round_trip_witness:
  "parse_session_reference (Some ''main/chat@latest'') = Inr (''main'', ''chat'', Some ''latest'')"
  using session_reference_round_trip [of "Some ''main/chat@latest''" "''main''" "''chat''" "Some ''latest''"]
  by (simp add: plain_part_def)

end
