(* ===== verification/SessionProps.thy ===== *)
theory SessionProps
  imports SessionRegistry "HOL-Library.Multiset"
begin

text \<open>
  Properties of the session registry. The locale \<open>work_list\<close> is what a consumer relies on: it peeks at the
  next piece of work and marks it; the registry provides it for each group and consumer.
\<close>

section \<open>Work lists\<close>

fun drain :: "('q \<Rightarrow> 'x option) \<Rightarrow> ('x \<Rightarrow> 'q \<Rightarrow> 'q) \<Rightarrow> nat \<Rightarrow> 'q \<Rightarrow> 'x list" where
  "drain peek mark 0 q = []"
| "drain peek mark (Suc n) q = (case peek q of None \<Rightarrow> [] | Some x \<Rightarrow> x # drain peek mark n (mark x q))"

locale work_list =
  fixes peek :: "'q \<Rightarrow> 'x option" and mark :: "'x \<Rightarrow> 'q \<Rightarrow> 'q" and todo :: "'q \<Rightarrow> 'x list" and valid :: "'q \<Rightarrow> bool"
  assumes peek_todo: "peek q = (case todo q of [] \<Rightarrow> None | x # _ \<Rightarrow> Some x)"
    and mark_todo: "valid q \<Longrightarrow> todo q = x # xs \<Longrightarrow> todo (mark x q) = xs"
    and mark_valid: "valid q \<Longrightarrow> valid (mark x q)"
begin

lemma drain_take: "valid q \<Longrightarrow> drain peek mark n q = take n (todo q)"
proof (induction n arbitrary: q)
  case (Suc n)
  then show ?case by (cases "todo q") (auto simp: peek_todo mark_todo mark_valid)
qed simp

lemma drain_all: "valid q \<Longrightarrow> length (todo q) \<le> n \<Longrightarrow> drain peek mark n q = todo q"
  by (simp add: drain_take)

end

section \<open>The registry\<close>

lemma first_row_iff: "first_row rs = (case rs of [] \<Rightarrow> None | r # _ \<Rightarrow> Some r)"
  by (rule first_row_def)

definition unconsumed :: "string \<Rightarrow> string \<Rightarrow> string \<Rightarrow> registry \<Rightarrow> session_run list" where
  "unconsumed d g c rg = oldest_first (filter (\<lambda>x. \<not> is_consumed c rg x) (completed_in d g rg))"

definition distinct_sessions :: "string \<Rightarrow> string \<Rightarrow> registry \<Rightarrow> bool" where
  "distinct_sessions d g rg = distinct (map sr_session (completed_in d g rg))"

definition consume_run :: "string \<Rightarrow> session_run \<Rightarrow> registry \<Rightarrow> registry" where
  "consume_run c x rg = mark_consumed (sr_session x) c rg"

lemma completed_consume_run [simp]: "completed_in d g (consume_run c x rg) = completed_in d g rg"
  by (simp add: consume_run_def mark_consumed_def completed_in_def)

lemma is_consumed_consume: "is_consumed c (consume_run c x rg) y \<longleftrightarrow> sr_session y = sr_session x \<or> is_consumed c rg y"
  by (auto simp: is_consumed_def consume_run_def mark_consumed_def)

lemma filter_sort_head:
  assumes "sort_key f rs = x # xs" "distinct (map h rs)"
  shows "sort_key f (filter (\<lambda>y. h y \<noteq> h x) rs) = xs"
proof -
  have m: "mset rs = mset (x # xs)" using assms(1) by (metis mset_sort)
  then have "distinct (map h (x # xs))"
    using assms(2) by (metis mset_map mset_eq_imp_distinct_iff)
  then have "filter (\<lambda>y. h y \<noteq> h x) xs = xs" by (intro filter_True) (auto simp: image_iff)
  moreover have "sort_key f (filter (\<lambda>y. h y \<noteq> h x) rs) = filter (\<lambda>y. h y \<noteq> h x) (sort_key f rs)"
    by (simp add: filter_sort)
  ultimately show ?thesis by (simp add: assms(1))
qed

interpretation sessions: work_list "get_oldest_unconsumed d g c" "consume_run c" "unconsumed d g c" "distinct_sessions d g"
proof unfold_locales
  fix rg x xs
  assume v: "distinct_sessions d g rg" and t: "unconsumed d g c rg = x # xs"
  let ?rs = "filter (\<lambda>x. \<not> is_consumed c rg x) (completed_in d g rg)"
  have "distinct (map sr_session ?rs)"
    using v unfolding distinct_sessions_def by (metis distinct_map_filter)
  with t have "sort_key sr_created (filter (\<lambda>y. sr_session y \<noteq> sr_session x) ?rs) = xs"
    unfolding unconsumed_def oldest_first_def by (rule filter_sort_head)
  moreover have "filter (\<lambda>y. \<not> is_consumed c (consume_run c x rg) y) (completed_in d g rg)
      = filter (\<lambda>y. sr_session y \<noteq> sr_session x) ?rs"
    by (auto simp: is_consumed_consume intro: filter_cong)
  ultimately show "unconsumed d g c (consume_run c x rg) = xs" by (simp add: unconsumed_def oldest_first_def)
qed (simp_all add: get_oldest_unconsumed_def first_row_def unconsumed_def distinct_sessions_def)

text \<open>The primary key.\<close>

definition keys_unique :: "registry \<Rightarrow> bool" where
  "keys_unique rg = (distinct (map row_key (rg_runs rg)) \<and> distinct (rg_consumed rg))"

lemma keys_unique_ops:
  assumes "keys_unique rg"
  shows "keys_unique (register_run d g r sid p now rg)" "keys_unique (finish_run d g r st rg)"
    "keys_unique (reconcile act rg)" "keys_unique (mark_consumed sid c rg)"
proof -
  have k: "row_key (x\<lparr>sr_status := s\<rparr>) = row_key x" for x s by (simp add: row_key_def)
  have "distinct (map row_key (filter P (rg_runs rg)))" for P
    using assms by (simp add: keys_unique_def distinct_map_filter)
  then show "keys_unique (register_run d g r sid p now rg)"
    using assms by (auto simp: keys_unique_def register_run_def row_key_def)
  have m: "map row_key (map (\<lambda>x. if P x then x\<lparr>sr_status := s\<rparr> else x) (rg_runs rg)) = map row_key (rg_runs rg)" for P s
    by (simp add: k comp_def cong: if_cong)
  show "keys_unique (finish_run d g r st rg)" "keys_unique (reconcile act rg)"
    using assms m by (simp_all add: keys_unique_def finish_run_def reconcile_def del: map_map)
  show "keys_unique (mark_consumed sid c rg)" using assms by (auto simp: keys_unique_def mark_consumed_def)
qed

text \<open>A consumer that repeatedly takes the oldest session it has not consumed and marks it as consumed gets
  the completed sessions of the group one by one, each once, from the oldest to the newest, and then none.\<close>

theorem consumption_in_order:
  assumes "distinct (map sr_session (completed_in d g rg))" "length (completed_in d g rg) \<le> n"
  shows "drain (get_oldest_unconsumed d g c) (\<lambda>x. mark_consumed (sr_session x) c) n rg
    = sort_key sr_created (filter (\<lambda>x. (sr_session x, c) \<notin> set (rg_consumed rg)) (completed_in d g rg))"
proof -
  have "length (unconsumed d g c rg) \<le> n"
    using assms(2) by (simp add: unconsumed_def oldest_first_def) (meson le_trans length_filter_le)
  moreover have "distinct_sessions d g rg" using assms(1) by (simp add: distinct_sessions_def)
  moreover have "(\<lambda>x. mark_consumed (sr_session x) c) = consume_run c" by (simp add: consume_run_def fun_eq_iff)
  ultimately show ?thesis
    using sessions.drain_all [of d g rg c n] by (simp add: unconsumed_def oldest_first_def is_consumed_def)
qed

definition demo_registry :: registry where
  "demo_registry = finish_run ''d'' ''g'' ''2'' ''completed'' (finish_run ''d'' ''g'' ''1'' ''completed''
     (register_run ''d'' ''g'' ''1'' ''s1'' ''p1'' ''2024-02'' (register_run ''d'' ''g'' ''2'' ''s2'' ''p2'' ''2024-01'' empty_registry)))"

theorem consumption_in_order_witness:
  "map sr_session (drain (get_oldest_unconsumed ''d'' ''g'' ''c'') (\<lambda>x. mark_consumed (sr_session x) ''c'') 3 demo_registry) = [''s2'', ''s1'']"
proof -
  have d: "distinct (map sr_session (completed_in ''d'' ''g'' demo_registry))" by code_simp
  have l: "length (completed_in ''d'' ''g'' demo_registry) \<le> 3" by code_simp
  have "map sr_session (sort_key sr_created (filter (\<lambda>x. (sr_session x, ''c'') \<notin> set (rg_consumed demo_registry))
      (completed_in ''d'' ''g'' demo_registry))) = [''s2'', ''s1'']" by code_simp
  then show ?thesis using consumption_in_order [OF d l, of "''c''"] by simp
qed

end
