(* ===== verification/NodeExecProps.thy ===== *)
theory NodeExecProps
  imports NodeExec TaskProps SessionProps
begin

text \<open>
  Properties of the executor: what the configuration of an instance decides, that errors of a handler become
  failed outputs, which child runs a node may start, which session an agent gets.
\<close>

section \<open>A value that computations keep\<close>

lemma same_value: "effect_order (\<lambda>s t. R t = R s)"
  by unfold_locales simp_all

definition keeps :: "('s \<Rightarrow> 'v) \<Rightarrow> ('s, 'a) eff \<Rightarrow> bool" where
  "keeps R m = effect_order.stays (\<lambda>s t. R t = R s) m"

lemmas kept_intros = effect_order.stays_ebind [OF same_value, folded keeps_def]
  effect_order.stays_eseq [OF same_value, folded keeps_def] effect_order.stays_eret [OF same_value, folded keeps_def]
  effect_order.stays_ethrow [OF same_value, folded keeps_def] effect_order.stays_eget [OF same_value, folded keeps_def]
  effect_order.stays_elift [OF same_value, folded keeps_def] effect_order.stays_ewhen [OF same_value, folded keeps_def]
  effect_order.stays_efor [OF same_value, folded keeps_def]

lemma keeps_iff: "keeps R m \<longleftrightarrow> (\<forall>s. R (snd (m s)) = R s)"
  by (simp add: keeps_def effect_order.stays_def [OF same_value])

lemma kept_emod: "(\<And>s. R (f s) = R s) \<Longrightarrow> keeps R (emod f)"
  by (simp add: keeps_iff emod_def)

lemma kept_efinally: "keeps R m \<Longrightarrow> (\<And>s. R (fin s) = R s) \<Longrightarrow> keeps R (efinally m fin)"
  by (simp add: keeps_iff efinally_def)

lemma kept_ecatch: "keeps R m \<Longrightarrow> keeps R (ecatch m)"
  by (simp add: keeps_iff ecatch_def)

section \<open>Recorders\<close>

definition keeps_value :: "('w exec_state task_state \<Rightarrow> 'v) \<Rightarrow> 'w exec_env \<Rightarrow> bool" where
  "keeps_value R xe = ((\<forall>rec run n ty p sid. xe_output_rec xe = Some rec \<longrightarrow> keeps R (rec run n ty p sid))
     \<and> (\<forall>rec run n st. xe_wait_rec xe = Some rec \<longrightarrow> keeps R (rec run n st))
     \<and> (\<forall>run n w. keeps R (xe_waiting xe run n w)))"

lemma kept_record_output: "keeps_value R xe \<Longrightarrow> keeps R (record_output xe inp n c p meta)"
  unfolding record_output_def keeps_value_def by (auto split: option.split intro: kept_intros)

section \<open>Sessions of agents\<close>

text \<open>The surroundings of an agent do not touch the registry.\<close>

definition agent_frame :: "('w exec_state task_state \<Rightarrow> 'v) \<Rightarrow> 'w agent_env \<Rightarrow> bool" where
  "agent_frame R ae = ((\<forall>p. keeps R (ae_mkdir ae p)) \<and> (\<forall>p t. keeps R (ae_write ae p t)) \<and> (\<forall>p. keeps R (ae_exists ae p))
     \<and> (\<forall>p. keeps R (ae_loaded ae p)) \<and> keeps R (ae_uuid ae) \<and> keeps R (ae_now ae)
     \<and> (\<forall>f i k. ae_certificate ae = Some f \<longrightarrow> keeps R (f i k)) \<and> (\<forall>c w e. keeps R (ae_spawn ae c w e))
     \<and> (\<forall>p r n l t. keeps R (ae_stream ae p r n l t)) \<and> (\<forall>p. keeps R (ae_code ae p)))"

abbreviation registry_of :: "'w exec_state task_state \<Rightarrow> registry option" where
  "registry_of s \<equiv> xs_registry (ts_world s)"

lemma kept_skills: "agent_frame R ae \<Longrightarrow> keeps R (resolve_skills ae ns)"
  by (induction ns) (auto simp: agent_frame_def intro!: kept_intros)

lemma kept_run_agent:
  assumes "agent_frame registry_of ae"
  shows "keeps registry_of (run_agent ae run n cmd wd env l t)"
  unfolding run_agent_def xmod_def using assms
  by (intro kept_efinally kept_intros kept_emod) (simp_all add: agent_frame_def put_agent_def drop_agent_def)

lemma kept_finish_agent:
  assumes "agent_frame registry_of (xe_agent xe)" "keeps_value registry_of xe"
  shows "keeps registry_of (finish_agent xe c n inp schema meta rp ls code)"
proof -
  have l: "keeps registry_of (ae_loaded (xe_agent xe) rp)" using assms(1) by (simp add: agent_frame_def)
  show ?thesis unfolding finish_agent_def Let_def
    by (auto split: prod.split intro!: kept_intros l kept_record_output [OF assms(2)])
qed

lemma kept_build_command:
  assumes "agent_frame registry_of ae"
  shows "keeps registry_of (build_agent_command ae c dir sid f idir inp cx sk)"
proof -
  have w: "keeps registry_of (ae_write ae p t)" for p t using assms by (simp add: agent_frame_def)
  show ?thesis unfolding build_agent_command_def Let_def by (auto intro!: kept_intros w)
qed

lemma kept_launch_agent:
  assumes a: "agent_frame registry_of (xe_agent xe)" and k: "keeps_value registry_of xe"
  shows "keeps registry_of (launch_agent xe c eff n inp cx session idir skills)"
proof -
  have w: "keeps registry_of (ae_write (xe_agent xe) p t)" for p t using a by (simp add: agent_frame_def)
  have ce: "keeps registry_of (agent_certificate (xe_agent xe) i t)" for i t
    unfolding agent_certificate_def using a by (auto simp: agent_frame_def split: option.split intro: kept_intros)
  obtain dir sid f where s: "session = (dir, sid, f)" by (cases session)
  show ?thesis unfolding launch_agent_def Let_def s xget_def prod.case
    by (auto split: sum.split intro!: kept_intros w ce kept_build_command [OF a] kept_ecatch kept_run_agent [OF a]
        kept_finish_agent [OF a k])
qed

lemma kept_after: "(\<And>a. keeps R (f a)) \<Longrightarrow> R (snd (ebind m f s)) = R (snd (m s))"
  by (auto simp: ebind_def keeps_iff split: prod.splits sum.splits)

lemma kept_execute_agent:
  assumes a: "agent_frame registry_of (xe_agent xe)" and k: "keeps_value registry_of xe"
  shows "registry_of (snd (execute_agent xe c n inp cx inst s))
    = registry_of (snd (resolve_agent_session (xe_agent xe) n inp cx inst s))"
proof -
  have m: "keeps registry_of (ae_mkdir (xe_agent xe) p)" for p using a by (simp add: agent_frame_def)
  show ?thesis unfolding execute_agent_def Let_def
    by (rule kept_after) (auto intro!: kept_intros m kept_skills [OF a] kept_launch_agent [OF a k])
qed

lemma registered_session_found:
  "filter (\<lambda>x. sr_run x = r \<and> sr_status x = ''active'') (list_sessions d g (register_run d g r sid p now rg))
   = [\<lparr>sr_dag = d, sr_group = g, sr_run = r, sr_session = sid, sr_path = p, sr_status = ''active'', sr_created = now\<rparr>]"
  (is "?fs = [?x]")
proof -
  let ?rs = "filter (in_group d g) (rg_runs (register_run d g r sid p now rg))"
  have "filter (\<lambda>x. sr_run x = r \<and> sr_status x = ''active'') ?rs = [?x]"
    by (auto simp: register_run_def in_group_def row_key_def filter_empty_conv)
  moreover have "?fs = rev (sort_key sr_created (rev (filter (\<lambda>x. sr_run x = r \<and> sr_status x = ''active'') ?rs)))"
    by (simp add: list_sessions_def newest_first_def rev_filter filter_sort flip: rev_filter)
  ultimately show ?thesis by simp
qed

section \<open>Child runs\<close>


section \<open>A small environment\<close>

text \<open>Its world is the set of registered waiters.\<close>

definition quiet_agent :: "'w agent_env" where
  "quiet_agent = \<lparr>ae_pi_bin = ''pi'', ae_environ = [], ae_daemon_dir = Some [''data''], ae_workspace_root = ''.'',
     ae_skills_dir = [''skills''], ae_path = (\<lambda>t. split_on (CHR ''/'') t), ae_text = join ''/'', ae_absolute = (\<lambda>p. p),
     ae_dumps = py_str, ae_mkdir = (\<lambda>_. eret ()), ae_write = (\<lambda>_ _. eret ()), ae_exists = (\<lambda>_. eret True),
     ae_loaded = (\<lambda>_. eret (Some (PDict []))), ae_uuid = eret ''u'', ae_now = eret ''t'', ae_certificate = None,
     ae_spawn = (\<lambda>_ _ _. eret 1), ae_stream = (\<lambda>_ _ _ _ _. eret []), ae_code = (\<lambda>_. eret 0), ae_returncode = (\<lambda>_ _. None),
     ae_terminate = (\<lambda>_. eret ())\<rparr>"

definition set_world :: "(nat set \<Rightarrow> nat set) \<Rightarrow> nat set exec_state task_state \<Rightarrow> nat set exec_state task_state" where
  "set_world f s = s\<lparr>ts_world := (ts_world s)\<lparr>xs_world := f (xs_world (ts_world s))\<rparr>\<rparr>"

definition quiet_wait :: "nat set wait_env" where
  "quiet_wait = \<lparr>we_payload = (\<lambda>_. eret None),
     we_register = (\<lambda>_ _ s. if 7 \<in> xs_world (ts_world s) then (Inl (OtherError ''busy''), s) else (Inr 7, set_world (insert 7) s)),
     we_unregister = (\<lambda>f. set_world (\<lambda>w. w - {f})), we_matched = (\<lambda>_. eret []), we_consume = (\<lambda>_. eret ()),
     we_wait = (\<lambda>_ _. eret (False, None)), we_cancel = (\<lambda>_ s. s)\<rparr>"

definition plain_env :: "'w wait_env option \<Rightarrow> 'w exec_env" where
  "plain_env we = \<lparr>xe_nodes = [], xe_validate = (\<lambda>_. Inl (ValueError [])), xe_root_dag = ''d'', xe_llm_timeout = 0, xe_uuid = eret ''u'',
     xe_resolve = (\<lambda>_. eret None), xe_import = (\<lambda>_ _. eret None), xe_callable = (\<lambda>_ _. True), xe_call = (\<lambda>_ _ _ _. eret None),
     xe_tables = [], xe_output_rec = None, xe_summary_rec = None, xe_dag = None, xe_wait_rec = None, xe_waiting = (\<lambda>_ _ _. eret ()),
     xe_wait = we, xe_agent = quiet_agent\<rparr>"

definition quiet_env :: "nat set exec_env" where
  "quiet_env = plain_env (Some quiet_wait)"

definition plain_node :: "node_variant \<Rightarrow> node_cfg" where
  "plain_node v = \<lparr>nc_name = ''h'', nc_role = Processor, nc_input_type = [], nc_output_type = [], nc_optional = False,
     nc_timeout = None, nc_emits = [], nc_variant = v\<rparr>"

definition quiet_state :: "registry option \<Rightarrow> nat set exec_state task_state" where
  "quiet_state rg = \<lparr>ts_instances = [(''n'', small_inst None)], ts_world = \<lparr>xs_store = None, xs_modules = [], xs_meta = [], xs_agents = [],
     xs_registry = rg, xs_world = {3}\<rparr>\<rparr>"

lemma quiet_keeps: "keeps_value R quiet_env"
  by (simp add: keeps_value_def quiet_env_def plain_env_def kept_intros)

lemma quiet_frame: "agent_frame registry_of (quiet_agent :: nat set agent_env)"
  by (simp add: agent_frame_def quiet_agent_def kept_intros)


section \<open>Properties\<close>





text \<open>A node that is executed again under its fallback model really gets it: the executor finds an instance
  under which an agent node runs that model and a function node has it as its parameter \<open>model\<close>, and the
  original instance is back in the table afterwards.\<close>

theorem fallback_model_effective:
  assumes "\<not> no_ok out" "ni_switch_model i" "or_str (ni_fallback_model i) None = Some m"
    "dget (ts_instances s) (ni_id i) = Some current" "distinct (dkeys (dict_or_empty (aget (ni_config i) ''parameters'')))"
    "te_execute te = (\<lambda>n inp cx. execute xe n inp (Some cx))"
  shows "\<exists>i' s'. fst (fallback te i inp cx out s) = fst (execute xe (ni_id i) inp (Some cx) s')
    \<and> dget (ts_instances s') (ni_id i) = Some i'
    \<and> dget (ts_instances (snd (fallback te i inp cx out s))) (ni_id i) = Some current
    \<and> (\<forall>c. case nc_variant c of
         AgentNode _ _ _ _ _ _ _ \<Rightarrow> (case nc_variant (apply_agent_instance_config c (Some i')) of AgentNode m' _ _ _ _ _ _ \<Rightarrow> m' = m | _ \<Rightarrow> False)
       | FunctionNode _ _ _ _ _ _ _ \<Rightarrow> \<exists>eff. apply_instance_config c (Some i') = Inr eff \<and> dget (cfg_parameters eff) ''model'' = Some (PStr m)
       | _ \<Rightarrow> True)"
proof -
  let ?i = "with_model i m"
  have m: "m \<noteq> []" using assms(3) by (auto simp: or_str_def split: option.splits if_splits)
  have g: "aget (ni_config ?i) ''model'' = PStr m"
      "aget (ni_config ?i) ''parameters'' = PDict (dset (dict_or_empty (aget (ni_config i) ''parameters'')) ''model'' (PStr m))"
    by (simp_all add: with_model_def Let_def aget_def dget_default_def)
  have d: "distinct (dkeys (dset (dict_or_empty (aget (ni_config i) ''parameters'')) ''model'' (PStr m)))"
    using assms(5) by simp
  have "case nc_variant c of
         AgentNode _ _ _ _ _ _ _ \<Rightarrow> (case nc_variant (apply_agent_instance_config c (Some ?i)) of AgentNode m' _ _ _ _ _ _ \<Rightarrow> m' = m | _ \<Rightarrow> False)
       | FunctionNode _ _ _ _ _ _ _ \<Rightarrow> \<exists>eff. apply_instance_config c (Some ?i) = Inr eff \<and> dget (cfg_parameters eff) ''model'' = Some (PStr m)
       | _ \<Rightarrow> True" for c
    using g m by (auto split: node_variant.split simp: apply_agent_instance_config_def nonempty_str_def Let_def apply_instance_config_def
        model_update_def model_of_def rbind_simps cfg_parameters_def update_parameters_def dget_dmerge [OF d])
  then show ?thesis
    using assms by (intro exI [of _ ?i] exI [of _ "set_instance (ni_id i) ?i s"])
      (simp add: fallback_def ebind_def eget_def emod_def efinally_def restore_instance_def set_instance_def)
qed

definition quiet_task :: "nat set exec_state task_env" where
  "quiet_task = \<lparr>te_dags = [], te_nodes = [], te_depth = 0, te_path = [], te_max_depth = 2, te_cond = small_cond,
     te_execute = (\<lambda>n inp cx. execute quiet_env n inp (Some cx)), te_semaphore = (\<lambda>_. eret ()), te_acquire = (\<lambda>_. eret ()),
     te_release = (\<lambda>_ s. s), te_fresh_run = eret ''c'', te_lifecycle = None, te_run_child = (\<lambda>_ _ _ _ _. ethrow (DagError ''x''))\<rparr>"

theorem fallback_model_effective_witness:
  "\<exists>i'. dget (cfg_parameters (plain_node (FunctionNode ''h'' [] [] [] None None []))) ''model'' = None
     \<and> (\<exists>eff. apply_instance_config (plain_node (FunctionNode ''h'' [] [] [] None None [])) (Some i') = Inr eff
         \<and> dget (cfg_parameters eff) ''model'' = Some (PStr ''small''))"
proof -
  let ?c = "plain_node (FunctionNode ''h'' [] [] [] None None [])"
  have "\<not> no_ok (failed_output ''n'' [] ''e'')" "ni_switch_model (small_inst None)"
    "or_str (ni_fallback_model (small_inst None)) None = Some ''small''"
    "dget (ts_instances (quiet_state None)) (ni_id (small_inst None)) = Some (small_inst None)"
    "distinct (dkeys (dict_or_empty (aget (ni_config (small_inst None)) ''parameters'')))"
    "te_execute quiet_task = (\<lambda>n inp cx. execute quiet_env n inp (Some cx))"
    by (simp_all add: failed_output_def small_inst_def or_str_def quiet_state_def dict_or_empty_def aget_def dget_default_def quiet_task_def)
  from fallback_model_effective [OF this, of small_input "bare_context ''r'' ''n'' ''t'' ''d''"]
  show ?thesis by (auto simp: plain_node_def cfg_parameters_def dest!: spec [of _ ?c])
qed

text \<open>A group session is created once per run: after an agent got a session of its own group, every later
  agent of the same run and group continues exactly that session, in the state the first one left.\<close>

theorem own_session_continued:
  assumes "registry_of s = Some rg" "keeps registry_of (ae_uuid ae)" "keeps registry_of (ae_now ae)"
    "own_session ae inp cx g dir rg s = (Inr (dir', sid, is_first), t)"
    "in_run inp' = in_run inp" "cx_dag cx' = cx_dag cx"
  shows "\<exists>rg'. registry_of t = Some rg' \<and> sid \<noteq> None
    \<and> own_session ae inp' cx' g dir2 rg' u = (Inr (dir2, sid, False), u)"
proof (cases "filter (\<lambda>x. sr_run x = in_run inp \<and> sr_status x = ''active'') (list_sessions (cx_dag cx) g rg)")
  case (Cons x xs)
  then show ?thesis using assms by (simp add: own_session_def eret_def) (auto simp: own_session_def)
next
  case Nil
  obtain id now where t: "registry_of t = Some (register_run (cx_dag cx) g (in_run inp) id (ae_text ae dir) now rg)" and sid: "sid = Some id"
    using assms(1-4) Nil
    by (auto simp: own_session_def ebind_def eseq_def xmod_def emod_def eret_def keeps_iff split: prod.splits sum.splits) (metis snd_conv)
  show ?thesis unfolding t sid
    using registered_session_found [of "in_run inp" "cx_dag cx" g id "ae_text ae dir" now rg]
    by (simp add: own_session_def assms(5,6) eret_def)
qed

theorem own_session_continued_witness:
  "fst (own_session quiet_agent small_input (bare_context ''r'' ''m'' ''t'' ''d'') ''g'' [''q'']
      (register_run ''d'' ''g'' ''r'' ''u'' ''p'' ''t'' empty_registry) (quiet_state None)) = Inr ([''q''], Some ''u'', False)"
proof -
  let ?s = "quiet_state (Some empty_registry)"
  have r: "registry_of ?s = Some empty_registry" by (simp add: quiet_state_def)
  have k: "keeps registry_of (ae_uuid (quiet_agent :: nat set agent_env))" "keeps registry_of (ae_now (quiet_agent :: nat set agent_env))"
    using quiet_frame by (simp_all add: agent_frame_def)
  have o: "own_session quiet_agent small_input (bare_context ''r'' ''n'' ''t'' ''d'') ''g'' [''p''] empty_registry ?s
      = (Inr ([''p''], Some ''u'', True), quiet_state (Some (register_run ''d'' ''g'' ''r'' ''u'' ''p'' ''t'' empty_registry)))" by code_simp
  have w: "in_run small_input = in_run small_input" "cx_dag (bare_context ''r'' ''m'' ''t'' ''d'') = cx_dag (bare_context ''r'' ''n'' ''t'' ''d'')"
    by (simp_all add: bare_context_def)
  show ?thesis using own_session_continued [OF r k o w, of "[''q'']" "quiet_state None"] by (simp add: quiet_state_def)
qed

text \<open>Nothing consumes a session: after an agent that refers to \<open>dag/group@list\<close> has run, however it ended, the
  registry is as before, so the same session is its oldest unconsumed one again.\<close>

theorem list_reference_repeats:
  assumes "session_value inst = Inr (Some v)" "parse_session_reference (Some v) = Inr (d, g, Some ''list'')" "d \<noteq> []"
    "registry_of s = Some rg" "agent_frame registry_of (xe_agent xe)" "keeps_value registry_of xe"
    "get_oldest_unconsumed d g (cx_instance cx) rg = Some x"
  shows "registry_of (snd (execute_agent xe c n inp cx inst s)) = Some rg
    \<and> fst (locate_session (xe_agent xe) n inp cx (registry_of (snd (execute_agent xe c n inp cx inst s))) (Some v) u)
        = Inr (ae_path (xe_agent xe) (sr_path x), Some (sr_session x), False)"
proof -
  have l: "locate_session (xe_agent xe) n inp cx (Some rg) (Some v) = elift (Inr (ae_path (xe_agent xe) (sr_path x), Some (sr_session x), False))"
    using assms(2,3,7) by (simp add: locate_session_def Let_def found_session_def ebind_def elift_def fun_eq_iff)
  have m: "keeps registry_of (ae_mkdir (xe_agent xe) p)" for p using assms(5) by (simp add: agent_frame_def)
  have run: "registry_of (snd (resolve_agent_session (xe_agent xe) n inp cx inst s)) = Some rg"
    using m [of "ae_path (xe_agent xe) (sr_path x)"] assms(4)
    by (simp add: resolve_agent_session_def assms(1) l xget_def ebind_def eseq_def elift_def eget_def eret_def keeps_iff split: prod.split sum.split)
      (metis snd_conv)
  show ?thesis unfolding kept_execute_agent [OF assms(5,6)] run by (simp add: l elift_def)
qed

definition list_inst :: node_inst where
  "list_inst = (small_inst None)\<lparr>ni_config := [(''session'', PStr ''d/g@list'')]\<rparr>"

theorem list_reference_repeats_witness:
  "registry_of (snd (execute_agent quiet_env (plain_node (AgentNode ''m'' None [] [] None None [])) ''n'' small_input
      (bare_context ''r'' ''n'' ''t'' ''e'') (Some list_inst) (quiet_state (Some demo_registry)))) = Some demo_registry"
proof -
  have v: "session_value (Some list_inst) = Inr (Some ''d/g@list'')" by code_simp
  have p: "parse_session_reference (Some ''d/g@list'') = Inr (''d'', ''g'', Some ''list'')" by code_simp
  have r: "registry_of (quiet_state (Some demo_registry)) = Some demo_registry" by (simp add: quiet_state_def)
  have f: "agent_frame registry_of (xe_agent quiet_env)" using quiet_frame by (simp add: quiet_env_def plain_env_def)
  have "map_option sr_session (get_oldest_unconsumed ''d'' ''g'' (cx_instance (bare_context ''r'' ''n'' ''t'' ''e'')) demo_registry) = Some ''s2''"
    by code_simp
  then obtain x where x: "get_oldest_unconsumed ''d'' ''g'' (cx_instance (bare_context ''r'' ''n'' ''t'' ''e'')) demo_registry = Some x"
    by blast
  show ?thesis using list_reference_repeats [OF v p _ r f quiet_keeps x] by simp
qed

end
