(* ===== verification/WaitNodes.thy ===== *)
theory WaitNodes
  imports NodeExecProps TriggerProps
begin

text \<open>
  Wait nodes on the trigger executor: the functions \<open>DagRunner._configure_wait_executor\<close> gives to the node executor are
  those of the model of \<open>trigger.py\<close>, and the other tasks act on the same registry of waiters at every suspension. The
  world of the executor is the trigger executor. Proved is that the other tasks do not notice a wait node.
\<close>

section \<open>The trigger executor behind a wait node\<close>

abbreviation waits :: "'v trig exec_state task_state \<Rightarrow> wait_registry" where
  "waits s \<equiv> tx_waiters (xs_world (ts_world s))"

definition upd_trig :: "('v trig \<Rightarrow> 'v trig) \<Rightarrow> 'v trig exec_state task_state \<Rightarrow> 'v trig exec_state task_state" where
  "upd_trig f s = s\<lparr>ts_world := (ts_world s)\<lparr>xs_world := f (xs_world (ts_world s))\<rparr>\<rparr>"

definition set_waits :: "wait_registry \<Rightarrow> 'v trig exec_state task_state \<Rightarrow> 'v trig exec_state task_state" where
  "set_waits w = upd_trig (\<lambda>x. x\<lparr>tx_waiters := w\<rparr>)"

definition consume_events :: "string list \<Rightarrow> 'v trig exec_state task_state \<Rightarrow> 'v trig exec_state task_state" where
  "consume_events toks = upd_trig (\<lambda>x. x\<lparr>tx_events := eg_consume toks (tx_events x)\<rparr>)"

text \<open>\<open>future.cancel()\<close> has no effect on a future that is done.\<close>

definition cancel_future :: "nat \<Rightarrow> wait_registry \<Rightarrow> wait_registry" where
  "cancel_future f w = (if fut_done w f then w else w\<lparr>wr_futures := dset (wr_futures w) f Cancelled\<rparr>)"

definition future_payload :: "nat \<Rightarrow> wait_registry \<Rightarrow> pyval option" where
  "future_payload f w = (case dget (wr_futures w) f of Some (Done p) \<Rightarrow> Some p | _ \<Rightarrow> None)"

definition register_waiter :: "string \<Rightarrow> ('v trig, nat) exec" where
  "register_waiter wait_for s = (case wr_register wait_for (waits s) of (r, w) \<Rightarrow> (r, set_waits w s))"

text \<open>\<open>other\<close> is what the other tasks do while the trigger executor awaits its database, \<open>suspend\<close> what they do while the
  node waits for its future or the stop event; \<open>suspend\<close> tells whether the run was stopped.\<close>

definition trigger_waits :: "('v trig, unit) exec \<Rightarrow> (nat \<Rightarrow> rat option \<Rightarrow> ('v trig, bool) exec) \<Rightarrow> 'v trig wait_env" where
  "trigger_waits other suspend = \<lparr>
     we_payload = (\<lambda>wait_for. ebind (eget (\<lambda>s. wait_payload wait_for (xs_world (ts_world s)))) (\<lambda>r. eseq other (elift r))),
     we_register = (\<lambda>wait_for _. register_waiter wait_for),
     we_unregister = (\<lambda>f s. set_waits (wr_unregister f (waits s)) s),
     we_matched = (\<lambda>f. eget (\<lambda>s. wr_matched_tokens f (waits s))),
     we_consume = (\<lambda>toks. eseq (emod (consume_events toks)) other),
     we_wait = (\<lambda>f t. ebind (suspend f t) (\<lambda>stopped. eget (\<lambda>s. (stopped, future_payload f (waits s))))),
     we_cancel = (\<lambda>f s. set_waits (cancel_future f (waits s)) s)\<rparr>"

section \<open>What other tasks do to the registry\<close>

datatype other_op = OtherRegister string | OtherUnregister nat | OtherCancel nat | OtherReady "string set" pyval

fun do_other :: "other_op \<Rightarrow> wait_registry \<Rightarrow> wait_registry" where
  "do_other (OtherRegister t) w = snd (wr_register t w)"
| "do_other (OtherUnregister g) w = wr_unregister g w"
| "do_other (OtherCancel g) w = cancel_future g w"
| "do_other (OtherReady A p) w = wr_ready A p w"

text \<open>A task unregisters and cancels only the futures it got itself.\<close>

fun avoids :: "nat \<Rightarrow> other_op \<Rightarrow> bool" where
  "avoids f (OtherUnregister g) = (g \<noteq> f)"
| "avoids f (OtherCancel g) = (g \<noteq> f)"
| "avoids f op = True"

text \<open>\<open>lg\<close> is the history of what the others did; the node itself does not write it.\<close>

type_synonym 'v history = "'v trig exec_state task_state \<Rightarrow> other_op list"

definition own_steps_unlogged :: "'v history \<Rightarrow> bool" where
  "own_steps_unlogged lg = ((\<forall>w s. lg (set_waits w s) = lg s) \<and> (\<forall>toks s. lg (consume_events toks s) = lg s))"

definition by_others :: "'v history \<Rightarrow> nat \<Rightarrow> 'v trig exec_state task_state \<Rightarrow> 'v trig exec_state task_state \<Rightarrow> bool" where
  "by_others lg f s t = (\<exists>ops. list_all (avoids f) ops \<and> lg t = lg s @ ops \<and> waits t = fold do_other ops (waits s))"

lemma by_others_order: "effect_order (by_others (lg :: 'v history) f)"
proof
  show "by_others lg f s s" for s :: "'v trig exec_state task_state" by (auto simp: by_others_def intro: exI [of _ "[]"])
  show "by_others lg f s u" if st: "by_others lg f s t" and tu: "by_others lg f t u" for s t u :: "'v trig exec_state task_state"
  proof -
    obtain xs ys where "list_all (avoids f) xs" "lg t = lg s @ xs" "waits t = fold do_other xs (waits s)"
      "list_all (avoids f) ys" "lg u = lg t @ ys" "waits u = fold do_other ys (waits t)" using st tu by (auto simp: by_others_def)
    then show ?thesis unfolding by_others_def by (intro exI [of _ "xs @ ys"]) simp
  qed
qed

definition leaves :: "'v history \<Rightarrow> nat \<Rightarrow> ('v trig, 'a) exec \<Rightarrow> bool" where
  "leaves lg f m = effect_order.stays (by_others lg f) m"

lemmas leaves_intros = effect_order.stays_ebind [OF by_others_order, folded leaves_def]
  effect_order.stays_eseq [OF by_others_order, folded leaves_def] effect_order.stays_eret [OF by_others_order, folded leaves_def]
  effect_order.stays_eget [OF by_others_order, folded leaves_def] effect_order.stays_elift [OF by_others_order, folded leaves_def]
  effect_order.stays_ewhen [OF by_others_order, folded leaves_def]

lemma leaves_iff: "leaves lg f m \<longleftrightarrow> (\<forall>s. by_others lg f s (snd (m s)))"
  by (simp add: leaves_def effect_order.stays_def [OF by_others_order])

section \<open>A registry without one waiter\<close>

text \<open>\<open>v\<close> is \<open>w\<close> without the waiter that holds the future \<open>f\<close>.\<close>

definition hides :: "nat \<Rightarrow> wait_registry \<Rightarrow> wait_registry \<Rightarrow> bool" where
  "hides f w v = (wr_waiters v = filter (\<lambda>x. wt_future x \<noteq> f) (wr_waiters w) \<and> wr_matched v = dpop (wr_matched w) f
     \<and> wr_next v = wr_next w \<and> f < wr_next w \<and> (\<forall>g. g \<noteq> f \<longrightarrow> dget (wr_futures v) g = dget (wr_futures w) g))"

lemma hides_wake:
  assumes "hides f w v"
  shows "hides f (w\<lparr>wr_matched := dset (wr_matched w) f toks, wr_futures := dset (wr_futures w) f u\<rparr>) v"
    "g \<noteq> f \<Longrightarrow> hides f (w\<lparr>wr_matched := dset (wr_matched w) g toks, wr_futures := dset (wr_futures w) g u\<rparr>)
       (v\<lparr>wr_matched := dset (wr_matched v) g toks, wr_futures := dset (wr_futures v) g u\<rparr>)"
  using assms by (auto simp: hides_def delete_update delete_update_same)

lemma hides_done: "hides f w v \<Longrightarrow> g \<noteq> f \<Longrightarrow> fut_done v g = fut_done w g"
  by (simp add: hides_def fut_done_def)

lemma hides_ready_from:
  assumes "hides f w v"
  shows "hides f (wr_ready_from xs A p w) (wr_ready_from (filter (\<lambda>x. wt_future x \<noteq> f) xs) A p v)"
  using assms
proof (induction xs arbitrary: w v)
  case (Cons x xs)
  show ?case
    using Cons.IH hides_wake [OF Cons.prems] hides_done [OF Cons.prems] Cons.prems
    by (cases "wt_future x = f") simp_all
qed simp

lemma hides_register:
  assumes "hides f w v"
  shows "hides f (snd (wr_register t w)) (snd (wr_register t v))"
  using assms by (auto simp: hides_def wr_register_def Let_def split: sum.splits)

lemma hides_unregister:
  assumes "hides f w v" "g \<noteq> f"
  shows "hides f (wr_unregister g w) (wr_unregister g v)"
  using assms by (auto simp: hides_def wr_unregister_def delete_twist conj_commute)

lemma hides_cancel:
  assumes "hides f w v" "g \<noteq> f"
  shows "hides f (cancel_future g w) (cancel_future g v)"
  using assms hides_done [OF assms] by (auto simp: hides_def cancel_future_def)

lemma hides_other:
  assumes "hides f w v" "avoids f op"
  shows "hides f (do_other op w) (do_other op v)"
proof (cases op)
  case (OtherReady A p)
  have "wr_waiters v = filter (\<lambda>x. wt_future x \<noteq> f) (wr_waiters w)" using assms(1) by (simp add: hides_def)
  then show ?thesis using hides_ready_from [OF assms(1), of "wr_waiters w" A p] by (simp add: OtherReady wr_ready_def)
qed (use assms hides_register hides_unregister hides_cancel in auto)

lemma hides_others: "list_all (avoids f) ops \<Longrightarrow> hides f w v \<Longrightarrow> hides f (fold do_other ops w) (fold do_other ops v)"
  by (induction ops arbitrary: w v) (auto intro: hides_other)

text \<open>The node cancels its own future, and only that.\<close>

lemma hides_own_cancel: "hides f w v \<Longrightarrow> hides f (cancel_future f w) v"
  by (simp add: hides_def cancel_future_def)

section \<open>A wait node among other tasks\<close>

text \<open>The parts of the surroundings that suspend: recorders, the publication of the waiting node, the database of the trigger
  executor, the waiting itself.\<close>

definition others_avoid :: "'v history \<Rightarrow> nat \<Rightarrow> 'v trig exec_env \<Rightarrow> ('v trig, unit) exec
    \<Rightarrow> (nat \<Rightarrow> rat option \<Rightarrow> ('v trig, bool) exec) \<Rightarrow> bool" where
  "others_avoid lg f xe other suspend = ((\<forall>rec run n ty p sid. xe_output_rec xe = Some rec \<longrightarrow> leaves lg f (rec run n ty p sid))
     \<and> (\<forall>rec run n st. xe_wait_rec xe = Some rec \<longrightarrow> leaves lg f (rec run n st)) \<and> (\<forall>run n w. leaves lg f (xe_waiting xe run n w))
     \<and> leaves lg f other \<and> (\<forall>t. leaves lg f (suspend f t)) \<and> own_steps_unlogged lg)"

text \<open>While the node is registered, the registry is that of the others with the waiter of the node added.\<close>

definition shadowed :: "'v history \<Rightarrow> nat \<Rightarrow> wait_registry \<Rightarrow> other_op list \<Rightarrow> 'v trig exec_state task_state \<Rightarrow> bool" where
  "shadowed lg f v0 l0 t = (\<exists>ops. list_all (avoids f) ops \<and> lg t = l0 @ ops \<and> hides f (waits t) (fold do_other ops v0))"

lemma shadowed_step:
  assumes "shadowed lg f v0 l0 s" "by_others lg f s t"
  shows "shadowed lg f v0 l0 t"
proof -
  obtain ops ops' where "list_all (avoids f) ops" "lg s = l0 @ ops" "hides f (waits s) (fold do_other ops v0)"
    "list_all (avoids f) ops'" "lg t = lg s @ ops'" "waits t = fold do_other ops' (waits s)"
    using assms by (auto simp: shadowed_def by_others_def)
  then show ?thesis unfolding shadowed_def by (intro exI [of _ "ops @ ops'"]) (simp add: hides_others)
qed

lemma waits_own_steps [simp]: "waits (set_waits w s) = w" "waits (consume_events toks s) = waits s"
  by (simp_all add: set_waits_def consume_events_def upd_trig_def)

lemma shadowed_cancel: "own_steps_unlogged lg \<Longrightarrow> shadowed lg f v0 l0 s \<Longrightarrow> shadowed lg f v0 l0 (set_waits (cancel_future f (waits s)) s)"
  by (auto simp: shadowed_def own_steps_unlogged_def intro: hides_own_cancel)

lemma leaves_consume: "own_steps_unlogged lg \<Longrightarrow> leaves lg f (emod (consume_events toks))"
  unfolding leaves_iff by_others_def emod_def by (auto simp: own_steps_unlogged_def intro: exI [of _ "[]"])

lemma leaves_payload: "leaves lg f other \<Longrightarrow> leaves lg f (we_payload (trigger_waits other suspend) w)"
  by (simp add: trigger_waits_def leaves_intros)

lemma leaves_deliver:
  assumes "others_avoid lg f xe other suspend"
  shows "leaves lg f (deliver xe (trigger_waits other suspend) c consume n inp p toks)"
proof -
  have r: "leaves lg f (record_output xe inp n c p meta)" for meta
    unfolding record_output_def using assms by (auto simp: others_avoid_def split: option.split intro: leaves_intros)
  have "leaves lg f (we_consume (trigger_waits other suspend) toks)"
    using assms by (auto simp: trigger_waits_def others_avoid_def intro!: leaves_intros leaves_consume)
  then show ?thesis unfolding deliver_def by (intro leaves_intros r)
qed

definition shadows :: "'v history \<Rightarrow> nat \<Rightarrow> wait_registry \<Rightarrow> other_op list \<Rightarrow> ('v trig, 'a) exec \<Rightarrow> bool" where
  "shadows lg f v0 l0 m = (\<forall>s. shadowed lg f v0 l0 s \<longrightarrow> shadowed lg f v0 l0 (snd (m s)))"

lemma shadows_leaves: "leaves lg f m \<Longrightarrow> shadows lg f v0 l0 m"
  by (auto simp: shadows_def leaves_iff intro: shadowed_step)

lemma shadows_bind: "shadows lg f v0 l0 m \<Longrightarrow> (\<And>a. shadows lg f v0 l0 (k a)) \<Longrightarrow> shadows lg f v0 l0 (ebind m k)"
  by (auto simp: shadows_def ebind_def split: prod.splits sum.splits)

lemma shadows_seq: "shadows lg f v0 l0 m \<Longrightarrow> shadows lg f v0 l0 k \<Longrightarrow> shadows lg f v0 l0 (eseq m k)"
  unfolding eseq_def by (rule shadows_bind)

lemma shadows_ret: "shadows lg f v0 l0 (eret a)"
  by (rule shadows_leaves) (rule leaves_intros)

lemma shadows_cancel: "own_steps_unlogged lg \<Longrightarrow> shadows lg f v0 l0 (cancel_waiter (trigger_waits other suspend) f)"
  by (auto simp: shadows_def cancel_waiter_def trigger_waits_def emod_def intro: shadowed_cancel)

lemma shadows_await:
  assumes "\<And>t. leaves lg f (suspend f t)" "own_steps_unlogged lg"
  shows "shadows lg f v0 l0 (await_waiter (trigger_waits other suspend) f t)"
proof -
  have "leaves lg f (we_wait (trigger_waits other suspend) f t)" using assms by (simp add: trigger_waits_def leaves_intros)
  then show ?thesis unfolding await_waiter_def
    by (intro shadows_bind) (auto split: prod.split intro!: shadows_seq shadows_cancel assms shadows_ret intro: shadows_leaves)
qed

lemma shadows_suspended:
  assumes a: "others_avoid lg f xe other suspend"
  shows "shadows lg f v0 l0 (wait_suspended xe (trigger_waits other suspend) c w consume n inp f)"
proof -
  have rec: "leaves lg f (wait_record xe run n st)" for run st
    unfolding wait_record_def using a by (auto simp: others_avoid_def split: option.split intro: leaves_intros)
  have pub: "leaves lg f (xe_waiting xe run n w)" for run using a by (simp add: others_avoid_def)
  have m: "leaves lg f (we_matched (trigger_waits other suspend) f)" by (simp add: trigger_waits_def leaves_intros)
  have sus: "leaves lg f (suspend f t)" for t using a by (simp add: others_avoid_def)
  have un: "own_steps_unlogged lg" using a by (simp add: others_avoid_def)
  show ?thesis unfolding wait_suspended_def
    by (intro shadows_seq shadows_bind shadows_await sus un shadows_leaves [OF rec] shadows_leaves [OF pub])
      (auto split: wait_result.split intro!: shadows_ret shadows_seq shadows_bind shadows_leaves [OF rec] shadows_leaves [OF m]
        shadows_leaves [OF leaves_deliver [OF a]])
qed

text \<open>The registry without the waiter of the node, when the node is unregistered.\<close>

definition visible :: "wait_registry \<Rightarrow> waiter list \<times> (nat, string list) dict" where
  "visible w = (wr_waiters w, wr_matched w)"

lemma unregister_visible: "hides f w v \<Longrightarrow> visible (wr_unregister f w) = visible v"
  by (auto simp: hides_def visible_def wr_unregister_def)

text \<open>What registering leaves when the waiter itself is left out: its future has been created.\<close>

definition future_created :: "wait_registry \<Rightarrow> wait_registry" where
  "future_created w = w\<lparr>wr_next := Suc (wr_next w), wr_futures := dset (wr_futures w) (wr_next w) Pending\<rparr>"

definition registry_fresh :: "wait_registry \<Rightarrow> bool" where
  "registry_fresh w = (list_all (\<lambda>x. wt_future x < wr_next w) (wr_waiters w) \<and> list_all (\<lambda>k. k < wr_next w) (dkeys (wr_matched w)))"

lemma registered_hides:
  assumes "registry_fresh w" "wr_register t w = (Inr f, w')"
  shows "f = wr_next w \<and> hides f w' (future_created w)"
proof -
  have n: "filter (\<lambda>x. wt_future x \<noteq> wr_next w) (wr_waiters w) = wr_waiters w" "dpop (wr_matched w) (wr_next w) = wr_matched w"
    using assms(1) by (force simp: registry_fresh_def filter_id_conv list_all_iff intro!: delete_id)+
  show ?thesis using assms(2) n by (auto simp: wr_register_def future_created_def hides_def Let_def split: sum.splits)
qed

lemma register_failed: "wr_register t w = (Inl e, w') \<Longrightarrow> w' = future_created w"
  by (auto simp: wr_register_def future_created_def Let_def split: sum.splits)

lemma fresh_created: "registry_fresh w \<Longrightarrow> registry_fresh (future_created w)"
  by (auto simp: registry_fresh_def future_created_def list_all_iff)

lemma fresh_register: "registry_fresh w \<Longrightarrow> registry_fresh (snd (wr_register t w))"
  by (auto simp: registry_fresh_def wr_register_def Let_def list_all_iff less_Suc_eq split: sum.splits)

lemma fresh_wake:
  assumes "registry_fresh w" "k < wr_next w"
  shows "registry_fresh (w\<lparr>wr_matched := dset (wr_matched w) k toks, wr_futures := fs\<rparr>)"
proof -
  have "j < wr_next w" if "j \<in> set (dkeys (dset (wr_matched w) k toks))" for j
    using that assms by (auto simp: update_keys registry_fresh_def list_all_iff split: if_splits)
  then show ?thesis using assms(1) by (auto simp: registry_fresh_def list_all_iff)
qed

lemma fresh_ready_from:
  "registry_fresh w \<Longrightarrow> \<forall>x \<in> set xs. wt_future x < wr_next w \<Longrightarrow> registry_fresh (wr_ready_from xs A p w)"
proof (induction xs arbitrary: w)
  case (Cons x xs)
  then show ?case using fresh_wake [OF Cons.prems(1), of "wt_future x"] by simp
qed simp

lemma fresh_other: "registry_fresh w \<Longrightarrow> registry_fresh (do_other op w)"
proof (cases op)
  case (OtherReady A p)
  assume w: "registry_fresh w"
  then have "\<forall>x \<in> set (wr_waiters w). wt_future x < wr_next w" by (simp add: registry_fresh_def list_all_iff)
  then show ?thesis using fresh_ready_from [OF w] by (simp add: OtherReady wr_ready_def)
next
  case (OtherRegister u)
  then show "registry_fresh w \<Longrightarrow> ?thesis" by (simp add: fresh_register)
qed (auto simp: registry_fresh_def wr_unregister_def cancel_future_def list_all_iff delete_keys)

lemma fresh_others: "registry_fresh w \<Longrightarrow> registry_fresh (fold do_other ops w)"
  by (induction ops arbitrary: w) (auto intro: fresh_other)

lemma registered_case:
  assumes a: "others_avoid lg f xe other suspend" and r: "register_waiter wait_for s = (Inr f, s1)" and fr: "registry_fresh (waits s)"
    and m: "shadows lg f (future_created (waits s)) (lg s) m"
  shows "\<exists>ops. lg (snd (efinally m (we_unregister (trigger_waits other suspend) f) s1)) = lg s @ ops
    \<and> visible (waits (snd (efinally m (we_unregister (trigger_waits other suspend) f) s1))) = visible (fold do_other ops (future_created (waits s)))"
proof -
  have un: "lg (set_waits w t) = lg t" for w t using a by (simp add: others_avoid_def own_steps_unlogged_def)
  obtain w where w: "wr_register wait_for (waits s) = (Inr f, w)" "s1 = set_waits w s"
    using r by (cases "wr_register wait_for (waits s)") (auto simp: register_waiter_def)
  have "shadowed lg f (future_created (waits s)) (lg s) s1"
    using registered_hides [OF fr w(1)] w(2) by (auto simp: shadowed_def un intro: exI [of _ "[]"])
  then obtain ops where "lg (snd (m s1)) = lg s @ ops" "hides f (waits (snd (m s1))) (fold do_other ops (future_created (waits s)))"
    using m by (auto simp: shadows_def shadowed_def)
  then show ?thesis by (auto simp: efinally_def trigger_waits_def un intro!: exI [of _ ops] unregister_visible)
qed

text \<open>The execution when there is nothing yet to deliver.\<close>

lemma execute_wait_registers:
  assumes "xe_wait xe = Some (trigger_waits other suspend)" "we_payload (trigger_waits other suspend) wait_for s = (Inr None, s1)"
  shows "execute_wait xe c wait_for consume n inp s = ebind (register_waiter wait_for) (\<lambda>f.
    efinally (ebind (we_payload (trigger_waits other suspend) wait_for) (\<lambda>cur. case cur of
        Some (p, tokens) \<Rightarrow> deliver xe (trigger_waits other suspend) c consume n inp p tokens
      | None \<Rightarrow> wait_suspended xe (trigger_waits other suspend) c wait_for consume n inp f))
      (we_unregister (trigger_waits other suspend) f)) s1"
proof -
  have r: "we_register (trigger_waits other suspend) wait_for consume = register_waiter wait_for" by (simp add: trigger_waits_def)
  show ?thesis unfolding execute_wait_def assms(1) option.case r by (subst ebind_def) (simp add: assms(2))
qed

lemma history_appended:
  assumes "lg s1 = l @ ops" "lg t = lg s1 @ ops2" "w1 = fold do_other ops w" "visible (waits t) = visible (fold do_other ops2 (future_created w1))"
  shows "\<exists>ops ops'. lg t = l @ ops @ ops' \<and> visible (waits t)
    \<in> {visible (fold do_other (ops @ ops') w), visible (fold do_other ops' (future_created (fold do_other ops w)))}"
  by (rule exI [of _ ops], rule exI [of _ ops2]) (simp add: assms)

section \<open>Properties\<close>

text \<open>C39: To the other tasks a wait node is invisible: whatever its execution ends with (a payload, a timeout, a stop, or an
  exception or cancellation raised where it is suspended), the waiters and the matched tokens in the registry of the trigger
  executor are afterwards what the operations of the other tasks meanwhile (\<open>lg\<close> is their history) make of it alone, apart
  from the number of the one future that the node may have created; so its own waiter is gone and no other one is lost. Assumed:
  the futures in the registry have been created by it, the other tasks unregister and cancel only futures of their own.\<close>

theorem wait_node_invisible:
  assumes "xe_wait xe = Some (trigger_waits other suspend)" "registry_fresh (waits s)"
    "others_avoid lg (wr_next (waits (snd (we_payload (trigger_waits other suspend) wait_for s)))) xe other suspend"
  shows "\<exists>ops ops'. lg (snd (execute_wait xe c wait_for consume n inp s)) = lg s @ ops @ ops'
    \<and> visible (waits (snd (execute_wait xe c wait_for consume n inp s)))
      \<in> {visible (fold do_other (ops @ ops') (waits s)), visible (fold do_other ops' (future_created (fold do_other ops (waits s))))}"
proof -
  let ?we = "trigger_waits other suspend"
  obtain r s1 where p: "we_payload ?we wait_for s = (r, s1)" by (cases "we_payload ?we wait_for s")
  let ?f = "wr_next (waits s1)"
  have a: "others_avoid lg ?f xe other suspend" using assms(3) by (simp add: p)
  then have o: "leaves lg ?f other" and un: "\<And>w t. lg (set_waits w t) = lg t" by (simp_all add: others_avoid_def own_steps_unlogged_def)
  have "by_others lg ?f s s1" using leaves_payload [OF o, of suspend wait_for] by (auto simp: leaves_iff p dest!: spec [of _ s])
  then obtain ops where ops: "lg s1 = lg s @ ops" "waits s1 = fold do_other ops (waits s)" by (auto simp: by_others_def)
  then have fr: "registry_fresh (waits s1)" using assms(2) fresh_others by simp
  consider (error) e where "r = Inl e" | (now) q toks where "r = Inr (Some (q, toks))" | (later) "r = Inr None"
    by (metis option.exhaust surj_pair sum.exhaust)
  then show ?thesis
  proof cases
    case error
    then show ?thesis using ops p by - (rule exI [of _ ops], rule exI [of _ "[]"], simp add: execute_wait_def assms(1) ebind_def)
  next
    case now
    have e: "execute_wait xe c wait_for consume n inp s = deliver xe ?we c consume n inp q toks s1"
      using p now by (simp add: execute_wait_def assms(1) ebind_def)
    have "by_others lg ?f s1 (snd (deliver xe ?we c consume n inp q toks s1))" using leaves_deliver [OF a] by (simp add: leaves_iff)
    then obtain ops2 where "lg (snd (deliver xe ?we c consume n inp q toks s1)) = lg s1 @ ops2"
      "waits (snd (deliver xe ?we c consume n inp q toks s1)) = fold do_other ops2 (waits s1)" by (auto simp: by_others_def)
    then show ?thesis using ops unfolding e by - (rule exI [of _ ops], rule exI [of _ ops2], simp)
  next
    case later
    note e = execute_wait_registers [OF assms(1) p [unfolded later], of c consume n inp]
    obtain g s2 where g: "register_waiter wait_for s1 = (g, s2)" by (cases "register_waiter wait_for s1")
    show ?thesis
    proof (cases g)
      case (Inl x)
      then have "waits s2 = future_created (waits s1)" "lg s2 = lg s1"
        using g register_failed [of wait_for "waits s1"] un by (auto simp: register_waiter_def split: prod.splits)
      then show ?thesis using ops g Inl unfolding e by - (rule exI [of _ ops], rule exI [of _ "[]"], simp add: ebind_def)
    next
      case (Inr k)
      have k: "k = ?f" using g Inr by (auto simp: register_waiter_def wr_register_def Let_def split: prod.splits sum.splits)
      let ?m = "ebind (we_payload ?we wait_for) (\<lambda>cur. case cur of
             Some (p, tokens) \<Rightarrow> deliver xe ?we c consume n inp p tokens
           | None \<Rightarrow> wait_suspended xe ?we c wait_for consume n inp ?f)"
      have m: "shadows lg ?f v0 l0 ?m" for v0 l0
        by (intro shadows_bind shadows_leaves [OF leaves_payload [OF o]])
          (auto split: option.split prod.split intro!: shadows_suspended [OF a] shadows_leaves [OF leaves_deliver [OF a]])
      have e2: "execute_wait xe c wait_for consume n inp s = efinally ?m (we_unregister ?we ?f) s2"
        unfolding e by (subst ebind_def) (simp add: g Inr k)
      obtain ops2 where x: "lg (snd (efinally ?m (we_unregister ?we ?f) s2)) = lg s1 @ ops2"
        "visible (waits (snd (efinally ?m (we_unregister ?we ?f) s2))) = visible (fold do_other ops2 (future_created (waits s1)))"
        using registered_case [OF a g [unfolded Inr k] fr m] by blast
      show ?thesis unfolding e2 by (rule history_appended [OF ops(1) x(1) ops(2) x(2)])
    qed
  qed
qed

text \<open>While the node waits, another task registers a waiter and an event is emitted that wakes both waiters.\<close>

definition others_do :: "other_op list \<Rightarrow> other_op list trig exec_state task_state \<Rightarrow> other_op list trig exec_state task_state" where
  "others_do ops = upd_trig (\<lambda>x. x\<lparr>tx_waiters := fold do_other ops (tx_waiters x), tx_world := tx_world x @ ops\<rparr>)"

definition busy_suspend :: "nat \<Rightarrow> rat option \<Rightarrow> (other_op list trig, bool) exec" where
  "busy_suspend f t s = (Inr False, others_do [OtherRegister ''e'', OtherReady {''e''} (PInt 1)] s)"

definition wait_demo :: "other_op list trig exec_state task_state" where
  "wait_demo = \<lparr>ts_instances = [], ts_world = \<lparr>xs_store = None, xs_modules = [], xs_meta = [], xs_agents = [], xs_registry = None,
     xs_world = \<lparr>tx_store = tx_store once_state, tx_max_depth = 3, tx_events = tx_events once_state, tx_waiters = tx_waiters once_state,
       tx_records = [], tx_table = None, tx_triggers = None, tx_world = []\<rparr>\<rparr>\<rparr>"

definition demo_history :: "other_op list history" where
  "demo_history s = tx_world (xs_world (ts_world s))"

theorem wait_node_invisible_witness:
  "\<exists>ops ops'. ops @ ops' = [OtherRegister ''e'', OtherReady {''e''} (PInt 1)]
    \<and> visible (waits (snd (execute_wait (plain_env (Some (trigger_waits (eret ()) busy_suspend))) (plain_node (WaitNode ''e'' True)) ''e'' True ''n''
        small_input wait_demo)))
      \<in> {visible (fold do_other (ops @ ops') (waits wait_demo)), visible (fold do_other ops' (future_created (fold do_other ops (waits wait_demo))))}"
proof -
  let ?xe = "plain_env (Some (trigger_waits (eret ()) busy_suspend))"
  have un: "own_steps_unlogged demo_history"
    by (simp add: own_steps_unlogged_def demo_history_def set_waits_def consume_events_def upd_trig_def)
  have "list_all (avoids f) [OtherRegister ''e'', OtherReady {''e''} (PInt 1)]" for f by simp
  then have "leaves demo_history f (busy_suspend f t)" for f t
    unfolding leaves_iff by_others_def by (auto simp: busy_suspend_def others_do_def upd_trig_def demo_history_def)
  then have av: "others_avoid demo_history f ?xe (eret ()) busy_suspend" for f
    using un by (simp add: others_avoid_def plain_env_def leaves_intros)
  have fr: "registry_fresh (waits wait_demo)" by (simp add: registry_fresh_def wait_demo_def once_state_def)
  have xw: "xe_wait ?xe = Some (trigger_waits (eret ()) busy_suspend)" by (simp add: plain_env_def)
  have h: "demo_history (snd (execute_wait ?xe (plain_node (WaitNode ''e'' True)) ''e'' True ''n'' small_input wait_demo))
      = [OtherRegister ''e'', OtherReady {''e''} (PInt 1)]" "demo_history wait_demo = []" by code_simp+
  show ?thesis
    using wait_node_invisible [OF xw fr av, of "plain_node (WaitNode ''e'' True)" "''e''" True "''n''" small_input] unfolding h append_Nil by metis
qed

end
