(* ===== verification/Closure.thy ===== *)
theory Closure
  imports DagLoader
begin

text \<open>
  What a run executes: the closure of a DAG under its sub-DAGs (\<open>snapshot.py\<close>) and its loading from the stored
  configurations (\<open>_load_dag_execution_closure\<close> of \<open>dag_controller.py\<close>). The tables the nested functions fill
  are passed along. The stored configurations are the dictionaries \<open>get_dag_config\<close> and
  \<open>get_node_config\<close> answer from.
\<close>

record dag_closure =
  cl_root :: string
  cl_dags :: "(string, dag_cfg) dict"
  cl_nodes :: "(string, node_cfg) dict"

type_synonym tables = "(string, dag_cfg) dict \<times> (string, node_cfg) dict"

definition sub_dag_name :: "(string, dag_cfg) dict \<Rightarrow> node_inst \<Rightarrow> string option" where
  "sub_dag_name dags i = (case (if ni_type i = ''dag'' then ni_dag_ref i else None) of
     Some r \<Rightarrow> if r \<noteq> [] then Some r else if dhas dags (ni_type i) then Some (ni_type i) else None
   | None \<Rightarrow> if dhas dags (ni_type i) then Some (ni_type i) else None)"

definition missing_dag :: "string \<Rightarrow> err" where
  "missing_dag name = DagError (''missing DAG config: '' @ name)"

definition closure_cycle_error :: "path_step list \<Rightarrow> string \<Rightarrow> string" where
  "closure_cycle_error chain root_dag =
     ''Sub DAG cycle detected for '' @ [CHR 0x27] @ root_dag @ [CHR 0x27] @ '': '' @ join '' -> '' (map ps_dag chain)"

section \<open>The closure\<close>

function close_dag :: "(string, dag_cfg) dict \<Rightarrow> (string, node_cfg) dict \<Rightarrow> string \<Rightarrow> path_step list \<Rightarrow> string option
    \<Rightarrow> tables \<Rightarrow> tables res"
  and close_nodes :: "(string, dag_cfg) dict \<Rightarrow> (string, node_cfg) dict \<Rightarrow> node_inst list \<Rightarrow> path_step list
    \<Rightarrow> tables \<Rightarrow> tables res" where
  "close_dag dags nodes name path via t = (case dget dags name of
     None \<Rightarrow> Inl (missing_dag name)
   | Some d \<Rightarrow>
      (let chain = path @ [\<lparr>ps_dag = name, ps_via = via\<rparr>] in
       if name \<in> ps_dag ` set path
       then Inl (DagError (closure_cycle_error chain (case chain of [] \<Rightarrow> [] | st # _ \<Rightarrow> ps_dag st)))
       else close_nodes dags nodes (dc_nodes d) chain (dset (fst t) name d, snd t)))"
| "close_nodes dags nodes [] chain t = Inr t"
| "close_nodes dags nodes (i # js) chain t = (case sub_dag_name dags i of
     Some r \<Rightarrow> rbind (close_dag dags nodes r chain (Some (ni_id i)) t) (close_nodes dags nodes js chain)
   | None \<Rightarrow> (case dget nodes (ni_type i) of
       None \<Rightarrow> Inl (DagError (''missing node config: '' @ ni_type i))
     | Some c \<Rightarrow> close_nodes dags nodes js chain (fst t, dset (snd t) (ni_type i) c)))"
  by pat_completeness auto
termination
proof (relation "measures [\<lambda>x. (case x of Inl (ds, ns, n, p, v, t) \<Rightarrow> card (set (dkeys ds) - ps_dag ` set p)
      | Inr (ds, ns, js, p, t) \<Rightarrow> card (set (dkeys ds) - ps_dag ` set p)),
    \<lambda>x. (case x of Inl _ \<Rightarrow> 0 | Inr (ds, ns, js, p, t) \<Rightarrow> Suc (length js))]", goal_cases)
  case 1
  show ?case by simp
next
  case (2 dags nodes name path via t d chain)
  then have "name \<in> set (dkeys dags) - ps_dag ` set path"
    by (auto simp: dhas_keys [symmetric] dhas_def simp del: set_map)
  then have "card (set (dkeys dags) - insert name (ps_dag ` set path)) < card (set (dkeys dags) - ps_dag ` set path)"
    by (intro psubset_card_mono) auto
  then show ?case using 2 by simp
qed auto

definition build_closure :: "string \<Rightarrow> (string, dag_cfg) dict \<Rightarrow> (string, node_cfg) dict \<Rightarrow> dag_closure res" where
  "build_closure name dags nodes = rbind (close_dag dags nodes name [] None ([], []))
     (\<lambda>t. Inr \<lparr>cl_root = name, cl_dags = fst t, cl_nodes = snd t\<rparr>)"

fun node_skills :: "node_variant \<Rightarrow> string list" where
  "node_skills (FunctionNode _ sk _ _ _ _ _) = sk"
| "node_skills (AgentNode _ _ sk _ _ _ _) = sk"
| "node_skills _ = []"

definition needed_skills :: "dag_closure \<Rightarrow> string list" where
  "needed_skills c = sort (remdups (concat (map (\<lambda>n. node_skills (nc_variant n)) (dvalues (cl_nodes c)))))"

definition closure_skills :: "dag_closure \<Rightarrow> (string, 'a) dict \<Rightarrow> (string, 'a) dict" where
  "closure_skills c skills = concat (map (\<lambda>k. case dget skills k of None \<Rightarrow> [] | Some s \<Rightarrow> [(k, s)]) (needed_skills c))"

section \<open>Loading the closure\<close>

function load_dag :: "(string, dag_cfg) dict \<Rightarrow> (string, node_cfg) dict \<Rightarrow> string \<Rightarrow> tables \<Rightarrow> tables res"
  and load_nodes :: "(string, dag_cfg) dict \<Rightarrow> (string, node_cfg) dict \<Rightarrow> node_inst list \<Rightarrow> tables \<Rightarrow> tables res" where
  "load_dag dbd dbn name t = (if dhas (fst t) name then Inr t
     else (case dget dbd name of
       None \<Rightarrow> Inl (missing_dag name)
     | Some d \<Rightarrow> load_nodes dbd dbn (dc_nodes d) (dset (fst t) name d, snd t)))"
| "load_nodes dbd dbn [] t = Inr t"
| "load_nodes dbd dbn (i # js) t = (case sub_dag_name dbd i of
     Some r \<Rightarrow> rbind (load_dag dbd dbn r t) (load_nodes dbd dbn js)
   | None \<Rightarrow> load_nodes dbd dbn js (if dhas (snd t) (ni_type i) then t
       else (case dget dbn (ni_type i) of None \<Rightarrow> t | Some c \<Rightarrow> (fst t, dset (snd t) (ni_type i) c))))"
  by pat_completeness auto

termination
proof -
  have grows: "load_dag_load_nodes_dom (Inl (dbd, dbn, name, t)) \<Longrightarrow> load_dag dbd dbn name t = Inr t' \<Longrightarrow> dhas (fst t) k \<Longrightarrow> dhas (fst t') k"
    "load_dag_load_nodes_dom (Inr (dbd, dbn, js, t)) \<Longrightarrow> load_nodes dbd dbn js t = Inr t' \<Longrightarrow> dhas (fst t) k \<Longrightarrow> dhas (fst t') k"
    for dbd dbn name js t t' k
  proof (induction dbd dbn name t and dbd dbn js t arbitrary: t' and t' rule: load_dag_load_nodes.pinduct)
    case (1 dbd dbn name t)
    then show ?case by (auto simp: load_dag.psimps [OF 1(1)] split: if_splits option.splits)
  next
    case (2 dbd dbn t)
    then show ?case by (simp add: load_nodes.psimps(1) [OF 2(1)])
  next
    case (3 dbd dbn i js t)
    note e = load_nodes.psimps(2) [OF 3(1)]
    show ?case
    proof (cases "sub_dag_name dbd i")
      case None
      then show ?thesis using 3(2) [OF None] 3(5,6) by (simp add: e split: if_splits option.splits)
    next
      case (Some r)
      then obtain u where u: "load_dag dbd dbn r t = Inr u" "load_nodes dbd dbn js u = Inr t'" using 3(5) by (auto simp: e)
      have "dhas (fst u) k" by (rule 3(3) [OF Some u(1) 3(6)])
      then show ?thesis by (rule 3(4) [OF Some u(1) u(2)])
    qed
  qed
  show ?thesis
  proof (relation "measures [\<lambda>x. (case x of Inl (ds, ns, n, t) \<Rightarrow> card (set (dkeys ds) - set (dkeys (fst t)))
        | Inr (ds, ns, js, t) \<Rightarrow> card (set (dkeys ds) - set (dkeys (fst t)))),
      \<lambda>x. (case x of Inl _ \<Rightarrow> 0 | Inr (ds, ns, js, t) \<Rightarrow> Suc (length js))]", goal_cases)
    case 1
    show ?case by simp
  next
    case (2 dbd dbn name t d)
    then have "name \<in> set (dkeys dbd) - set (dkeys (fst t))"
      by (auto simp: dhas_keys [symmetric] dhas_def simp del: set_map)
    then have "card (set (dkeys dbd) - insert name (set (dkeys (fst t)))) < card (set (dkeys dbd) - set (dkeys (fst t)))"
      by (intro psubset_card_mono) auto
    then show ?case by simp
  next
    case (5 dbd dbn i js t r t')
    then have "set (dkeys (fst t)) \<subseteq> set (dkeys (fst t'))"
      using grows(1) [OF 5(3) 5(2)] by (auto simp: dhas_keys [symmetric] simp del: set_map)
    then have "card (set (dkeys dbd) - set (dkeys (fst t'))) \<le> card (set (dkeys dbd) - set (dkeys (fst t)))"
      by (intro card_mono) auto
    then show ?case by auto
  qed (auto split: option.splits)
qed

definition load_closure :: "string \<Rightarrow> (string, dag_cfg) dict \<Rightarrow> (string, node_cfg) dict \<Rightarrow> dag_closure res" where
  "load_closure name dbd dbn = rbind (load_dag dbd dbn name ([], [])) (\<lambda>t. build_closure name (fst t) (snd t))"

end
