(* ===== verification/RunStore.thy ===== *)
theory RunStore
  imports Schema "HOL-Library.Option_ord"
begin

text \<open>
  The run tables of the database and the statements on them (\<open>storage/repository/_runtime.py\<close>,
  \<open>_log_index.py\<close>, the row classes of \<open>storage/entities.py\<close>). A table is the list of its rows in the order of
  insertion, which is the order of their integer ids. A statement returns its value and the new database, or
  raises; a session that is left by an exception is rolled back, so nothing of it remains (\<open>transact\<close>). A violated
  uniqueness constraint raises \<open>IntegrityError\<close>. Row classes are table models, whose validators the library does not
  run when a row is constructed; they are the predicates \<open>valid_\<dots>\<close> below.

  Every drawn identifier or time comes from the surroundings, by the number of draws so far: \<open>uuid4().hex\<close>,
  \<open>utc_now()\<close> in microseconds, and the texts of times and quotients.
\<close>

section \<open>Rows\<close>

record output_row =
  ou_id :: string
  ou_type :: string
  ou_run :: string
  ou_node :: string
  ou_payload :: "(string, pyval) dict"
  ou_tags :: "string list"
  ou_session :: "string option"
  ou_url :: "string option"
  ou_created :: int

record dag_run =
  dr_run :: string
  dr_dag :: string
  dr_source :: string
  dr_status :: string
  dr_started :: int
  dr_ended :: "int option"
  dr_error :: "string option"
  dr_retry_of :: "string option"

record node_run =
  nx_run :: string
  nx_node :: string
  nx_status :: string
  nx_started :: "int option"
  nx_ended :: "int option"
  nx_error :: "string option"
  nx_kind :: "string option"
  nx_meta :: "(string, pyval) dict"

record edge_input =
  ei_run :: string
  ei_from :: string
  ei_to :: string
  ei_optional :: bool
  ei_status :: string
  ei_has_payload :: bool
  ei_error :: "string option"
  ei_created :: int

record source_recovery =
  rv_run :: string
  rv_node :: string
  rv_source :: string
  rv_status :: string
  rv_attempts :: int
  rv_reason :: "string option"
  rv_failure :: "string option"
  rv_escalated :: bool
  rv_escalation :: "string option"
  rv_created :: int

record log_row =
  lg_run :: string
  lg_node :: string
  lg_kind :: string
  lg_path :: string
  lg_digest :: string
  lg_size :: int
  lg_created :: int

record db =
  db_runs :: "dag_run list"
  db_nodes :: "node_run list"
  db_edges :: "edge_input list"
  db_outputs :: "output_row list"
  db_recoveries :: "source_recovery list"
  db_logs :: "log_row list"
  db_draws :: nat

definition empty_db :: db where
  "empty_db = \<lparr>db_runs = [], db_nodes = [], db_edges = [], db_outputs = [], db_recoveries = [], db_logs = [], db_draws = 0\<rparr>"

record draws =
  dw_uuid :: "nat \<Rightarrow> string"
  dw_now :: "nat \<Rightarrow> int"
  dw_iso :: "int \<Rightarrow> string"
  dw_float :: "rat \<Rightarrow> string"

type_synonym 'a tx = "db \<Rightarrow> ('a \<times> db) res"

definition transact :: "'a tx \<Rightarrow> db \<Rightarrow> 'a res \<times> db" where
  "transact f d = (case f d of Inl e \<Rightarrow> (Inl e, d) | Inr (a, d') \<Rightarrow> (Inr a, d'))"

definition integrity_error :: err where
  "integrity_error = OtherError ''IntegrityError''"

definition draw_now :: "draws \<Rightarrow> db \<Rightarrow> int \<times> db" where
  "draw_now w d = (dw_now w (db_draws d), d\<lparr>db_draws := Suc (db_draws d)\<rparr>)"

text \<open>\<open>result.first()\<close>, and \<open>order_by(column.desc())\<close>: rows with the same value keep the order of the table.\<close>

definition first_of :: "('r \<Rightarrow> bool) \<Rightarrow> 'r list \<Rightarrow> 'r option" where
  "first_of P rs = (case filter P rs of [] \<Rightarrow> None | r # _ \<Rightarrow> Some r)"

definition newest :: "('r \<Rightarrow> 'k::linorder) \<Rightarrow> 'r list \<Rightarrow> 'r list" where
  "newest f rs = rev (sort_key f (rev rs))"

text \<open>\<open>order_by(column.desc(), id.desc())\<close>\<close>

definition newest_last :: "('r \<Rightarrow> 'k::linorder) \<Rightarrow> 'r list \<Rightarrow> 'r list" where
  "newest_last f rs = rev (sort_key f rs)"

text \<open>Changing the first row that satisfies \<open>P\<close>.\<close>

fun update_first :: "('r \<Rightarrow> bool) \<Rightarrow> ('r \<Rightarrow> 'r) \<Rightarrow> 'r list \<Rightarrow> 'r list" where
  "update_first P f [] = []"
| "update_first P f (r # rs) = (if P r then f r # rs else r # update_first P f rs)"

section \<open>Validators of the rows\<close>

definition not_blank :: "string \<Rightarrow> bool" where
  "not_blank s = (strip_ws s \<noteq> [])"

definition valid_source :: "string \<Rightarrow> bool" where
  "valid_source s = (s \<in> {''manual'', ''startup'', ''retry''} \<or> starts_with s ''trigger:'')"

definition valid_run_status :: "string \<Rightarrow> bool" where
  "valid_run_status s = (s \<in> {''running'', ''succeeded'', ''failed'', ''cancelled''})"

definition valid_node_status :: "string \<Rightarrow> bool" where
  "valid_node_status s = (s \<in> {''pending'', ''running'', ''waiting'', ''succeeded'', ''failed'', ''skipped'', ''cancelled''})"

definition valid_failure_kind :: "string option \<Rightarrow> bool" where
  "valid_failure_kind k = (case k of None \<Rightarrow> True | Some x \<Rightarrow> x \<in> {''execution_failed'', ''upstream_failed'', ''wait_timeout''})"

definition valid_edge_status :: "string \<Rightarrow> bool" where
  "valid_edge_status s = (s \<in> {''available'', ''empty'', ''failed'', ''unknown''})"

section \<open>Outputs of nodes\<close>

definition str_get :: "(string, pyval) dict \<Rightarrow> string \<Rightarrow> string option" where
  "str_get d k = (case aget d k of PStr s \<Rightarrow> Some s | _ \<Rightarrow> None)"

definition tag_list :: "pyval \<Rightarrow> string list" where
  "tag_list v = (case v of PList xs \<Rightarrow> map py_str xs | _ \<Rightarrow> [])"

definition output_value :: "pyval \<Rightarrow> (string, pyval) dict" where
  "output_value v = (case v of PDict d \<Rightarrow> d | _ \<Rightarrow> [(''value'', v)])"

definition known_item :: "string \<Rightarrow> string option \<Rightarrow> db \<Rightarrow> bool" where
  "known_item ty url d = (ty = ''raw-item'' \<and> url \<noteq> None
     \<and> first_of (\<lambda>r. ou_type r = ''raw-item'' \<and> ou_url r = url) (db_outputs d) \<noteq> None)"

text \<open>The uniqueness of \<open>entity_id\<close> and of \<open>(type, url)\<close>; rows without url never collide.\<close>

definition output_collides :: "output_row \<Rightarrow> output_row \<Rightarrow> bool" where
  "output_collides r x = (ou_id x = ou_id r \<or> ou_type x = ou_type r \<and> ou_url r \<noteq> None \<and> ou_url x = ou_url r)"

definition new_output :: "draws \<Rightarrow> nat \<Rightarrow> string \<Rightarrow> string \<Rightarrow> string \<Rightarrow> string option \<Rightarrow> (string, pyval) dict \<Rightarrow> output_row" where
  "new_output w n run_id node ty sid v = \<lparr>ou_id = dw_uuid w n, ou_type = ty,
     ou_run = str_or (aget v ''run_id'') run_id, ou_node = node, ou_payload = v,
     ou_tags = tag_list (aget v ''tags''), ou_session = sid, ou_url = str_get v ''url'', ou_created = dw_now w n\<rparr>"

definition store_output :: "draws \<Rightarrow> string \<Rightarrow> string \<Rightarrow> string \<Rightarrow> string option \<Rightarrow> pyval \<Rightarrow> output_row list \<Rightarrow> output_row list tx" where
  "store_output w run_id node ty sid value stored d =
     (let v = output_value value in
      if known_item ty (str_get v ''url'') d then Inr (stored, d)
      else (let r = new_output w (db_draws d) run_id node ty sid v in
        if list_ex (output_collides r) (db_outputs d) then Inl integrity_error
        else Inr (stored @ [r], d\<lparr>db_outputs := db_outputs d @ [r], db_draws := Suc (db_draws d)\<rparr>)))"

fun store_outputs :: "draws \<Rightarrow> string \<Rightarrow> string \<Rightarrow> string \<Rightarrow> string option \<Rightarrow> pyval list \<Rightarrow> output_row list \<Rightarrow> output_row list tx" where
  "store_outputs w run_id node ty sid [] stored d = Inr (stored, d)"
| "store_outputs w run_id node ty sid (v # vs) stored d = rbind (store_output w run_id node ty sid v stored d)
     (\<lambda>(stored', d'). store_outputs w run_id node ty sid vs stored' d')"

definition payload_values :: "pyval \<Rightarrow> pyval list" where
  "payload_values p = (case p of PList vs \<Rightarrow> vs | _ \<Rightarrow> [p])"

definition store_node_output_entities :: "draws \<Rightarrow> string \<Rightarrow> string \<Rightarrow> string \<Rightarrow> pyval \<Rightarrow> string option \<Rightarrow> output_row list tx" where
  "store_node_output_entities w run_id node ty payload sid = store_outputs w run_id node ty sid (payload_values payload) []"

definition node_output_to_entity :: "output_row \<Rightarrow> entity" where
  "node_output_to_entity r =
     (let a = dsetdefault (ou_payload r) ''id'' (PStr (ou_id r));
          b = dmerge a [(''run_id'', PStr (ou_run r)), (''node_id'', PStr (ou_node r)), (''payload'', PDict (ou_payload r))];
          c = (case ou_session r of None \<Rightarrow> b | Some s \<Rightarrow> if s = [] then b else dset b ''session_id'' (PStr s)) in
      \<lparr>en_id = ou_id r, en_type = ou_type r, en_attrs = c\<rparr>)"

definition entity_tags :: "entity \<Rightarrow> string list" where
  "entity_tags e = tag_list (aget (en_attrs e) ''tags'')"

definition if_given :: "'a option \<Rightarrow> ('a \<Rightarrow> bool) \<Rightarrow> bool" where
  "if_given x P = (case x of None \<Rightarrow> True | Some a \<Rightarrow> P a)"

text \<open>\<open>limit(n)\<close> of a non-negative \<open>n\<close>.\<close>

definition query_node_output_entities :: "string option \<Rightarrow> string option \<Rightarrow> string option \<Rightarrow> string list option \<Rightarrow> nat \<Rightarrow> db \<Rightarrow> entity list" where
  "query_node_output_entities ty run_id node tags n d =
     (let rows = take n (newest ou_created (filter (\<lambda>r. if_given ty (\<lambda>t. ou_type r = t)
            \<and> if_given run_id (\<lambda>x. ou_run r = x) \<and> if_given node (\<lambda>x. ou_node r = x)) (db_outputs d)));
          es = map node_output_to_entity rows in
      case tags of None \<Rightarrow> es | Some ts \<Rightarrow> filter (\<lambda>e. set ts \<subseteq> set (entity_tags e)) es)"

definition text_unless_none :: "pyval \<Rightarrow> string option" where
  "text_unless_none v = (if is_none v then None else Some (py_str v))"

definition saved_output :: "entity \<Rightarrow> output_row \<Rightarrow> output_row" where
  "saved_output e r = (let a = en_attrs e in r\<lparr>ou_run := str_or (aget a ''run_id'') (ou_run r),
     ou_node := str_or (aget a ''node_id'') (ou_node r), ou_session := text_unless_none (aget a ''session_id''),
     ou_url := text_unless_none (aget a ''url''),
     ou_payload := (case aget a ''payload'' of PDict p \<Rightarrow> p | _ \<Rightarrow> a), ou_tags := tag_list (aget a ''tags'')\<rparr>)"

definition save_node_output_entity :: "entity \<Rightarrow> entity tx" where
  "save_node_output_entity e d = (case first_of (\<lambda>r. ou_id r = en_id e) (db_outputs d) of
     None \<Rightarrow> Inl (ValueError (''node output entity not found: '' @ en_id e))
   | Some r \<Rightarrow> if ou_type r \<noteq> en_type e then Inl (ValueError (''node output entity type cannot change: '' @ en_id e))
     else (let r' = saved_output e r in
       if list_ex (\<lambda>x. ou_id x \<noteq> ou_id r \<and> output_collides r' x) (db_outputs d) then Inl integrity_error
       else Inr (node_output_to_entity r', d\<lparr>db_outputs := update_first (\<lambda>x. ou_id x = en_id e) (\<lambda>_. r') (db_outputs d)\<rparr>)))"

definition delete_node_output_entity :: "string \<Rightarrow> db \<Rightarrow> bool \<times> db" where
  "delete_node_output_entity i d = (case first_of (\<lambda>r. ou_id r = i) (db_outputs d) of None \<Rightarrow> (False, d)
     | Some r \<Rightarrow> (True, d\<lparr>db_outputs := filter (\<lambda>x. ou_id x \<noteq> i) (db_outputs d)\<rparr>))"

definition delete_node_outputs_for_nodes :: "string \<Rightarrow> string set \<Rightarrow> db \<Rightarrow> db" where
  "delete_node_outputs_for_nodes run_id nodes d = (if nodes = {} then d
     else d\<lparr>db_outputs := filter (\<lambda>r. \<not> (ou_run r = run_id \<and> ou_node r \<in> nodes)) (db_outputs d)\<rparr>)"

definition drop_expired :: "int \<Rightarrow> int \<Rightarrow> output_row list \<Rightarrow> output_row list" where
  "drop_expired hours now rs = (if 0 < hours
     then filter (\<lambda>r. \<not> ou_created r < now - hours * 3600 * 1000000) rs else rs)"

definition runs_by_age :: "output_row list \<Rightarrow> string list" where
  "runs_by_age rs = dedupe_by (\<lambda>x. x) [] (map ou_run (newest ou_created rs))"

definition keep_newest_runs :: "int \<Rightarrow> output_row list \<Rightarrow> output_row list" where
  "keep_newest_runs n rs = (if 0 < n
     then (let expired = drop (nat n) (runs_by_age rs) in filter (\<lambda>r. ou_run r \<notin> set expired) rs) else rs)"

definition cleanup_node_output_entities :: "draws \<Rightarrow> int \<Rightarrow> int \<Rightarrow> db \<Rightarrow> db" where
  "cleanup_node_output_entities w keep hours d = (let (now, d') = draw_now w d in
     d'\<lparr>db_outputs := keep_newest_runs keep (drop_expired hours now (db_outputs d'))\<rparr>)"

section \<open>Runs\<close>

definition pending_row :: "string \<Rightarrow> string \<Rightarrow> node_run" where
  "pending_row run_id n = \<lparr>nx_run = run_id, nx_node = n, nx_status = ''pending'', nx_started = None, nx_ended = None,
     nx_error = None, nx_kind = None, nx_meta = []\<rparr>"

definition create_dag_run :: "draws \<Rightarrow> string \<Rightarrow> string \<Rightarrow> string list \<Rightarrow> string \<Rightarrow> string option \<Rightarrow> dag_run tx" where
  "create_dag_run w run_id source nodes dag retry_of d = (let (now, d') = draw_now w d;
      r = \<lparr>dr_run = run_id, dr_dag = dag, dr_source = source, dr_status = ''running'', dr_started = now, dr_ended = None,
           dr_error = None, dr_retry_of = retry_of\<rparr> in
      if list_ex (\<lambda>x. dr_run x = run_id) (db_runs d) then Inl integrity_error
      else Inr (r, d'\<lparr>db_runs := db_runs d' @ [r], db_nodes := db_nodes d' @ map (pending_row run_id) nodes\<rparr>))"

definition get_dag_run :: "string \<Rightarrow> db \<Rightarrow> dag_run option" where
  "get_dag_run run_id d = first_of (\<lambda>r. dr_run r = run_id) (db_runs d)"

definition change_run :: "string \<Rightarrow> (dag_run \<Rightarrow> dag_run) \<Rightarrow> db \<Rightarrow> db" where
  "change_run run_id f d = d\<lparr>db_runs := update_first (\<lambda>r. dr_run r = run_id) f (db_runs d)\<rparr>"

definition finish_dag_run :: "draws \<Rightarrow> string \<Rightarrow> string \<Rightarrow> string option \<Rightarrow> db \<Rightarrow> dag_run option \<times> db" where
  "finish_dag_run w run_id status error d = (case get_dag_run run_id d of None \<Rightarrow> (None, d)
     | Some r \<Rightarrow> (let (now, d') = draw_now w d; f = (\<lambda>r. r\<lparr>dr_status := status, dr_error := error, dr_ended := Some now\<rparr>) in
         (Some (f r), change_run run_id f d')))"

definition restart_dag_run :: "string \<Rightarrow> db \<Rightarrow> dag_run option \<times> db" where
  "restart_dag_run run_id d = (case get_dag_run run_id d of None \<Rightarrow> (None, d)
     | Some r \<Rightarrow> (let f = (\<lambda>r. r\<lparr>dr_status := ''running'', dr_error := None, dr_ended := None\<rparr>) in
         (Some (f r), change_run run_id f d)))"

definition newest_run :: "(dag_run \<Rightarrow> bool) \<Rightarrow> db \<Rightarrow> dag_run option" where
  "newest_run P d = (case newest dr_started (filter P (db_runs d)) of [] \<Rightarrow> None | r # _ \<Rightarrow> Some r)"

definition current_dag_run :: "string option \<Rightarrow> db \<Rightarrow> dag_run option" where
  "current_dag_run dag = newest_run (\<lambda>r. dr_status r = ''running'' \<and> if_given dag (\<lambda>x. dr_dag r = x))"

definition recent_dag_runs :: "nat \<Rightarrow> string option \<Rightarrow> db \<Rightarrow> dag_run list" where
  "recent_dag_runs n dag d = take n (newest dr_started (filter (\<lambda>r. if_given dag (\<lambda>x. dr_dag r = x)) (db_runs d)))"

definition latest_finished_dag_run :: "string \<Rightarrow> db \<Rightarrow> dag_run option" where
  "latest_finished_dag_run dag = newest_run (\<lambda>r. dr_dag r = dag \<and> dr_status r \<noteq> ''running'')"

section \<open>Executions of nodes\<close>

definition of_node :: "string \<Rightarrow> string \<Rightarrow> node_run \<Rightarrow> bool" where
  "of_node run_id n r = (nx_run r = run_id \<and> nx_node r = n)"

definition marked :: "int \<Rightarrow> string \<Rightarrow> string option \<Rightarrow> string option \<Rightarrow> (string, pyval) dict option \<Rightarrow> node_run \<Rightarrow> node_run" where
  "marked now status error kind meta r = r\<lparr>nx_status := status, nx_error := error,
     nx_kind := (if status = ''failed'' then kind else None),
     nx_meta := (case meta of None \<Rightarrow> nx_meta r | Some m \<Rightarrow> dmerge (nx_meta r) m),
     nx_started := (if status = ''running'' \<and> nx_started r = None then Some now else nx_started r),
     nx_ended := (if status \<in> {''succeeded'', ''failed'', ''skipped'', ''cancelled''} then Some now else nx_ended r)\<rparr>"

definition mark_node_run :: "draws \<Rightarrow> string \<Rightarrow> string \<Rightarrow> string \<Rightarrow> string option \<Rightarrow> string option \<Rightarrow> (string, pyval) dict option \<Rightarrow> db \<Rightarrow> node_run \<times> db" where
  "mark_node_run w run_id n status error kind meta d =
     (let (now, d') = draw_now w d; f = marked now status error kind meta in
      case first_of (of_node run_id n) (db_nodes d') of
        None \<Rightarrow> (let r = f ((pending_row run_id n)\<lparr>nx_status := status\<rparr>) in (r, d'\<lparr>db_nodes := db_nodes d' @ [r]\<rparr>))
      | Some r \<Rightarrow> (f r, d'\<lparr>db_nodes := update_first (of_node run_id n) f (db_nodes d')\<rparr>))"

definition node_runs_for_run :: "string \<Rightarrow> db \<Rightarrow> node_run list" where
  "node_runs_for_run run_id d = filter (\<lambda>r. nx_run r = run_id) (db_nodes d)"

definition node_run_for_run_node :: "string \<Rightarrow> string \<Rightarrow> db \<Rightarrow> node_run option" where
  "node_run_for_run_node run_id n d = first_of (of_node run_id n) (db_nodes d)"

section \<open>Inputs along edges\<close>

definition of_edge :: "string \<Rightarrow> string \<Rightarrow> string \<Rightarrow> edge_input \<Rightarrow> bool" where
  "of_edge run_id u v r = (ei_run r = run_id \<and> ei_from r = u \<and> ei_to r = v)"

definition upsert_edge_input :: "draws \<Rightarrow> string \<Rightarrow> string \<Rightarrow> string \<Rightarrow> bool \<Rightarrow> string \<Rightarrow> bool \<Rightarrow> string option \<Rightarrow> db \<Rightarrow> edge_input \<times> db" where
  "upsert_edge_input w run_id u v opt status has err d = (case first_of (of_edge run_id u v) (db_edges d) of
     None \<Rightarrow> (let (now, d') = draw_now w d; r = \<lparr>ei_run = run_id, ei_from = u, ei_to = v, ei_optional = opt, ei_status = status,
         ei_has_payload = has, ei_error = err, ei_created = now\<rparr> in (r, d'\<lparr>db_edges := db_edges d' @ [r]\<rparr>))
   | Some r \<Rightarrow> (let f = (\<lambda>r. r\<lparr>ei_optional := opt, ei_status := status, ei_has_payload := has, ei_error := err\<rparr>) in
       (f r, d\<lparr>db_edges := update_first (of_edge run_id u v) f (db_edges d)\<rparr>)))"

definition edge_inputs_for_run :: "string \<Rightarrow> db \<Rightarrow> edge_input list" where
  "edge_inputs_for_run run_id d = filter (\<lambda>r. ei_run r = run_id) (db_edges d)"

section \<open>Recoveries of sources\<close>

definition optional_str :: "pyval \<Rightarrow> string option" where
  "optional_str v = (if is_none v \<or> py_str v = [] then None else Some (py_str v))"

definition int_value :: "pyval \<Rightarrow> int" where
  "int_value v = (case v of PInt i \<Rightarrow> i | _ \<Rightarrow> 0)"

definition recovered :: "(string, pyval) dict \<Rightarrow> source_recovery \<Rightarrow> source_recovery" where
  "recovered s r = (let st = str_or (aget s ''recovery_status'') (rv_status r) in
     r\<lparr>rv_status := st, rv_attempts := int_value (aget s ''attempt_count''),
       rv_reason := optional_str (aget s ''recoverable_reason''),
       rv_failure := optional_str (aget s ''latest_failure_reason''),
       rv_escalated := (truthy (aget s ''escalated'') \<or> st = ''escalated''),
       rv_escalation := optional_str (aget s ''escalation_reason'')\<rparr>)"

definition of_source :: "string \<Rightarrow> string \<Rightarrow> string \<Rightarrow> source_recovery \<Rightarrow> bool" where
  "of_source run_id n src r = (rv_run r = run_id \<and> rv_node r = n \<and> rv_source r = src)"

definition upsert_source_recovery :: "draws \<Rightarrow> string \<Rightarrow> string \<Rightarrow> string \<Rightarrow> (string, pyval) dict \<Rightarrow> db \<Rightarrow> source_recovery \<times> db" where
  "upsert_source_recovery w run_id n src s d = (case first_of (of_source run_id n src) (db_recoveries d) of
     None \<Rightarrow> (let (now, d') = draw_now w d; r = recovered s \<lparr>rv_run = run_id, rv_node = n, rv_source = src,
         rv_status = str_or (aget s ''recovery_status'') ''none'', rv_attempts = 0, rv_reason = None, rv_failure = None,
         rv_escalated = False, rv_escalation = None, rv_created = now\<rparr> in (r, d'\<lparr>db_recoveries := db_recoveries d' @ [r]\<rparr>))
   | Some r \<Rightarrow> (recovered s r, d\<lparr>db_recoveries := update_first (of_source run_id n src) (recovered s) (db_recoveries d)\<rparr>))"

definition source_recoveries :: "string option \<Rightarrow> nat \<Rightarrow> string list option \<Rightarrow> db \<Rightarrow> source_recovery list" where
  "source_recoveries src n names d = take n (newest_last rv_created (filter (\<lambda>r. case src of
       Some s \<Rightarrow> rv_source r = s | None \<Rightarrow> if_given names (\<lambda>ns. rv_source r \<in> set ns)) (db_recoveries d)))"

definition opt_text :: "string option \<Rightarrow> pyval" where
  "opt_text x = (case x of None \<Rightarrow> PNone | Some s \<Rightarrow> PStr s)"

definition iso_time :: "draws \<Rightarrow> int option \<Rightarrow> pyval" where
  "iso_time w t = (case t of None \<Rightarrow> PNone | Some x \<Rightarrow> PStr (dw_iso w x))"

definition source_recovery_dict :: "draws \<Rightarrow> source_recovery \<Rightarrow> (string, pyval) dict" where
  "source_recovery_dict w r = [(''run_id'', PStr (rv_run r)), (''node_id'', PStr (rv_node r)), (''source_name'', PStr (rv_source r)),
     (''recovery_status'', PStr (rv_status r)), (''attempt_count'', PInt (rv_attempts r)),
     (''recoverable_reason'', opt_text (rv_reason r)), (''latest_failure_reason'', opt_text (rv_failure r)),
     (''escalated'', PBool (rv_escalated r)), (''escalation_reason'', opt_text (rv_escalation r)),
     (''created_at'', PStr (dw_iso w (rv_created r)))]"

definition source_log_dict :: "draws \<Rightarrow> node_run \<Rightarrow> dag_run \<Rightarrow> (string, pyval) dict" where
  "source_log_dict w n r = [(''source_name'', PStr (nx_node n)), (''run_id'', PStr (nx_run n)), (''dag_name'', PStr (dr_dag r)),
     (''node_id'', PStr (nx_node n)), (''status'', PStr (nx_status n)), (''dag_status'', PStr (dr_status r)),
     (''started_at'', iso_time w (nx_started n)), (''ended_at'', iso_time w (nx_ended n)), (''error'', opt_text (nx_error n))]"

definition source_recovery_log_dict :: "draws \<Rightarrow> source_recovery \<Rightarrow> (string, pyval) dict" where
  "source_recovery_log_dict w r = [(''source_name'', PStr (rv_source r)), (''run_id'', PStr (rv_run r)), (''dag_name'', PNone),
     (''node_id'', PStr (rv_node r)), (''status'', PStr (if rv_escalated r then ''failed'' else ''succeeded'')),
     (''dag_status'', PNone), (''started_at'', PStr (dw_iso w (rv_created r))), (''ended_at'', PStr (dw_iso w (rv_created r))),
     (''error'', opt_text (rv_failure r)), (''recovery'', PDict (source_recovery_dict w r))]"

definition source_log_time :: "(string, pyval) dict \<Rightarrow> string" where
  "source_log_time l = str_or (aget l ''started_at'') (str_or (aget l ''ended_at'') [])"

text \<open>\<open>logs.sort(key, reverse=True)\<close> is stable: equal keys keep their order.\<close>

definition node_runs_joined :: "(node_run \<Rightarrow> bool) \<Rightarrow> nat \<Rightarrow> db \<Rightarrow> (node_run \<times> dag_run) list" where
  "node_runs_joined P n d = take n (newest_last (\<lambda>p. nx_started (fst p))
     (concat (map (\<lambda>x. map (Pair x) (filter (\<lambda>r. dr_run r = nx_run x) (db_runs d))) (filter P (db_nodes d)))))"

definition source_execution_logs :: "draws \<Rightarrow> string option \<Rightarrow> nat \<Rightarrow> string list option \<Rightarrow> db \<Rightarrow> (string, pyval) dict list" where
  "source_execution_logs w src n names d =
     (let allowed = (case names of None \<Rightarrow> [] | Some ns \<Rightarrow> ns);
          logs = map (source_recovery_log_dict w) (source_recoveries src n names d) in
      if src \<noteq> None \<and> names \<noteq> None \<and> the src \<notin> set allowed then []
      else if src = None \<and> allowed = [] then take n logs
      else (let P = (case src of Some s \<Rightarrow> if s \<noteq> [] then (\<lambda>x. nx_node x = s) else (\<lambda>x. nx_node x \<in> set allowed)
                     | None \<Rightarrow> (\<lambda>x. nx_node x \<in> set allowed)) in
        take n (newest source_log_time (logs @ map (\<lambda>(x, r). source_log_dict w x r) (node_runs_joined P n d)))))"

definition source_health :: "draws \<Rightarrow> nat \<Rightarrow> db \<Rightarrow> string \<Rightarrow> (string, pyval) dict" where
  "source_health w window d src =
     (let latest_recovery = first_of (\<lambda>_. True) (source_recoveries (Some src) 1 None d);
          runs = take window (newest_last nx_started (filter (\<lambda>x. nx_node x = src) (db_nodes d)));
          finished = filter (\<lambda>x. nx_status x \<in> {''succeeded'', ''failed''}) runs;
          good = length (filter (\<lambda>x. nx_status x = ''succeeded'') finished);
          latest = first_of (\<lambda>_. True) runs;
          failed = first_of (\<lambda>x. nx_status x = ''failed'' \<and> nx_error x \<noteq> None \<and> nx_error x \<noteq> Some []) runs;
          reason0 = (case latest_recovery of None \<Rightarrow> None | Some r \<Rightarrow> rv_failure r);
          reason = (if reason0 = None \<or> reason0 = Some [] then (case failed of Some x \<Rightarrow> nx_error x | None \<Rightarrow> reason0) else reason0);
          rate = (of_nat good / of_nat (length finished) :: rat) in
      [(''source_name'', PStr src),
       (''latest_status'', PStr (case latest of None \<Rightarrow> ''unknown'' | Some x \<Rightarrow> nx_status x)),
       (''run_id'', (case latest of None \<Rightarrow> PNone | Some x \<Rightarrow> PStr (nx_run x))),
       (''latest_run_at'', (case latest of None \<Rightarrow> PNone | Some x \<Rightarrow> iso_time w (nx_started x))),
       (''success_rate'', (if finished = [] then PNone else PFloat rate (dw_float w rate))),
       (''window_size'', PInt (int (length finished))),
       (''latest_failure_reason'', opt_text reason),
       (''recovery_status'', PStr (case latest_recovery of None \<Rightarrow> ''none'' | Some r \<Rightarrow> rv_status r)),
       (''recovery'', (case latest_recovery of None \<Rightarrow> PNone | Some r \<Rightarrow> PDict (source_recovery_dict w r)))])"

definition source_health_summary :: "draws \<Rightarrow> string list \<Rightarrow> nat \<Rightarrow> db \<Rightarrow> (string, pyval) dict list" where
  "source_health_summary w srcs window d = map (source_health w window d) srcs"

section \<open>Briefings and advices\<close>

definition node_outputs :: "string \<Rightarrow> nat \<Rightarrow> db \<Rightarrow> entity list" where
  "node_outputs ty n d = map node_output_to_entity (take n (newest ou_created (filter (\<lambda>r. ou_type r = ty) (db_outputs d))))"

definition node_output_by_entity_id :: "string \<Rightarrow> string \<Rightarrow> db \<Rightarrow> entity option" where
  "node_output_by_entity_id ty i d = map_option node_output_to_entity (first_of (\<lambda>r. ou_type r = ty \<and> ou_id r = i) (db_outputs d))"

text \<open>\<open>datetime.fromisoformat\<close> of the attribute \<open>created_at\<close> is a parameter.\<close>

definition created_at :: "(string \<Rightarrow> int option) \<Rightarrow> entity \<Rightarrow> int option" where
  "created_at parse e = (case aget (en_attrs e) ''created_at'' of PStr s \<Rightarrow> parse s | _ \<Rightarrow> None)"

definition in_window :: "int option \<Rightarrow> int option \<Rightarrow> int option \<Rightarrow> bool" where
  "in_window v lo hi = (case v of None \<Rightarrow> True | Some x \<Rightarrow> \<not> (case lo of None \<Rightarrow> False | Some a \<Rightarrow> x < a)
     \<and> \<not> (case hi of None \<Rightarrow> False | Some b \<Rightarrow> b < x))"

definition latest_briefing :: "db \<Rightarrow> entity option" where
  "latest_briefing d = first_of (\<lambda>_. True) (node_outputs ''briefing'' 1 d)"

definition list_briefings :: "(string \<Rightarrow> int option) \<Rightarrow> int option \<Rightarrow> int option \<Rightarrow> nat \<Rightarrow> db \<Rightarrow> entity list" where
  "list_briefings parse lo hi n d = filter (\<lambda>e. in_window (created_at parse e) lo hi) (node_outputs ''briefing'' n d)"

definition get_briefing :: "string \<Rightarrow> db \<Rightarrow> entity option" where
  "get_briefing i = node_output_by_entity_id ''briefing'' i"

definition list_advices :: "(string \<Rightarrow> int option) \<Rightarrow> nat \<Rightarrow> string option \<Rightarrow> string option \<Rightarrow> int option \<Rightarrow> int option \<Rightarrow> db \<Rightarrow> entity list" where
  "list_advices parse n code direction lo hi d = filter (\<lambda>e.
     if_given code (\<lambda>x. aget (en_attrs e) ''stock_code'' = PStr x) \<and> if_given direction (\<lambda>x. aget (en_attrs e) ''direction'' = PStr x)
     \<and> in_window (created_at parse e) lo hi) (node_outputs ''advice'' n d)"

definition get_advice :: "string \<Rightarrow> db \<Rightarrow> entity option" where
  "get_advice i = node_output_by_entity_id ''advice'' i"

definition analyses_for_advice :: "entity \<Rightarrow> db \<Rightarrow> entity list" where
  "analyses_for_advice a d = (case aget (en_attrs a) ''source_urls'' of
     PList urls \<Rightarrow> filter (\<lambda>e. str_or (aget (en_attrs e) ''source_url'') [] \<in> py_str ` set urls) (node_outputs ''analysis'' 100 d)
   | _ \<Rightarrow> [])"

definition raw_items_for_analyses :: "entity list \<Rightarrow> db \<Rightarrow> entity list" where
  "raw_items_for_analyses es d = filter (\<lambda>e. str_or (aget (en_attrs e) ''url'') []
     \<in> (\<lambda>x. str_or (aget (en_attrs x) ''source_url'') []) ` set es) (node_outputs ''raw-item'' 100 d)"

section \<open>Index of logs\<close>

definition record_log_index :: "draws \<Rightarrow> string \<Rightarrow> string \<Rightarrow> string \<Rightarrow> string \<Rightarrow> int \<Rightarrow> string \<Rightarrow> db \<Rightarrow> log_row \<times> db" where
  "record_log_index w run_id n path digest sz kind d = (let (now, d') = draw_now w d;
     r = \<lparr>lg_run = run_id, lg_node = n, lg_kind = kind, lg_path = path, lg_digest = digest, lg_size = sz, lg_created = now\<rparr> in
     (r, d'\<lparr>db_logs := db_logs d' @ [r]\<rparr>))"

definition query_log_index :: "string option \<Rightarrow> string option \<Rightarrow> nat \<Rightarrow> db \<Rightarrow> log_row list" where
  "query_log_index run_id n m d = take m (newest lg_created (filter (\<lambda>r. if_given run_id (\<lambda>x. lg_run r = x)
     \<and> if_given n (\<lambda>x. lg_node r = x)) (db_logs d)))"

section \<open>First rows\<close>

lemma first_of_None: "first_of P rs = None \<longleftrightarrow> (\<forall>r \<in> set rs. \<not> P r)"
  by (simp add: first_of_def filter_empty_conv [symmetric] split: list.splits)

lemma first_of_Cons: "first_of P (r # rs) = (if P r then Some r else first_of P rs)"
  by (simp add: first_of_def)

lemma first_of_Some: "first_of P rs = Some r \<Longrightarrow> r \<in> set rs \<and> P r"
  by (induction rs) (auto simp: first_of_Cons first_of_def split: if_splits)

lemma first_of_append: "first_of P (rs @ ss) = (case first_of P rs of None \<Rightarrow> first_of P ss | Some r \<Rightarrow> Some r)"
  by (induction rs) (simp_all add: first_of_Cons, simp add: first_of_def)

lemma update_first_map: "(\<And>r. k (f r) = k r) \<Longrightarrow> map k (update_first P f rs) = map k rs"
  by (induction rs) auto

lemma update_first_None: "first_of P rs = None \<Longrightarrow> update_first P f rs = rs"
  by (induction rs) (auto simp: first_of_Cons split: if_splits)

lemma first_of_update: "(\<And>r. P (f r) = P r) \<Longrightarrow> first_of P (update_first P f rs) = map_option f (first_of P rs)"
  by (induction rs) (auto simp: first_of_Cons first_of_def)

lemma update_first_set: "r \<in> set (update_first P f rs) \<Longrightarrow> r \<in> set rs \<or> (\<exists>x \<in> set rs. P x \<and> r = f x)"
  by (induction rs) (auto split: if_splits)

lemma newest_mset [simp]: "set (newest f rs) = set rs"
  by (simp add: newest_def)

end
