(* ===== verification/Controller.thy ===== *)
theory Controller
  imports Closure RunStore Runner
begin

text \<open>
  The controller of the daemon (\<open>dag_controller.py\<close>): which runs may start, what a retry reuses of an earlier run, how
  the task of a run begins and ends, and the rows it leaves in the database. The pure functions come first, then
  the state of the controller and its transitions. The runtime snapshot (system configuration, triggers) does not
  change what a run does here and is left out; the configurations stored in the database are two dictionaries.
\<close>

section \<open>Pure functions\<close>

definition result_status :: "(string, node_output) dict \<Rightarrow> string" where
  "result_status outs = (if outs \<noteq> [] \<and> \<not> list_all (\<lambda>o'. \<not> no_ok o') (dvalues outs) then ''succeeded'' else ''failed'')"

lemma succs_of_missing: "n \<notin> set (dkeys (dg_edges g)) \<Longrightarrow> succs g n = []"
  by (auto simp: succs_def dget_default_def split: option.splits dest: map_of_SomeD intro: rev_image_eqI)

text \<open>\<open>_downstream_nodes\<close>: the stack with its top first; \<open>extend\<close> puts the last successor on top.\<close>

function downstream :: "dag_graph \<Rightarrow> string list \<Rightarrow> string set \<Rightarrow> string set" where
  "downstream g [] found = found"
| "downstream g (n # stack) found = (if n \<in> found then downstream g stack found
     else downstream g (rev (succs g n) @ stack) (insert n found))"
  by pat_completeness auto

termination
proof (relation "inv_image (less_than <*lex*> less_than)
    (\<lambda>(g, st, found). (card (set (dkeys (dg_edges g)) - found), length st))", goal_cases)
  case 1
  show ?case by (intro wf_inv_image wf_lex_prod wf_less_than)
next
  case (2 g n stack found)
  then show ?case by simp
next
  case (3 g n stack found)
  show ?case
  proof (cases "n \<in> set (dkeys (dg_edges g))")
    case True
    then have "card (set (dkeys (dg_edges g)) - insert n found) < card (set (dkeys (dg_edges g)) - found)"
      using 3 by (intro psubset_card_mono) auto
    then show ?thesis by simp
  next
    case False
    then have "set (dkeys (dg_edges g)) - insert n found = set (dkeys (dg_edges g)) - found" by auto
    then show ?thesis using succs_of_missing [OF False] by simp
  qed
qed

definition downstream_nodes :: "dag_graph \<Rightarrow> string \<Rightarrow> string set" where
  "downstream_nodes g n = downstream g [n] {}"

definition downstream_union :: "dag_graph \<Rightarrow> string list \<Rightarrow> string set" where
  "downstream_union g ns = \<Union> (downstream_nodes g ` set ns)"

definition missing_prefilled_inputs :: "dag_graph \<Rightarrow> string set \<Rightarrow> string set \<Rightarrow> string set \<Rightarrow> string list" where
  "missing_prefilled_inputs g retry prefilled allowed = sort (remdups (concat (map (\<lambda>n.
     if n \<in> retry then filter (\<lambda>u. u \<notin> retry \<and> u \<notin> prefilled \<and> u \<notin> allowed) (preds g n) else []) (dkeys (dg_reverse g)))))"

definition graph_ordered_nodes :: "dag_graph \<Rightarrow> string set \<Rightarrow> string list" where
  "graph_ordered_nodes g ns = filter (\<lambda>n. n \<in> ns) (dg_nodes g)"

definition dag_has_node :: "dag_cfg option \<Rightarrow> string \<Rightarrow> bool" where
  "dag_has_node c n = (case c of None \<Rightarrow> False
     | Some d \<Rightarrow> list_ex (\<lambda>i. ni_id i = n \<or> ni_alias i = Some n) (dc_nodes d))"

definition wait_for_idle_target :: "dag_cfg option \<Rightarrow> pyval \<Rightarrow> string option" where
  "wait_for_idle_target c inputs = (case c of None \<Rightarrow> None
     | Some d \<Rightarrow> (case aget (dc_ui d) ''wait_for'' of
         PDict wait \<Rightarrow> if \<not> py_eq (aget wait ''status'') (PStr ''idle'') then None
           else (let target = (case (aget wait ''node'', inputs) of
                     (PStr s, PDict ins) \<Rightarrow> if s = ''$payload.target'' then aget ins ''target'' else PStr s
                   | (t, _) \<Rightarrow> t) in
             (case target of PStr t \<Rightarrow> if t = [] then None else Some t | _ \<Rightarrow> None))
       | _ \<Rightarrow> None))"

definition quoted :: "string \<Rightarrow> string" where
  "quoted s = [CHR 0x27] @ s @ [CHR 0x27]"

definition target_error :: err where
  "target_error = ValueError (''node trigger target must be '' @ quoted ''<dag_name>/<node_id>'')"

definition parse_node_trigger_target :: "string \<Rightarrow> (string \<times> string) res" where
  "parse_node_trigger_target t = (case split_once (CHR ''/'') t of
     [dag, node] \<Rightarrow> if dag = [] \<or> node = [] then Inl target_error else Inr (dag, node)
   | _ \<Rightarrow> Inl target_error)"

definition instance_refs :: "node_inst \<Rightarrow> string list" where
  "instance_refs i = (case ni_resource i of Some r \<Rightarrow> if r = [] then [] else [r] | None \<Rightarrow> [])
     @ (case aget (ni_config i) ''entities'' of PList xs \<Rightarrow> map py_str xs | _ \<Rightarrow> [])
     @ (case aget (ni_config i) ''source'' of PStr s \<Rightarrow> [s] | _ \<Rightarrow> [])"

definition run_entity_refs :: "node_inst list \<Rightarrow> string list" where
  "run_entity_refs is' = dedupe_by (\<lambda>x. x) [] (concat (map instance_refs is'))"

definition safe_path_token :: "string \<Rightarrow> string" where
  "safe_path_token v = (let c = map (\<lambda>x. if is_alnum x \<or> x \<in> {CHR ''-'', CHR ''_'', CHR ''.''} then x else CHR ''_'') v in
     if c = [] then ''default'' else c)"

text \<open>\<open>_daemon_database_url\<close>; whether a path is absolute and \<open>data_dir / path\<close> are those of \<open>pathlib\<close>.\<close>

definition daemon_database_url :: "(string \<Rightarrow> bool) \<Rightarrow> (string \<Rightarrow> string) \<Rightarrow> string \<Rightarrow> bool \<Rightarrow> string" where
  "daemon_database_url absolute join_dir url has_dir = (let prefix = ''sqlite+aiosqlite:///'' in
     if \<not> has_dir \<or> \<not> starts_with url prefix then url
     else (let path = removeprefix url prefix in
       if path = [] \<or> path = '':memory:'' \<or> absolute path then url else prefix @ join_dir path))"

record scheduler =
  sd_running :: bool
  sd_state :: nat

definition scheduler_start :: "scheduler \<Rightarrow> scheduler" where
  "scheduler_start s = s\<lparr>sd_running := True, sd_state := 1\<rparr>"

definition scheduler_shutdown :: "scheduler \<Rightarrow> scheduler" where
  "scheduler_shutdown s = s\<lparr>sd_running := False, sd_state := 0\<rparr>"

definition scheduler_pause :: "scheduler \<Rightarrow> scheduler" where
  "scheduler_pause s = s\<lparr>sd_state := 2\<rparr>"

definition scheduler_resume :: "scheduler \<Rightarrow> scheduler" where
  "scheduler_resume s = s\<lparr>sd_state := 1\<rparr>"

section \<open>Outputs of an earlier run\<close>

definition payloads_of :: "dag_graph \<Rightarrow> string set \<Rightarrow> entity list \<Rightarrow> (string, pyval list) dict" where
  "payloads_of g retry es = fold (\<lambda>e d. let n = str_or (aget (en_attrs e) ''node_id'') [] in
     if dhas (dg_instances g) n \<and> n \<notin> retry then dappend d n (aget (en_attrs e) ''payload'') else d) es []"

definition restored_payload :: "pyval list \<Rightarrow> pyval" where
  "restored_payload vs = (case vs of [v] \<Rightarrow> v | _ \<Rightarrow> PList (rev vs))"

definition restored_output :: "string \<Rightarrow> pyval list \<Rightarrow> node_output" where
  "restored_output n vs = \<lparr>no_name = n, no_ok = True, no_payload = restored_payload vs, no_metadata = [], no_error = None\<rparr>"

definition failed_output :: "edge_input \<Rightarrow> node_output" where
  "failed_output f = \<lparr>no_name = ei_from f, no_ok = False, no_payload = PNone,
     no_metadata = [(''runtime_status'', PStr (ei_status f))], no_error = ei_error f\<rparr>"

definition add_failed :: "dag_graph \<Rightarrow> string set \<Rightarrow> edge_input \<Rightarrow> (string, node_output) dict \<Rightarrow> (string, node_output) dict" where
  "add_failed g retry f d = (if dhas (dg_instances g) (ei_from f) \<and> ei_from f \<notin> retry \<and> \<not> dhas d (ei_from f)
     then dset d (ei_from f) (failed_output f) else d)"

definition prefilled_outputs :: "string \<Rightarrow> dag_graph \<Rightarrow> string set \<Rightarrow> db \<Rightarrow> (string, node_output) dict res" where
  "prefilled_outputs run_id g retry d = (case get_dag_run run_id d of None \<Rightarrow> Inl (DagRunNotFound run_id)
     | Some _ \<Rightarrow> Inr (fold (add_failed g retry) (edge_inputs_for_run run_id d)
         (map (\<lambda>(n, vs). (n, restored_output n vs))
           (payloads_of g retry (query_node_output_entities None (Some run_id) None None 10000 d)))))"

section \<open>The state of the controller\<close>

text \<open>\<open>Opened\<close>: the row of the run has been committed, the \<open>try\<close> of \<open>_run\<close> not been entered.\<close>

datatype task_phase = Spawned | Opened | Running | Ended "err option"

record run_task =
  ta_run :: string
  ta_dag :: string
  ta_source :: string
  ta_closure :: "dag_closure option"
  ta_single :: "node_inst option"
  ta_retry_of :: "string option"
  ta_retry :: "string set option"
  ta_prefilled :: "(string, node_output) dict"
  ta_inputs :: run_inputs
  ta_replace :: bool
  ta_stop :: bool
  ta_phase :: task_phase

text \<open>A task is known by its position; \<open>active_runs\<close> maps the name of a DAG to one. A lock that is held is an entry of
  \<open>ct_locks\<close>; it tells whether the holder has already seen that no run of the DAG is active.\<close>

record ctrl =
  ct_tasks :: "run_task list"
  ct_active :: "(string, nat) dict"
  ct_locks :: "(string, bool) dict"
  ct_db :: db
  ct_dags :: "(string, dag_cfg) dict"
  ct_nodes :: "(string, node_cfg) dict"
  ct_draws :: nat
  ct_published :: "(string \<times> string) list"

definition task_done :: "run_task \<Rightarrow> bool" where
  "task_done t = (case ta_phase t of Ended _ \<Rightarrow> True | _ \<Rightarrow> False)"

definition busy :: "ctrl \<Rightarrow> string \<Rightarrow> nat option" where
  "busy ct dag = (case dget (ct_active ct) dag of None \<Rightarrow> None
     | Some i \<Rightarrow> if task_done (ct_tasks ct ! i) then None else Some i)"

definition already_active :: "ctrl \<Rightarrow> nat \<Rightarrow> err" where
  "already_active ct i = RunAlreadyActive (ta_run (ct_tasks ct ! i))"

definition spawn :: "run_task \<Rightarrow> ctrl \<Rightarrow> ctrl" where
  "spawn t ct = ct\<lparr>ct_tasks := ct_tasks ct @ [t], ct_active := dset (ct_active ct) (ta_dag t) (length (ct_tasks ct))\<rparr>"

definition new_run_id :: "draws \<Rightarrow> ctrl \<Rightarrow> string \<times> ctrl" where
  "new_run_id w ct = (dw_uuid w (ct_draws ct), ct\<lparr>ct_draws := Suc (ct_draws ct)\<rparr>)"

definition active_dag_has_node :: "ctrl \<Rightarrow> string \<Rightarrow> bool" where
  "active_dag_has_node ct n = list_ex (\<lambda>(dag, i). \<not> task_done (ct_tasks ct ! i) \<and> dag_has_node (dget (ct_dags ct) dag) n) (ct_active ct)"

text \<open>The condition \<open>_wait_for_idle\<close> waits for, at one of its looks.\<close>

definition idle :: "ctrl \<Rightarrow> string \<Rightarrow> pyval \<Rightarrow> bool" where
  "idle ct dag inputs = (case wait_for_idle_target (dget (ct_dags ct) dag) inputs of None \<Rightarrow> True
     | Some n \<Rightarrow> \<not> active_dag_has_node ct n)"

section \<open>Starting runs\<close>

definition start_run_locked :: "draws \<Rightarrow> string \<Rightarrow> string \<Rightarrow> run_inputs \<Rightarrow> ctrl \<Rightarrow> (string \<times> ctrl) res" where
  "start_run_locked w source dag inputs ct = (case busy ct dag of
     Some i \<Rightarrow> Inl (already_active ct i)
   | None \<Rightarrow> (let (run_id, ct') = new_run_id w ct in
       Inr (run_id, spawn \<lparr>ta_run = run_id, ta_dag = dag, ta_source = source, ta_closure = None, ta_single = None,
         ta_retry_of = None, ta_retry = None, ta_prefilled = [], ta_inputs = inputs, ta_replace = False, ta_stop = False,
         ta_phase = Spawned\<rparr> ct')))"

definition node_trigger_target :: "string \<Rightarrow> string \<Rightarrow> ctrl \<Rightarrow> (dag_closure \<times> node_inst) res" where
  "node_trigger_target dag n ct = rbind (load_closure dag (ct_dags ct) (ct_nodes ct)) (\<lambda>c.
     rbind (lookup_key (cl_dags c) dag) (\<lambda>d. case first_of (\<lambda>i. ni_id i = n \<or> ni_alias i = Some n) (dc_nodes d) of
       Some i \<Rightarrow> Inr (c, i)
     | None \<Rightarrow> Inl (ValueError (''node '' @ quoted n @ '' not found in DAG '' @ quoted dag))))"

definition run_node_trigger :: "draws \<Rightarrow> string \<Rightarrow> string \<Rightarrow> string \<Rightarrow> pyval \<Rightarrow> bool \<Rightarrow> ctrl \<Rightarrow> (string \<times> ctrl) res" where
  "run_node_trigger w source dag n payload app ct = rbind (node_trigger_target dag n ct) (\<lambda>(c, i).
     case busy ct dag of Some j \<Rightarrow> Inl (already_active ct j)
     | None \<Rightarrow> (let (run_id, ct') = new_run_id w ct in
         Inr (run_id, spawn \<lparr>ta_run = run_id, ta_dag = dag, ta_source = source, ta_closure = Some c, ta_single = Some i,
           ta_retry_of = None, ta_retry = None, ta_prefilled = [],
           ta_inputs = \<lparr>ri_shared = PNone, ri_nodes = (if is_none payload then [] else [(ni_id i, payload)]),
             ri_append = (if app then {ni_id i} else {})\<rparr>,
           ta_replace = False, ta_stop = False, ta_phase = Spawned\<rparr> ct')))"

definition closure_graph :: "dag_closure \<Rightarrow> dag_graph res" where
  "closure_graph c = rbind (lookup_key (cl_dags c) (cl_root c)) (\<lambda>d. load_graph d (cl_nodes c) (Some (cl_dags c)))"

record retry_plan =
  rp_closure :: dag_closure
  rp_graph :: dag_graph
  rp_original :: string
  rp_nodes :: "string set"
  rp_prefilled :: "(string, node_output) dict"

definition check_retry_request :: "string list \<Rightarrow> string \<Rightarrow> unit res" where
  "check_retry_request node_ids mode = (if mode \<notin> {''single'', ''cascade''} then Inl (ValueError ''mode must be single or cascade'')
     else if node_ids = [] then Inl (ValueError ''node_ids is required'') else Inr ())"

definition original_run :: "string option \<Rightarrow> string \<Rightarrow> db \<Rightarrow> string res" where
  "original_run run_id dag d = (case (case run_id of Some r \<Rightarrow> if r = [] then None else Some r | None \<Rightarrow> None) of
     Some r \<Rightarrow> Inr r
   | None \<Rightarrow> (case latest_finished_dag_run dag d of Some r \<Rightarrow> Inr (dr_run r) | None \<Rightarrow> Inl (DagRunNotFound ''latest finished run'')))"

definition retry_node_plan :: "string \<Rightarrow> string option \<Rightarrow> string list \<Rightarrow> string \<Rightarrow> ctrl \<Rightarrow> retry_plan res" where
  "retry_node_plan dag run_id node_ids mode ct = rbind (load_closure dag (ct_dags ct) (ct_nodes ct)) (\<lambda>c.
     rbind (closure_graph c) (\<lambda>g.
     let missing = filter (\<lambda>n. \<not> dhas (dg_instances g) n) node_ids;
         retry = (if mode = ''single'' then set node_ids else downstream_union g node_ids) in
     if missing \<noteq> [] then Inl (ValueError (''node_ids contain unknown nodes: '' @ join '', '' missing))
     else rbind (original_run run_id dag (ct_db ct)) (\<lambda>orig.
       rbind (prefilled_outputs orig g retry (ct_db ct)) (\<lambda>pre.
       let absent = missing_prefilled_inputs g retry (set (dkeys pre)) {} in
       if absent \<noteq> [] then Inl (ValueError (''missing prefilled outputs: '' @ join '', '' absent))
       else Inr \<lparr>rp_closure = c, rp_graph = g, rp_original = orig, rp_nodes = retry, rp_prefilled = pre\<rparr>))))"

definition retry_task :: "string \<Rightarrow> string \<Rightarrow> string option \<Rightarrow> bool \<Rightarrow> run_inputs \<Rightarrow> retry_plan \<Rightarrow> run_task" where
  "retry_task run_id dag retry_of replace inputs p = \<lparr>ta_run = run_id, ta_dag = dag, ta_source = ''retry'',
     ta_closure = Some (rp_closure p), ta_single = None, ta_retry_of = retry_of, ta_retry = Some (rp_nodes p),
     ta_prefilled = rp_prefilled p, ta_inputs = inputs, ta_replace = replace, ta_stop = False, ta_phase = Spawned\<rparr>"

text \<open>What \<open>retry_node\<close> does under the lock after it has seen that no run of the DAG is active.\<close>

definition retry_locked :: "draws \<Rightarrow> string \<Rightarrow> string option \<Rightarrow> string list \<Rightarrow> string \<Rightarrow> run_inputs \<Rightarrow> ctrl \<Rightarrow> ((string \<times> string list) \<times> ctrl) res" where
  "retry_locked w dag run_id node_ids mode inputs ct = rbind (retry_node_plan dag run_id node_ids mode ct) (\<lambda>p.
     let (new_id, ct') = new_run_id w ct in
     Inr ((new_id, graph_ordered_nodes (rp_graph p) (rp_nodes p)),
       spawn (retry_task new_id dag (Some (rp_original p)) False inputs p) ct'))"

text \<open>The whole of \<open>retry_node\<close> when no other task gets in between.\<close>

definition retry_node :: "draws \<Rightarrow> string \<Rightarrow> string option \<Rightarrow> string list \<Rightarrow> string \<Rightarrow> run_inputs \<Rightarrow> ctrl \<Rightarrow> ((string \<times> string list) \<times> ctrl) res" where
  "retry_node w dag run_id node_ids mode inputs ct = rbind (check_retry_request node_ids mode) (\<lambda>_.
     case busy ct dag of Some i \<Rightarrow> Inl (already_active ct i) | None \<Rightarrow> retry_locked w dag run_id node_ids mode inputs ct)"

definition resume_node_plan :: "string \<Rightarrow> string \<Rightarrow> string \<Rightarrow> ctrl \<Rightarrow> (retry_plan \<times> dag_run) res" where
  "resume_node_plan dag run_id n ct = rbind (load_closure dag (ct_dags ct) (ct_nodes ct)) (\<lambda>c.
     rbind (closure_graph c) (\<lambda>g.
     if \<not> dhas (dg_instances g) n then Inl (ValueError (''node '' @ quoted n @ '' not found''))
     else (case get_dag_run run_id (ct_db ct) of None \<Rightarrow> Inl (DagRunNotFound run_id)
       | Some orig \<Rightarrow> rbind (prefilled_outputs run_id g (downstream_nodes g n) (ct_db ct)) (\<lambda>pre.
           Inr (\<lparr>rp_closure = c, rp_graph = g, rp_original = run_id, rp_nodes = downstream_nodes g n, rp_prefilled = pre\<rparr>, orig)))))"

definition resume_locked :: "string \<Rightarrow> string \<Rightarrow> string \<Rightarrow> pyval \<Rightarrow> ctrl \<Rightarrow> (string \<times> ctrl) res" where
  "resume_locked dag run_id n payload ct = rbind (resume_node_plan dag run_id n ct) (\<lambda>(p, orig).
     Inr (run_id, spawn (retry_task run_id dag (dr_retry_of orig) True
         \<lparr>ri_shared = PNone, ri_nodes = (if is_none payload then [] else [(n, payload)]), ri_append = {}\<rparr> p)
       (ct\<lparr>ct_db := delete_node_outputs_for_nodes run_id (rp_nodes p) (ct_db ct)\<rparr>)))"

definition resume_node :: "string \<Rightarrow> string \<Rightarrow> string \<Rightarrow> pyval \<Rightarrow> ctrl \<Rightarrow> (string \<times> ctrl) res" where
  "resume_node dag run_id n payload ct = (case busy ct dag of Some i \<Rightarrow> Inl (already_active ct i)
   | None \<Rightarrow> resume_locked dag run_id n payload ct)"

section \<open>The task of a run\<close>

text \<open>\<open>_run\<close> and \<open>_run_single_node\<close> up to the start of the runner: the nodes of the new row, or the error that ends the
  task before it has a row. The runner itself is the subject of the theories on runs.\<close>

definition task_nodes :: "run_task \<Rightarrow> ctrl \<Rightarrow> string list res" where
  "task_nodes t ct = (case ta_single t of Some i \<Rightarrow> Inr [ni_id i]
     | None \<Rightarrow> rbind (case ta_closure t of Some c \<Rightarrow> Inr c | None \<Rightarrow> load_closure (ta_dag t) (ct_dags ct) (ct_nodes ct))
         (\<lambda>c. rbind (closure_graph c) (\<lambda>g. Inr (dg_nodes g))))"

definition task_row :: "draws \<Rightarrow> run_task \<Rightarrow> string list \<Rightarrow> db \<Rightarrow> db res" where
  "task_row w t nodes d = (if ta_replace t then Inr (snd (restart_dag_run (ta_run t) d))
     else rbind (create_dag_run w (ta_run t) (ta_source t) nodes (ta_dag t) (ta_retry_of t) d) (\<lambda>(_, d'). Inr d'))"

definition change_task :: "nat \<Rightarrow> (run_task \<Rightarrow> run_task) \<Rightarrow> ctrl \<Rightarrow> ctrl" where
  "change_task i f ct = ct\<lparr>ct_tasks := (ct_tasks ct)[i := f (ct_tasks ct ! i)]\<rparr>"

definition set_phase :: "nat \<Rightarrow> task_phase \<Rightarrow> ctrl \<Rightarrow> ctrl" where
  "set_phase i p = change_task i (\<lambda>t. t\<lparr>ta_phase := p\<rparr>)"

definition publish :: "string \<Rightarrow> string \<Rightarrow> ctrl \<Rightarrow> ctrl" where
  "publish run_id status ct = ct\<lparr>ct_published := ct_published ct @ [(run_id, status)]\<rparr>"

text \<open>The row is created (or set to \<open>running\<close> again) and committed; then the start is published and the \<open>try\<close> entered.\<close>

definition task_open :: "draws \<Rightarrow> nat \<Rightarrow> ctrl \<Rightarrow> ctrl" where
  "task_open w i ct = (let t = ct_tasks ct ! i in
     case rbind (task_nodes t ct) (\<lambda>ns. task_row w t ns (ct_db ct)) of
       Inl e \<Rightarrow> set_phase i (Ended (Some e)) ct
     | Inr d \<Rightarrow> set_phase i Opened (ct\<lparr>ct_db := d\<rparr>))"

definition task_enter :: "nat \<Rightarrow> ctrl \<Rightarrow> ctrl" where
  "task_enter i ct = publish (ta_run (ct_tasks ct ! i)) ''started'' (set_phase i Running ct)"

text \<open>The status and the error text of a run whose runner returned these outputs and failures.\<close>

definition in_retry :: "string set option \<Rightarrow> string \<Rightarrow> bool" where
  "in_retry retry n = (case retry of None \<Rightarrow> True | Some ns \<Rightarrow> n \<in> ns)"

definition run_status :: "run_task \<Rightarrow> (string, node_output) dict \<Rightarrow> string" where
  "run_status t outs = (if ta_stop t then ''cancelled'' else result_status (filter (\<lambda>(n, _). in_retry (ta_retry t) n) outs))"

definition run_error :: "run_task \<Rightarrow> (string, string) dict \<Rightarrow> string option" where
  "run_error t fails = (let fs = filter (\<lambda>(n, _). in_retry (ta_retry t) n) fails;
     text = join ''; '' (case ta_single t of None \<Rightarrow> map (\<lambda>(n, m). n @ '': '' @ m) fs | Some _ \<Rightarrow> map snd fs) in
     if text = [] then None else Some text)"

definition finish_task :: "draws \<Rightarrow> nat \<Rightarrow> string \<Rightarrow> string option \<Rightarrow> err option \<Rightarrow> ctrl \<Rightarrow> ctrl" where
  "finish_task w i status error e ct = (let r = ta_run (ct_tasks ct ! i) in
     publish r status (set_phase i (Ended e) (ct\<lparr>ct_db := snd (finish_dag_run w r status error (ct_db ct))\<rparr>)))"

definition task_end :: "draws \<Rightarrow> int \<Rightarrow> int \<Rightarrow> nat \<Rightarrow> (string, node_output) dict \<Rightarrow> (string, string) dict \<Rightarrow> ctrl \<Rightarrow> ctrl" where
  "task_end w keep hours i outs fails ct = (let t = ct_tasks ct ! i; status = run_status t outs;
     ct' = (if ta_retry t = None \<and> ta_single t = None \<and> status = ''succeeded''
            then ct\<lparr>ct_db := cleanup_node_output_entities w keep hours (ct_db ct)\<rparr> else ct) in
     finish_task w i status (run_error t fails) None ct')"

definition cancelled_error :: err where
  "cancelled_error = OtherError ''CancelledError''"

text \<open>\<open>_finish_failed\<close> and \<open>_finish_cancelled\<close>. A task that is cancelled before its first step has done nothing; one that is
  cancelled before it enters the \<open>try\<close> leaves the row it has created as it is.\<close>

definition task_fail :: "draws \<Rightarrow> nat \<Rightarrow> err \<Rightarrow> ctrl \<Rightarrow> ctrl" where
  "task_fail w i e = finish_task w i ''failed'' (Some (err_text e)) (Some e)"

definition task_cancel :: "draws \<Rightarrow> nat \<Rightarrow> ctrl \<Rightarrow> ctrl" where
  "task_cancel w i ct = (if ta_phase (ct_tasks ct ! i) \<in> {Spawned, Opened} then set_phase i (Ended (Some cancelled_error)) ct
     else finish_task w i ''cancelled'' None (Some cancelled_error) ct)"

definition clear_finished_task :: "nat \<Rightarrow> ctrl \<Rightarrow> ctrl" where
  "clear_finished_task i ct = (let t = ct_tasks ct ! i in
     if dget (ct_active ct) (ta_dag t) = Some i \<and> task_done t then ct\<lparr>ct_active := dpop (ct_active ct) (ta_dag t)\<rparr> else ct)"

text \<open>\<open>stop_current\<close> up to its wait for the task: without \<open>force\<close> it sets the stop event.\<close>

definition stop_current :: "draws \<Rightarrow> string \<Rightarrow> bool \<Rightarrow> ctrl \<Rightarrow> string option \<times> ctrl" where
  "stop_current w dag force ct = (case busy ct dag of None \<Rightarrow> (None, ct)
     | Some i \<Rightarrow> (Some (ta_run (ct_tasks ct ! i)),
         if force then task_cancel w i ct else change_task i (\<lambda>t. t\<lparr>ta_stop := True\<rparr>) ct))"

text \<open>What a running task writes through its recorders.\<close>

inductive recorded :: "draws \<Rightarrow> string set \<Rightarrow> db \<Rightarrow> db \<Rightarrow> bool" for w tops where
  node: "get_dag_run r d \<noteq> None \<Longrightarrow> recorded w tops d (snd (mark_node_run w r n status err kind meta d))"
| edge: "recorded w tops d (snd (upsert_edge_input w r u v opt status has err d))"
| outputs: "store_node_output_entities w r n ty p sid d = Inr (rs, d') \<Longrightarrow> recorded w tops d d'"
| raw_log: "recorded w tops d (snd (record_log_index w r n path digest sz kind d))"
| source: "recorded w tops d (snd (upsert_source_recovery w r n src s d))"
| child_end: "r \<notin> tops \<Longrightarrow> recorded w tops d (snd (finish_dag_run w r status err d))"

section \<open>What the controller answers\<close>

definition active_dag_for_node :: "ctrl \<Rightarrow> string \<Rightarrow> string option" where
  "active_dag_for_node ct n = map_option fst (first_of (\<lambda>(dag, i). \<not> task_done (ct_tasks ct ! i) \<and> dag_has_node (dget (ct_dags ct) dag) n) (ct_active ct))"

definition dag_for_run_node :: "ctrl \<Rightarrow> string \<Rightarrow> string \<Rightarrow> string option res" where
  "dag_for_run_node ct run_id n = (case get_dag_run run_id (ct_db ct) of None \<Rightarrow> Inl (DagRunNotFound run_id)
     | Some r \<Rightarrow> Inr (if dag_has_node (dget (ct_dags ct) (dr_dag r)) n then Some (dr_dag r) else None))"

definition status_active :: "ctrl \<Rightarrow> (string, string) dict" where
  "status_active ct = concat (map (\<lambda>(dag, i). if task_done (ct_tasks ct ! i) then [] else [(dag, ta_run (ct_tasks ct ! i))]) (ct_active ct))"

definition current_run_id :: "ctrl \<Rightarrow> string \<Rightarrow> string option" where
  "current_run_id ct dag = map_option (\<lambda>i. ta_run (ct_tasks ct ! i)) (busy ct dag)"

definition node_status :: "ctrl \<Rightarrow> string \<Rightarrow> string" where
  "node_status ct n = (if active_dag_has_node ct n then ''running''
     else if list_ex (\<lambda>d. dag_has_node (Some d) n
       \<and> (case recent_dag_runs 1 (Some (dc_name d)) (ct_db ct) of [] \<Rightarrow> False | r # _ \<Rightarrow> dr_status r = ''failed''))
       (dvalues (ct_dags ct)) then ''failed'' else ''idle'')"

section \<open>Transitions\<close>

text \<open>\<open>start_run\<close> runs its critical section in one go; \<open>retry_node\<close> and \<open>resume_node\<close> check under the lock of the DAG
  and read the database before they spawn, \<open>run_node_trigger\<close> checks last. \<open>own\<close> says that only finished runs are
  resumed, under the DAG they belong to, and that no task is cancelled between the commit of its row and its \<open>try\<close>.\<close>

definition hold_lock :: "string \<Rightarrow> bool \<Rightarrow> ctrl \<Rightarrow> ctrl" where
  "hold_lock dag checked ct = ct\<lparr>ct_locks := dset (ct_locks ct) dag checked\<rparr>"

definition release_lock :: "string \<Rightarrow> ctrl \<Rightarrow> ctrl" where
  "release_lock dag ct = ct\<lparr>ct_locks := dpop (ct_locks ct) dag\<rparr>"

definition may_resume :: "bool \<Rightarrow> string \<Rightarrow> string \<Rightarrow> ctrl \<Rightarrow> bool" where
  "may_resume own dag run_id ct = (own \<longrightarrow> (case get_dag_run run_id (ct_db ct) of None \<Rightarrow> True
     | Some r \<Rightarrow> dr_dag r = dag \<and> dr_status r \<noteq> ''running''))"

definition task_in :: "ctrl \<Rightarrow> nat \<Rightarrow> task_phase \<Rightarrow> bool" where
  "task_in ct i p = (i < length (ct_tasks ct) \<and> ta_phase (ct_tasks ct ! i) = p)"

inductive ctrl_step :: "draws \<Rightarrow> bool \<Rightarrow> ctrl \<Rightarrow> ctrl \<Rightarrow> bool" for w own where
  start: "\<not> dhas (ct_locks ct) dag \<Longrightarrow> start_run_locked w source dag inputs ct = Inr (r, ct') \<Longrightarrow> ctrl_step w own ct ct'"
| lock_checked: "\<not> dhas (ct_locks ct) dag \<Longrightarrow> busy ct dag = None \<Longrightarrow> ctrl_step w own ct (hold_lock dag True ct)"
| lock: "\<not> dhas (ct_locks ct) dag \<Longrightarrow> ctrl_step w own ct (hold_lock dag False ct)"
| unlock: "ctrl_step w own ct (release_lock dag ct)"
| retry: "dget (ct_locks ct) dag = Some True \<Longrightarrow> retry_locked w dag run_id ns mode inputs ct = Inr (x, ct') \<Longrightarrow>
    ctrl_step w own ct (release_lock dag ct')"
| resume: "dget (ct_locks ct) dag = Some True \<Longrightarrow> may_resume own dag run_id ct \<Longrightarrow>
    resume_locked dag run_id n payload ct = Inr (x, ct') \<Longrightarrow> ctrl_step w own ct (release_lock dag ct')"
| trigger: "dget (ct_locks ct) dag = Some False \<Longrightarrow> run_node_trigger w source dag n payload app ct = Inr (x, ct') \<Longrightarrow>
    ctrl_step w own ct (release_lock dag ct')"
| open_task: "task_in ct i Spawned \<Longrightarrow> ctrl_step w own ct (task_open w i ct)"
| enter_task: "task_in ct i Opened \<Longrightarrow> ctrl_step w own ct (task_enter i ct)"
| record_rows: "recorded w (ta_run ` set (ct_tasks ct)) (ct_db ct) d \<Longrightarrow> ctrl_step w own ct (ct\<lparr>ct_db := d\<rparr>)"
| child: "create_dag_run w (dw_uuid w (ct_draws ct)) source [] dag None (ct_db ct) = Inr (r, d) \<Longrightarrow>
    ctrl_step w own ct (ct\<lparr>ct_db := d, ct_draws := Suc (ct_draws ct)\<rparr>)"
| end_task: "task_in ct i Running \<Longrightarrow> ctrl_step w own ct (task_end w keep hours i outs fails ct)"
| fail_task: "task_in ct i Running \<Longrightarrow> ctrl_step w own ct (task_fail w i e ct)"
| cancel_task: "task_in ct i Spawned \<or> task_in ct i Running \<or> \<not> own \<and> task_in ct i Opened \<Longrightarrow> ctrl_step w own ct (task_cancel w i ct)"
| clear_task: "i < length (ct_tasks ct) \<Longrightarrow> ctrl_step w own ct (clear_finished_task i ct)"
| set_stop: "i < length (ct_tasks ct) \<Longrightarrow> ctrl_step w own ct (change_task i (\<lambda>t. t\<lparr>ta_stop := True\<rparr>) ct)"
| configure: "ctrl_step w own ct (ct\<lparr>ct_dags := dags, ct_nodes := nodes\<rparr>)"

definition fresh_ctrl :: "db \<Rightarrow> (string, dag_cfg) dict \<Rightarrow> (string, node_cfg) dict \<Rightarrow> ctrl" where
  "fresh_ctrl d dags nodes = \<lparr>ct_tasks = [], ct_active = [], ct_locks = [], ct_db = d, ct_dags = dags, ct_nodes = nodes,
     ct_draws = 0, ct_published = []\<rparr>"

end
