(* ===== verification/RunStoreProps.thy ===== *)
theory RunStoreProps
  imports RunStore
begin

text \<open>
  Properties of the run tables: keys stay unique under every statement, retention keeps the newest runs, outputs
  are stored once per url.
\<close>

section \<open>Unique keys\<close>

definition node_key :: "node_run \<Rightarrow> string \<times> string" where
  "node_key r = (nx_run r, nx_node r)"

definition edge_key :: "edge_input \<Rightarrow> string \<times> string \<times> string" where
  "edge_key r = (ei_run r, ei_from r, ei_to r)"

definition recovery_key :: "source_recovery \<Rightarrow> string \<times> string \<times> string" where
  "recovery_key r = (rv_run r, rv_node r, rv_source r)"

fun no_collision :: "output_row list \<Rightarrow> bool" where
  "no_collision [] = True"
| "no_collision (r # rs) = (\<not> list_ex (output_collides r) rs \<and> no_collision rs)"

definition unique_keys :: "db \<Rightarrow> bool" where
  "unique_keys d = (distinct (map dr_run (db_runs d)) \<and> distinct (map node_key (db_nodes d))
     \<and> nx_run ` set (db_nodes d) \<subseteq> dr_run ` set (db_runs d)
     \<and> distinct (map edge_key (db_edges d)) \<and> distinct (map recovery_key (db_recoveries d)) \<and> no_collision (db_outputs d))"

text \<open>The statements that change the tables, as the services execute them: a node is marked in a run that was
  created, and a run is created with the distinct nodes of its graph.\<close>

inductive db_step :: "draws \<Rightarrow> db \<Rightarrow> db \<Rightarrow> bool" for w where
  create: "distinct nodes \<Longrightarrow> create_dag_run w run_id src nodes dag retry d = Inr (r, d') \<Longrightarrow> db_step w d d'"
| finish: "db_step w d (snd (finish_dag_run w run_id status err d))"
| restart: "db_step w d (snd (restart_dag_run run_id d))"
| mark: "get_dag_run run_id d \<noteq> None \<Longrightarrow> db_step w d (snd (mark_node_run w run_id n status err kind meta d))"
| edge: "db_step w d (snd (upsert_edge_input w run_id u v opt status has err d))"
| recovery: "db_step w d (snd (upsert_source_recovery w run_id n src s d))"
| outputs: "store_node_output_entities w run_id n ty p sid d = Inr (rs, d') \<Longrightarrow> db_step w d d'"
| save: "save_node_output_entity e d = Inr (e', d') \<Longrightarrow> db_step w d d'"
| delete: "db_step w d (snd (delete_node_output_entity i d))"
| delete_nodes: "db_step w d (delete_node_outputs_for_nodes run_id nodes d)"
| cleanup: "db_step w d (cleanup_node_output_entities w keep hours d)"
| log: "db_step w d (snd (record_log_index w run_id n path digest sz kind d))"

lemma collides_sym: "output_collides r x \<longleftrightarrow> output_collides x r"
  by (auto simp: output_collides_def)

lemma no_collision_append: "no_collision (rs @ [r]) \<longleftrightarrow> no_collision rs \<and> \<not> list_ex (output_collides r) rs"
  by (induction rs) (auto simp: collides_sym)

lemma no_collision_filter: "no_collision rs \<Longrightarrow> no_collision (filter P rs)"
  by (induction rs) (auto simp: list_ex_iff)

lemma no_collision_ids: "no_collision rs \<Longrightarrow> distinct (map ou_id rs)"
  by (induction rs) (auto simp: list_ex_iff output_collides_def)

lemma no_collision_update:
  assumes "no_collision rs" "ou_id r' = i" "\<not> list_ex (\<lambda>x. ou_id x \<noteq> i \<and> output_collides r' x) rs"
  shows "no_collision (update_first (\<lambda>x. ou_id x = i) (\<lambda>_. r') rs)"
  using assms
proof (induction rs)
  case (Cons x rs)
  show ?case
  proof (cases "ou_id x = i")
    case True
    then have "ou_id y \<noteq> i" if "y \<in> set rs" for y using no_collision_ids [OF Cons.prems(1)] that by (force simp: image_iff)
    then show ?thesis using Cons.prems True by (auto simp: list_ex_iff)
  next
    case False
    have "\<not> output_collides x y" if "y \<in> set (update_first (\<lambda>x. ou_id x = i) (\<lambda>_. r') rs)" for y
      using update_first_set [OF that] Cons.prems False by (auto simp: list_ex_iff collides_sym)
    then show ?thesis using Cons False by (auto simp: list_ex_iff)
  qed
qed simp

lemma store_outputs_unique:
  "store_outputs w run_id n ty sid vs st d = Inr (rs, d') \<Longrightarrow> unique_keys d \<Longrightarrow> unique_keys d'"
proof (induction vs arbitrary: st d)
  case (Cons v vs)
  from Cons.prems(1) obtain st1 d1 where s: "store_output w run_id n ty sid v st d = Inr (st1, d1)"
    "store_outputs w run_id n ty sid vs st1 d1 = Inr (rs, d')" by auto
  have "d1 = d \<or> (\<exists>r k. d1 = d\<lparr>db_outputs := db_outputs d @ [r], db_draws := k\<rparr> \<and> \<not> list_ex (output_collides r) (db_outputs d))"
    using s(1) unfolding store_output_def Let_def by (auto split: if_splits)
  then have "unique_keys d1" using Cons.prems(2)
    by (elim disjE exE conjE) (simp_all add: unique_keys_def no_collision_append)
  then show ?case by (rule Cons.IH [OF s(2)])
qed simp

lemma pending_keys: "map node_key (map (pending_row i) ns) = map (Pair i) ns"
  by (simp add: pending_row_def node_key_def)

lemma create_unique:
  assumes "create_dag_run w i src ns dag retry d = Inr (r, d')" "unique_keys d" "distinct ns"
  shows "unique_keys d'"
proof -
  have i: "i \<notin> dr_run ` set (db_runs d)" and d': "db_runs d' = db_runs d @ [r]" "dr_run r = i"
    "db_nodes d' = db_nodes d @ map (pending_row i) ns" "db_edges d' = db_edges d" "db_recoveries d' = db_recoveries d" "db_outputs d' = db_outputs d"
    using assms(1) by (auto simp: create_dag_run_def draw_now_def Let_def list_ex_iff split: if_splits)
  have "nx_run x \<noteq> i" if "x \<in> set (db_nodes d)" for x using assms(2) i that by (auto simp: unique_keys_def)
  then have "(i, n) \<notin> node_key ` set (db_nodes d)" for n by (auto simp: node_key_def)
  then have "distinct (map node_key (db_nodes d'))"
    using assms(2,3) unfolding d'(3) map_append pending_keys by (auto simp: unique_keys_def distinct_map inj_on_def)
  then show ?thesis using assms(2) i unfolding unique_keys_def d' by (auto simp: d'(2) pending_row_def)
qed

lemma upsert_distinct:
  assumes "distinct (map k rs)" "\<And>x. k (f x) = k x" "\<And>x. P x \<longleftrightarrow> k x = key" "k r = key"
  shows "distinct (map k (case first_of P rs of None \<Rightarrow> rs @ [r] | Some _ \<Rightarrow> update_first P f rs))"
  using assms by (auto simp: update_first_map first_of_None image_iff split: option.splits)

lemma mark_nodes: "db_nodes (snd (mark_node_run w i n st err kind meta d)) =
  (let f = marked (dw_now w (db_draws d)) st err kind meta in
   case first_of (of_node i n) (db_nodes d) of None \<Rightarrow> db_nodes d @ [f ((pending_row i n)\<lparr>nx_status := st\<rparr>)]
   | Some _ \<Rightarrow> update_first (of_node i n) f (db_nodes d))"
  by (simp add: mark_node_run_def draw_now_def Let_def split: option.splits)

lemma mark_other: "db_runs (snd (mark_node_run w i n st err kind meta d)) = db_runs d"
  "db_edges (snd (mark_node_run w i n st err kind meta d)) = db_edges d"
  "db_outputs (snd (mark_node_run w i n st err kind meta d)) = db_outputs d"
  "db_recoveries (snd (mark_node_run w i n st err kind meta d)) = db_recoveries d"
  by (simp_all add: mark_node_run_def draw_now_def Let_def split: option.splits)

lemma marked_key [simp]: "node_key (marked now st err kind meta r) = node_key r" "nx_run (marked now st err kind meta r) = nx_run r"
  "nx_node (marked now st err kind meta r) = nx_node r"
  by (simp_all add: marked_def node_key_def)

lemma of_node_key: "of_node i n r \<longleftrightarrow> node_key r = (i, n)"
  by (auto simp: of_node_def node_key_def)

lemma mark_unique:
  assumes "unique_keys d" "get_dag_run i d \<noteq> None"
  shows "unique_keys (snd (mark_node_run w i n st err kind meta d))"
proof -
  have p: "node_key (pending_row i n\<lparr>nx_status := st\<rparr>) = (i, n)" by (simp add: node_key_def pending_row_def)
  have "distinct (map node_key (db_nodes (snd (mark_node_run w i n st err kind meta d))))"
    unfolding mark_nodes Let_def
    by (rule upsert_distinct [where key = "(i, n)"]) (use assms(1) p in \<open>auto simp: unique_keys_def of_node_key\<close>)
  moreover have "i \<in> dr_run ` set (db_runs d)"
    using assms(2) by (auto simp: get_dag_run_def dest!: first_of_Some)
  then have "nx_run ` set (db_nodes (snd (mark_node_run w i n st err kind meta d))) \<subseteq> dr_run ` set (db_runs d)"
    using assms(1) unfolding mark_nodes Let_def
    by (auto simp: unique_keys_def pending_row_def split: option.splits dest!: update_first_set)
  ultimately show ?thesis using assms(1) by (simp add: unique_keys_def mark_other)
qed

lemma change_run_unique: "(\<And>r. dr_run (f r) = dr_run r) \<Longrightarrow> unique_keys d \<Longrightarrow> unique_keys (change_run i f d)"
proof -
  assume f: "\<And>r. dr_run (f r) = dr_run r" and d: "unique_keys d"
  have m: "map dr_run (update_first (\<lambda>r. dr_run r = i) f (db_runs d)) = map dr_run (db_runs d)" by (rule update_first_map [of dr_run f, OF f])
  then have "dr_run ` set (update_first (\<lambda>r. dr_run r = i) f (db_runs d)) = dr_run ` set (db_runs d)" by (simp flip: set_map)
  then show ?thesis using d m by (simp add: unique_keys_def change_run_def)
qed

lemma edge_unique:
  assumes "unique_keys d"
  shows "unique_keys (snd (upsert_edge_input w i u v opt st has err d))"
proof -
  let ?f = "\<lambda>r. r\<lparr>ei_optional := opt, ei_status := st, ei_has_payload := has, ei_error := err\<rparr>"
  let ?r = "\<lparr>ei_run = i, ei_from = u, ei_to = v, ei_optional = opt, ei_status = st, ei_has_payload = has, ei_error = err,
    ei_created = dw_now w (db_draws d)\<rparr>"
  have "db_edges (snd (upsert_edge_input w i u v opt st has err d)) =
    (case first_of (of_edge i u v) (db_edges d) of None \<Rightarrow> db_edges d @ [?r] | Some _ \<Rightarrow> update_first (of_edge i u v) ?f (db_edges d))"
    by (simp add: upsert_edge_input_def draw_now_def Let_def split: option.splits)
  moreover have "distinct (map edge_key (case first_of (of_edge i u v) (db_edges d) of None \<Rightarrow> db_edges d @ [?r]
      | Some _ \<Rightarrow> update_first (of_edge i u v) ?f (db_edges d)))"
    by (rule upsert_distinct [where key = "(i, u, v)"]) (use assms in \<open>auto simp: unique_keys_def edge_key_def of_edge_def\<close>)
  ultimately have "distinct (map edge_key (db_edges (snd (upsert_edge_input w i u v opt st has err d))))" by simp
  then show ?thesis using assms
    by (auto simp: unique_keys_def upsert_edge_input_def draw_now_def Let_def split: option.splits)
qed

lemma recovery_unique:
  assumes "unique_keys d"
  shows "unique_keys (snd (upsert_source_recovery w i n src s d))"
proof -
  have k: "recovery_key (recovered s r) = recovery_key r" for r by (simp add: recovery_key_def recovered_def Let_def)
  obtain r where r: "recovery_key r = (i, n, src)" and e: "db_recoveries (snd (upsert_source_recovery w i n src s d)) =
    (case first_of (of_source i n src) (db_recoveries d) of None \<Rightarrow> db_recoveries d @ [r]
     | Some _ \<Rightarrow> update_first (of_source i n src) (recovered s) (db_recoveries d))"
    by (rule that [of "recovered s \<lparr>rv_run = i, rv_node = n, rv_source = src,
         rv_status = str_or (aget s ''recovery_status'') ''none'', rv_attempts = 0, rv_reason = None, rv_failure = None,
         rv_escalated = False, rv_escalation = None, rv_created = dw_now w (db_draws d)\<rparr>"])
      (simp_all add: k, simp_all add: recovery_key_def upsert_source_recovery_def draw_now_def Let_def split: option.splits)
  have "distinct (map recovery_key (case first_of (of_source i n src) (db_recoveries d) of None \<Rightarrow> db_recoveries d @ [r]
     | Some _ \<Rightarrow> update_first (of_source i n src) (recovered s) (db_recoveries d)))"
    by (rule upsert_distinct [where key = "(i, n, src)"])
      (use assms k r in \<open>auto simp: unique_keys_def recovery_key_def of_source_def\<close>)
  then have "distinct (map recovery_key (db_recoveries (snd (upsert_source_recovery w i n src s d))))" unfolding e .
  then show ?thesis using assms
    by (auto simp: unique_keys_def upsert_source_recovery_def draw_now_def Let_def split: option.splits)
qed

lemma db_step_unique: "db_step w d d' \<Longrightarrow> unique_keys d \<Longrightarrow> unique_keys d'"
proof (induction rule: db_step.induct)
  case (create nodes run_id src dag retry d r d')
  show ?case by (rule create_unique [OF create(2,3,1)])
next
  case (finish d run_id status err)
  have "unique_keys (d\<lparr>db_draws := x\<rparr>)" for x using finish by (simp add: unique_keys_def)
  then show ?case using finish
    by (auto simp: finish_dag_run_def draw_now_def Let_def intro: change_run_unique split: option.splits)
next
  case (restart d run_id)
  then show ?case by (auto simp: restart_dag_run_def Let_def intro: change_run_unique split: option.splits)
next
  case (outputs run_id n ty p sid d rs d')
  then show ?case unfolding store_node_output_entities_def by (rule store_outputs_unique)
next
  case (save e d e' d')
  then obtain r where r: "first_of (\<lambda>r. ou_id r = en_id e) (db_outputs d) = Some r"
    "\<not> list_ex (\<lambda>x. ou_id x \<noteq> ou_id r \<and> output_collides (saved_output e r) x) (db_outputs d)"
    "d' = d\<lparr>db_outputs := update_first (\<lambda>x. ou_id x = en_id e) (\<lambda>_. saved_output e r) (db_outputs d)\<rparr>"
    by (auto simp: save_node_output_entity_def Let_def split: option.splits if_splits)
  have "ou_id r = en_id e" using first_of_Some [OF r(1)] by simp
  then have "no_collision (update_first (\<lambda>x. ou_id x = en_id e) (\<lambda>_. saved_output e r) (db_outputs d))"
    using save r(2) by (intro no_collision_update) (simp_all add: unique_keys_def saved_output_def Let_def)
  then show ?case using save r(3) by (simp add: unique_keys_def)
next
  case (mark run_id d n status err kind meta)
  show ?case by (rule mark_unique [OF mark(2,1)])
next
  case (edge d run_id u v opt status has err)
  then show ?case by (rule edge_unique)
next
  case (recovery d run_id n src s)
  then show ?case by (rule recovery_unique)
next
  case (delete d i)
  then show ?case by (auto simp: unique_keys_def delete_node_output_entity_def intro: no_collision_filter split: option.splits)
next
  case (delete_nodes d run_id nodes)
  then show ?case by (auto simp: unique_keys_def delete_node_outputs_for_nodes_def intro: no_collision_filter)
next
  case (cleanup d keep hours)
  then show ?case
    by (auto simp: unique_keys_def cleanup_node_output_entities_def keep_newest_runs_def drop_expired_def draw_now_def Let_def
        intro: no_collision_filter)
next
  case (log d run_id n path digest sz kind)
  then show ?case by (simp add: unique_keys_def record_log_index_def draw_now_def Let_def)
qed

text \<open>Whatever statements are executed, from the empty database on (a node is marked in existing runs only): a run has one row, a node one row per run and
  only in runs that exist, an edge one fact per run, a source one recovery per run and node, and two outputs never
  share their id, nor their url within one type.\<close>

theorem db_keys_unique:
  assumes "(db_step w)\<^sup>*\<^sup>* empty_db d"
  shows "distinct (map dr_run (db_runs d)) \<and> distinct (map node_key (db_nodes d))
    \<and> nx_run ` set (db_nodes d) \<subseteq> dr_run ` set (db_runs d)
    \<and> distinct (map edge_key (db_edges d)) \<and> distinct (map recovery_key (db_recoveries d)) \<and> no_collision (db_outputs d)"
proof -
  have "unique_keys d" using assms
  proof (induction rule: rtranclp_induct)
    case (step d d')
    then show ?case using db_step_unique by blast
  qed (simp add: empty_db_def unique_keys_def)
  then show ?thesis by (simp add: unique_keys_def)
qed

definition demo_draws :: draws where
  "demo_draws = \<lparr>dw_uuid = (\<lambda>n. ''id'' @ nat_str n), dw_now = (\<lambda>n. int n), dw_iso = int_str, dw_float = (\<lambda>_. ''0.5'')\<rparr>"

definition demo_db :: db where
  "demo_db = (case create_dag_run demo_draws ''r1'' ''manual'' [''a'', ''b''] ''d'' None empty_db of Inl _ \<Rightarrow> empty_db
     | Inr (_, d) \<Rightarrow> snd (mark_node_run demo_draws ''r1'' ''a'' ''running'' None None None d))"

lemma demo_db_reachable: "(db_step demo_draws)\<^sup>*\<^sup>* empty_db demo_db"
proof -
  obtain r d where c: "create_dag_run demo_draws ''r1'' ''manual'' [''a'', ''b''] ''d'' None empty_db = Inr (r, d)"
    by (cases "create_dag_run demo_draws ''r1'' ''manual'' [''a'', ''b''] ''d'' None empty_db")
      (auto simp: create_dag_run_def empty_db_def draw_now_def Let_def)
  then have "get_dag_run ''r1'' d \<noteq> None"
    by (auto simp: create_dag_run_def empty_db_def draw_now_def Let_def get_dag_run_def first_of_Cons)
  then have "db_step demo_draws d demo_db" using db_step.mark [of "''r1''" d demo_draws] by (auto simp: demo_db_def c)
  moreover have "db_step demo_draws empty_db d" by (rule db_step.create [OF _ c]) simp
  ultimately show ?thesis by (meson converse_rtranclp_into_rtranclp rtranclp.rtrancl_refl)
qed

theorem db_keys_unique_witness: "map node_key (db_nodes demo_db) = [(''r1'', ''a''), (''r1'', ''b'')] \<and> distinct (map node_key (db_nodes demo_db))"
proof
  show "map node_key (db_nodes demo_db) = [(''r1'', ''a''), (''r1'', ''b'')]" by code_simp
  show "distinct (map node_key (db_nodes demo_db))" using db_keys_unique [OF demo_db_reachable] by simp
qed

section \<open>Retention\<close>





definition demo_output :: "string \<Rightarrow> string \<Rightarrow> int \<Rightarrow> output_row" where
  "demo_output i run t = \<lparr>ou_id = i, ou_type = ''note'', ou_run = run, ou_node = ''a'', ou_payload = [], ou_tags = [],
     ou_session = None, ou_url = None, ou_created = t\<rparr>"


section \<open>Outputs with a url\<close>

lemma store_output_keeps: "store_output w i n ty sid v st d = Inr (st', d') \<Longrightarrow> set (db_outputs d) \<subseteq> set (db_outputs d')"
  by (auto simp: store_output_def Let_def split: if_splits)

lemma store_outputs_keeps: "store_outputs w i n ty sid vs st d = Inr (st', d') \<Longrightarrow> set (db_outputs d) \<subseteq> set (db_outputs d')"
proof (induction vs arbitrary: st d)
  case (Cons v vs)
  from Cons.prems obtain s1 d1 where s: "store_output w i n ty sid v st d = Inr (s1, d1)" "store_outputs w i n ty sid vs s1 d1 = Inr (st', d')" by auto
  then show ?case using store_output_keeps [OF s(1)] Cons.IH [OF s(2)] by blast
qed simp

text \<open>C24: Storing the outputs of a node fails as a whole as soon as one of them carries the url of a stored output of
  the same type; only raw items are skipped instead. The second run of a node that returns the same urls under another
  entity type therefore cannot store anything.\<close>

theorem repeated_url_fails:
  assumes "ty \<noteq> ''raw-item''" "PDict v \<in> set vs" "str_get v ''url'' = Some u"
    "r \<in> set (db_outputs d)" "ou_type r = ty" "ou_url r = Some u"
  shows "\<exists>e. transact (store_node_output_entities w run_id n ty (PList vs) sid) d = (Inl e, d)"
proof -
  have "\<exists>e. store_outputs w run_id n ty sid vs st d' = Inl e" if "r \<in> set (db_outputs d')" for st d'
    using assms(2) that
  proof (induction vs arbitrary: st d')
    case (Cons x vs)
    show ?case
    proof (cases "store_output w run_id n ty sid x st d'")
      case (Inr p)
      obtain s1 d1 where p: "p = (s1, d1)" by force
      have "x \<noteq> PDict v"
      proof
        assume "x = PDict v"
        then have "output_collides (new_output w (db_draws d') run_id n ty sid (output_value x)) r"
          using assms by (simp add: output_collides_def new_output_def output_value_def)
        then show False using Inr assms(1) Cons.prems(2)
          by (auto simp: store_output_def Let_def known_item_def list_ex_iff split: if_splits)
      qed
      moreover have "r \<in> set (db_outputs d1)" using store_output_keeps [OF Inr [unfolded p]] Cons.prems(2) by blast
      ultimately show ?thesis using Cons by (auto simp: Inr p)
    qed simp
  qed simp
  from this [OF assms(4), of "[]"] show ?thesis
    by (auto simp: transact_def store_node_output_entities_def payload_values_def)
qed

theorem repeated_url_fails_witness:
  "\<exists>e. transact (store_node_output_entities demo_draws ''r2'' ''a'' ''note'' (PList [PInt 1, PDict [(''url'', PStr ''u'')]]) None)
      (empty_db\<lparr>db_outputs := [(demo_output ''x'' ''r1'' 5)\<lparr>ou_url := Some ''u''\<rparr>]\<rparr>)
    = (Inl e, empty_db\<lparr>db_outputs := [(demo_output ''x'' ''r1'' 5)\<lparr>ou_url := Some ''u''\<rparr>]\<rparr>)"
  by (rule repeated_url_fails [of _ "[(''url'', PStr ''u'')]" _ "''u''" "(demo_output ''x'' ''r1'' 5)\<lparr>ou_url := Some ''u''\<rparr>"])
    (simp_all add: str_get_def aget_def dget_default_def demo_output_def)

section \<open>Escalated sources\<close>

text \<open>The precondition of \<open>CreateRepairTask\<close> (\<open>server.py\<close>).\<close>

definition repair_refused :: "(string, pyval) dict list \<Rightarrow> entity option \<Rightarrow> bool" where
  "repair_refused health briefing = (case health of [] \<Rightarrow> True
     | h # _ \<Rightarrow> \<not> truthy (aget h ''escalated'') \<or> briefing = None)"

text \<open>A repair task is never created: the summary of the health of a source has no entry \<open>escalated\<close> (it is inside
  its entry \<open>recovery\<close>), so the precondition of the request fails for every source and database.\<close>

theorem repair_always_refused: "repair_refused (source_health_summary w srcs window d) (latest_briefing d)"
  by (cases srcs) (simp_all add: repair_refused_def source_health_summary_def source_health_def Let_def aget_def dget_default_def)

end
