(* ===== verification/ClosureProps.thy ===== *)
theory ClosureProps
  imports Closure
begin

text \<open>
  The closure of a DAG against its specification by reachability, and the agreement of the two ways to obtain
  it: from all configurations, or by loading only what is referred to.
\<close>

section \<open>Reachable DAGs\<close>

definition refers :: "(string, dag_cfg) dict \<Rightarrow> string \<Rightarrow> string \<Rightarrow> bool" where
  "refers dags a b = (\<exists>d i. dget dags a = Some d \<and> i \<in> set (dc_nodes d) \<and> sub_dag_name dags i = Some b)"

definition reach :: "(string, dag_cfg) dict \<Rightarrow> string \<Rightarrow> string set" where
  "reach dags a = {b. (refers dags)\<^sup>*\<^sup>* a b}"

definition plain_types :: "(string, dag_cfg) dict \<Rightarrow> string set \<Rightarrow> string set" where
  "plain_types dags A = {ni_type i | i. \<exists>a \<in> A. \<exists>d. dget dags a = Some d \<and> i \<in> set (dc_nodes d) \<and> sub_dag_name dags i = None}"

definition sub_reach :: "(string, dag_cfg) dict \<Rightarrow> node_inst list \<Rightarrow> string set" where
  "sub_reach dags js = (\<Union>i \<in> set js. case sub_dag_name dags i of None \<Rightarrow> {} | Some r \<Rightarrow> reach dags r)"

definition own_types :: "(string, dag_cfg) dict \<Rightarrow> node_inst list \<Rightarrow> string set" where
  "own_types dags js = ni_type ` {i \<in> set js. sub_dag_name dags i = None}"

lemma reach_self [simp]: "a \<in> reach dags a"
  by (simp add: reach_def)

lemma sub_reach_iff: "b \<in> sub_reach dags js \<longleftrightarrow> (\<exists>i \<in> set js. \<exists>r. sub_dag_name dags i = Some r \<and> b \<in> reach dags r)"
  by (force simp: sub_reach_def split: option.splits)

lemma refers_iff: "dget dags a = Some d \<Longrightarrow> refers dags a b \<longleftrightarrow> (\<exists>i \<in> set (dc_nodes d). sub_dag_name dags i = Some b)"
  by (auto simp: refers_def)

lemma reach_unfold:
  assumes "dget dags a = Some d"
  shows "reach dags a = insert a (sub_reach dags (dc_nodes d))"
proof -
  have "(refers dags)\<^sup>*\<^sup>* a b \<longleftrightarrow> b = a \<or> (\<exists>r. refers dags a r \<and> (refers dags)\<^sup>*\<^sup>* r b)" for b
    by (auto elim: converse_rtranclpE intro: converse_rtranclp_into_rtranclp)
  then show ?thesis unfolding reach_def set_eq_iff insert_iff sub_reach_iff refers_iff [OF assms] by blast
qed

lemma reach_missing: "dget dags a = None \<Longrightarrow> reach dags a = {a}"
  by (auto simp: reach_def refers_def elim: converse_rtranclpE)

lemma reach_trans: "b \<in> reach dags a \<Longrightarrow> reach dags b \<subseteq> reach dags a"
  by (auto simp: reach_def)

lemma plain_types_Un: "plain_types dags (A \<union> B) = plain_types dags A \<union> plain_types dags B"
  unfolding plain_types_def by blast

lemma plain_types_reach: "dget dags a = Some d \<Longrightarrow>
  plain_types dags (reach dags a) = own_types dags (dc_nodes d) \<union> plain_types dags (sub_reach dags (dc_nodes d))"
  unfolding reach_unfold by (auto simp: plain_types_def own_types_def)

section \<open>When the closure exists\<close>

definition closable :: "(string, dag_cfg) dict \<Rightarrow> (string, node_cfg) dict \<Rightarrow> string \<Rightarrow> string set \<Rightarrow> bool" where
  "closable dags nodes a P = (reach dags a \<subseteq> {k. dhas dags k} \<and> plain_types dags (reach dags a) \<subseteq> {k. dhas nodes k}
     \<and> reach dags a \<inter> P = {} \<and> {b \<in> reach dags a. (refers dags)\<^sup>+\<^sup>+ b b} = {})"

definition closable_node :: "(string, dag_cfg) dict \<Rightarrow> (string, node_cfg) dict \<Rightarrow> string set \<Rightarrow> node_inst \<Rightarrow> bool" where
  "closable_node dags nodes P i = (case sub_dag_name dags i of None \<Rightarrow> dhas nodes (ni_type i) | Some r \<Rightarrow> closable dags nodes r P)"

lemma closable_unfold:
  "closable dags nodes a P \<longleftrightarrow> (\<exists>d. dget dags a = Some d \<and> a \<notin> P \<and> list_all (closable_node dags nodes (insert a P)) (dc_nodes d))"
proof (cases "dget dags a")
  case None
  then show ?thesis by (simp add: closable_def reach_missing dhas_def)
next
  case (Some d)
  have cyc: "(refers dags)\<^sup>+\<^sup>+ a a \<longleftrightarrow> a \<in> sub_reach dags (dc_nodes d)"
  proof -
    have "(refers dags)\<^sup>+\<^sup>+ a a \<longleftrightarrow> (\<exists>r. refers dags a r \<and> (refers dags)\<^sup>*\<^sup>* r a)"
      by (auto dest: tranclpD intro: rtranclp_into_tranclp2)
    then show ?thesis by (auto simp: sub_reach_iff reach_def refers_iff [OF Some])
  qed
  have sub: "sub_reach dags (dc_nodes d) \<subseteq> X \<longleftrightarrow>
      (\<forall>i \<in> set (dc_nodes d). \<forall>r. sub_dag_name dags i = Some r \<longrightarrow> reach dags r \<subseteq> X)" for X
    by (auto simp: sub_reach_iff subset_iff)
  have types: "plain_types dags (sub_reach dags (dc_nodes d)) \<subseteq> X \<longleftrightarrow>
      (\<forall>i \<in> set (dc_nodes d). \<forall>r. sub_dag_name dags i = Some r \<longrightarrow> plain_types dags (reach dags r) \<subseteq> X)" for X
    by (fastforce simp: sub_reach_iff plain_types_def subset_iff)
  have "closable dags nodes a P \<longleftrightarrow> a \<notin> P \<and> own_types dags (dc_nodes d) \<subseteq> {k. dhas nodes k}
     \<and> plain_types dags (sub_reach dags (dc_nodes d)) \<subseteq> {k. dhas nodes k}
     \<and> sub_reach dags (dc_nodes d) \<subseteq> {b. dhas dags b \<and> b \<notin> insert a P \<and> \<not> (refers dags)\<^sup>+\<^sup>+ b b}"
    unfolding closable_def plain_types_reach [OF Some] using cyc by (auto simp: reach_unfold [OF Some] dhas_def Some)
  also have "\<dots> \<longleftrightarrow> a \<notin> P \<and> list_all (closable_node dags nodes (insert a P)) (dc_nodes d)"
    unfolding sub types list_all_iff closable_node_def closable_def own_types_def
    by (fastforce split: option.splits)
  finally show ?thesis using Some by auto
qed

lemma close_ok:
  "is_ok (close_dag dags nodes a path via t) \<longleftrightarrow> closable dags nodes a (ps_dag ` set path)"
  "is_ok (close_nodes dags nodes js path t) \<longleftrightarrow> list_all (closable_node dags nodes (ps_dag ` set path)) js"
proof (induction dags nodes a path via t and dags nodes js path t rule: close_dag_close_nodes.induct)
  case (1 dags nodes a path via t)
  show ?case
  proof (cases "dget dags a")
    case (Some d)
    then show ?thesis using 1 [OF Some refl]
      by (cases "a \<in> ps_dag ` set path") (simp_all add: closable_unfold [of dags nodes a] Let_def)
  qed (simp add: closable_unfold [of dags nodes a])
next
  case (3 dags nodes i js path t)
  show ?case
  proof (cases "sub_dag_name dags i")
    case None
    then show ?thesis using 3(1) by (auto simp: closable_node_def dhas_def split: option.splits)
  next
    case (Some r)
    show ?thesis using 3(2,3) [OF Some] by (cases "close_dag dags nodes r path (Some (ni_id i)) t")
      (auto simp: closable_node_def Some)
  qed
qed auto

lemma build_closure_ok: "is_ok (build_closure a dags nodes) \<longleftrightarrow> closable dags nodes a {}"
  using close_ok(1) [of dags nodes a "[]" None "([], [])"]
  by (cases "close_dag dags nodes a [] None ([], [])") (auto simp: build_closure_def)

text \<open>The closure of a DAG exists exactly when every DAG reached through sub-DAG references is stored, every
  other node type in them is, and none of them reaches itself.\<close>

theorem closure_accepts_iff:
  "is_ok (build_closure a dags nodes) \<longleftrightarrow> reach dags a \<subseteq> {k. dhas dags k}
     \<and> plain_types dags (reach dags a) \<subseteq> {k. dhas nodes k} \<and> {b \<in> reach dags a. (refers dags)\<^sup>+\<^sup>+ b b} = {}"
  unfolding build_closure_ok by (simp add: closable_def)

section \<open>What the closure holds\<close>

lemma dset_map_add: "dget d a = Some v \<Longrightarrow> dget (dset m a v) = dget m ++ (dget d |` {a})"
  by (auto simp: fun_eq_iff map_add_def restrict_map_def)

lemma map_add_restrict: "(m ++ f |` A) ++ f |` B = m ++ f |` (A \<union> B)"
  by (auto simp: fun_eq_iff map_add_def restrict_map_def split: option.splits)

lemma close_contents:
  "close_dag dags nodes a path via t = Inr t' \<Longrightarrow> dget (fst t') = dget (fst t) ++ dget dags |` reach dags a
     \<and> dget (snd t') = dget (snd t) ++ dget nodes |` plain_types dags (reach dags a)"
  "close_nodes dags nodes js path t = Inr t' \<Longrightarrow> dget (fst t') = dget (fst t) ++ dget dags |` sub_reach dags js
     \<and> dget (snd t') = dget (snd t) ++ dget nodes |` (own_types dags js \<union> plain_types dags (sub_reach dags js))"
proof (induction dags nodes a path via t and dags nodes js path t arbitrary: t' and t' rule: close_dag_close_nodes.induct)
  case (1 dags nodes a path via t)
  then obtain d where d: "dget dags a = Some d" "a \<notin> ps_dag ` set path"
    "close_nodes dags nodes (dc_nodes d) (path @ [\<lparr>ps_dag = a, ps_via = via\<rparr>]) (dset (fst t) a d, snd t) = Inr t'"
    by (auto simp: Let_def split: option.splits if_splits)
  show ?case using 1(1) [OF d(1) refl d(2,3)]
    by (simp add: plain_types_reach [OF d(1)] dset_map_add [OF d(1)] map_add_restrict) (simp add: reach_unfold [OF d(1)])
next
  case (2 dags nodes chain t)
  then show ?case by (simp add: sub_reach_def own_types_def plain_types_def)
next
  case (3 dags nodes i js path t)
  show ?case
  proof (cases "sub_dag_name dags i")
    case None
    then obtain c where c: "dget nodes (ni_type i) = Some c"
      "close_nodes dags nodes js path (fst t, dset (snd t) (ni_type i) c) = Inr t'" using 3(4) by (auto split: option.splits)
    have "sub_reach dags (i # js) = sub_reach dags js" "own_types dags (i # js) = insert (ni_type i) (own_types dags js)"
      using None by (auto simp: sub_reach_def own_types_def)
    then show ?thesis using 3(1) [OF None c] by (simp add: dset_map_add [OF c(1)] map_add_restrict)
  next
    case (Some r)
    then obtain u where u: "close_dag dags nodes r path (Some (ni_id i)) t = Inr u" "close_nodes dags nodes js path u = Inr t'"
      using 3(4) by auto
    have e: "sub_reach dags (i # js) = reach dags r \<union> sub_reach dags js" "own_types dags (i # js) = own_types dags js"
      using Some by (auto simp: sub_reach_def own_types_def)
    show ?thesis using 3(2) [OF Some u(1)] 3(3) [OF Some u(1) u(2)]
      by (simp add: e map_add_restrict plain_types_Un Un_ac)
  qed
qed

text \<open>The closure holds exactly the configurations of the DAGs reached from its root and of the node types used
  in them, so nothing a run needs is missing and nothing else is taken along.\<close>

theorem closure_contents:
  assumes "build_closure a dags nodes = Inr c"
  shows "cl_root c = a \<and> dget (cl_dags c) = dget dags |` reach dags a
    \<and> dget (cl_nodes c) = dget nodes |` plain_types dags (reach dags a)"
  using assms close_contents(1) [of dags nodes a "[]" None "([], [])"]
  by (auto simp: build_closure_def)

text \<open>A DAG \<open>r\<close> with a sub-DAG \<open>s\<close>.\<close>

definition tiny_node :: "string \<Rightarrow> node_inst" where
  "tiny_node ty = \<lparr>ni_id = ''n_'' @ ty, ni_type = ty, ni_dag_ref = None, ni_input_mapping = MapDict [],
     ni_alias = None, ni_config = [], ni_optional = False, ni_fan_in_mode = NBarrier, ni_loop = None,
     ni_switch_model = False, ni_fallback_model = None, ni_resource = None\<rparr>"

definition tiny_dag :: "string \<Rightarrow> string list \<Rightarrow> dag_cfg" where
  "tiny_dag n tys = \<lparr>dc_name = n, dc_nodes = map tiny_node tys, dc_edges = [], dc_ui = []\<rparr>"

definition tiny_dags :: "(string, dag_cfg) dict" where
  "tiny_dags = [(''r'', tiny_dag ''r'' [''s'', ''k'']), (''s'', tiny_dag ''s'' [''k'']), (''x'', tiny_dag ''x'' [''x''])]"

definition tiny_nodes :: "(string, node_cfg) dict" where
  "tiny_nodes = [(''k'', \<lparr>nc_name = ''k'', nc_role = Processor, nc_input_type = ''Any'', nc_output_type = ''Any'',
     nc_optional = False, nc_timeout = None, nc_emits = [], nc_variant = FunctionNode ''h'' [] [] [] None None []\<rparr>)]"

theorem closure_contents_witness: "''s'' \<in> reach tiny_dags ''r'' \<and> ''x'' \<notin> reach tiny_dags ''r''"
proof -
  have "case build_closure ''r'' tiny_dags tiny_nodes of Inl _ \<Rightarrow> False
      | Inr c \<Rightarrow> dget (cl_dags c) ''s'' \<noteq> None \<and> dget (cl_dags c) ''x'' = None" by code_simp
  then obtain c where c: "build_closure ''r'' tiny_dags tiny_nodes = Inr c"
    "dget (cl_dags c) ''s'' \<noteq> None" "dget (cl_dags c) ''x'' = None" by (auto split: sum.splits)
  then show ?thesis using closure_contents [OF c(1)]
    by (auto simp: restrict_map_def tiny_dags_def split: if_splits)
qed

section \<open>Loading\<close>

definition expanded :: "(string, dag_cfg) dict \<Rightarrow> (string, node_cfg) dict \<Rightarrow> tables \<Rightarrow> node_inst \<Rightarrow> bool" where
  "expanded dbd dbn t i = (case sub_dag_name dbd i of Some r \<Rightarrow> dhas (fst t) r
     | None \<Rightarrow> dget (snd t) (ni_type i) = dget dbn (ni_type i))"

definition extends :: "tables \<Rightarrow> tables \<Rightarrow> bool" where
  "extends t t' = (dget (fst t) \<subseteq>\<^sub>m dget (fst t') \<and> dget (snd t) \<subseteq>\<^sub>m dget (snd t'))"

definition stored_in :: "(string, dag_cfg) dict \<Rightarrow> (string, node_cfg) dict \<Rightarrow> tables \<Rightarrow> bool" where
  "stored_in dbd dbn t = (dget (fst t) \<subseteq>\<^sub>m dget dbd \<and> dget (snd t) \<subseteq>\<^sub>m dget dbn)"

lemma extends_refl [simp]: "extends t t"
  by (simp add: extends_def)

lemma extends_trans: "extends s t \<Longrightarrow> extends t u \<Longrightarrow> extends s u"
  by (auto simp: extends_def intro: map_le_trans)

lemma extends_has: "extends t u \<Longrightarrow> dhas (fst t) k \<Longrightarrow> dhas (fst u) k"
  by (force simp: extends_def map_le_def dhas_def dom_def)

lemma expanded_extends:
  assumes "expanded dbd dbn t i" "extends t u" "stored_in dbd dbn u"
  shows "expanded dbd dbn u i"
proof (cases "sub_dag_name dbd i")
  case None
  then have e: "dget (snd t) (ni_type i) = dget dbn (ni_type i)" using assms(1) by (simp add: expanded_def)
  have "dget (snd u) (ni_type i) = dget dbn (ni_type i)"
  proof (cases "dget dbn (ni_type i)")
    case None
    then show ?thesis using assms(3) by (auto simp: stored_in_def map_le_def dom_def)
  next
    case (Some c)
    then show ?thesis using assms(2) e by (auto simp: extends_def map_le_def dom_def)
  qed
  then show ?thesis by (simp add: expanded_def None)
next
  case (Some r)
  then show ?thesis using assms extends_has by (simp add: expanded_def)
qed

definition new_expanded :: "(string, dag_cfg) dict \<Rightarrow> (string, node_cfg) dict \<Rightarrow> tables \<Rightarrow> tables \<Rightarrow> bool" where
  "new_expanded dbd dbn t u = (stored_in dbd dbn u \<and> extends t u
     \<and> (\<forall>a d. dhas (fst u) a \<longrightarrow> \<not> dhas (fst t) a \<longrightarrow> dget dbd a = Some d \<longrightarrow> list_all (expanded dbd dbn u) (dc_nodes d)))"

lemma new_expanded_refl: "stored_in dbd dbn t \<Longrightarrow> new_expanded dbd dbn t t"
  by (simp add: new_expanded_def)

lemma new_expanded_trans:
  assumes "new_expanded dbd dbn s t" "new_expanded dbd dbn t u"
  shows "new_expanded dbd dbn s u"
  using assms extends_trans expanded_extends unfolding new_expanded_def list_all_iff by meson

lemma load_expands:
  "load_dag dbd dbn a t = Inr u \<Longrightarrow> stored_in dbd dbn t \<Longrightarrow> new_expanded dbd dbn t u \<and> dhas (fst u) a"
  "load_nodes dbd dbn js t = Inr u \<Longrightarrow> stored_in dbd dbn t \<Longrightarrow> new_expanded dbd dbn t u \<and> list_all (expanded dbd dbn u) js"
proof (induction dbd dbn a t and dbd dbn js t arbitrary: u and u rule: load_dag_load_nodes.induct)
  case (1 dbd dbn a t)
  show ?case
  proof (cases "dhas (fst t) a")
    case True
    then show ?thesis using 1 by (simp add: new_expanded_refl)
  next
    case False
    then obtain d where d: "dget dbd a = Some d" "load_nodes dbd dbn (dc_nodes d) (dset (fst t) a d, snd t) = Inr u"
      using 1(2) by (auto split: option.splits)
    let ?t = "(dset (fst t) a d, snd t)"
    have "stored_in dbd dbn ?t" using 1(3) d(1) by (auto simp: stored_in_def map_le_def)
    from 1(1) [OF False d this] have u: "new_expanded dbd dbn ?t u" "list_all (expanded dbd dbn u) (dc_nodes d)" by auto
    have e: "extends t ?t" using False by (auto simp: extends_def map_le_def dhas_def dom_def)
    have "new_expanded dbd dbn t u"
      unfolding new_expanded_def
    proof (intro conjI allI impI)
      fix b c assume b: "dhas (fst u) b" "\<not> dhas (fst t) b" "dget dbd b = Some c"
      show "list_all (expanded dbd dbn u) (dc_nodes c)"
        using u b d(1) by (cases "b = a") (auto simp: new_expanded_def)
    qed (use u(1) extends_trans [OF e] in \<open>auto simp: new_expanded_def\<close>)
    moreover have "dhas (fst u) a" using u(1) by (auto simp: new_expanded_def intro: extends_has)
    ultimately show ?thesis by simp
  qed
next
  case (2 dbd dbn t)
  then show ?case by (simp add: new_expanded_refl)
next
  case (3 dbd dbn i js t)
  have step: "new_expanded dbd dbn t u \<and> list_all (expanded dbd dbn u) (i # js)"
    if s: "new_expanded dbd dbn t s" "expanded dbd dbn s i" and u: "new_expanded dbd dbn s u \<and> list_all (expanded dbd dbn u) js" for s
    using new_expanded_trans [OF s(1)] u expanded_extends [OF s(2)] by (auto simp: new_expanded_def)
  show ?case
  proof (cases "sub_dag_name dbd i")
    case None
    let ?s = "if dhas (snd t) (ni_type i) then t
       else (case dget dbn (ni_type i) of None \<Rightarrow> t | Some c \<Rightarrow> (fst t, dset (snd t) (ni_type i) c))"
    have s: "stored_in dbd dbn ?s" "extends t ?s" "expanded dbd dbn ?s i" "fst ?s = fst t"
      using 3(5) None by (auto simp: stored_in_def extends_def expanded_def map_le_def dhas_def dom_def split: option.splits)
    then have "new_expanded dbd dbn t ?s" by (auto simp: new_expanded_def)
    moreover have "new_expanded dbd dbn ?s u \<and> list_all (expanded dbd dbn u) js"
      by (rule 3(1) [OF None _ s(1)]) (use 3(4) None in simp)
    ultimately show ?thesis using step s(3) by blast
  next
    case (Some r)
    then obtain s where s: "load_dag dbd dbn r t = Inr s" "load_nodes dbd dbn js s = Inr u" using 3(4) by auto
    from 3(2) [OF Some s(1) 3(5)] have n: "new_expanded dbd dbn t s" "dhas (fst s) r" by auto
    then have "stored_in dbd dbn s" by (simp add: new_expanded_def)
    note rest = 3(3) [OF Some s(1) s(2) this]
    have "expanded dbd dbn s i" using n(2) Some by (simp add: expanded_def)
    then show ?thesis using step n(1) rest by blast
  qed
qed

lemma load_fails:
  "load_dag dbd dbn a t = Inl e \<Longrightarrow> \<exists>b \<in> reach dbd a. \<not> dhas dbd b"
  "load_nodes dbd dbn js t = Inl e \<Longrightarrow> \<exists>b \<in> sub_reach dbd js. \<not> dhas dbd b"
proof (induction dbd dbn a t and dbd dbn js t rule: load_dag_load_nodes.induct)
  case (1 dbd dbn a t)
  then show ?case by (auto simp: reach_unfold dhas_def reach_missing split: if_splits option.splits)
next
  case (3 dbd dbn i js t)
  show ?case
  proof (cases "sub_dag_name dbd i")
    case None
    then have "\<exists>b \<in> sub_reach dbd js. \<not> dhas dbd b" using 3(1) [OF None] 3(4) by simp
    then show ?thesis by (auto simp: sub_reach_def)
  next
    case (Some r)
    then have "\<exists>b \<in> reach dbd r \<union> sub_reach dbd js. \<not> dhas dbd b"
      using 3(2) [OF Some] 3(3) [OF Some] 3(4) by (auto simp: rbind_eq_Inl)
    then show ?thesis using Some by (auto simp: sub_reach_def)
  qed
qed auto

section \<open>Agreement\<close>

definition agree :: "(string, dag_cfg) dict \<Rightarrow> (string, node_cfg) dict \<Rightarrow> (string, dag_cfg) dict \<Rightarrow> (string, node_cfg) dict \<Rightarrow> node_inst \<Rightarrow> bool" where
  "agree D N D' N' i = (sub_dag_name D' i = sub_dag_name D i
     \<and> (sub_dag_name D i = None \<longrightarrow> dget N' (ni_type i) = dget N (ni_type i)))"

definition agree_on :: "(string, dag_cfg) dict \<Rightarrow> (string, node_cfg) dict \<Rightarrow> (string, dag_cfg) dict \<Rightarrow> (string, node_cfg) dict \<Rightarrow> string set \<Rightarrow> bool" where
  "agree_on D N D' N' A = (\<forall>a \<in> A. dget D' a = dget D a \<and> (\<forall>d. dget D a = Some d \<longrightarrow> list_all (agree D N D' N') (dc_nodes d)))"

lemma close_agree:
  "agree_on D N D' N' (reach D a) \<Longrightarrow> close_dag D' N' a path via t = close_dag D N a path via t"
  "agree_on D N D' N' (sub_reach D js) \<Longrightarrow> list_all (agree D N D' N') js \<Longrightarrow> close_nodes D' N' js path t = close_nodes D N js path t"
proof (induction D N a path via t and D N js path t rule: close_dag_close_nodes.induct)
  case (1 D N a path via t)
  have a: "dget D' a = dget D a" using 1(2) by (simp add: agree_on_def)
  show ?case
  proof (cases "dget D a")
    case (Some d)
    have "agree_on D N D' N' (sub_reach D (dc_nodes d))" "list_all (agree D N D' N') (dc_nodes d)"
      using 1(2) reach_unfold [OF Some] Some by (auto simp: agree_on_def)
    then show ?thesis using 1(1) [OF Some refl] by (auto simp: a Some Let_def)
  qed (simp add: a)
next
  case (3 D N i js path t)
  have i: "sub_dag_name D' i = sub_dag_name D i" "sub_dag_name D i = None \<Longrightarrow> dget N' (ni_type i) = dget N (ni_type i)"
    and js: "list_all (agree D N D' N') js" using 3(5) by (auto simp: agree_def [of D N D' N' i])
  have sj: "agree_on D N D' N' (sub_reach D js)" using 3(4) by (auto simp: agree_on_def sub_reach_def)
  show ?case
  proof (cases "sub_dag_name D i")
    case None
    then show ?thesis using 3(1) [OF None _ sj js] i by (auto split: option.splits)
  next
    case (Some r)
    then have "agree_on D N D' N' (reach D r)" using 3(4) by (auto simp: agree_on_def sub_reach_def)
    then have "close_dag D' N' r path (Some (ni_id i)) t = close_dag D N r path (Some (ni_id i)) t" by (rule 3(2) [OF Some])
    then show ?thesis using 3(3) [OF Some _ sj js] i Some
      by (cases "close_dag D N r path (Some (ni_id i)) t") auto
  qed
qed simp

lemma loaded_closed:
  assumes "load_dag dbd dbn a ([], []) = Inr u" "b \<in> reach dbd a"
  shows "dhas (fst u) b"
proof -
  have u: "new_expanded dbd dbn ([], []) u" "dhas (fst u) a"
    using load_expands(1) [OF assms(1)] by (auto simp: stored_in_def)
  from assms(2) have "(refers dbd)\<^sup>*\<^sup>* a b" by (simp add: reach_def)
  then show ?thesis
  proof (induction rule: rtranclp_induct)
    case (step x y)
    then obtain d i where d: "dget dbd x = Some d" "i \<in> set (dc_nodes d)" "sub_dag_name dbd i = Some y" by (auto simp: refers_def)
    then have "expanded dbd dbn u i" using u(1) step(3) by (auto simp: new_expanded_def list_all_iff)
    then show ?case by (simp add: expanded_def d)
  qed (rule u(2))
qed

lemma loaded_agree:
  assumes "load_dag dbd dbn a ([], []) = Inr u"
  shows "agree_on dbd dbn (fst u) (snd u) (reach dbd a)"
proof -
  have u: "new_expanded dbd dbn ([], []) u" using load_expands(1) [OF assms] by (auto simp: stored_in_def)
  then have st: "dget (fst u) \<subseteq>\<^sub>m dget dbd" by (simp add: new_expanded_def stored_in_def)
  have val: "dget (fst u) k = dget dbd k" if "dhas (fst u) k" for k
    using st that by (auto simp: map_le_def dhas_def dom_def)
  show ?thesis
    unfolding agree_on_def list_all_iff
  proof (intro ballI conjI allI impI)
    fix b assume b: "b \<in> reach dbd a"
    show "dget (fst u) b = dget dbd b" by (rule val [OF loaded_closed [OF assms b]])
    fix d i assume d: "dget dbd b = Some d" "i \<in> set (dc_nodes d)"
    then have ex: "expanded dbd dbn u i" using u loaded_closed [OF assms b] by (auto simp: new_expanded_def list_all_iff)
    have "dhas dbd (ni_type i)" if "dhas (fst u) (ni_type i)" using val [OF that] that by (simp add: dhas_def)
    moreover have "dhas (fst u) (ni_type i)" if "dhas dbd (ni_type i)" "sub_dag_name dbd i = Some (ni_type i)"
      using ex that by (simp add: expanded_def)
    ultimately have "sub_dag_name (fst u) i = sub_dag_name dbd i"
      by (auto simp: sub_dag_name_def split: option.splits if_splits)
    then show "agree dbd dbn (fst u) (snd u) i" using ex by (auto simp: agree_def expanded_def split: option.splits)
  qed
qed

lemma load_closure_build: "load_closure a dbd dbn = Inr c \<longleftrightarrow> build_closure a dbd dbn = Inr c"
proof (cases "load_dag dbd dbn a ([], [])")
  case (Inl e)
  then obtain b where "b \<in> reach dbd a" "\<not> dhas dbd b" using load_fails(1) by blast
  then have "\<not> is_ok (build_closure a dbd dbn)" unfolding build_closure_ok closable_def by auto
  then show ?thesis by (auto simp: load_closure_def Inl simp del: load_dag.simps)
next
  case (Inr u)
  show ?thesis using close_agree(1) [OF loaded_agree [OF Inr]] by (simp add: load_closure_def Inr build_closure_def del: load_dag.simps close_dag.simps)
qed

text \<open>C22: Loading the configurations a DAG refers to and closing over them gives the same closure as closing over
  everything that is stored, for every database, also a cyclic one, on which loading still returns.\<close>

theorem load_closure_iff: "load_closure a dbd dbn = Inr c \<longleftrightarrow> build_closure a dbd dbn = Inr c"
  by (rule load_closure_build)

end
