(* ===== verification/ControllerProps.thy ===== *)
theory ControllerProps
  imports Controller RunStoreProps ClosureProps
begin

text \<open>
  Properties of the controller: one unfinished run per DAG, rows that follow the tasks, and what a retry reuses.
\<close>

section \<open>Tasks and the table of active runs\<close>

definition tasks_ok :: "ctrl \<Rightarrow> bool" where
  "tasks_ok ct = ((\<forall>i < length (ct_tasks ct). task_done (ct_tasks ct ! i) \<or> dget (ct_active ct) (ta_dag (ct_tasks ct ! i)) = Some i)
     \<and> (\<forall>dag i. dget (ct_active ct) dag = Some i \<longrightarrow> i < length (ct_tasks ct) \<and> ta_dag (ct_tasks ct ! i) = dag)
     \<and> (\<forall>dag. dget (ct_locks ct) dag = Some True \<longrightarrow> busy ct dag = None))"

lemma tasks_ok_active: "tasks_ok ct \<Longrightarrow> i < length (ct_tasks ct) \<Longrightarrow> \<not> task_done (ct_tasks ct ! i) \<Longrightarrow>
    dget (ct_active ct) (ta_dag (ct_tasks ct ! i)) = Some i"
  by (auto simp: tasks_ok_def)

lemma busy_None: "busy ct dag = None \<longleftrightarrow> (\<forall>i. dget (ct_active ct) dag = Some i \<longrightarrow> task_done (ct_tasks ct ! i))"
  by (cases "dget (ct_active ct) dag") (auto simp: busy_def)

lemma tasks_ok_busy: "tasks_ok ct \<Longrightarrow> busy ct dag = None \<Longrightarrow> i < length (ct_tasks ct) \<Longrightarrow> ta_dag (ct_tasks ct ! i) = dag \<Longrightarrow>
    task_done (ct_tasks ct ! i)"
  by (auto simp: tasks_ok_def busy_None)

lemma tasks_ok_locks: "tasks_ok ct \<Longrightarrow> (\<And>dag. dget l dag = Some True \<Longrightarrow> dget (ct_locks ct) dag = Some True \<or> busy ct dag = None) \<Longrightarrow>
    tasks_ok (ct\<lparr>ct_locks := l\<rparr>)"
  unfolding tasks_ok_def busy_None by simp metis

lemma tasks_ok_frame: "tasks_ok ct \<Longrightarrow> ct_tasks ct' = ct_tasks ct \<Longrightarrow> ct_active ct' = ct_active ct \<Longrightarrow> ct_locks ct' = ct_locks ct \<Longrightarrow> tasks_ok ct'"
  unfolding tasks_ok_def busy_None by simp

lemma tasks_ok_change:
  assumes "tasks_ok ct" "i < length (ct_tasks ct)" "ta_dag (f (ct_tasks ct ! i)) = ta_dag (ct_tasks ct ! i)"
    "task_done (ct_tasks ct ! i) \<Longrightarrow> task_done (f (ct_tasks ct ! i))"
  shows "tasks_ok (change_task i f ct)"
  using assms unfolding tasks_ok_def busy_None change_task_def
  by (auto simp: nth_list_update)

lemma tasks_ok_spawn:
  assumes "tasks_ok ct" "busy ct (ta_dag t) = None" "dget l (ta_dag t) \<noteq> Some True"
    "\<And>dag. dget l dag = Some True \<Longrightarrow> dget (ct_locks ct) dag = Some True"
  shows "tasks_ok ((spawn t ct)\<lparr>ct_locks := l\<rparr>)"
proof -
  note old = tasks_ok_busy [OF assms(1,2)]
  have i: "i < length (ct_tasks ct)" if "dget (ct_active ct) dag = Some i" for dag i using assms(1) that by (auto simp: tasks_ok_def)
  show ?thesis unfolding tasks_ok_def busy_None
  proof (intro conjI allI impI, goal_cases)
    case (1 k)
    then show ?case using assms(1) old [of k] by (auto simp: spawn_def nth_append tasks_ok_def less_Suc_eq)
  next
    case (2 dag k)
    then show ?case using i [of dag k] by (auto simp: spawn_def split: if_splits)
  next
    case (3 dag k)
    then show ?case using i [of dag k] assms(1) by (auto simp: spawn_def nth_append tasks_ok_def split: if_splits)
  next
    case (4 dag k)
    then have "dag \<noteq> ta_dag t" "busy ct dag = None" using assms by (auto simp: tasks_ok_def)
    then show ?case using 4 i [of dag k] by (auto simp: spawn_def nth_append busy_None)
  qed
qed

lemma task_done_phase [simp]: "task_done (t\<lparr>ta_phase := Ended e\<rparr>)" "task_done (t\<lparr>ta_phase := Running\<rparr>) = False"
  "task_done (t\<lparr>ta_phase := Opened\<rparr>) = False"
  "task_done (t\<lparr>ta_stop := b\<rparr>) = task_done t"
  by (simp_all add: task_done_def)

lemma not_done_phase: "ta_phase t = Spawned \<or> ta_phase t = Opened \<or> ta_phase t = Running \<Longrightarrow> \<not> task_done t"
  by (auto simp: task_done_def)

lemma publish_simps [simp]: "ct_tasks (publish r s ct) = ct_tasks ct" "ct_active (publish r s ct) = ct_active ct"
  "ct_locks (publish r s ct) = ct_locks ct" "ct_db (publish r s ct) = ct_db ct" "ct_draws (publish r s ct) = ct_draws ct"
  by (simp_all add: publish_def)

lemma change_task_simps [simp]: "ct_tasks (change_task i f ct) = (ct_tasks ct)[i := f (ct_tasks ct ! i)]"
  "ct_active (change_task i f ct) = ct_active ct" "ct_locks (change_task i f ct) = ct_locks ct" "ct_db (change_task i f ct) = ct_db ct"
  "ct_draws (change_task i f ct) = ct_draws ct"
  by (simp_all add: change_task_def)

lemma tasks_ok_finish: "tasks_ok ct \<Longrightarrow> i < length (ct_tasks ct) \<Longrightarrow> tasks_ok (finish_task w i status error e ct)"
  unfolding finish_task_def Let_def
  by (rule tasks_ok_frame [OF tasks_ok_change [of ct i "\<lambda>t. t\<lparr>ta_phase := Ended e\<rparr>"]]) (simp_all add: set_phase_def)

lemma tasks_ok_phase: "tasks_ok ct \<Longrightarrow> i < length (ct_tasks ct) \<Longrightarrow> \<not> task_done (ct_tasks ct ! i) \<Longrightarrow> tasks_ok (set_phase i p ct)"
  unfolding set_phase_def by (rule tasks_ok_change) simp_all

lemma new_run_id_simps: "new_run_id w ct = (r, ct') \<longleftrightarrow> r = dw_uuid w (ct_draws ct) \<and> ct' = ct\<lparr>ct_draws := Suc (ct_draws ct)\<rparr>"
  by (auto simp: new_run_id_def)

lemma start_spawns: "start_run_locked w source dag inputs ct = Inr (r, ct') \<Longrightarrow>
    \<exists>t. ct' = spawn t (ct\<lparr>ct_draws := Suc (ct_draws ct)\<rparr>) \<and> ta_dag t = dag \<and> ta_phase t = Spawned \<and> ta_replace t = False
      \<and> ta_run t = dw_uuid w (ct_draws ct) \<and> busy ct dag = None"
  by (auto simp: start_run_locked_def new_run_id_def split: option.splits)

lemma retry_spawns: "retry_locked w dag run_id ns mode inputs ct = Inr (x, ct') \<Longrightarrow>
    \<exists>t. ct' = spawn t (ct\<lparr>ct_draws := Suc (ct_draws ct)\<rparr>) \<and> ta_dag t = dag \<and> ta_phase t = Spawned \<and> ta_replace t = False
      \<and> ta_run t = dw_uuid w (ct_draws ct)"
  by (auto simp: retry_locked_def new_run_id_def retry_task_def)

lemma trigger_spawns: "run_node_trigger w source dag n payload app ct = Inr (x, ct') \<Longrightarrow>
    \<exists>t. ct' = spawn t (ct\<lparr>ct_draws := Suc (ct_draws ct)\<rparr>) \<and> ta_dag t = dag \<and> ta_phase t = Spawned \<and> ta_replace t = False
      \<and> ta_run t = dw_uuid w (ct_draws ct) \<and> busy ct dag = None"
  by (auto simp: run_node_trigger_def new_run_id_def split: option.splits prod.splits)

lemma resume_spawns: "resume_locked dag run_id n payload ct = Inr (x, ct') \<Longrightarrow>
    \<exists>t ns. ct' = spawn t (ct\<lparr>ct_db := delete_node_outputs_for_nodes run_id ns (ct_db ct)\<rparr>) \<and> ta_dag t = dag
      \<and> ta_phase t = Spawned \<and> ta_replace t = True \<and> ta_run t = run_id \<and> get_dag_run run_id (ct_db ct) \<noteq> None"
  by (auto simp: resume_locked_def resume_node_plan_def retry_task_def Let_def split: if_splits option.splits)

lemma tasks_ok_spawn_in:
  assumes "tasks_ok ct" "ct0 = ct\<lparr>ct_draws := k\<rparr> \<or> ct0 = ct\<lparr>ct_db := d\<rparr>" "busy ct (ta_dag t) = None"
  shows "tasks_ok (release_lock (ta_dag t) (spawn t ct0))" "dget (ct_locks ct) (ta_dag t) = None \<Longrightarrow> tasks_ok (spawn t ct0)"
proof -
  have ok: "tasks_ok ct0" and b: "busy ct0 (ta_dag t) = None" and l: "ct_locks ct0 = ct_locks ct"
    using assms by (auto intro: tasks_ok_frame simp: busy_None)
  have e: "release_lock (ta_dag t) (spawn t ct0) = (spawn t ct0)\<lparr>ct_locks := dpop (ct_locks ct) (ta_dag t)\<rparr>"
    by (simp add: release_lock_def spawn_def l)
  show "tasks_ok (release_lock (ta_dag t) (spawn t ct0))"
    unfolding e by (rule tasks_ok_spawn [OF ok b]) (auto simp: l split: if_splits)
  assume n: "dget (ct_locks ct) (ta_dag t) = None"
  have "tasks_ok ((spawn t ct0)\<lparr>ct_locks := ct_locks ct\<rparr>)" by (rule tasks_ok_spawn [OF ok b]) (auto simp: l n)
  then show "tasks_ok (spawn t ct0)" by (rule tasks_ok_frame) (simp_all add: spawn_def l)
qed

lemma tasks_ok_open:
  assumes "tasks_ok ct" "i < length (ct_tasks ct)" "\<not> task_done (ct_tasks ct ! i)"
  shows "tasks_ok (task_open w i ct)" "tasks_ok (task_enter i ct)"
proof -
  have "tasks_ok (set_phase i Opened (ct\<lparr>ct_db := d\<rparr>))" for d
    by (rule tasks_ok_frame [OF tasks_ok_phase [OF assms, of Opened]]) (simp_all add: set_phase_def)
  then show "tasks_ok (task_open w i ct)"
    unfolding task_open_def Let_def by (simp add: tasks_ok_phase [OF assms] split: sum.split del: rbind_eq_Inr)
  show "tasks_ok (task_enter i ct)" unfolding task_enter_def
    by (rule tasks_ok_frame [OF tasks_ok_phase [OF assms, of Running]]) simp_all
qed

lemma tasks_ok_clear:
  assumes ok: "tasks_ok ct"
  shows "tasks_ok (clear_finished_task i ct)"
proof (cases "dget (ct_active ct) (ta_dag (ct_tasks ct ! i)) = Some i \<and> task_done (ct_tasks ct ! i)")
  case True
  let ?k = "ta_dag (ct_tasks ct ! i)"
  have e: "clear_finished_task i ct = ct\<lparr>ct_active := dpop (ct_active ct) ?k\<rparr>"
    using True by (simp add: clear_finished_task_def Let_def)
  have "task_done (ct_tasks ct ! j)" if "j < length (ct_tasks ct)" "ta_dag (ct_tasks ct ! j) = ?k" for j
  proof (rule ccontr)
    assume n: "\<not> task_done (ct_tasks ct ! j)"
    from tasks_ok_active [OF ok that(1) n] True have "j = i" unfolding that(2) by simp
    then show False using n True by blast
  qed
  then show ?thesis using ok unfolding e tasks_ok_def busy_None by auto
qed (use ok in \<open>auto simp: clear_finished_task_def Let_def\<close>)

lemma step_tasks_ok: "ctrl_step w own ct ct' \<Longrightarrow> tasks_ok ct \<Longrightarrow> tasks_ok ct'"
proof (induction rule: ctrl_step.induct)
  case (start ct dag source inputs r ct')
  obtain t where t: "ct' = spawn t (ct\<lparr>ct_draws := Suc (ct_draws ct)\<rparr>)" "ta_dag t = dag" "busy ct dag = None"
    using start_spawns [OF start(2)] by auto
  then show ?case using tasks_ok_spawn_in(2) [OF start(3), of _ _ undefined t] start(1) by (auto simp: dhas_def)
next
  case (lock_checked ct dag)
  then show ?case unfolding hold_lock_def by (intro tasks_ok_locks) (auto split: if_splits)
next
  case (lock ct dag)
  then show ?case unfolding hold_lock_def by (intro tasks_ok_locks) (auto split: if_splits)
next
  case (unlock ct dag)
  then show ?case unfolding release_lock_def by (intro tasks_ok_locks) (auto split: if_splits)
next
  case (retry ct dag run_id ns mode inputs x ct')
  obtain t where t: "ct' = spawn t (ct\<lparr>ct_draws := Suc (ct_draws ct)\<rparr>)" "ta_dag t = dag"
    using retry_spawns [OF retry(2)] by auto
  moreover have "busy ct dag = None" using retry(1,3) by (auto simp: tasks_ok_def)
  ultimately show ?case using tasks_ok_spawn_in(1) [OF retry(3), of _ _ undefined t] by auto
next
  case (resume ct dag run_id n payload x ct')
  obtain t k where t: "ct' = spawn t (ct\<lparr>ct_db := delete_node_outputs_for_nodes run_id k (ct_db ct)\<rparr>)" "ta_dag t = dag"
    using resume_spawns [OF resume(3)] by blast
  moreover have "busy ct dag = None" using resume(1,4) by (auto simp: tasks_ok_def)
  ultimately show ?case using tasks_ok_spawn_in(1) [OF resume(4), of _ undefined _ t] by auto
next
  case (trigger ct dag source n payload app x ct')
  obtain t where t: "ct' = spawn t (ct\<lparr>ct_draws := Suc (ct_draws ct)\<rparr>)" "ta_dag t = dag" "busy ct dag = None"
    using trigger_spawns [OF trigger(2)] by auto
  then show ?case using tasks_ok_spawn_in(1) [OF trigger(3), of _ _ undefined t] by auto
next
  case (open_task ct i)
  then show ?case by (auto simp: task_in_def not_done_phase intro: tasks_ok_open)
next
  case (enter_task ct i)
  then show ?case by (auto simp: task_in_def not_done_phase intro: tasks_ok_open)
next
  case (end_task ct i keep hours outs fails)
  have "tasks_ok (ct\<lparr>ct_db := d\<rparr>)" for d using end_task(2) by (rule tasks_ok_frame) simp_all
  then show ?case using end_task unfolding task_end_def Let_def
    by (intro tasks_ok_finish) (auto simp: task_in_def)
next
  case (fail_task ct i e)
  then show ?case by (auto simp: task_in_def task_fail_def intro: tasks_ok_finish)
next
  case (cancel_task ct i)
  then show ?case unfolding task_cancel_def
    by (auto simp: task_in_def not_done_phase intro: tasks_ok_finish tasks_ok_phase)
next
  case (clear_task i ct)
  then show ?case by (intro tasks_ok_clear)
next
  case (set_stop i ct)
  then show ?case by (intro tasks_ok_change) simp_all
qed (auto intro: tasks_ok_frame)

lemma fresh_tasks_ok: "tasks_ok (fresh_ctrl d dags nodes)"
  by (simp add: tasks_ok_def fresh_ctrl_def)

lemma reachable_tasks_ok: "(ctrl_step w own)\<^sup>*\<^sup>* (fresh_ctrl d dags nodes) ct \<Longrightarrow> tasks_ok ct"
  by (induction rule: rtranclp_induct) (auto intro: fresh_tasks_ok step_tasks_ok)

text \<open>C13: Whatever the order of starts, retries, resumptions, node triggers, stops and ends, two tasks of the same DAG
  that are both unfinished are the same task, and it is the one that the controller reports as active.\<close>

theorem one_run_per_dag:
  assumes "(ctrl_step w own)\<^sup>*\<^sup>* (fresh_ctrl d dags nodes) ct" "i < length (ct_tasks ct)" "j < length (ct_tasks ct)"
    "\<not> task_done (ct_tasks ct ! i)" "\<not> task_done (ct_tasks ct ! j)" "ta_dag (ct_tasks ct ! i) = ta_dag (ct_tasks ct ! j)"
  shows "i = j \<and> busy ct (ta_dag (ct_tasks ct ! i)) = Some i"
proof -
  note a = tasks_ok_active [OF reachable_tasks_ok [OF assms(1)]]
  have "Some i = Some j" unfolding a [OF assms(2,4), symmetric] a [OF assms(3,5), symmetric] assms(6) ..
  then show ?thesis using a [OF assms(2,4)] assms(4) by (auto simp: busy_def)
qed

definition demo_started :: ctrl where
  "demo_started = (case start_run_locked demo_draws ''manual'' ''a'' \<lparr>ri_shared = PNone, ri_nodes = [], ri_append = {}\<rparr>
     (fresh_ctrl empty_db [] []) of Inr (_, ct) \<Rightarrow> ct | Inl _ \<Rightarrow> fresh_ctrl empty_db [] [])"

lemma demo_start: "start_run_locked demo_draws ''manual'' ''a'' \<lparr>ri_shared = PNone, ri_nodes = [], ri_append = {}\<rparr>
     (fresh_ctrl empty_db [] []) = Inr (dw_uuid demo_draws 0, demo_started)"
  by (simp add: demo_started_def start_run_locked_def fresh_ctrl_def busy_def new_run_id_def)

lemma demo_step: "ctrl_step demo_draws own (fresh_ctrl empty_db [] []) demo_started"
  by (rule ctrl_step.start [OF _ demo_start]) (simp add: fresh_ctrl_def)

theorem one_run_per_dag_witness: "busy demo_started ''a'' = Some 0"
proof -
  have t: "length (ct_tasks demo_started) = 1" "ta_dag (ct_tasks demo_started ! 0) = ''a''" "\<not> task_done (ct_tasks demo_started ! 0)"
    by (simp_all add: demo_started_def start_run_locked_def fresh_ctrl_def busy_def new_run_id_def spawn_def task_done_def)
  show ?thesis using one_run_per_dag [OF r_into_rtranclp [of "ctrl_step demo_draws True", OF demo_step], of 0 0] t by simp
qed

section \<open>Rows and tasks\<close>

text \<open>A task executes from the commit of its row on.\<close>

definition executing :: "run_task \<Rightarrow> bool" where
  "executing t = (ta_phase t = Opened \<or> ta_phase t = Running)"

lemma executing_simps [simp]: "executing (t\<lparr>ta_phase := Opened\<rparr>)" "executing (t\<lparr>ta_phase := Running\<rparr>)" "\<not> executing (t\<lparr>ta_phase := Ended e\<rparr>)"
  "executing (t\<lparr>ta_stop := b\<rparr>) = executing t" "ta_phase t = Spawned \<Longrightarrow> \<not> executing t"
  by (simp_all add: executing_def)

lemma executing_not_done: "executing t \<Longrightarrow> \<not> task_done t"
  by (auto simp: executing_def task_done_def)

definition row_running :: "(string \<Rightarrow> dag_run option) \<Rightarrow> string \<Rightarrow> bool" where
  "row_running R r = (case R r of None \<Rightarrow> False | Some x \<Rightarrow> dr_status x = ''running'')"

definition current_row_running :: "string \<Rightarrow> db \<Rightarrow> bool" where
  "current_row_running r d = row_running (\<lambda>x. get_dag_run x d) r"

definition running_row :: "(string \<Rightarrow> dag_run option) \<Rightarrow> run_task \<Rightarrow> bool" where
  "running_row R t = (\<exists>r. R (ta_run t) = Some r \<and> dr_status r = ''running'' \<and> dr_dag r = ta_dag t)"

definition spawned_row :: "(string \<Rightarrow> dag_run option) \<Rightarrow> run_task \<Rightarrow> bool" where
  "spawned_row R t = (if ta_replace t then \<exists>r. R (ta_run t) = Some r \<and> dr_dag r = ta_dag t else R (ta_run t) = None)"

text \<open>Over the tasks, the row of each identifier, and the number of identifiers drawn.\<close>

definition fresh_ids :: "(nat \<Rightarrow> string) \<Rightarrow> run_task list \<Rightarrow> (string \<Rightarrow> dag_run option) \<Rightarrow> nat \<Rightarrow> bool" where
  "fresh_ids u T R k = (\<forall>j \<ge> k. R (u j) = None \<and> u j \<notin> ta_run ` set T)"

definition unfinished_ids :: "run_task list \<Rightarrow> bool" where
  "unfinished_ids T = (\<forall>i < length T. \<forall>j < length T. \<not> task_done (T ! i) \<longrightarrow> \<not> task_done (T ! j) \<longrightarrow> ta_run (T ! i) = ta_run (T ! j) \<longrightarrow> i = j)"

definition phase_rows :: "run_task list \<Rightarrow> (string \<Rightarrow> dag_run option) \<Rightarrow> bool" where
  "phase_rows T R = (\<forall>i < length T. (executing (T ! i) \<longrightarrow> running_row R (T ! i)) \<and> (ta_phase (T ! i) = Spawned \<longrightarrow> spawned_row R (T ! i)))"

definition rows_covered :: "run_task list \<Rightarrow> (string \<Rightarrow> dag_run option) \<Rightarrow> bool" where
  "rows_covered T R = (\<forall>i < length T. row_running R (ta_run (T ! i)) \<longrightarrow> (\<exists>j < length T. executing (T ! j) \<and> ta_run (T ! j) = ta_run (T ! i)))"

definition rows_ok :: "(nat \<Rightarrow> string) \<Rightarrow> run_task list \<Rightarrow> (string \<Rightarrow> dag_run option) \<Rightarrow> nat \<Rightarrow> bool" where
  "rows_ok u T R k = (fresh_ids u T R k \<and> unfinished_ids T \<and> phase_rows T R \<and> rows_covered T R)"

lemma rows_okD: "rows_ok u T R k \<Longrightarrow> fresh_ids u T R k" "rows_ok u T R k \<Longrightarrow> unfinished_ids T"
  "rows_ok u T R k \<Longrightarrow> phase_rows T R" "rows_ok u T R k \<Longrightarrow> rows_covered T R"
  by (simp_all add: rows_ok_def)

lemma rows_ok_other:
  assumes "rows_ok u T R k" "k \<le> k'" "\<And>t. t \<in> set T \<Longrightarrow> R' (ta_run t) = R (ta_run t)" "\<And>j. k' \<le> j \<Longrightarrow> R' (u j) = None"
  shows "rows_ok u T R' k'"
proof -
  have e: "R' (ta_run (T ! i)) = R (ta_run (T ! i))" if "i < length T" for i using assms(3) that by simp
  show ?thesis unfolding rows_ok_def
  proof (intro conjI)
    show "fresh_ids u T R' k'" using assms by (auto simp: rows_ok_def fresh_ids_def)
    show "unfinished_ids T" by (rule rows_okD(2) [OF assms(1)])
    show "phase_rows T R'" using rows_okD(3) [OF assms(1)] e by (simp add: phase_rows_def running_row_def spawned_row_def)
    show "rows_covered T R'" using rows_okD(4) [OF assms(1)] e by (simp add: rows_covered_def row_running_def)
  qed
qed

text \<open>A change of one task that keeps its identity.\<close>

lemma rows_ok_change:
  assumes ok: "rows_ok u T R k" and i: "i < length T" "ta_run t = ta_run (T ! i)" "ta_dag t = ta_dag (T ! i)"
    and d: "task_done (T ! i) \<Longrightarrow> task_done t"
    and R': "\<And>r. r \<noteq> ta_run t \<Longrightarrow> R' r = R r"
    and same: "\<And>j. j < length T \<Longrightarrow> j \<noteq> i \<Longrightarrow> ta_run (T ! j) = ta_run t \<Longrightarrow> \<not> task_done (T ! j) \<Longrightarrow> R' = R"
    and row: "executing t \<Longrightarrow> running_row R' t" "ta_phase t = Spawned \<Longrightarrow> spawned_row R' t"
    and cov: "row_running R' (ta_run t) \<Longrightarrow> executing t \<or> R' = R \<and> \<not> executing (T ! i)"
  shows "rows_ok u (T[i := t]) R' k"
  unfolding rows_ok_def
proof (intro conjI)
  have ids: "ta_run ` set (T[i := t]) \<subseteq> ta_run ` set T"
    using i set_update_subset_insert [of T i t] by (auto intro: rev_image_eqI [OF nth_mem])
  have "R' (u j) = None" if "j \<ge> k" for j
  proof -
    have "u j \<noteq> ta_run t" using rows_okD(1) [OF ok] that i(1,2) by (auto simp: fresh_ids_def intro: rev_image_eqI [OF nth_mem])
    then show ?thesis using R' rows_okD(1) [OF ok] that by (simp add: fresh_ids_def)
  qed
  then show "fresh_ids u (T[i := t]) R' k" using rows_okD(1) [OF ok] ids unfolding fresh_ids_def by blast
  show "unfinished_ids (T[i := t])"
    using rows_okD(2) [OF ok] i d unfolding unfinished_ids_def by (auto simp: nth_list_update)
  have other: "R' (ta_run (T ! j)) = R (ta_run (T ! j))" if "j < length T" "j \<noteq> i" "\<not> task_done (T ! j)" for j
    using R' [of "ta_run (T ! j)"] same [OF that(1,2) _ that(3)] by (cases "ta_run (T ! j) = ta_run t") auto
  show "phase_rows (T[i := t]) R'"
    using rows_okD(3) [OF ok] other row i(1) unfolding phase_rows_def
    by (auto simp: nth_list_update running_row_def spawned_row_def not_done_phase executing_not_done)
  show "rows_covered (T[i := t]) R'"
    unfolding rows_covered_def
  proof (intro allI impI)
    fix j assume j: "j < length (T[i := t])" and r: "row_running R' (ta_run (T[i := t] ! j))"
    have ru: "ta_run (T[i := t] ! j) = ta_run (T ! j)" using i j by (auto simp: nth_list_update)
    show "\<exists>l < length (T[i := t]). executing (T[i := t] ! l) \<and> ta_run (T[i := t] ! l) = ta_run (T[i := t] ! j)"
    proof (cases "ta_run (T ! j) = ta_run t \<and> executing t")
      case True
      then show ?thesis using i(1) ru by (intro exI [of _ i]) simp
    next
      case False
      have "row_running R (ta_run (T ! j)) \<and> (ta_run (T ! j) = ta_run t \<longrightarrow> \<not> executing (T ! i))"
      proof (cases "ta_run (T ! j) = ta_run t")
        case True
        then show ?thesis using False r cov unfolding ru by auto
      next
        case ne: False
        then show ?thesis using r R' [OF ne] unfolding ru row_running_def by simp
      qed
      then have ne: "ta_run (T ! j) = ta_run t \<Longrightarrow> \<not> executing (T ! i)" and "row_running R (ta_run (T ! j))" by auto
      then obtain l where l: "l < length T" "executing (T ! l)" "ta_run (T ! l) = ta_run (T ! j)"
        using rows_okD(4) [OF ok] j by (auto simp: rows_covered_def)
      then have "l \<noteq> i" using ne i(2) by auto
      then show ?thesis using l ru by (intro exI [of _ l]) simp
    qed
  qed
qed

lemma rows_ok_spawn:
  assumes ok: "rows_ok u T R k" and t: "ta_phase t = Spawned" "spawned_row R t" "k \<le> k'" "\<And>j. k' \<le> j \<Longrightarrow> u j \<noteq> ta_run t"
    and new: "\<And>j. j < length T \<Longrightarrow> ta_run (T ! j) = ta_run t \<Longrightarrow> task_done (T ! j)"
    and cov: "\<not> row_running R (ta_run t)"
  shows "rows_ok u (T @ [t]) R k'"
  unfolding rows_ok_def
proof (intro conjI)
  show "fresh_ids u (T @ [t]) R k'" using rows_okD(1) [OF ok] t(3,4) by (auto simp: fresh_ids_def)
  show "unfinished_ids (T @ [t])" using rows_okD(2) [OF ok] new unfolding unfinished_ids_def
    by (auto simp: nth_append less_Suc_eq)
  show "phase_rows (T @ [t]) R" using rows_okD(3) [OF ok] t(1,2) by (auto simp: phase_rows_def nth_append less_Suc_eq)
  show "rows_covered (T @ [t]) R" unfolding rows_covered_def
  proof (intro allI impI)
    fix i assume i: "i < length (T @ [t])" "row_running R (ta_run ((T @ [t]) ! i))"
    then have "i < length T" using cov by (auto simp: nth_append less_Suc_eq)
    then obtain j where "j < length T" "executing (T ! j)" "ta_run (T ! j) = ta_run (T ! i)"
      using rows_okD(4) [OF ok] i(2) by (auto simp: rows_covered_def nth_append)
    then show "\<exists>j < length (T @ [t]). executing ((T @ [t]) ! j) \<and> ta_run ((T @ [t]) ! j) = ta_run ((T @ [t]) ! i)"
      using \<open>i < length T\<close> by (intro exI [of _ j]) (simp add: nth_append)
  qed
qed

section \<open>Rows of the database\<close>

abbreviation rows :: "db \<Rightarrow> string \<Rightarrow> dag_run option" where
  "rows d \<equiv> (\<lambda>r. get_dag_run r d)"

lemma first_update_other: "(\<And>x. key (f x) = key x) \<Longrightarrow> q \<noteq> r \<Longrightarrow>
    first_of (\<lambda>x. key x = r) (update_first (\<lambda>x. key x = q) f rs) = first_of (\<lambda>x. key x = r) rs"
  by (induction rs) (auto simp: first_of_Cons)

lemma get_change_run: "(\<And>x. dr_run (f x) = dr_run x) \<Longrightarrow>
    get_dag_run r (change_run q f d) = (if r = q then map_option f (get_dag_run r d) else get_dag_run r d)"
  by (auto simp: get_dag_run_def change_run_def first_of_update first_update_other [where key = dr_run])

lemma get_runs_eq: "db_runs d' = db_runs d \<Longrightarrow> rows d' = rows d"
  by (simp add: get_dag_run_def)

lemma get_run_key: "get_dag_run r d = Some x \<Longrightarrow> dr_run x = r"
  by (auto simp: get_dag_run_def dest: first_of_Some)

lemma get_finish: "get_dag_run r (snd (finish_dag_run w q status err d)) = (if r = q then map_option
      (\<lambda>x. x\<lparr>dr_status := status, dr_error := err, dr_ended := Some (dw_now w (db_draws d))\<rparr>) (get_dag_run r d) else get_dag_run r d)"
proof -
  have "get_dag_run r (d\<lparr>db_draws := k\<rparr>) = get_dag_run r d" for k r by (simp add: get_dag_run_def)
  then show ?thesis by (simp add: finish_dag_run_def draw_now_def Let_def get_change_run split: option.splits)
qed

lemma get_restart: "get_dag_run r (snd (restart_dag_run q d)) = (if r = q then map_option
      (\<lambda>x. x\<lparr>dr_status := ''running'', dr_error := None, dr_ended := None\<rparr>) (get_dag_run r d) else get_dag_run r d)"
  by (simp add: restart_dag_run_def Let_def get_change_run split: option.splits)

lemma get_create:
  assumes "create_dag_run w i src ns dag ro d = Inr (x, d')"
  shows "get_dag_run i d = None \<and> dr_status x = ''running'' \<and> dr_dag x = dag \<and> (\<forall>r. get_dag_run r d' = (if r = i then Some x else get_dag_run r d))"
proof -
  have d: "\<forall>y \<in> set (db_runs d). dr_run y \<noteq> i" "db_runs d' = db_runs d @ [x]" "dr_run x = i" "dr_status x = ''running''" "dr_dag x = dag"
    using assms by (auto simp: create_dag_run_def draw_now_def Let_def list_ex_iff split: if_splits)
  have i: "get_dag_run i d = None" using d(1) by (simp add: get_dag_run_def first_of_None)
  have "get_dag_run r d' = (if r = i then Some x else get_dag_run r d)" for r
    using d(3) i by (auto simp: get_dag_run_def d(2) first_of_append first_of_Cons first_of_def [of _ "[]"] split: option.split)
  then show ?thesis using d i by auto
qed

lemma store_outputs_runs: "store_outputs w run_id n ty sid vs st d = Inr (rs, d') \<Longrightarrow> db_runs d' = db_runs d"
proof (induction vs arbitrary: st d)
  case (Cons v vs)
  then obtain st1 d1 where "store_output w run_id n ty sid v st d = Inr (st1, d1)" "db_runs d' = db_runs d1" by auto
  then show ?case unfolding store_output_def Let_def by (auto split: if_splits)
qed simp

lemma recorded_rows:
  assumes "recorded w tops d d'"
  shows "(\<forall>r \<in> tops. get_dag_run r d' = get_dag_run r d) \<and> (\<forall>r. get_dag_run r d = None \<longrightarrow> get_dag_run r d' = None)"
  using assms
proof (induction rule: recorded.induct)
  case (node r d n status err kind meta)
  show ?case using get_runs_eq [OF mark_other(1)] by metis
next
  case (edge d r u v opt status has err)
  have "rows (snd (upsert_edge_input w r u v opt status has err d)) = rows d"
    by (rule get_runs_eq) (simp add: upsert_edge_input_def draw_now_def Let_def split: option.splits)
  then show ?case by metis
next
  case (outputs r n ty p sid d rs d')
  have "rows d' = rows d" by (rule get_runs_eq) (use outputs store_outputs_runs in \<open>simp add: store_node_output_entities_def\<close>)
  then show ?case by metis
next
  case (raw_log d r n path digest sz kind)
  have "rows (snd (record_log_index w r n path digest sz kind d)) = rows d"
    by (rule get_runs_eq) (simp add: record_log_index_def draw_now_def Let_def)
  then show ?case by metis
next
  case (source d r n src s)
  have "rows (snd (upsert_source_recovery w r n src s d)) = rows d"
    by (rule get_runs_eq) (simp add: upsert_source_recovery_def draw_now_def Let_def split: option.splits)
  then show ?case by metis
next
  case (child_end r d status err)
  then show ?case by (auto simp: get_finish)
qed

abbreviation ctrl_rows_ok :: "draws \<Rightarrow> ctrl \<Rightarrow> bool" where
  "ctrl_rows_ok w ct \<equiv> rows_ok (dw_uuid w) (ct_tasks ct) (rows (ct_db ct)) (ct_draws ct)"

lemma rows_finish:
  assumes ok: "ctrl_rows_ok w ct" and i: "i < length (ct_tasks ct)" "executing (ct_tasks ct ! i)"
    and st: "status \<noteq> ''running''" and db: "rows d = rows (ct_db ct)"
  shows "ctrl_rows_ok w (finish_task w i status error e (ct\<lparr>ct_db := d\<rparr>))"
proof -
  let ?t = "ct_tasks ct ! i"
  let ?d = "snd (finish_dag_run w (ta_run ?t) status error d)"
  have R: "get_dag_run r ?d = get_dag_run r (ct_db ct)" if "r \<noteq> ta_run ?t" for r
    using fun_cong [OF db, of r] that by (simp add: get_finish)
  have "rows_ok (dw_uuid w) ((ct_tasks ct)[i := ?t\<lparr>ta_phase := Ended e\<rparr>]) (rows ?d) (ct_draws ct)"
  proof (rule rows_ok_change [OF ok i(1)])
    show "\<And>r. r \<noteq> ta_run (?t\<lparr>ta_phase := Ended e\<rparr>) \<Longrightarrow> get_dag_run r ?d = get_dag_run r (ct_db ct)" using R by simp
    show "rows ?d = rows (ct_db ct)" if "j < length (ct_tasks ct)" "j \<noteq> i" "ta_run (ct_tasks ct ! j) = ta_run (?t\<lparr>ta_phase := Ended e\<rparr>)"
      "\<not> task_done (ct_tasks ct ! j)" for j
      using rows_okD(2) [OF ok] that i executing_not_done [OF i(2)] by (auto simp: unfinished_ids_def)
    assume "row_running (rows ?d) (ta_run (?t\<lparr>ta_phase := Ended e\<rparr>))"
    then show "executing (?t\<lparr>ta_phase := Ended e\<rparr>) \<or> rows ?d = rows (ct_db ct) \<and> \<not> executing ?t"
      using st by (auto simp: row_running_def get_finish split: option.splits)
  qed simp_all
  then show ?thesis by (simp add: finish_task_def Let_def set_phase_def)
qed

lemma rows_open:
  assumes ok: "ctrl_rows_ok w ct" and i: "i < length (ct_tasks ct)" "ta_phase (ct_tasks ct ! i) = Spawned"
  shows "ctrl_rows_ok w (task_open w i ct)"
proof (cases "rbind (task_nodes (ct_tasks ct ! i) ct) (\<lambda>ns. task_row w (ct_tasks ct ! i) ns (ct_db ct))")
  case (Inl e)
  let ?t = "(ct_tasks ct ! i)\<lparr>ta_phase := Ended (Some e)\<rparr>"
  have "rows_ok (dw_uuid w) ((ct_tasks ct)[i := ?t]) (rows (ct_db ct)) (ct_draws ct)"
    by (rule rows_ok_change [OF ok i(1)]) (use i(2) in simp_all)
  then show ?thesis by (simp add: task_open_def Let_def Inl set_phase_def)
next
  case (Inr d)
  let ?t = "(ct_tasks ct ! i)\<lparr>ta_phase := Opened\<rparr>"
  have sp: "spawned_row (rows (ct_db ct)) (ct_tasks ct ! i)" using rows_okD(3) [OF ok] i by (simp add: phase_rows_def)
  obtain ns where ns: "task_row w (ct_tasks ct ! i) ns (ct_db ct) = Inr d" using Inr by auto
  have "running_row (rows d) ?t \<and> (\<forall>r. r \<noteq> ta_run ?t \<longrightarrow> get_dag_run r d = get_dag_run r (ct_db ct))"
  proof (cases "ta_replace (ct_tasks ct ! i)")
    case True
    then have "d = snd (restart_dag_run (ta_run ?t) (ct_db ct))" using ns by (simp add: task_row_def)
    then show ?thesis using sp True by (auto simp: get_restart running_row_def spawned_row_def)
  next
    case False
    then obtain x where "create_dag_run w (ta_run ?t) (ta_source ?t) ns (ta_dag ?t) (ta_retry_of ?t) (ct_db ct) = Inr (x, d)"
      using ns by (auto simp: task_row_def)
    from get_create [OF this] show ?thesis by (auto simp: running_row_def)
  qed
  then have r: "running_row (rows d) ?t" "\<And>r. r \<noteq> ta_run ?t \<Longrightarrow> get_dag_run r d = get_dag_run r (ct_db ct)" by auto
  have "rows_ok (dw_uuid w) ((ct_tasks ct)[i := ?t]) (rows d) (ct_draws ct)"
  proof (rule rows_ok_change [OF ok i(1)])
    show "rows d = rows (ct_db ct)" if "j < length (ct_tasks ct)" "j \<noteq> i" "ta_run (ct_tasks ct ! j) = ta_run ?t" "\<not> task_done (ct_tasks ct ! j)" for j
      using rows_okD(2) [OF ok] that i by (auto simp: unfinished_ids_def not_done_phase)
  qed (use r i(2) in \<open>simp_all add: task_done_def\<close>)
  then show ?thesis by (simp add: task_open_def Let_def Inr set_phase_def del: rbind_eq_Inr)
qed

lemma rows_enter:
  assumes ok: "ctrl_rows_ok w ct" and i: "i < length (ct_tasks ct)" "ta_phase (ct_tasks ct ! i) = Opened"
  shows "ctrl_rows_ok w (task_enter i ct)"
proof -
  let ?t = "(ct_tasks ct ! i)\<lparr>ta_phase := Running\<rparr>"
  have ex: "executing (ct_tasks ct ! i)" using i(2) by (simp add: executing_def)
  then have r: "running_row (rows (ct_db ct)) (ct_tasks ct ! i)" using rows_okD(3) [OF ok] i(1) by (simp add: phase_rows_def)
  have "rows_ok (dw_uuid w) ((ct_tasks ct)[i := ?t]) (rows (ct_db ct)) (ct_draws ct)"
    by (rule rows_ok_change [OF ok i(1)]) (use r executing_not_done [OF ex] in \<open>simp_all add: running_row_def\<close>)
  then show ?thesis by (simp add: task_enter_def set_phase_def)
qed

lemma status_not_running: "run_status t outs \<noteq> ''running''"
  by (simp add: run_status_def result_status_def)

lemma rows_cancel:
  assumes ok: "ctrl_rows_ok w ct" and i: "task_in ct i Spawned \<or> task_in ct i Running"
  shows "ctrl_rows_ok w (task_cancel w i ct)"
proof (cases "ta_phase (ct_tasks ct ! i) = Spawned")
  case True
  let ?t = "(ct_tasks ct ! i)\<lparr>ta_phase := Ended (Some cancelled_error)\<rparr>"
  have "rows_ok (dw_uuid w) ((ct_tasks ct)[i := ?t]) (rows (ct_db ct)) (ct_draws ct)"
    by (rule rows_ok_change [OF ok]) (use True i in \<open>auto simp: task_in_def\<close>)
  then show ?thesis by (simp add: task_cancel_def True set_phase_def)
next
  case False
  have "ctrl_rows_ok w (finish_task w i ''cancelled'' None (Some cancelled_error) (ct\<lparr>ct_db := ct_db ct\<rparr>))"
    by (rule rows_finish [OF ok]) (use False i in \<open>auto simp: task_in_def executing_def\<close>)
  then show ?thesis using False i by (auto simp: task_cancel_def task_in_def)
qed

lemma rows_spawn_new:
  assumes ok: "ctrl_rows_ok w ct" and u: "inj (dw_uuid w)"
    and t: "ta_phase t = Spawned" "ta_replace t = False" "ta_run t = dw_uuid w (ct_draws ct)"
  shows "ctrl_rows_ok w (spawn t (ct\<lparr>ct_draws := Suc (ct_draws ct)\<rparr>))"
proof -
  have f: "get_dag_run (ta_run t) (ct_db ct) = None" "ta_run t \<notin> ta_run ` set (ct_tasks ct)"
    using rows_okD(1) [OF ok] t(3) by (auto simp: fresh_ids_def)
  have "rows_ok (dw_uuid w) (ct_tasks ct @ [t]) (rows (ct_db ct)) (Suc (ct_draws ct))"
  proof (rule rows_ok_spawn [OF ok t(1)])
    show "dw_uuid w j \<noteq> ta_run t" if "Suc (ct_draws ct) \<le> j" for j using that inj_eq [OF u] t(3) by auto
    show "task_done (ct_tasks ct ! j)" if "j < length (ct_tasks ct)" "ta_run (ct_tasks ct ! j) = ta_run t" for j
      using f(2) that by (metis imageI nth_mem)
  qed (use f t(2) in \<open>simp_all add: spawned_row_def row_running_def\<close>)
  then show ?thesis by (simp add: spawn_def)
qed

lemma rows_resume:
  assumes ok: "ctrl_rows_ok w ct" "tasks_ok ct" and b: "busy ct (ta_dag t) = None" and m: "may_resume True (ta_dag t) (ta_run t) ct"
    and t: "ta_phase t = Spawned" "ta_replace t" "get_dag_run (ta_run t) (ct_db ct) = Some r" and d: "rows d = rows (ct_db ct)"
  shows "ctrl_rows_ok w (spawn t (ct\<lparr>ct_db := d\<rparr>))"
proof -
  have r: "dr_dag r = ta_dag t" "dr_status r \<noteq> ''running''" using m t(3) by (auto simp: may_resume_def)
  have "rows_ok (dw_uuid w) (ct_tasks ct @ [t]) (rows (ct_db ct)) (ct_draws ct)"
  proof (rule rows_ok_spawn [OF ok(1) t(1) _ order_refl])
    show "spawned_row (rows (ct_db ct)) t" using t r by (simp add: spawned_row_def)
    show "dw_uuid w j \<noteq> ta_run t" if "ct_draws ct \<le> j" for j using rows_okD(1) [OF ok(1)] that t(3) by (auto simp: fresh_ids_def)
    show "\<not> row_running (rows (ct_db ct)) (ta_run t)" using t(3) r by (simp add: row_running_def)
    fix j assume j: "j < length (ct_tasks ct)" "ta_run (ct_tasks ct ! j) = ta_run t"
    have "running_row (rows (ct_db ct)) (ct_tasks ct ! j)" if "executing (ct_tasks ct ! j)"
      using rows_okD(3) [OF ok(1)] j that by (simp add: phase_rows_def)
    moreover have "spawned_row (rows (ct_db ct)) (ct_tasks ct ! j)" if "ta_phase (ct_tasks ct ! j) = Spawned"
      using rows_okD(3) [OF ok(1)] j that by (simp add: phase_rows_def)
    ultimately show "task_done (ct_tasks ct ! j)"
      using t(3) r j tasks_ok_busy [OF ok(2) b j(1)]
      by (cases "ta_phase (ct_tasks ct ! j)") (auto simp: running_row_def spawned_row_def task_done_def executing_def split: if_splits)
  qed
  then show ?thesis by (simp add: spawn_def d)
qed

lemma ctrl_rows_frame: "ctrl_rows_ok w ct \<Longrightarrow> ct_tasks ct' = ct_tasks ct \<Longrightarrow> ct_db ct' = ct_db ct \<Longrightarrow> ct_draws ct' = ct_draws ct \<Longrightarrow>
    ctrl_rows_ok w ct'"
  by simp

lemma release_simps [simp]: "ct_tasks (release_lock dag ct) = ct_tasks ct" "ct_db (release_lock dag ct) = ct_db ct"
  "ct_draws (release_lock dag ct) = ct_draws ct" "ct_tasks (hold_lock dag b ct) = ct_tasks ct" "ct_db (hold_lock dag b ct) = ct_db ct"
  "ct_draws (hold_lock dag b ct) = ct_draws ct"
  by (simp_all add: release_lock_def hold_lock_def)

lemma step_rows_ok: "ctrl_step w own ct ct' \<Longrightarrow> own \<Longrightarrow> inj (dw_uuid w) \<Longrightarrow> tasks_ok ct \<Longrightarrow> ctrl_rows_ok w ct \<Longrightarrow> ctrl_rows_ok w ct'"
proof (induction rule: ctrl_step.induct)
  case (start ct dag source inputs r ct')
  from start_spawns [OF start(2)] show ?case using rows_spawn_new [OF start(6,4)] by blast
next
  case (retry ct dag run_id ns mode inputs x ct')
  from retry_spawns [OF retry(2)] show ?case using rows_spawn_new [OF retry(6,4)] by auto
next
  case (trigger ct dag source n payload app x ct')
  from trigger_spawns [OF trigger(2)] show ?case using rows_spawn_new [OF trigger(6,4)] by auto
next
  case (resume ct dag run_id n payload x ct')
  obtain t ns where t: "ct' = spawn t (ct\<lparr>ct_db := delete_node_outputs_for_nodes run_id ns (ct_db ct)\<rparr>)" "ta_dag t = dag"
    "ta_phase t = Spawned" "ta_replace t" "ta_run t = run_id" "get_dag_run run_id (ct_db ct) \<noteq> None"
    using resume_spawns [OF resume(3)] by blast
  have "rows (delete_node_outputs_for_nodes run_id ns (ct_db ct)) = rows (ct_db ct)"
    by (rule get_runs_eq) (simp add: delete_node_outputs_for_nodes_def)
  moreover have "busy ct dag = None" using resume(1,6) by (auto simp: tasks_ok_def)
  moreover obtain r where "get_dag_run run_id (ct_db ct) = Some r" using t(6) by auto
  ultimately have "ctrl_rows_ok w ct'" unfolding t(1) using t(2-5) resume(2,4,6,7) by (intro rows_resume [where r = r]) simp_all
  then show ?case by simp
next
  case (open_task ct i)
  then show ?case by (intro rows_open) (simp_all add: task_in_def)
next
  case (enter_task ct i)
  then show ?case by (intro rows_enter) (simp_all add: task_in_def)
next
  case (record_rows ct d)
  note rec = recorded_rows [OF record_rows(1)]
  have "rows_ok (dw_uuid w) (ct_tasks ct) (rows d) (ct_draws ct)"
    by (rule rows_ok_other [OF record_rows(5) order_refl])
      (use rec rows_okD(1) [OF record_rows(5)] in \<open>auto simp: fresh_ids_def\<close>)
  then show ?case by simp
next
  case (child ct source dag r d)
  note c = get_create [OF child(1)]
  have "rows_ok (dw_uuid w) (ct_tasks ct) (rows d) (Suc (ct_draws ct))"
  proof (rule rows_ok_other [OF child(5)])
    show "get_dag_run (ta_run t) d = get_dag_run (ta_run t) (ct_db ct)" if "t \<in> set (ct_tasks ct)" for t
      using rows_okD(1) [OF child(5)] that c by (force simp: fresh_ids_def)
    show "get_dag_run (dw_uuid w j) d = None" if "Suc (ct_draws ct) \<le> j" for j
      using c that rows_okD(1) [OF child(5)] inj_eq [OF child(3)] by (auto simp: fresh_ids_def)
  qed simp
  then show ?case by simp
next
  case (end_task ct i keep hours outs fails)
  let ?c = "cleanup_node_output_entities w keep hours (ct_db ct)"
  have "rows ?c = rows (ct_db ct)"
    by (rule get_runs_eq) (simp add: cleanup_node_output_entities_def draw_now_def Let_def)
  moreover have fin: "ctrl_rows_ok w (finish_task w i (run_status (ct_tasks ct ! i) outs) err None (ct\<lparr>ct_db := d\<rparr>))"
    if "rows d = rows (ct_db ct)" for d err
    by (rule rows_finish [OF end_task(5) _ _ status_not_running that]) (use end_task(1) in \<open>simp_all add: task_in_def executing_def\<close>)
  ultimately show ?case using fin [of "ct_db ct"] fin [of ?c] unfolding task_end_def Let_def
    by (cases "ta_retry (ct_tasks ct ! i) = None \<and> ta_single (ct_tasks ct ! i) = None \<and> run_status (ct_tasks ct ! i) outs = ''succeeded''") auto
next
  case (fail_task ct i e)
  have "ctrl_rows_ok w (task_fail w i e (ct\<lparr>ct_db := ct_db ct\<rparr>))" unfolding task_fail_def
    by (rule rows_finish [OF fail_task(5)]) (use fail_task(1) in \<open>simp_all add: task_in_def executing_def\<close>)
  then show ?case by simp
next
  case (cancel_task ct i)
  then show ?case by (intro rows_cancel) auto
next
  case (clear_task i ct)
  then show ?case by (simp add: clear_finished_task_def Let_def)
next
  case (set_stop i ct)
  let ?t = "(ct_tasks ct ! i)\<lparr>ta_stop := True\<rparr>"
  have "rows_ok (dw_uuid w) ((ct_tasks ct)[i := ?t]) (rows (ct_db ct)) (ct_draws ct)"
    by (rule rows_ok_change [OF set_stop(5,1)])
      (use rows_okD(3) [OF set_stop(5)] set_stop(1) in \<open>auto simp: phase_rows_def running_row_def spawned_row_def\<close>)
  then show ?case by simp
qed simp_all

text \<open>C12: In every state the modelled steps reach, the row of a run that the controller started says \<open>running\<close> exactly while a task
  of that run executes, which is from the commit of its row until it returns, fails or is cancelled, whatever else is started,
  retried, triggered or recorded meanwhile. Excluded (\<open>own\<close>): resumptions of a run that is not finished or belongs to another
  DAG, and the cancellation of a task between the commit of its row and its \<open>try\<close>, which leaves the row as running. The ids
  that are drawn are distinct and new to the database; finishing a row and ending its task is one step.\<close>

theorem run_rows_follow_tasks:
  assumes "(ctrl_step w True)\<^sup>*\<^sup>* (fresh_ctrl d dags nodes) ct" "inj (dw_uuid w)"
    "range (dw_uuid w) \<inter> dr_run ` set (db_runs d) = {}" "t \<in> set (ct_tasks ct)"
  shows "current_row_running (ta_run t) (ct_db ct) \<longleftrightarrow> (\<exists>u \<in> set (ct_tasks ct). ta_run u = ta_run t \<and> executing u)"
proof -
  have "get_dag_run (dw_uuid w j) d = None" for j
    using assms(3) by (auto simp: get_dag_run_def first_of_None)
  then have "ctrl_rows_ok w (fresh_ctrl d dags nodes)"
    by (simp add: fresh_ctrl_def rows_ok_def fresh_ids_def unfinished_ids_def phase_rows_def rows_covered_def)
  with assms(1) have "tasks_ok ct \<and> ctrl_rows_ok w ct"
    by (induction rule: rtranclp_induct) (use assms(2) in \<open>auto intro: fresh_tasks_ok step_tasks_ok step_rows_ok\<close>)
  then have p: "phase_rows (ct_tasks ct) (rows (ct_db ct))" and c: "rows_covered (ct_tasks ct) (rows (ct_db ct))"
    by (simp_all add: rows_ok_def)
  obtain i where i: "i < length (ct_tasks ct)" "ct_tasks ct ! i = t" using assms(4) by (auto simp: in_set_conv_nth)
  show ?thesis
  proof
    assume "current_row_running (ta_run t) (ct_db ct)"
    then obtain j where "j < length (ct_tasks ct)" "executing (ct_tasks ct ! j)" "ta_run (ct_tasks ct ! j) = ta_run t"
      using c i by (auto simp: rows_covered_def current_row_running_def)
    then show "\<exists>u \<in> set (ct_tasks ct). ta_run u = ta_run t \<and> executing u" by (intro bexI [of _ "ct_tasks ct ! j"]) simp_all
  next
    assume "\<exists>u \<in> set (ct_tasks ct). ta_run u = ta_run t \<and> executing u"
    then obtain j where "j < length (ct_tasks ct)" "executing (ct_tasks ct ! j)" "ta_run (ct_tasks ct ! j) = ta_run t"
      by (auto simp: in_set_conv_nth)
    then show "current_row_running (ta_run t) (ct_db ct)"
      using p by (auto simp: phase_rows_def running_row_def current_row_running_def row_running_def)
  qed
qed

definition demo_ids :: draws where
  "demo_ids = demo_draws\<lparr>dw_uuid := (\<lambda>n. replicate n (CHR ''u''))\<rparr>"

definition demo_locked :: ctrl where
  "demo_locked = hold_lock ''s'' False (fresh_ctrl empty_db tiny_dags tiny_nodes)"

definition demo_triggered :: ctrl where
  "demo_triggered = (case run_node_trigger demo_ids ''trigger:t'' ''s'' ''n_k'' PNone False demo_locked of Inr (_, ct) \<Rightarrow> ct | Inl _ \<Rightarrow> demo_locked)"

definition demo_running :: ctrl where
  "demo_running = task_enter 0 (task_open demo_ids 0 (release_lock ''s'' demo_triggered))"

lemma demo_trigger: "\<exists>x. run_node_trigger demo_ids ''trigger:t'' ''s'' ''n_k'' PNone False demo_locked = Inr (x, demo_triggered)"
proof -
  have "case run_node_trigger demo_ids ''trigger:t'' ''s'' ''n_k'' PNone False demo_locked of Inl _ \<Rightarrow> False | Inr _ \<Rightarrow> True"
    by code_simp
  then show ?thesis by (auto simp: demo_triggered_def split: sum.splits)
qed

lemma demo_running_reachable: "(ctrl_step demo_ids True)\<^sup>*\<^sup>* (fresh_ctrl empty_db tiny_dags tiny_nodes) demo_running"
proof -
  have "ctrl_step demo_ids True (fresh_ctrl empty_db tiny_dags tiny_nodes) demo_locked"
    unfolding demo_locked_def by (rule ctrl_step.lock) (simp add: fresh_ctrl_def)
  moreover have "ctrl_step demo_ids True demo_locked (release_lock ''s'' demo_triggered)"
    using demo_trigger by (auto intro!: ctrl_step.trigger simp: demo_locked_def hold_lock_def)
  moreover have "ctrl_step demo_ids True (release_lock ''s'' demo_triggered) (task_open demo_ids 0 (release_lock ''s'' demo_triggered))"
    by (rule ctrl_step.open_task) code_simp
  moreover have "ctrl_step demo_ids True (task_open demo_ids 0 (release_lock ''s'' demo_triggered)) demo_running"
    unfolding demo_running_def by (rule ctrl_step.enter_task) code_simp
  ultimately show ?thesis by (meson converse_rtranclp_into_rtranclp r_into_rtranclp)
qed

theorem run_rows_follow_tasks_witness: "current_row_running (ta_run (ct_tasks demo_running ! 0)) (ct_db demo_running)"
proof -
  have "length (ct_tasks demo_running) = 1 \<and> ta_phase (ct_tasks demo_running ! 0) = Running" by code_simp
  then have t: "ct_tasks demo_running ! 0 \<in> set (ct_tasks demo_running)" "executing (ct_tasks demo_running ! 0)"
    by (auto simp: executing_def)
  have "inj (dw_uuid demo_ids)" by (auto simp: inj_def demo_ids_def)
  then show ?thesis using run_rows_follow_tasks [OF demo_running_reachable _ _ t(1)] t by (auto simp: empty_db_def)
qed

end
