(* ===== verification/RetryProps.thy ===== *)
theory RetryProps
  imports ControllerProps RunProps
begin

text \<open>
  What a retry reuses and executes: the nodes downstream of the chosen ones, the inputs a retry needs, what the
  retried run leaves undone, and the outputs it restores from the database.
\<close>

section \<open>Downstream nodes\<close>

lemma downstream_closure:
  "(\<forall>x \<in> F. set (succs g x) \<subseteq> F \<union> set st) \<Longrightarrow> downstream g st F = F \<union> (edge_rel g)\<^sup>* `` set st"
proof (induction g st F rule: downstream.induct)
  case (2 g n st F)
  show ?case
  proof (cases "n \<in> F")
    case True
    have inv: "\<forall>x \<in> F. set (succs g x) \<subseteq> F \<union> set st" using 2(3) True by auto
    have "x \<in> F \<union> (edge_rel g)\<^sup>* `` set st" if "(n, x) \<in> (edge_rel g)\<^sup>*" for x
      using that
    proof (induction rule: rtrancl_induct)
      case (step y z)
      from step(3) show ?case
      proof
        assume "y \<in> F"
        then have "z \<in> F \<union> set st" using inv step(2) by (auto simp: edge_rel_def)
        then show ?thesis by auto
      qed (use step(2) in \<open>auto intro: rtrancl_into_rtrancl\<close>)
    qed (use True in simp)
    then show ?thesis using 2(1) [OF True inv] True by auto
  next
    case False
    have inv: "\<forall>x \<in> insert n F. set (succs g x) \<subseteq> insert n F \<union> set (rev (succs g n) @ st)" using 2(3) by auto
    have n: "(edge_rel g)\<^sup>* `` {n} = insert n ((edge_rel g)\<^sup>* `` set (succs g n))"
      by (auto simp: edge_rel_def elim: converse_rtranclE intro: converse_rtrancl_into_rtrancl)
    have e: "downstream g (n # st) F = insert n F \<union> (edge_rel g)\<^sup>* `` set (rev (succs g n) @ st)"
      using 2(2) [OF False inv] False by simp
    show ?thesis unfolding e using n by auto
  qed
qed simp

lemma downstream_nodes_iff: "x \<in> downstream_nodes g n \<longleftrightarrow> (n, x) \<in> (edge_rel g)\<^sup>*"
  using downstream_closure [of "{}" g "[n]"] by (simp add: downstream_nodes_def del: downstream.simps)

section \<open>The plan of a retry\<close>

definition retried_nodes :: "dag_graph \<Rightarrow> string list \<Rightarrow> string \<Rightarrow> string set" where
  "retried_nodes g ns mode = (if mode = ''single'' then set ns else (edge_rel g)\<^sup>* `` set ns)"

definition inputs_ready :: "retry_plan \<Rightarrow> bool" where
  "inputs_ready p = (\<forall>n \<in> rp_nodes p. \<forall>u \<in> set (preds (rp_graph p) n). u \<in> rp_nodes p \<or> u \<in> set (dkeys (rp_prefilled p)))"

lemma dappend_keys [simp]: "set (dkeys (dappend d k x)) = insert k (set (dkeys d))" "distinct (dkeys d) \<Longrightarrow> distinct (dkeys (dappend d k x))"
  by (auto simp: dappend_def dhas_keys [symmetric] simp del: set_map)

lemma payloads_keys:
  "distinct (dkeys (payloads_of g retry es)) \<and> set (dkeys (payloads_of g retry es)) \<subseteq> {n. dhas (dg_instances g) n \<and> n \<notin> retry}"
proof -
  have "distinct (dkeys (fold (\<lambda>e d. let n = str_or (aget (en_attrs e) ''node_id'') [] in
     if dhas (dg_instances g) n \<and> n \<notin> retry then dappend d n (aget (en_attrs e) ''payload'') else d) es d)) \<and>
     set (dkeys (fold (\<lambda>e d. let n = str_or (aget (en_attrs e) ''node_id'') [] in
     if dhas (dg_instances g) n \<and> n \<notin> retry then dappend d n (aget (en_attrs e) ''payload'') else d) es d))
      \<subseteq> {n. dhas (dg_instances g) n \<and> n \<notin> retry}"
    if "distinct (dkeys d) \<and> set (dkeys d) \<subseteq> {n. dhas (dg_instances g) n \<and> n \<notin> retry}" for d
    using that by (induction es arbitrary: d) (auto simp: Let_def simp del: set_map)
  from this [of "[]"] show ?thesis by (simp add: payloads_of_def)
qed

lemma prefilled_keys:
  assumes "prefilled_outputs r g retry d = Inr pre"
  shows "distinct (dkeys pre) \<and> set (dkeys pre) \<subseteq> {n. dhas (dg_instances g) n \<and> n \<notin> retry}"
proof -
  let ?P = "\<lambda>d. distinct (dkeys d) \<and> set (dkeys d) \<subseteq> {n. dhas (dg_instances g) n \<and> n \<notin> retry}"
  let ?b = "map (\<lambda>(n, vs). (n, restored_output n vs)) (payloads_of g retry (query_node_output_entities None (Some r) None None 10000 d))"
  have "dkeys ?b = dkeys (payloads_of g retry (query_node_output_entities None (Some r) None None 10000 d))" by auto
  then have b: "?P ?b" using payloads_keys by metis
  have "?P (fold (add_failed g retry) fs x)" if "?P x" for fs x
    using that
  proof (induction fs arbitrary: x)
    case (Cons f fs)
    then have "?P (add_failed g retry f x)" by (auto simp: add_failed_def dhas_keys [symmetric] simp del: set_map)
    then show ?case using Cons.IH by simp
  qed simp
  then have "?P (fold (add_failed g retry) (edge_inputs_for_run r d) ?b)" using b by blast
  moreover have "pre = fold (add_failed g retry) (edge_inputs_for_run r d) ?b"
    using assms by (auto simp: prefilled_outputs_def split: option.splits)
  ultimately show ?thesis by simp
qed

lemma missing_none: "missing_prefilled_inputs g retry pre {} = [] \<longleftrightarrow>
    (\<forall>n \<in> retry. \<forall>u \<in> set (preds g n). u \<in> retry \<or> u \<in> pre)"
proof -
  have k: "n \<in> set (dkeys (dg_reverse g))" if "u \<in> set (preds g n)" for u n
    using that unfolding preds_def dget_default_def dhas_keys [symmetric] by (cases "dget (dg_reverse g) n") (auto simp: dhas_def)
  have "u \<in> set (missing_prefilled_inputs g retry pre {}) \<longleftrightarrow> (\<exists>n \<in> retry. u \<in> set (preds g n) \<and> u \<notin> retry \<and> u \<notin> pre)" for u
  proof -
    have "u \<in> set (missing_prefilled_inputs g retry pre {}) \<longleftrightarrow> (\<exists>n \<in> set (dkeys (dg_reverse g)). u \<in> set (if n \<in> retry then
        filter (\<lambda>u. u \<notin> retry \<and> u \<notin> pre \<and> u \<notin> {}) (preds g n) else []))"
      by (simp only: missing_prefilled_inputs_def set_sort set_remdups set_concat set_map image_image UN_iff bex_simps(7))
    also have "\<dots> \<longleftrightarrow> (\<exists>n \<in> retry. u \<in> set (preds g n) \<and> u \<notin> retry \<and> u \<notin> pre)"
      using k by (auto split: if_splits simp del: set_map)
    finally show ?thesis .
  qed
  moreover have "missing_prefilled_inputs g retry pre {} = [] \<longleftrightarrow> (\<forall>u. u \<notin> set (missing_prefilled_inputs g retry pre {}))" by auto
  ultimately show ?thesis by blast
qed

lemma plan_parts:
  assumes "retry_node_plan dag run_id ns mode ct = Inr p"
  shows "\<exists>d. load_graph d (cl_nodes (rp_closure p)) (Some (cl_dags (rp_closure p))) = Inr (rp_graph p)"
    "rp_nodes p = retried_nodes (rp_graph p) ns mode" "set ns \<subseteq> set (dg_nodes (rp_graph p))"
    "prefilled_outputs (rp_original p) (rp_graph p) (rp_nodes p) (ct_db ct) = Inr (rp_prefilled p)"
    "missing_prefilled_inputs (rp_graph p) (rp_nodes p) (set (dkeys (rp_prefilled p))) {} = []"
proof -
  obtain c g orig pre where p: "closure_graph c = Inr g" "filter (\<lambda>n. \<not> dhas (dg_instances g) n) ns = []"
    "prefilled_outputs orig g (if mode = ''single'' then set ns else downstream_union g ns) (ct_db ct) = Inr pre"
    "missing_prefilled_inputs g (if mode = ''single'' then set ns else downstream_union g ns) (set (dkeys pre)) {} = []"
    "p = \<lparr>rp_closure = c, rp_graph = g, rp_original = orig, rp_nodes = (if mode = ''single'' then set ns else downstream_union g ns), rp_prefilled = pre\<rparr>"
    using assms by (auto simp: retry_node_plan_def Let_def split: if_splits)
  obtain dd where dd: "load_graph dd (cl_nodes c) (Some (cl_dags c)) = Inr g" using p(1) by (auto simp: closure_graph_def)
  then show "\<exists>d. load_graph d (cl_nodes (rp_closure p)) (Some (cl_dags (rp_closure p))) = Inr (rp_graph p)" by (auto simp: p(5))
  have "dkeys (dg_instances g) = dg_nodes g" using load_graph_wf(1) [OF dd] by (simp add: wf_graph_def)
  then show "set ns \<subseteq> set (dg_nodes (rp_graph p))" using p(2) by (auto simp: p(5) filter_empty_conv dhas_keys)
  have "downstream_union g ns = (edge_rel g)\<^sup>* `` set ns" by (auto simp: downstream_union_def downstream_nodes_iff)
  then show "rp_nodes p = retried_nodes (rp_graph p) ns mode" by (simp add: p(5) retried_nodes_def)
  show "prefilled_outputs (rp_original p) (rp_graph p) (rp_nodes p) (ct_db ct) = Inr (rp_prefilled p)"
    "missing_prefilled_inputs (rp_graph p) (rp_nodes p) (set (dkeys (rp_prefilled p))) {} = []" using p(3,4) by (simp_all add: p(5))
qed

lemma plan_ready:
  assumes "retry_node_plan dag run_id ns mode ct = Inr p"
  shows "inputs_ready p" "rp_nodes p \<inter> set (dkeys (rp_prefilled p)) = {}" "rp_nodes p = retried_nodes (rp_graph p) ns mode"
    "set (dkeys (rp_prefilled p)) \<subseteq> set (dg_nodes (rp_graph p))" "distinct (dkeys (rp_prefilled p))"
    "rp_nodes p \<subseteq> set (dg_nodes (rp_graph p))" "wf_graph (rp_graph p)" "acyclic (edge_rel (rp_graph p))"
proof -
  note pp = plan_parts [OF assms]
  show "inputs_ready p" using pp(5) by (simp add: missing_none inputs_ready_def)
  note pk = prefilled_keys [OF pp(4)]
  then show "rp_nodes p \<inter> set (dkeys (rp_prefilled p)) = {}" "distinct (dkeys (rp_prefilled p))" by auto
  show "rp_nodes p = retried_nodes (rp_graph p) ns mode" by (rule pp(2))
  obtain dd where "load_graph dd (cl_nodes (rp_closure p)) (Some (cl_dags (rp_closure p))) = Inr (rp_graph p)" using pp(1) ..
  note g = load_graph_wf(1,2) [OF this]
  then have "dkeys (dg_instances (rp_graph p)) = dg_nodes (rp_graph p)" by (simp add: wf_graph_def)
  then show "set (dkeys (rp_prefilled p)) \<subseteq> set (dg_nodes (rp_graph p))" using pk by (auto simp: dhas_keys)
  show "wf_graph (rp_graph p)" "acyclic (edge_rel (rp_graph p))" by (rule g)+
  have "x \<in> set (dg_nodes (rp_graph p))" if "(n, x) \<in> (edge_rel (rp_graph p))\<^sup>*" "n \<in> set (dg_nodes (rp_graph p))" for n x
    using that(1) by (induction rule: rtrancl_induct) (use that(2) wf_graph_edge [OF g(1)] in auto)
  then show "rp_nodes p \<subseteq> set (dg_nodes (rp_graph p))" using pp(2,3) by (auto simp: retried_nodes_def split: if_splits)
qed

text \<open>A retry that the controller accepted executes exactly the chosen nodes, or all that is reachable from them for a cascade, each
  once, prefills only other nodes of the graph, and every upstream of an executed node is executed as well or prefilled; the
  task that was started last carries these nodes and outputs.\<close>

theorem retry_inputs_ready:
  assumes "retry_node dag_draws dag run_id ns mode inputs ct = Inr ((new_id, retried), ct')"
  shows "\<exists>p. retry_node_plan dag run_id ns mode ct = Inr p \<and> set retried = retried_nodes (rp_graph p) ns mode
    \<and> distinct retried \<and> inputs_ready p \<and> set retried \<inter> set (dkeys (rp_prefilled p)) = {}
    \<and> set (dkeys (rp_prefilled p)) \<subseteq> set (dg_nodes (rp_graph p))
    \<and> ta_retry (last (ct_tasks ct')) = Some (set retried) \<and> ta_prefilled (last (ct_tasks ct')) = rp_prefilled p"
proof -
  obtain p where p: "retry_node_plan dag run_id ns mode ct = Inr p" "retried = graph_ordered_nodes (rp_graph p) (rp_nodes p)"
    "ta_retry (last (ct_tasks ct')) = Some (rp_nodes p)" "ta_prefilled (last (ct_tasks ct')) = rp_prefilled p"
    using assms by (auto simp: retry_node_def retry_locked_def new_run_id_def Let_def spawn_def retry_task_def split: option.splits)
  note r = plan_ready [OF p(1)]
  have "set retried = rp_nodes p" using r(6) by (auto simp: p(2) graph_ordered_nodes_def)
  moreover have "distinct retried" using r(7) by (simp add: p(2) graph_ordered_nodes_def wf_graph_def)
  ultimately show ?thesis using p r by auto
qed

definition demo_failed_run :: ctrl where
  "demo_failed_run = fresh_ctrl (empty_db\<lparr>db_runs := [\<lparr>dr_run = ''r0'', dr_dag = ''d'', dr_source = ''manual'', dr_status = ''failed'',
     dr_started = 0, dr_ended = Some 1, dr_error = None, dr_retry_of = None\<rparr>],
     db_outputs := [demo_output ''x'' ''r0'' 5]\<rparr>) [(''d'', demo_dag)] [(''t'', demo_type)]"

theorem retry_inputs_ready_witness:
  "\<exists>p. retry_node_plan ''d'' None [''b''] ''single'' demo_failed_run = Inr p \<and> inputs_ready p \<and> dkeys (rp_prefilled p) = [''a'']"
proof -
  have "case retry_node demo_ids ''d'' None [''b''] ''single'' \<lparr>ri_shared = PNone, ri_nodes = [], ri_append = {}\<rparr> demo_failed_run of Inl _ \<Rightarrow> False
    | Inr (_, ct') \<Rightarrow> dkeys (ta_prefilled (last (ct_tasks ct'))) = [''a'']" by code_simp
  then obtain i r ct' where c: "retry_node demo_ids ''d'' None [''b''] ''single'' \<lparr>ri_shared = PNone, ri_nodes = [], ri_append = {}\<rparr> demo_failed_run
      = Inr ((i, r), ct')" "dkeys (ta_prefilled (last (ct_tasks ct'))) = [''a'']" by (auto split: sum.splits prod.splits)
  from retry_inputs_ready [OF c(1)] c(2) show ?thesis by auto
qed

section \<open>The retried run\<close>

definition plan_env :: "retry_plan \<Rightarrow> run_env \<Rightarrow> bool" where
  "plan_env p en = (re_graph en = rp_graph p \<and> re_allowed en = rp_nodes p)"

text \<open>C14: Of a retry that was planned (no retried node accumulates): when its run has finished and was not stopped, a retried node
  without output lies behind an edge into a retried node that a successful upstream did not take; no node is left out because an
  input of the earlier run is missing.\<close>

theorem retried_run_complete:
  assumes "retry_node_plan dag run_id ns mode ct = Inr p" "plan_env p en"
    "reachable_run en (rp_prefilled p) sems store s" "rs_phase s = Finished" "\<not> rs_stop s"
    "\<forall>m \<in> rp_nodes p. \<not> accumulates (rp_graph p) m" "n \<in> rp_nodes p"
  shows "dhas (rs_outputs s) n \<or> (\<exists>u v out. (u, v) \<in> edge_rel (rp_graph p) \<and> (v, n) \<in> (edge_rel (rp_graph p))\<^sup>* \<and> v \<in> rp_nodes p
    \<and> dget (rs_outputs s) u = Some out \<and> no_ok out \<and> (u, v) \<notin> rs_routed s)"
proof -
  let ?g = "rp_graph p"
  note r = plan_ready [OF assms(1)]
  note g = r(7,8)
  have e: "re_graph en = ?g" "re_allowed en = rp_nodes p" using assms(2) by (simp_all add: plan_env_def)
  have su: "run_setup en (rp_prefilled p)" using r(5) g(1) by (simp add: run_setup_def e wf_graph_def)
  have "run_complete en s" using reachable_done [OF assms(3) su] assms(4,5) by (simp add: done_ok_def)
  have "prefilled_nodes en (rp_prefilled p) \<subseteq> outs s"
    using run_reachable_inv [OF assms(3) su] assms(4) by (simp add: run_inv_def run_ok_def)
  moreover have "dhas (dg_instances ?g) u" if "u \<in> set (dkeys (rp_prefilled p))" for u
    using that r(4) g(1) by (auto simp: wf_graph_def dhas_keys)
  ultimately have pre: "dhas (rs_outputs s) u" if "u \<in> set (dkeys (rp_prefilled p))" for u
    using that by (auto simp: prefilled_nodes_def outs_def e)
  have fin: "wf (edge_rel ?g)"
  proof (rule finite_acyclic_wf [OF _ g(2)])
    have "edge_rel ?g \<subseteq> set (dg_nodes ?g) \<times> set (dg_nodes ?g)" using wf_graph_edge [OF g(1)] by auto
    then show "finite (edge_rel ?g)" by (rule finite_subset) simp
  qed
  show ?thesis using assms(7)
  proof (induction n rule: wf_induct_rule [OF fin])
    case (1 n)
    have "n \<in> set (dg_nodes ?g)" using r(6) 1(2) by blast
    then consider "dhas (rs_outputs s) n" | u where "u \<in> set (preds ?g n)" "\<not> dhas (rs_outputs s) u"
      | u out where "u \<in> set (preds ?g n)" "dget (rs_outputs s) u = Some out" "no_ok out" "(u, n) \<notin> rs_routed s"
      using \<open>run_complete en s\<close> 1(2) assms(6) by (auto simp: run_complete_def e)
    then show ?case
    proof cases
      case a: 2
      then have "u \<in> rp_nodes p" using pre [of u] r(1) 1(2) unfolding inputs_ready_def by blast
      moreover have "(u, n) \<in> edge_rel ?g" using a(1) wf_graph_preds [OF g(1)] by (simp add: edge_rel_def)
      ultimately show ?thesis using 1(1) [of u] a(2) by (meson rtrancl_into_rtrancl)
    next
      case 3
      then have "(u, n) \<in> edge_rel ?g" using wf_graph_preds [OF g(1)] by (simp add: edge_rel_def)
      then show ?thesis using 3 1(2) by blast
    qed simp
  qed
qed

theorem retried_run_complete_witness: "dhas (rs_outputs demo_run) ''b''"
proof -
  have "case retry_node_plan ''d'' None [''a''] ''cascade'' demo_failed_run of Inl _ \<Rightarrow> False
    | Inr p \<Rightarrow> rp_graph p = demo_graph \<and> rp_nodes p = {''a'', ''b''} \<and> rp_prefilled p = []" by code_simp
  then obtain p where p: "retry_node_plan ''d'' None [''a''] ''cascade'' demo_failed_run = Inr p" "rp_graph p = demo_graph"
    "rp_nodes p = {''a'', ''b''}" "rp_prefilled p = []" by (auto split: sum.splits)
  have "plan_env p demo_env" using p by (simp add: plan_env_def demo_env_def)
  moreover have acc: "list_all (\<lambda>m. \<not> accumulates demo_graph m) [''a'', ''b'']" by code_simp
  moreover have ph: "rs_phase demo_run = Finished" "\<not> rs_stop demo_run" by (simp_all add: demo_run_tables)
  moreover have "reachable_run demo_env (rp_prefilled p) [] None demo_run" unfolding p(4) by (rule demo_reachable)
  ultimately have "dhas (rs_outputs demo_run) ''b'' \<or> (\<exists>u v. (u, v) \<in> edge_rel demo_graph \<and> (u, v) \<notin> rs_routed demo_run)"
    using retried_run_complete [OF p(1), of demo_env "[]" None demo_run "''b''"] unfolding p(2,3) by simp blast
  then show ?thesis by (auto simp: demo_run_tables demo_graph_def edge_rel_def succs_def dget_default_def split: if_splits)
qed

end
