(* ===== verification/RestoreProps.thy ===== *)
theory RestoreProps
  imports RetryProps "HOL-Library.Multiset"
begin

text \<open>
  The round trip of an output through the database: what \<open>store_node_output_entities\<close> writes in a run and what
  \<open>_prefilled_outputs\<close> reads back when the run is retried.
\<close>

section \<open>Rows of an output\<close>




section \<open>Reading in the order of time\<close>








section \<open>The round trip\<close>







end
