(* ===== verification/TriggeredRuns.thy ===== *)
theory TriggeredRuns
  imports TriggerProps ControllerProps
begin

text \<open>
  The trigger executor with the targets the controller gives it (\<open>_new_trigger_executor\<close>): what an emitted event starts. The
  world of the trigger executor is the controller.
\<close>

section \<open>The targets of the controller\<close>






section \<open>The runs that are started\<close>











section \<open>Properties\<close>


section \<open>Witness\<close>




end
