(* ===== verification/CoreRepo.thy ===== *)
theory CoreRepo
  imports EntityStore RunStore
begin

text \<open>
  The entity tables of the database: the rows of the core types, relations, and the tables of the types a
  configuration adds (\<open>storage/entities.py\<close>), with the statements on the core types and the queries on
  relations (\<open>storage/repository/_core_entity.py\<close>, \<open>_relation.py\<close>, \<open>_helpers.py\<close>). A table is the list of its
  rows in the order of insertion, which is the order of their integer ids. A JSON column holds the value its text
  denotes. As in the run tables, a statement that raises leaves no change behind.
\<close>

section \<open>Rows\<close>

record core_node =
  cn_entity :: string
  cn_name :: string
  cn_type :: string
  cn_role :: string
  cn_input :: string
  cn_output :: string
  cn_optional :: bool
  cn_timeout :: "pyval option"
  cn_handler :: "string option"
  cn_skills :: "string list"
  cn_prompt_file :: "string option"
  cn_prompt :: "string option"
  cn_tools :: "string list"
  cn_sources :: "string list"
  cn_parameters :: "(string, pyval) dict"
  cn_schema :: "(string, pyval) dict"
  cn_model :: "string option"
  cn_workdir :: "string option"
  cn_dag_ref :: "string option"
  cn_mapping :: "(string, pyval) dict"
  cn_extra :: "(string, pyval) dict"

record core_dag =
  cg_entity :: string
  cg_name :: string
  cg_nodes :: "pyval list"
  cg_edges :: "pyval list"
  cg_ui :: "(string, pyval) dict"
  cg_extra :: "(string, pyval) dict"

record core_trigger =
  cr_entity :: string
  cr_name :: string
  cr_wait_for :: string
  cr_target :: string
  cr_enabled :: bool
  cr_extra :: "(string, pyval) dict"

record core_resource =
  cs_entity :: string
  cs_resource :: string
  cs_permits :: int
  cs_extra :: "(string, pyval) dict"

record core_mapping =
  cm_entity :: string
  cm_name :: string
  cm_shared :: "(string, pyval) dict"
  cm_nodes :: "(string, pyval) dict"
  cm_append :: "string list"
  cm_extra :: "(string, pyval) dict"

record rel_row =
  rr_id :: string
  rr_from :: string
  rr_to :: string
  rr_type :: string
  rr_meta :: "(string, pyval) dict"
  rr_created :: int

text \<open>A row of an added type: the columns every table has, and the materialized ones that hold a value.\<close>

record ord_row =
  or_id :: string
  or_business :: string
  or_version :: int
  or_json :: "(string, pyval) dict"
  or_created :: int
  or_updated :: int
  or_cols :: "(string, pyval) dict"

record ord_table =
  ot_columns :: "string list"
  ot_rows :: "ord_row list"

record repo =
  rp_nodes_t :: "core_node list"
  rp_dags_t :: "core_dag list"
  rp_triggers_t :: "core_trigger list"
  rp_resources_t :: "core_resource list"
  rp_mappings_t :: "core_mapping list"
  rp_relations :: "rel_row list"
  rp_tables :: "(string, ord_table) dict"
  rp_count :: nat

type_synonym 'a rx = "repo \<Rightarrow> ('a \<times> repo) res"

definition empty_repo :: repo where
  "empty_repo = \<lparr>rp_nodes_t = [], rp_dags_t = [], rp_triggers_t = [], rp_resources_t = [], rp_mappings_t = [],
     rp_relations = [], rp_tables = [], rp_count = 0\<rparr>"

definition core_tables :: "(string, string) dict" where
  "core_tables = [(''node'', ''entity_node''), (''dag'', ''entity_dag''), (''input_mapping'', ''entity_input_mapping''),
     (''trigger'', ''entity_trigger''), (''resource'', ''entity_resource'')]"

section \<open>Conversions\<close>

definition extra_attrs :: "(string, pyval) dict \<Rightarrow> string list \<Rightarrow> (string, pyval) dict" where
  "extra_attrs a cols = filter (\<lambda>(k, _). k \<notin> set cols) a"

definition set_if_not_none :: "string \<Rightarrow> pyval \<Rightarrow> (string, pyval) dict \<Rightarrow> (string, pyval) dict" where
  "set_if_not_none k v a = (if is_none v then a else dset a k v)"

text \<open>\<open>float(v)\<close> of an integer; the text of a float is that of the surroundings.\<close>

definition float_or_none :: "draws \<Rightarrow> pyval \<Rightarrow> pyval option" where
  "float_or_none w v = (case v of PInt i \<Rightarrow> Some (PFloat (of_int i) (dw_float w (of_int i))) | PFloat r t \<Rightarrow> Some (PFloat r t)
     | _ \<Rightarrow> None)"

definition dict_of :: "pyval \<Rightarrow> (string, pyval) dict" where
  "dict_of v = (case v of PDict d \<Rightarrow> d | _ \<Rightarrow> [])"

definition str_list :: "pyval \<Rightarrow> string list" where
  "str_list v = (case v of PList xs \<Rightarrow> map py_str xs | _ \<Rightarrow> [])"

definition dict_list :: "pyval \<Rightarrow> pyval list" where
  "dict_list v = (case v of PList xs \<Rightarrow> if list_all is_dict xs then xs else [] | _ \<Rightarrow> [])"

definition strs :: "string list \<Rightarrow> pyval" where
  "strs xs = PList (map PStr xs)"

definition attr :: "(string, pyval) dict \<Rightarrow> string \<Rightarrow> pyval res" where
  "attr a k = (case dget a k of None \<Rightarrow> Inl (KeyError k) | Some v \<Rightarrow> Inr v)"

definition str_attr :: "(string, pyval) dict \<Rightarrow> string \<Rightarrow> string res" where
  "str_attr a k = rbind (attr a k) (\<lambda>v. Inr (py_str v))"

text \<open>\<open>int(v)\<close>\<close>

definition py_int :: "pyval \<Rightarrow> int res" where
  "py_int v = (case v of PInt i \<Rightarrow> Inr i | PBool b \<Rightarrow> Inr (of_bool b)
     | PFloat r _ \<Rightarrow> Inr (if 0 \<le> r then \<lfloor>r\<rfloor> else \<lceil>r\<rceil>)
     | PStr s \<Rightarrow> py_int_of_text s | _ \<Rightarrow> Inl (TypeError ''int() argument must be a string or a real number''))"

section \<open>Entities of rows\<close>

definition add_opt :: "string \<Rightarrow> string option \<Rightarrow> (string, pyval) dict \<Rightarrow> (string, pyval) dict" where
  "add_opt k x a = set_if_not_none k (opt_text x) a"

definition core_node_attrs :: "core_node \<Rightarrow> (string, pyval) dict" where
  "core_node_attrs r =
     (let a = dmerge (cn_extra r) [(''name'', PStr (cn_name r)), (''type'', PStr (cn_type r)), (''role'', PStr (cn_role r)),
            (''input_type'', PStr (cn_input r)), (''output_type'', PStr (cn_output r)), (''optional'', PBool (cn_optional r))];
          b = (if cn_type r \<in> {''function'', ''agent''}
               then dmerge a [(''skills'', strs (cn_skills r)), (''parameters_schema'', PDict (cn_schema r))] else a);
          c = (if cn_type r = ''agent'' then dset b ''tools'' (strs (cn_tools r)) else b);
          d = (if cn_type r = ''function''
               then dmerge c [(''source_names'', strs (cn_sources r)), (''parameters'', PDict (cn_parameters r))] else c);
          e = add_opt ''dag_ref'' (cn_dag_ref r) (add_opt ''workdir'' (cn_workdir r) (add_opt ''model'' (cn_model r)
            (add_opt ''system_prompt'' (cn_prompt r) (add_opt ''system_prompt_file'' (cn_prompt_file r)
            (add_opt ''handler'' (cn_handler r)
            (set_if_not_none ''timeout_seconds'' (case cn_timeout r of None \<Rightarrow> PNone | Some v \<Rightarrow> v) d))))))
      in if cn_mapping r = [] then e else dset e ''input_mapping'' (PDict (cn_mapping r)))"

definition core_node_to_entity :: "core_node \<Rightarrow> entity" where
  "core_node_to_entity r = \<lparr>en_id = cn_entity r, en_type = ''node'', en_attrs = core_node_attrs r\<rparr>"

definition core_dag_to_entity :: "core_dag \<Rightarrow> entity" where
  "core_dag_to_entity r = \<lparr>en_id = cg_entity r, en_type = ''dag'', en_attrs = dmerge (cg_extra r)
     [(''name'', PStr (cg_name r)), (''nodes'', PList (cg_nodes r)), (''edges'', PList (cg_edges r)), (''ui'', PDict (cg_ui r))]\<rparr>"

definition core_trigger_to_entity :: "core_trigger \<Rightarrow> entity" where
  "core_trigger_to_entity r = \<lparr>en_id = cr_entity r, en_type = ''trigger'', en_attrs = dmerge (cr_extra r)
     [(''name'', PStr (cr_name r)), (''wait_for'', PStr (cr_wait_for r)), (''target'', PStr (cr_target r)),
      (''enabled'', PBool (cr_enabled r))]\<rparr>"

definition core_resource_to_entity :: "core_resource \<Rightarrow> entity" where
  "core_resource_to_entity r = \<lparr>en_id = cs_entity r, en_type = ''resource'', en_attrs = dmerge (cs_extra r)
     [(''id'', PStr (cs_resource r)), (''permits'', PInt (cs_permits r))]\<rparr>"

definition core_mapping_to_entity :: "core_mapping \<Rightarrow> entity" where
  "core_mapping_to_entity r = \<lparr>en_id = cm_entity r, en_type = ''input_mapping'', en_attrs = dmerge (cm_extra r)
     [(''name'', PStr (cm_name r)), (''shared'', PDict (cm_shared r)), (''nodes'', PDict (cm_nodes r)),
      (''append_nodes'', strs (cm_append r))]\<rparr>"

section \<open>Saving\<close>

text \<open>\<open>session.add\<close> and \<open>flush\<close> of the row of an entity, whose name is unique in its table.\<close>

definition put_row :: "('r \<Rightarrow> string) \<Rightarrow> ('r \<Rightarrow> string) \<Rightarrow> 'r \<Rightarrow> 'r list \<Rightarrow> 'r list res" where
  "put_row key name r rs = (if list_ex (\<lambda>x. key x \<noteq> key r \<and> name x = name r) rs then Inl integrity_error
     else Inr (case first_of (\<lambda>x. key x = key r) rs of None \<Rightarrow> rs @ [r]
       | Some _ \<Rightarrow> update_first (\<lambda>x. key x = key r) (\<lambda>_. r) rs))"

definition node_columns :: "string list" where
  "node_columns = [''name'', ''type'', ''role'', ''input_type'', ''output_type'', ''optional'', ''timeout_seconds'', ''handler'',
     ''skills'', ''system_prompt_file'', ''system_prompt'', ''tools'', ''source_names'', ''parameters'', ''parameters_schema'',
     ''model'', ''workdir'', ''dag_ref'', ''input_mapping'']"

definition core_node_row :: "draws \<Rightarrow> entity \<Rightarrow> core_node res" where
  "core_node_row w e = (let a = dpop (en_attrs e) ''input_binding'' in
     rbind (str_attr a ''name'') (\<lambda>name. rbind (str_attr a ''input_type'') (\<lambda>inp. rbind (str_attr a ''output_type'') (\<lambda>out.
     Inr \<lparr>cn_entity = en_id e, cn_name = name, cn_type = str_or (aget a ''type'') ''function'',
       cn_role = str_or (aget a ''role'') ''processor'', cn_input = inp, cn_output = out,
       cn_optional = truthy (dget_default a ''optional'' (PBool False)), cn_timeout = float_or_none w (aget a ''timeout_seconds''),
       cn_handler = text_unless_none (aget a ''handler''), cn_skills = str_list (aget a ''skills''),
       cn_prompt_file = text_unless_none (aget a ''system_prompt_file''), cn_prompt = text_unless_none (aget a ''system_prompt''),
       cn_tools = str_list (aget a ''tools''), cn_sources = str_list (aget a ''source_names''),
       cn_parameters = dict_of (aget a ''parameters''), cn_schema = dict_of (aget a ''parameters_schema''),
       cn_model = text_unless_none (aget a ''model''), cn_workdir = text_unless_none (aget a ''workdir''),
       cn_dag_ref = text_unless_none (aget a ''dag_ref''),
       cn_mapping = map (\<lambda>(k, v). (k, PStr (py_str v))) (dict_of (aget a ''input_mapping'')),
       cn_extra = extra_attrs a node_columns\<rparr>))))"

definition core_dag_row :: "entity \<Rightarrow> core_dag res" where
  "core_dag_row e = (let a = en_attrs e in
     rbind (str_attr a ''name'') (\<lambda>name. rbind (attr a ''nodes'') (\<lambda>ns. rbind (attr a ''edges'') (\<lambda>es.
     Inr \<lparr>cg_entity = en_id e, cg_name = name, cg_nodes = dict_list ns, cg_edges = dict_list es, cg_ui = dict_of (aget a ''ui''),
       cg_extra = extra_attrs a [''name'', ''inputs'', ''nodes'', ''edges'', ''ui'']\<rparr>))))"

definition core_trigger_row :: "entity \<Rightarrow> core_trigger res" where
  "core_trigger_row e = (let a = en_attrs e in
     rbind (str_attr a ''name'') (\<lambda>name. rbind (str_attr a ''wait_for'') (\<lambda>wf'. rbind (str_attr a ''target'') (\<lambda>tg.
     Inr \<lparr>cr_entity = en_id e, cr_name = name, cr_wait_for = wf', cr_target = tg,
       cr_enabled = truthy (dget_default a ''enabled'' (PBool True)),
       cr_extra = extra_attrs a [''name'', ''wait_for'', ''target'', ''enabled'']\<rparr>))))"

definition core_resource_row :: "entity \<Rightarrow> core_resource res" where
  "core_resource_row e = (let a = en_attrs e in
     rbind (rbind (attr a ''permits'') py_int) (\<lambda>p.
     Inr \<lparr>cs_entity = en_id e, cs_resource = str_or (aget a ''id'') (en_id e), cs_permits = p,
       cs_extra = extra_attrs a [''id'', ''permits'']\<rparr>))"

definition core_mapping_row :: "entity \<Rightarrow> core_mapping res" where
  "core_mapping_row e = (let a = en_attrs e in
     rbind (str_attr a ''name'') (\<lambda>name.
     Inr \<lparr>cm_entity = en_id e, cm_name = name, cm_shared = dict_of (aget a ''shared''), cm_nodes = dict_of (aget a ''nodes''),
       cm_append = str_list (aget a ''append_nodes''),
       cm_extra = extra_attrs a [''name'', ''shared'', ''nodes'', ''append_nodes'']\<rparr>))"

definition save_core_node :: "draws \<Rightarrow> entity \<Rightarrow> core_node rx" where
  "save_core_node w e d = rbind (core_node_row w e) (\<lambda>r. rbind (put_row cn_entity cn_name r (rp_nodes_t d))
     (\<lambda>rs. Inr (r, d\<lparr>rp_nodes_t := rs\<rparr>)))"

definition save_core_dag :: "entity \<Rightarrow> core_dag rx" where
  "save_core_dag e d = rbind (core_dag_row e) (\<lambda>r. rbind (put_row cg_entity cg_name r (rp_dags_t d))
     (\<lambda>rs. Inr (r, d\<lparr>rp_dags_t := rs\<rparr>)))"

definition save_core_trigger :: "entity \<Rightarrow> core_trigger rx" where
  "save_core_trigger e d = rbind (core_trigger_row e) (\<lambda>r. rbind (put_row cr_entity cr_name r (rp_triggers_t d))
     (\<lambda>rs. Inr (r, d\<lparr>rp_triggers_t := rs\<rparr>)))"

definition save_core_resource :: "entity \<Rightarrow> core_resource rx" where
  "save_core_resource e d = rbind (core_resource_row e) (\<lambda>r. rbind (put_row cs_entity cs_resource r (rp_resources_t d))
     (\<lambda>rs. Inr (r, d\<lparr>rp_resources_t := rs\<rparr>)))"

definition save_core_mapping :: "entity \<Rightarrow> core_mapping rx" where
  "save_core_mapping e d = rbind (core_mapping_row e) (\<lambda>r. rbind (put_row cm_entity cm_name r (rp_mappings_t d))
     (\<lambda>rs. Inr (r, d\<lparr>rp_mappings_t := rs\<rparr>)))"

definition save_core_entity :: "draws \<Rightarrow> entity \<Rightarrow> entity rx" where
  "save_core_entity w e d =
     (if en_type e = ''node'' then rbind (save_core_node w e d) (\<lambda>(r, d'). Inr (core_node_to_entity r, d'))
      else if en_type e = ''dag'' then rbind (save_core_dag e d) (\<lambda>(r, d'). Inr (core_dag_to_entity r, d'))
      else if en_type e = ''trigger'' then rbind (save_core_trigger e d) (\<lambda>(r, d'). Inr (core_trigger_to_entity r, d'))
      else if en_type e = ''resource'' then rbind (save_core_resource e d) (\<lambda>(r, d'). Inr (core_resource_to_entity r, d'))
      else if en_type e = ''input_mapping'' then rbind (save_core_mapping e d) (\<lambda>(r, d'). Inr (core_mapping_to_entity r, d'))
      else Inl (ValueError (''unsupported core entity type: '' @ en_type e)))"

section \<open>Queries\<close>

definition core_entities_of :: "string \<Rightarrow> repo \<Rightarrow> entity list" where
  "core_entities_of ty d =
     (if ty = ''node'' then map core_node_to_entity (rp_nodes_t d)
      else if ty = ''dag'' then map core_dag_to_entity (rp_dags_t d)
      else if ty = ''trigger'' then map core_trigger_to_entity (rp_triggers_t d)
      else if ty = ''resource'' then map core_resource_to_entity (rp_resources_t d)
      else if ty = ''input_mapping'' then map core_mapping_to_entity (rp_mappings_t d)
      else [])"

definition list_core_entities :: "string option \<Rightarrow> repo \<Rightarrow> entity list" where
  "list_core_entities ty d = (case ty of Some t \<Rightarrow> core_entities_of t d
     | None \<Rightarrow> concat (map (\<lambda>t. core_entities_of t d) (dkeys core_tables)))"

definition get_dag_entity :: "string \<Rightarrow> repo \<Rightarrow> entity option" where
  "get_dag_entity name d = map_option core_dag_to_entity (first_of (\<lambda>r. cg_name r = name) (rp_dags_t d))"

definition list_dag_names :: "repo \<Rightarrow> string list" where
  "list_dag_names d = sort (map cg_name (rp_dags_t d))"

definition list_node_summaries :: "repo \<Rightarrow> (string \<times> string) list" where
  "list_node_summaries d = map (\<lambda>r. (cn_name r, cn_type r)) (sort_key cn_name (rp_nodes_t d))"

text \<open>Parsing a stored configuration (\<open>model_validate\<close>) is a parameter.\<close>

definition get_dag_config :: "((string, pyval) dict \<Rightarrow> dag_cfg res) \<Rightarrow> string \<Rightarrow> repo \<Rightarrow> dag_cfg option res" where
  "get_dag_config parse name d = (case first_of (\<lambda>r. cg_name r = name) (rp_dags_t d) of None \<Rightarrow> Inr None
     | Some r \<Rightarrow> rbind (parse (en_attrs (core_dag_to_entity r))) (\<lambda>c. Inr (Some c)))"

definition get_node_config :: "((string, pyval) dict \<Rightarrow> node_cfg res) \<Rightarrow> string \<Rightarrow> repo \<Rightarrow> node_cfg option res" where
  "get_node_config parse name d = (case first_of (\<lambda>r. cn_name r = name) (rp_nodes_t d) of None \<Rightarrow> Inr None
     | Some r \<Rightarrow> rbind (parse (core_node_attrs r)) (\<lambda>c. Inr (Some c)))"

definition list_dag_configs :: "((string, pyval) dict \<Rightarrow> dag_cfg res) \<Rightarrow> repo \<Rightarrow> (string, dag_cfg) dict res" where
  "list_dag_configs parse d = rbind (map_res (\<lambda>r. rbind (parse (en_attrs (core_dag_to_entity r))) (\<lambda>c. Inr (cg_name r, c)))
     (sort_key cg_name (rp_dags_t d))) (\<lambda>kvs. Inr (dmerge [] kvs))"

definition list_node_configs :: "((string, pyval) dict \<Rightarrow> node_cfg res) \<Rightarrow> repo \<Rightarrow> (string, node_cfg) dict res" where
  "list_node_configs parse d = rbind (map_res (\<lambda>r. rbind (parse (core_node_attrs r)) (\<lambda>c. Inr (cn_name r, c)))
     (sort_key cn_name (rp_nodes_t d))) (\<lambda>kvs. Inr (dmerge [] kvs))"

text \<open>\<open>entity_ref\<close> raises for an entity without business id; then only the id counts.\<close>

definition refers_to :: "(string, etype) dict \<Rightarrow> string \<Rightarrow> entity \<Rightarrow> bool" where
  "refers_to types ref e = (ref = en_id e \<or> entity_ref e types = Inr ref)"

definition get_core_entity :: "string \<Rightarrow> (string, etype) dict \<Rightarrow> repo \<Rightarrow> entity option" where
  "get_core_entity ref types d = first_of (refers_to types ref) (list_core_entities None d)"

section \<open>Relations\<close>

text \<open>\<open>order_by(created_at, id)\<close>\<close>

definition relation_order :: "rel_row list \<Rightarrow> rel_row list" where
  "relation_order rs = sort_key rr_created (sort_key rr_id rs)"

definition list_relations :: "string option \<Rightarrow> string option \<Rightarrow> string option \<Rightarrow> repo \<Rightarrow> rel_row list" where
  "list_relations f t ty d = relation_order (filter (\<lambda>r. if_given f (\<lambda>x. rr_from r = x) \<and> if_given t (\<lambda>x. rr_to r = x)
     \<and> if_given ty (\<lambda>x. rr_type r = x)) (rp_relations d))"

definition list_relations_for_entity :: "string \<Rightarrow> repo \<Rightarrow> rel_row list" where
  "list_relations_for_entity i d = relation_order (filter (\<lambda>r. rr_from r = i \<or> rr_to r = i) (rp_relations d))"

definition list_relations_for_entity_refs :: "string list \<Rightarrow> repo \<Rightarrow> rel_row list" where
  "list_relations_for_entity_refs refs d = relation_order (filter (\<lambda>r. rr_from r \<in> set refs \<or> rr_to r \<in> set refs) (rp_relations d))"

definition force_delete_entity_relations :: "string list \<Rightarrow> repo \<Rightarrow> rel_row list \<times> repo" where
  "force_delete_entity_relations refs d = (list_relations_for_entity_refs refs d,
     d\<lparr>rp_relations := filter (\<lambda>r. \<not> (rr_from r \<in> set refs \<or> rr_to r \<in> set refs)) (rp_relations d)\<rparr>)"

definition delete_relation :: "string \<Rightarrow> repo \<Rightarrow> bool \<times> repo" where
  "delete_relation i d = (case first_of (\<lambda>r. rr_id r = i) (rp_relations d) of None \<Rightarrow> (False, d)
     | Some _ \<Rightarrow> (True, d\<lparr>rp_relations := filter (\<lambda>r. rr_id r \<noteq> i) (rp_relations d)\<rparr>))"

definition relation_by_key :: "string \<Rightarrow> string \<Rightarrow> string \<Rightarrow> repo \<Rightarrow> rel_row option" where
  "relation_by_key f t ty d = first_of (\<lambda>r. rr_from r = f \<and> rr_to r = t \<and> rr_type r = ty) (rp_relations d)"

section \<open>Deleting a core entity\<close>

text \<open>\<open>DeleteEntityResult\<close>: whether it was deleted, and the relations that block it.\<close>

definition drop_core_row :: "string \<Rightarrow> string \<Rightarrow> repo \<Rightarrow> repo" where
  "drop_core_row ty i d =
     (if ty = ''node'' then d\<lparr>rp_nodes_t := filter (\<lambda>r. cn_entity r \<noteq> i) (rp_nodes_t d)\<rparr>
      else if ty = ''dag'' then d\<lparr>rp_dags_t := filter (\<lambda>r. cg_entity r \<noteq> i) (rp_dags_t d)\<rparr>
      else if ty = ''trigger'' then d\<lparr>rp_triggers_t := filter (\<lambda>r. cr_entity r \<noteq> i) (rp_triggers_t d)\<rparr>
      else if ty = ''resource'' then d\<lparr>rp_resources_t := filter (\<lambda>r. cs_entity r \<noteq> i) (rp_resources_t d)\<rparr>
      else if ty = ''input_mapping'' then d\<lparr>rp_mappings_t := filter (\<lambda>r. cm_entity r \<noteq> i) (rp_mappings_t d)\<rparr>
      else d)"

definition delete_core_entity :: "string \<Rightarrow> (string, etype) dict \<Rightarrow> repo \<Rightarrow> (bool \<times> rel_row list) \<times> repo" where
  "delete_core_entity ref types d = (case get_core_entity ref types d of None \<Rightarrow> ((False, []), d)
     | Some e \<Rightarrow> (let blocking = list_relations_for_entity_refs (entity_refs e types) d in
         if blocking \<noteq> [] then ((False, blocking), d) else ((True, []), drop_core_row (en_type e) (en_id e) d)))"

end
