(* ===== verification/OrdinaryRepo.thy ===== *)
theory OrdinaryRepo
  imports CoreRepo
begin

text \<open>
  Entities of the types a configuration adds: their tables with materialized columns
  (\<open>storage/materialization.py\<close>), the statements on them (\<open>storage/repository/_ordinary.py\<close>) and the creation of
  relations, which looks entities of both kinds up (\<open>_relation.py\<close>). A materialized column holds the encoded value of
  an attribute, an absent one is NULL. The text of a JSON column and the reading of numbers from texts are those of
  the surroundings. Statements with a column name that is no identifier are refused by the database. A materialized field
  is not named like one of the columns every table has. Where the order of rows is left open it is that of the table.
\<close>

record codec =
  cd_dumps :: "pyval \<Rightarrow> string"
  cd_loads :: "string \<Rightarrow> pyval res"
  cd_float_text :: "rat \<Rightarrow> string"
  cd_float_of :: "string \<Rightarrow> pyval res"

section \<open>Names\<close>

text \<open>\<open>str.isidentifier\<close> below code point 256.\<close>

definition ident_start :: "char \<Rightarrow> bool" where
  "ident_start c = (let n = (of_char c :: nat) in is_ascii_letter c \<or> c = CHR ''_'' \<or> n = 170 \<or> n = 181 \<or> n = 186
     \<or> 192 \<le> n \<and> n \<noteq> 215 \<and> n \<noteq> 247)"

definition ident_char :: "char \<Rightarrow> bool" where
  "ident_char c = (ident_start c \<or> is_ascii_digit c \<or> (of_char c :: nat) = 183)"

definition is_identifier :: "string \<Rightarrow> bool" where
  "is_identifier s = (case s of [] \<Rightarrow> False | c # cs \<Rightarrow> ident_start c \<and> list_all ident_char cs)"

definition underscored :: "string \<Rightarrow> string" where
  "underscored s = map (\<lambda>c. if c = CHR ''-'' then CHR ''_'' else c) s"

definition sql_identifier :: "string \<Rightarrow> string res" where
  "sql_identifier v = (if is_identifier (underscored v) then Inr (underscored v)
     else Inl (ValueError (''invalid SQL identifier: '' @ v)))"

definition entity_table_name :: "string \<Rightarrow> string res" where
  "entity_table_name ty = rbind (sql_identifier ty) (\<lambda>i. Inr (''entity_'' @ i))"

definition type_table :: "string \<Rightarrow> etype \<Rightarrow> string res" where
  "type_table ty t = rbind (case et_table_name t of None \<Rightarrow> entity_table_name ty
     | Some n \<Rightarrow> if n = [] then entity_table_name ty else Inr n) sql_identifier"

definition index_name :: "string \<Rightarrow> string \<Rightarrow> string res" where
  "index_name tb f = rbind (sql_identifier tb) (\<lambda>a. rbind (sql_identifier f) (\<lambda>b. Inr (''idx_'' @ a @ ''_'' @ b)))"

definition sql_error :: err where
  "sql_error = OtherError ''OperationalError''"

section \<open>Tables\<close>

definition table_of :: "string \<Rightarrow> repo \<Rightarrow> ord_table" where
  "table_of tb d = dget_default (rp_tables d) tb \<lparr>ot_columns = [], ot_rows = []\<rparr>"

definition set_table :: "string \<Rightarrow> ord_table \<Rightarrow> repo \<Rightarrow> repo" where
  "set_table tb t d = d\<lparr>rp_tables := dset (rp_tables d) tb t\<rparr>"

text \<open>\<open>CREATE TABLE IF NOT EXISTS\<close>\<close>

definition create_table :: "string \<Rightarrow> repo \<Rightarrow> repo" where
  "create_table tb d = set_table tb (table_of tb d) d"

definition base_columns :: "string list" where
  "base_columns = [''id'', ''business_id'', ''schema_version'', ''attributes_json'', ''created_at'', ''updated_at'']"

definition has_column :: "string \<Rightarrow> string \<Rightarrow> repo \<Rightarrow> bool res" where
  "has_column tb col d = rbind (sql_identifier col) (\<lambda>c. Inr (c \<in> set base_columns \<union> set (ot_columns (table_of tb d))))"

definition ensure_column :: "string \<Rightarrow> string \<Rightarrow> repo \<Rightarrow> repo res" where
  "ensure_column tb f d = rbind (has_column tb f d) (\<lambda>b. if b then Inr d
     else rbind (sql_identifier f) (\<lambda>c. let t = table_of tb d in Inr (set_table tb (t\<lparr>ot_columns := ot_columns t @ [c]\<rparr>) d)))"

text \<open>An index changes no answer; only its name can be refused.\<close>

definition ensure_index :: "string \<Rightarrow> string \<Rightarrow> repo \<Rightarrow> repo res" where
  "ensure_index tb f d = rbind (index_name tb f) (\<lambda>i. rbind (sql_identifier i) (\<lambda>_. Inr d))"

definition ensure_table :: "string \<Rightarrow> etype \<Rightarrow> repo \<Rightarrow> (string \<times> repo) res" where
  "ensure_table ty t d = rbind (type_table ty t) (\<lambda>tb.
     rbind (fold_res (ensure_column tb) (dkeys (et_materialized t)) (create_table tb d)) (\<lambda>d1.
     rbind (fold_res (\<lambda>(f, m). if mf_index m then ensure_index tb f else Inr) (et_materialized t) d1) (\<lambda>d2. Inr (tb, d2))))"

section \<open>Values of columns\<close>

definition py_float :: "codec \<Rightarrow> pyval \<Rightarrow> pyval res" where
  "py_float c v = (case v of PFloat r t \<Rightarrow> Inr (PFloat r t) | PInt i \<Rightarrow> Inr (PFloat (of_int i) (cd_float_text c (of_int i)))
     | PBool b \<Rightarrow> Inr (PFloat (of_bool b) (cd_float_text c (of_bool b))) | PStr s \<Rightarrow> cd_float_of c s
     | _ \<Rightarrow> Inl (TypeError ''float() argument must be a string or a real number''))"

definition encode_value :: "codec \<Rightarrow> pyval \<Rightarrow> mat_type \<Rightarrow> pyval res" where
  "encode_value c v ty = (if is_none v then Inr PNone else (case ty of
     MBoolean \<Rightarrow> Inr (PInt (of_bool (truthy v)))
   | MInteger \<Rightarrow> rbind (py_int v) (\<lambda>i. Inr (PInt i))
   | MReal \<Rightarrow> py_float c v
   | MJson \<Rightarrow> Inr (PStr (cd_dumps c v))
   | _ \<Rightarrow> Inr (PStr (py_str v))))"

definition decode_value :: "codec \<Rightarrow> pyval \<Rightarrow> mat_type \<Rightarrow> pyval res" where
  "decode_value c v ty = (if is_none v then Inr PNone else (case ty of
     MBoolean \<Rightarrow> Inr (PBool (truthy v))
   | MInteger \<Rightarrow> rbind (py_int v) (\<lambda>i. Inr (PInt i))
   | MReal \<Rightarrow> py_float c v
   | MJson \<Rightarrow> cd_loads c (py_str v)
   | _ \<Rightarrow> Inr v))"

definition decode_field :: "codec \<Rightarrow> etype \<Rightarrow> ord_row \<Rightarrow> string \<times> mat_field \<Rightarrow> (string, pyval) dict \<Rightarrow> (string, pyval) dict res" where
  "decode_field c t r fm a = (let (f, m) = fm in
     if f \<in> set (et_deprecated t) \<or> is_none (aget (or_cols r) f) then Inr a
     else rbind (decode_value c (aget (or_cols r) f) (mf_type m)) (\<lambda>v. Inr (dset a f v)))"

definition ordinary_entity_from_row :: "codec \<Rightarrow> string \<Rightarrow> etype \<Rightarrow> ord_row \<Rightarrow> entity res" where
  "ordinary_entity_from_row c ty t r = rbind (fold_res (decode_field c t r) (et_materialized t) (or_json r)) (\<lambda>a.
     Inr \<lparr>en_id = or_id r, en_type = ty,
       en_attrs = (if dhas a (et_business_id_field t) then a else dset a (et_business_id_field t) (PStr (or_business r)))\<rparr>)"

definition ordinary_writable_attrs :: "(string, pyval) dict \<Rightarrow> etype \<Rightarrow> (string, pyval) dict" where
  "ordinary_writable_attrs a t = filter (\<lambda>(k, _). k \<notin> set (et_deprecated t)) a"

definition is_database_type :: "string \<Rightarrow> etype \<Rightarrow> bool" where
  "is_database_type ty t = (ty \<notin> set (dkeys core_tables) \<and> ty \<noteq> ''relation'' \<and> et_storage_tier t = Database)"

section \<open>Finding an entity\<close>

definition matches_ref :: "string \<Rightarrow> string \<Rightarrow> ord_row \<Rightarrow> bool" where
  "matches_ref ty ref r = (or_id r = ref \<or> or_business r = ref \<or> or_business r = removeprefix ref (ty @ '':''))"

definition get_ordinary_entity :: "codec \<Rightarrow> string \<Rightarrow> string \<Rightarrow> (string, etype) dict \<Rightarrow> entity option rx" where
  "get_ordinary_entity c ty ref types d = (case dget types ty of None \<Rightarrow> Inr (None, d)
     | Some t \<Rightarrow> rbind (ensure_table ty t d) (\<lambda>(tb, d').
         case first_of (matches_ref ty ref) (ot_rows (table_of tb d')) of None \<Rightarrow> Inr (None, d')
         | Some r \<Rightarrow> rbind (ordinary_entity_from_row c ty t r) (\<lambda>e. Inr (Some e, d'))))"

fun find_ordinary_in :: "codec \<Rightarrow> string \<Rightarrow> (string, etype) dict \<Rightarrow> (string, etype) dict \<Rightarrow> entity option rx" where
  "find_ordinary_in c ref types [] d = Inr (None, d)"
| "find_ordinary_in c ref types ((ty, t) # rest) d = (if \<not> is_database_type ty t then find_ordinary_in c ref types rest d
     else rbind (get_ordinary_entity c ty ref types d) (\<lambda>(e, d'). case e of Some x \<Rightarrow> Inr (Some x, d')
       | None \<Rightarrow> find_ordinary_in c ref types rest d'))"

definition find_ordinary_entity :: "codec \<Rightarrow> string \<Rightarrow> (string, etype) dict \<Rightarrow> entity option rx" where
  "find_ordinary_entity c ref types = find_ordinary_in c ref types types"

section \<open>Saving\<close>

definition value_error :: "unit res \<Rightarrow> unit res" where
  "value_error r = (case r of Inl e \<Rightarrow> if is_config_error e then Inl (ValueError (err_text e)) else Inl e | Inr x \<Rightarrow> Inr x)"

definition encode_fields :: "codec \<Rightarrow> etype \<Rightarrow> (string, pyval) dict \<Rightarrow> (string, pyval) dict res" where
  "encode_fields c t a = map_res (\<lambda>(f, m). rbind (encode_value c (aget a f) (mf_type m)) (\<lambda>v. Inr (f, v)))
     (filter (\<lambda>(f, _). dhas a f \<and> f \<notin> set (et_deprecated t)) (et_materialized t))"

definition json_attrs :: "etype \<Rightarrow> (string, pyval) dict \<Rightarrow> (string, pyval) dict" where
  "json_attrs t a = filter (\<lambda>(k, _). \<not> dhas (et_materialized t) k \<and> k \<notin> set (et_deprecated t)) a"

text \<open>\<open>INSERT \<dots> ON CONFLICT(id) DO UPDATE\<close>: an existing row keeps the columns that the statement does not name.\<close>

definition upsert_row :: "ord_row \<Rightarrow> ord_row list \<Rightarrow> ord_row list res" where
  "upsert_row r rs = (if list_ex (\<lambda>x. or_id x \<noteq> or_id r \<and> or_business x = or_business r) rs then Inl integrity_error
     else Inr (case first_of (\<lambda>x. or_id x = or_id r) rs of None \<Rightarrow> rs @ [r]
       | Some _ \<Rightarrow> update_first (\<lambda>x. or_id x = or_id r) (\<lambda>x. r\<lparr>or_cols := dmerge (or_cols x) (or_cols r)\<rparr>) rs))"

definition created_of :: "int \<Rightarrow> string \<Rightarrow> ord_row list \<Rightarrow> int" where
  "created_of now i rs = (case first_of (\<lambda>x. or_id x = i) rs of None \<Rightarrow> now | Some x \<Rightarrow> or_created x)"

definition ordinary_business_id :: "entity \<Rightarrow> etype \<Rightarrow> (string, pyval) dict \<Rightarrow> string res" where
  "ordinary_business_id e t a =
     (let bad = Inl (ValueError (''entity '' @ en_id e @ '' missing business id field: '' @ et_business_id_field t)) in
      case (if et_business_id_field t = ''id'' then PStr (en_id e) else aget a (et_business_id_field t)) of
        PStr s \<Rightarrow> if s = [] then bad else Inr s | _ \<Rightarrow> bad)"

definition save_ordinary_row :: "draws \<Rightarrow> codec \<Rightarrow> entity \<Rightarrow> etype \<Rightarrow> repo \<Rightarrow> repo res" where
  "save_ordinary_row w c e t d = rbind (ensure_table (en_type e) t d) (\<lambda>(tb, d').
     let a = ordinary_writable_attrs (en_attrs e) t; rows = ot_rows (table_of tb d'); now = dw_now w (rp_count d') in
     rbind (ordinary_business_id e t a) (\<lambda>b.
     rbind (encode_fields c t a) (\<lambda>cols.
     if \<not> list_all (\<lambda>(f, _). is_identifier f) cols then Inl sql_error
     else rbind (upsert_row \<lparr>or_id = en_id e, or_business = b, or_version = et_schema_version t, or_json = json_attrs t a,
              or_created = created_of now (en_id e) rows, or_updated = now, or_cols = cols\<rparr> rows) (\<lambda>rs.
       Inr (set_table tb ((table_of tb d')\<lparr>ot_rows := rs\<rparr>) (d'\<lparr>rp_count := Suc (rp_count d')\<rparr>))))))"

definition save_ordinary_entity :: "draws \<Rightarrow> codec \<Rightarrow> entity \<Rightarrow> etype \<Rightarrow> entity rx" where
  "save_ordinary_entity w c e t d = (if en_type e = ''relation'' then Inl (ValueError ''relation entities use create_relation'')
     else rbind (value_error (validate_entity_attributes e t)) (\<lambda>_.
       rbind (save_ordinary_row w c e t d) (\<lambda>d'.
       rbind (get_ordinary_entity c (en_type e) (en_id e) [(en_type e, t)] d') (\<lambda>(x, d2).
         Inr (case x of None \<Rightarrow> e | Some y \<Rightarrow> y, d2)))))"

definition create_ordinary_entity :: "draws \<Rightarrow> codec \<Rightarrow> string \<Rightarrow> string \<Rightarrow> (string, pyval) dict \<Rightarrow> (string, etype) dict \<Rightarrow> entity rx" where
  "create_ordinary_entity w c ty i a types d = (if ty = ''relation'' then Inl (ValueError ''relation entities use create_relation'')
     else (case dget types ty of None \<Rightarrow> Inl (ValueError (''unknown entity type: '' @ ty))
       | Some t \<Rightarrow> save_ordinary_entity w c \<lparr>en_id = i, en_type = ty, en_attrs = a\<rparr> t d))"

definition update_ordinary_entity :: "draws \<Rightarrow> codec \<Rightarrow> string \<Rightarrow> (string, pyval) dict \<Rightarrow> (string, etype) dict \<Rightarrow> entity rx" where
  "update_ordinary_entity w c ref a types d = rbind (find_ordinary_entity c ref types d) (\<lambda>(x, d'). case x of
     None \<Rightarrow> Inl (ValueError (''entity not found: '' @ ref))
   | Some e \<Rightarrow> rbind (case dget types (en_type e) of None \<Rightarrow> Inl (KeyError (en_type e)) | Some t \<Rightarrow> Inr t)
       (\<lambda>t. save_ordinary_entity w c (e\<lparr>en_attrs := dmerge (en_attrs e) a\<rparr>) t d'))"

section \<open>Listing, queries, deletion\<close>

definition rows_to_entities :: "codec \<Rightarrow> string \<Rightarrow> etype \<Rightarrow> ord_row list \<Rightarrow> entity list res" where
  "rows_to_entities c ty t = map_res (ordinary_entity_from_row c ty t)"

fun list_ordinary_of :: "codec \<Rightarrow> (string, etype) dict \<Rightarrow> string list \<Rightarrow> entity list rx" where
  "list_ordinary_of c types [] d = Inr ([], d)"
| "list_ordinary_of c types (ty # tys) d = (case dget types ty of
     None \<Rightarrow> list_ordinary_of c types tys d
   | Some t \<Rightarrow> if \<not> is_database_type ty t then list_ordinary_of c types tys d
       else rbind (ensure_table ty t d) (\<lambda>(tb, d1).
         rbind (rows_to_entities c ty t (sort_key or_id (ot_rows (table_of tb d1)))) (\<lambda>es.
         rbind (list_ordinary_of c types tys d1) (\<lambda>(rest, d2). Inr (es @ rest, d2)))))"

definition list_ordinary_entities :: "codec \<Rightarrow> (string, etype) dict \<Rightarrow> string option \<Rightarrow> entity list rx" where
  "list_ordinary_entities c types ty = list_ordinary_of c types (case ty of Some t \<Rightarrow> [t] | None \<Rightarrow> sort (dkeys types))"

text \<open>A comparison with NULL does not hold.\<close>

definition column_equals :: "ord_row \<Rightarrow> string \<times> pyval \<Rightarrow> bool" where
  "column_equals r kv = (\<not> is_none (snd kv) \<and> py_eq (aget (or_cols r) (fst kv)) (snd kv))"

definition query_ordinary_entities :: "codec \<Rightarrow> string \<Rightarrow> (string, etype) dict \<Rightarrow> (string, pyval) dict \<Rightarrow> entity list rx" where
  "query_ordinary_entities c ty types filters d = rbind (case dget types ty of None \<Rightarrow> Inl (KeyError ty) | Some t \<Rightarrow> Inr t) (\<lambda>t.
     rbind (ensure_table ty t d) (\<lambda>(tb, d').
     let mat = filter (\<lambda>(k, _). dhas (et_materialized t) k) filters; rest = filter (\<lambda>(k, _). \<not> dhas (et_materialized t) k) filters in
     rbind (map_res (\<lambda>(k, v). rbind (case dget (et_materialized t) k of None \<Rightarrow> Inl (KeyError k) | Some m \<Rightarrow> encode_value c v (mf_type m))
       (\<lambda>x. Inr (k, x))) mat) (\<lambda>enc.
     if \<not> list_all (\<lambda>(k, _). is_identifier k) mat then Inl sql_error
     else rbind (rows_to_entities c ty t (filter (\<lambda>r. list_all (column_equals r) enc) (ot_rows (table_of tb d')))) (\<lambda>es.
       Inr (filter (\<lambda>e. list_all (\<lambda>(k, v). py_eq (aget (en_attrs e) k) v) rest) es, d')))))"

text \<open>The row is looked up again, by its id or its business id.\<close>

fun delete_ordinary_in :: "string \<Rightarrow> (string, etype) dict \<Rightarrow> bool rx" where
  "delete_ordinary_in ref [] d = Inr (False, d)"
| "delete_ordinary_in ref ((ty, t) # rest) d = (if \<not> is_database_type ty t then delete_ordinary_in ref rest d
     else rbind (ensure_table ty t d) (\<lambda>(tb, d').
       case first_of (\<lambda>r. or_id r = ref \<or> or_business r = ref) (ot_rows (table_of tb d')) of
         None \<Rightarrow> delete_ordinary_in ref rest d'
       | Some r \<Rightarrow> Inr (True, set_table tb ((table_of tb d')\<lparr>ot_rows := filter (\<lambda>x. or_id x \<noteq> or_id r) (ot_rows (table_of tb d'))\<rparr>) d')))"

definition delete_ordinary_entity :: "codec \<Rightarrow> string \<Rightarrow> (string, etype) dict \<Rightarrow> (bool \<times> rel_row list) rx" where
  "delete_ordinary_entity c ref types d = rbind (find_ordinary_entity c ref types d) (\<lambda>(x, d').
     let refs = (case x of None \<Rightarrow> [ref] | Some e \<Rightarrow> entity_refs e types); blocking = list_relations_for_entity_refs refs d' in
     if blocking \<noteq> [] then Inr ((False, blocking), d')
     else rbind (delete_ordinary_in ref types d') (\<lambda>(b, d2). Inr ((b, []), d2)))"

section \<open>Creating a relation\<close>

definition entity_exists :: "codec \<Rightarrow> string \<Rightarrow> (string, etype) dict \<Rightarrow> bool rx" where
  "entity_exists c ref types d = (if get_core_entity ref types d \<noteq> None then Inr (True, d)
     else rbind (find_ordinary_entity c ref types d) (\<lambda>(x, d'). Inr (x \<noteq> None, d')))"

definition check_ends :: "codec \<Rightarrow> string \<Rightarrow> string \<Rightarrow> (string, etype) dict option \<Rightarrow> repo \<Rightarrow> repo res" where
  "check_ends c f t types d = (case types of None \<Rightarrow> Inr d
     | Some ts \<Rightarrow> rbind (entity_exists c f ts d) (\<lambda>(b1, d1).
         if \<not> b1 then Inl (ValueError (''from entity not found: '' @ f))
         else rbind (entity_exists c t ts d1) (\<lambda>(b2, d2).
           if \<not> b2 then Inl (ValueError (''to entity not found: '' @ t)) else Inr d2)))"

definition create_relation :: "draws \<Rightarrow> codec \<Rightarrow> string \<Rightarrow> string \<Rightarrow> string \<Rightarrow> (string, pyval) dict \<Rightarrow> (string, etype) dict option \<Rightarrow> rel_row rx" where
  "create_relation w c f t ty meta types d = rbind (check_ends c f t types d) (\<lambda>d'.
     case relation_by_key f t ty d' of Some r \<Rightarrow> Inr (r, d')
     | None \<Rightarrow> (let r = \<lparr>rr_id = dw_uuid w (rp_count d'), rr_from = f, rr_to = t, rr_type = ty, rr_meta = meta,
           rr_created = dw_now w (rp_count d')\<rparr> in
         if list_ex (\<lambda>x. rr_id x = rr_id r) (rp_relations d') then Inl integrity_error
         else Inr (r, d'\<lparr>rp_relations := rp_relations d' @ [r], rp_count := Suc (rp_count d')\<rparr>)))"

section \<open>Materializing a field\<close>

definition mat_type_of :: "string \<Rightarrow> mat_type option" where
  "mat_type_of s = dget [(''integer'', MInteger), (''text'', MText), (''real'', MReal), (''datetime'', MDatetime),
     (''boolean'', MBoolean), (''json'', MJson)] s"

definition schema_field_type :: "etype \<Rightarrow> string \<Rightarrow> mat_type" where
  "schema_field_type t f = (case aget (et_schema t) ''properties'' of
     PDict ps \<Rightarrow> (case aget ps f of
         PDict fs \<Rightarrow> (case aget fs ''type'' of
             PStr s \<Rightarrow> if s = ''number'' then MReal else if s = ''string'' then MText
               else (case mat_type_of s of Some m \<Rightarrow> m | None \<Rightarrow> MText)
           | _ \<Rightarrow> MText)
       | _ \<Rightarrow> MText)
   | _ \<Rightarrow> MText)"

definition field_config :: "etype \<Rightarrow> string \<Rightarrow> mat_type option \<Rightarrow> bool option \<Rightarrow> mat_field" where
  "field_config t f ty ix = (case dget (et_materialized t) f of
     Some m \<Rightarrow> \<lparr>mf_type = (case ty of Some x \<Rightarrow> x | None \<Rightarrow> mf_type m), mf_index = (case ix of Some b \<Rightarrow> b | None \<Rightarrow> mf_index m)\<rparr>
   | None \<Rightarrow> \<lparr>mf_type = (case ty of Some x \<Rightarrow> x | None \<Rightarrow> schema_field_type t f), mf_index = (ix = Some True)\<rparr>)"

record mat_plan =
  mp_type :: string
  mp_table :: string
  mp_field :: string
  mp_column :: mat_type
  mp_index :: bool
  mp_backfill :: nat
  mp_exists :: bool
  mp_index_name :: "string option"

definition materialization_plan :: "string \<Rightarrow> etype \<Rightarrow> string \<Rightarrow> mat_type option \<Rightarrow> bool option \<Rightarrow> mat_plan rx" where
  "materialization_plan ty t f fty ix d = (let m = field_config t f fty ix in
     rbind (ensure_table ty t d) (\<lambda>(tb, d'). rbind (has_column tb f d') (\<lambda>ex.
     rbind (if mf_index m then rbind (index_name tb f) (\<lambda>n. Inr (Some n)) else Inr None) (\<lambda>nm.
     Inr (\<lparr>mp_type = ty, mp_table = tb, mp_field = f, mp_column = mf_type m, mp_index = mf_index m,
       mp_backfill = length (filter (\<lambda>r. dhas (or_json r) f) (ot_rows (table_of tb d'))), mp_exists = ex, mp_index_name = nm\<rparr>, d')))))"

definition backfill_row :: "codec \<Rightarrow> string \<Rightarrow> string \<Rightarrow> mat_type \<Rightarrow> ord_row \<Rightarrow> ord_row res" where
  "backfill_row c col f ty r = (case dget (or_json r) f of None \<Rightarrow> Inr r
     | Some v \<Rightarrow> rbind (encode_value c v ty) (\<lambda>x. Inr (r\<lparr>or_cols := dset (or_cols r) col x\<rparr>)))"

definition apply_materialization :: "codec \<Rightarrow> string \<Rightarrow> etype \<Rightarrow> string \<Rightarrow> mat_type option \<Rightarrow> bool option \<Rightarrow> mat_plan rx" where
  "apply_materialization c ty t f fty ix d = rbind (materialization_plan ty t f fty ix d) (\<lambda>(p, d1).
     rbind (if mp_exists p then Inr d1 else ensure_column (mp_table p) f d1) (\<lambda>d2.
     rbind (if mp_index p then ensure_index (mp_table p) f d2 else Inr d2) (\<lambda>d3.
     rbind (sql_identifier f) (\<lambda>col. let tab = table_of (mp_table p) d3 in
     rbind (map_res (backfill_row c col f (mp_column p)) (ot_rows tab)) (\<lambda>rs.
       Inr (p, set_table (mp_table p) (tab\<lparr>ot_rows := rs\<rparr>) d3))))))"

definition deprecated_cleanup_ready :: "string \<Rightarrow> etype \<Rightarrow> string \<Rightarrow> bool rx" where
  "deprecated_cleanup_ready ty t f d = (if f \<notin> set (et_deprecated t) then Inr (False, d)
     else rbind (ensure_table ty t d) (\<lambda>(tb, d'). Inr (list_all (\<lambda>r. \<not> dhas (or_json r) f) (ot_rows (table_of tb d')), d')))"

end
