(* ===== verification/CoreRepoProps.thy ===== *)
theory CoreRepoProps
  imports CoreRepo RunStoreProps
begin

text \<open>
  Saving a core entity: what is read back is a fixed point of saving, other entities are untouched, keys stay unique.
\<close>

section \<open>Extra attributes\<close>

lemma extra_update: "k \<in> set cols \<Longrightarrow> extra_attrs (AList.update k v a) cols = extra_attrs a cols"
  by (induction a) (auto simp: extra_attrs_def)

lemma extra_delete: "extra_attrs (AList.delete k a) cols = filter (\<lambda>(k', _). k' \<noteq> k) (extra_attrs a cols)"
  by (auto simp: extra_attrs_def AList.delete_eq intro: filter_cong)

lemma extra_merge: "set (dkeys kvs) \<subseteq> set cols \<Longrightarrow> extra_attrs (dmerge a kvs) cols = extra_attrs a cols"
  by (induction a kvs rule: dmerge.induct) (simp_all add: extra_update)

lemma extra_idem [simp]: "extra_attrs (extra_attrs a cols) cols = extra_attrs a cols"
  by (simp add: extra_attrs_def)

lemma dget_extra: "dget (extra_attrs a cols) k = (if k \<in> set cols then None else dget a k)"
  by (induction a) (auto simp: extra_attrs_def)

section \<open>Conversions of read values\<close>

lemma str_list_strs [simp]: "str_list (strs xs) = xs"
  by (simp add: str_list_def strs_def comp_def)

lemma dict_of_PDict [simp]: "dict_of (PDict d) = d"
  by (simp add: dict_of_def)

lemma dict_list_idem [simp]: "dict_list (PList (dict_list v)) = dict_list v"
  by (cases v) (auto simp: dict_list_def)

lemma text_of_opt [simp]: "text_unless_none (opt_text x) = x"
  by (cases x) (simp_all add: text_unless_none_def opt_text_def)

lemma is_none_opt [simp]: "is_none (opt_text x) \<longleftrightarrow> x = None"
  by (cases x) (simp_all add: opt_text_def)

lemma is_none_iff: "is_none v \<longleftrightarrow> v = PNone"
  by (cases v) auto

lemma py_str_idem [simp]: "PStr (py_str (PStr (py_str v))) = PStr (py_str v)"
  by simp

section \<open>Fixed points\<close>

lemma dag_row_idem: "core_dag_row e = Inr r \<Longrightarrow> core_dag_row (core_dag_to_entity r) = Inr r"
  by (auto simp: core_dag_row_def core_dag_to_entity_def Let_def str_attr_def attr_def aget_def dget_default_def
    extra_update dget_extra split: option.splits)

lemma trigger_row_idem: "core_trigger_row e = Inr r \<Longrightarrow> core_trigger_row (core_trigger_to_entity r) = Inr r"
  by (auto simp: core_trigger_row_def core_trigger_to_entity_def Let_def str_attr_def attr_def aget_def dget_default_def
    extra_update dget_extra split: option.splits)

lemma mapping_row_idem: "core_mapping_row e = Inr r \<Longrightarrow> core_mapping_row (core_mapping_to_entity r) = Inr r"
  by (auto simp: core_mapping_row_def core_mapping_to_entity_def Let_def str_attr_def attr_def aget_def dget_default_def
    extra_update dget_extra split: option.splits)

text \<open>A float prints as some text.\<close>

definition prints :: "pyval \<Rightarrow> bool" where
  "prints v = (case v of PFloat r t \<Rightarrow> t \<noteq> [] | _ \<Rightarrow> True)"

lemma nat_str_ne [simp]: "nat_str n \<noteq> []"
  by (subst nat_str.simps) simp

lemma int_str_ne [simp]: "int_str i \<noteq> []"
  by (simp add: int_str_def)

lemma py_str_ne: "truthy v \<Longrightarrow> prints v \<Longrightarrow> py_str v \<noteq> []"
  by (cases v) (auto simp: prints_def)

lemma str_or_idem: "prints v \<Longrightarrow> str_or (PStr (str_or v d)) d = str_or v d"
  using py_str_ne [of v] by (auto simp: str_or_def)

lemma resource_row_idem:
  assumes "core_resource_row e = Inr r" "prints (aget (en_attrs e) ''id'')"
  shows "core_resource_row (core_resource_to_entity r) = Inr r"
proof -
  have r: "cs_resource r = str_or (aget (en_attrs e) ''id'') (en_id e)" "cs_entity r = en_id e"
    "cs_extra r = extra_attrs (en_attrs e) [''id'', ''permits'']"
    using assms(1) by (auto simp: core_resource_row_def Let_def)
  have "str_or (PStr (cs_resource r)) (cs_entity r) = cs_resource r" unfolding r(1,2) by (rule str_or_idem [OF assms(2)])
  then show ?thesis
    by (simp add: core_resource_row_def core_resource_to_entity_def Let_def attr_def aget_def dget_default_def py_int_def
      extra_update r(3))
qed

lemma dget_If: "dget (if b then x else y) k = (if b then dget x k else dget y k)"
  by simp

lemma dget_set_if: "dget (set_if_not_none k v a) j = (if j = k \<and> v \<noteq> PNone then Some v else dget a j)"
  by (cases v) (simp_all add: set_if_not_none_def)

lemma dget_add_opt: "dget (add_opt k x a) j = (if j = k \<and> x \<noteq> None then Some (opt_text x) else dget a j)"
  by (cases x) (simp_all add: add_opt_def dget_set_if opt_text_def)

text \<open>A node may hold more than it shows: the fields its type does not have are not read back.\<close>

definition hidden_extra :: "core_node \<Rightarrow> bool" where
  "hidden_extra r = (\<forall>k \<in> set node_columns. dget (cn_extra r) k = None)"

lemma hidden_extraD: "hidden_extra r \<Longrightarrow> k \<in> set node_columns \<Longrightarrow> dget (cn_extra r) k = None"
  by (simp add: hidden_extra_def)

lemmas node_get = core_node_attrs_def Let_def dget_If dget_set_if dget_add_opt

lemma node_attrs_get:
  assumes h: "hidden_extra r"
  shows "dget (core_node_attrs r) ''name'' = Some (PStr (cn_name r))" "dget (core_node_attrs r) ''type'' = Some (PStr (cn_type r))"
    "dget (core_node_attrs r) ''role'' = Some (PStr (cn_role r))" "dget (core_node_attrs r) ''input_type'' = Some (PStr (cn_input r))"
    "dget (core_node_attrs r) ''output_type'' = Some (PStr (cn_output r))"
    "dget (core_node_attrs r) ''optional'' = Some (PBool (cn_optional r))"
  by (simp_all add: node_get)

lemma node_attrs_opts:
  assumes h: "hidden_extra r"
  shows "aget (core_node_attrs r) ''handler'' = opt_text (cn_handler r)"
    "aget (core_node_attrs r) ''system_prompt_file'' = opt_text (cn_prompt_file r)"
    "aget (core_node_attrs r) ''system_prompt'' = opt_text (cn_prompt r)" "aget (core_node_attrs r) ''model'' = opt_text (cn_model r)"
    "aget (core_node_attrs r) ''workdir'' = opt_text (cn_workdir r)" "aget (core_node_attrs r) ''dag_ref'' = opt_text (cn_dag_ref r)"
    "aget (core_node_attrs r) ''timeout_seconds'' = (case cn_timeout r of None \<Rightarrow> PNone | Some v \<Rightarrow> v)"
  using hidden_extraD [OF h]
  by (simp_all add: aget_def dget_default_def node_get node_columns_def opt_text_def split: option.split)

lemma node_attrs_lists:
  assumes h: "hidden_extra r"
  shows "aget (core_node_attrs r) ''skills'' = (if cn_type r \<in> {''function'', ''agent''} then strs (cn_skills r) else PNone)"
    "aget (core_node_attrs r) ''parameters_schema'' = (if cn_type r \<in> {''function'', ''agent''} then PDict (cn_schema r) else PNone)"
    "aget (core_node_attrs r) ''tools'' = (if cn_type r = ''agent'' then strs (cn_tools r) else PNone)"
    "aget (core_node_attrs r) ''source_names'' = (if cn_type r = ''function'' then strs (cn_sources r) else PNone)"
    "aget (core_node_attrs r) ''parameters'' = (if cn_type r = ''function'' then PDict (cn_parameters r) else PNone)"
    "aget (core_node_attrs r) ''input_mapping'' = (if cn_mapping r = [] then PNone else PDict (cn_mapping r))"
  using hidden_extraD [OF h]
  by (simp_all add: aget_def dget_default_def node_get node_columns_def)

lemma extra_If: "extra_attrs (if b then x else y) cols = (if b then extra_attrs x cols else extra_attrs y cols)"
  by simp

lemma extra_set_if: "k \<in> set cols \<Longrightarrow> extra_attrs (set_if_not_none k v a) cols = extra_attrs a cols"
  by (simp add: set_if_not_none_def extra_update)

lemma extra_add_opt: "k \<in> set cols \<Longrightarrow> extra_attrs (add_opt k x a) cols = extra_attrs a cols"
  by (simp add: add_opt_def extra_set_if)

lemma node_attrs_extra: "extra_attrs (core_node_attrs r) node_columns = extra_attrs (cn_extra r) node_columns"
  by (simp add: core_node_attrs_def Let_def extra_If extra_set_if extra_add_opt extra_merge extra_update node_columns_def)

text \<open>The fields of a row that its entity shows.\<close>

definition same_shown :: "core_node \<Rightarrow> core_node \<Rightarrow> bool" where
  "same_shown r r' = (r' = r\<lparr>cn_skills := cn_skills r', cn_schema := cn_schema r', cn_tools := cn_tools r',
      cn_sources := cn_sources r', cn_parameters := cn_parameters r'\<rparr>
    \<and> (cn_type r \<in> {''function'', ''agent''} \<longrightarrow> cn_skills r' = cn_skills r \<and> cn_schema r' = cn_schema r)
    \<and> (cn_type r = ''agent'' \<longrightarrow> cn_tools r' = cn_tools r)
    \<and> (cn_type r = ''function'' \<longrightarrow> cn_sources r' = cn_sources r \<and> cn_parameters r' = cn_parameters r))"

lemma same_shown_entity:
  assumes "same_shown r r'"
  shows "core_node_to_entity r' = core_node_to_entity r"
proof -
  obtain sk sc tl so pa where r': "r' = r\<lparr>cn_skills := sk, cn_schema := sc, cn_tools := tl, cn_sources := so, cn_parameters := pa\<rparr>"
    using assms unfolding same_shown_def by blast
  show ?thesis using assms unfolding r' same_shown_def core_node_to_entity_def core_node_attrs_def
    by (cases "cn_type r = ''function''"; cases "cn_type r = ''agent''") (simp_all add: Let_def cong: if_cong)
qed

lemma node_row_idem:
  assumes r: "core_node_row w e = Inr r" and p: "prints (aget (en_attrs e) ''type'')" "prints (aget (en_attrs e) ''role'')"
  shows "\<exists>r'. core_node_row w (core_node_to_entity r) = Inr r' \<and> same_shown r r'"
proof -
  let ?a = "dpop (en_attrs e) ''input_binding''"
  have f: "cn_entity r = en_id e" "cn_type r = str_or (aget ?a ''type'') ''function''" "cn_role r = str_or (aget ?a ''role'') ''processor''"
    "cn_timeout r = float_or_none w (aget ?a ''timeout_seconds'')" "cn_extra r = extra_attrs ?a node_columns"
    "cn_mapping r = map (\<lambda>(k, v). (k, PStr (py_str v))) (dict_of (aget ?a ''input_mapping''))"
    using r by (auto simp: core_node_row_def Let_def)
  have h: "hidden_extra r" by (simp add: hidden_extra_def f(5) dget_extra)
  have ib: "dget (cn_extra r) ''input_binding'' = None" by (simp add: f(5) dget_extra)
  have "\<not> dhas (core_node_attrs r) ''input_binding''" by (simp add: dhas_def node_get ib)
  then have pop: "dpop (core_node_attrs r) ''input_binding'' = core_node_attrs r" by (rule dpop_id)
  have "aget ?a ''type'' = aget (en_attrs e) ''type''" "aget ?a ''role'' = aget (en_attrs e) ''role''" by (simp_all add: aget_def dget_default_def)
  then have t: "str_or (PStr (cn_type r)) ''function'' = cn_type r" "str_or (PStr (cn_role r)) ''processor'' = cn_role r"
    unfolding f(2,3) using p by (simp_all add: str_or_idem)
  have tm: "float_or_none w (case cn_timeout r of None \<Rightarrow> PNone | Some v \<Rightarrow> v) = cn_timeout r"
    unfolding f(4) by (cases "aget ?a ''timeout_seconds''") (simp_all add: float_or_none_def)
  have mp: "map (\<lambda>(k, v). (k, PStr (py_str v))) (cn_mapping r) = cn_mapping r" unfolding f(6) by (auto simp: split_def)
  have ex: "extra_attrs (core_node_attrs r) node_columns = cn_extra r" unfolding node_attrs_extra by (simp add: f(5))
  show ?thesis
    unfolding core_node_row_def core_node_to_entity_def Let_def str_attr_def attr_def entity.simps pop
    by (simp add: node_attrs_get [OF h] node_attrs_opts [OF h] node_attrs_lists [OF h] aget_def [of _ "''type''"] aget_def [of _ "''role''"]
        dget_default_def t tm mp ex same_shown_def, auto simp: dict_of_def str_list_def)
qed

section \<open>Rows of a table\<close>

lemma put_row_first:
  assumes "put_row key name r rs = Inr rs'"
  shows "first_of (\<lambda>x. key x = key r) rs' = Some r"
proof (cases "first_of (\<lambda>x. key x = key r) rs")
  case None
  then have "rs' = rs @ [r]" using assms by (simp add: put_row_def split: if_splits)
  then show ?thesis using None by (simp add: first_of_append first_of_Cons)
next
  case (Some x)
  then have e: "rs' = update_first (\<lambda>x. key x = key r) (\<lambda>_. r) rs" using assms by (simp add: put_row_def split: if_splits)
  have "first_of (\<lambda>x. key x = key r) rs = Some x \<Longrightarrow> first_of (\<lambda>x. key x = key r) (update_first (\<lambda>x. key x = key r) (\<lambda>_. r) rs) = Some r"
    by (induction rs) (auto simp: first_of_Cons split: if_splits, simp add: first_of_def)
  then show ?thesis using Some e by simp
qed

lemma put_row_others:
  assumes "put_row key name r rs = Inr rs'"
  shows "filter (\<lambda>x. key x \<noteq> key r) rs' = filter (\<lambda>x. key x \<noteq> key r) rs"
proof -
  have "filter (\<lambda>x. key x \<noteq> key r) (update_first (\<lambda>x. key x = key r) (\<lambda>_. r) rs) = filter (\<lambda>x. key x \<noteq> key r) rs"
    by (induction rs) auto
  then show ?thesis using assms by (auto simp: put_row_def split: if_splits option.splits)
qed

lemma map_update_first:
  "first_of P rs = Some r \<Longrightarrow> f r' = f r \<Longrightarrow> map f (update_first P (\<lambda>_. r') rs) = map f rs"
  by (induction rs) (auto simp: first_of_Cons first_of_def split: if_splits)

lemma put_row_again:
  assumes "put_row key name r rs = Inr rs'" "key r' = key r" "name r' = name r"
  shows "put_row key name r' rs' = Inr (update_first (\<lambda>x. key x = key r) (\<lambda>_. r') rs')"
proof -
  have "set (filter (\<lambda>x. key x \<noteq> key r) rs') \<subseteq> set rs" unfolding put_row_others [OF assms(1)] by auto
  then have "\<not> list_ex (\<lambda>x. key x \<noteq> key r \<and> name x = name r) rs'"
    using assms(1) by (auto simp: put_row_def list_ex_iff split: if_splits)
  then show ?thesis using put_row_first [OF assms(1)] assms(2,3) by (simp add: put_row_def)
qed

lemma put_row_distinct:
  assumes "put_row key name r rs = Inr rs'" "distinct (map key rs)" "distinct (map name rs)"
  shows "distinct (map key rs') \<and> distinct (map name rs')"
proof -
  have n: "\<forall>x \<in> set rs. key x \<noteq> key r \<longrightarrow> name x \<noteq> name r" using assms(1) by (auto simp: put_row_def list_ex_iff split: if_splits)
  show ?thesis
  proof (cases "first_of (\<lambda>x. key x = key r) rs")
    case None
    then have "rs' = rs @ [r]" using assms(1) by (simp add: put_row_def split: if_splits)
    moreover have "\<forall>x \<in> set rs. key x \<noteq> key r" using None by (simp add: first_of_None)
    ultimately show ?thesis using assms(2,3) n by auto
  next
    case (Some x)
    have "distinct (map key (update_first (\<lambda>x. key x = key r) (\<lambda>_. r) rs)) \<and> distinct (map name (update_first (\<lambda>x. key x = key r) (\<lambda>_. r) rs))"
      using assms(2,3) n
    proof (induction rs)
      case (Cons y ys)
      show ?case
      proof (cases "key y = key r")
        case True
        then have "\<forall>x \<in> set ys. key x \<noteq> key r" using Cons.prems(1) by (auto simp: image_iff)
        then show ?thesis using Cons.prems True by auto
      next
        case False
        have "key ` set (update_first (\<lambda>x. key x = key r) (\<lambda>_. r) ys) \<subseteq> insert (key r) (key ` set ys)"
          "name ` set (update_first (\<lambda>x. key x = key r) (\<lambda>_. r) ys) \<subseteq> insert (name r) (name ` set ys)"
          using update_first_set by fastforce+
        then show ?thesis using Cons False by auto
      qed
    qed simp
    then show ?thesis using assms(1) Some by (simp add: put_row_def split: if_splits)
  qed
qed

text \<open>What a table of core entities owes to the repository: a row keeps the id of its entity, and the entity it shows
  makes a row that shows the same.\<close>

locale core_table =
  fixes key name :: "'r \<Rightarrow> string" and shown :: "'r \<Rightarrow> entity" and make :: "entity \<Rightarrow> 'r res" and good :: "entity \<Rightarrow> bool"
  assumes make_key: "make e = Inr r \<Longrightarrow> key r = en_id e"
    and shown_id: "en_id (shown r) = key r"
    and again: "make e = Inr r \<Longrightarrow> good e \<Longrightarrow> \<exists>r'. make (shown r) = Inr r' \<and> shown r' = shown r \<and> name r' = name r"
begin

lemma saved:
  assumes "make e = Inr r" "put_row key name r rs = Inr rs'"
  shows "shown r \<in> set (map shown rs')" "en_id (shown r) = en_id e"
    "filter (\<lambda>x. en_id x \<noteq> en_id e) (map shown rs') = filter (\<lambda>x. en_id x \<noteq> en_id e) (map shown rs)"
  using first_of_Some [OF put_row_first [OF assms(2)]] put_row_others [OF assms(2)] make_key [OF assms(1)]
  by (auto simp: filter_map comp_def shown_id)

lemma saved_again:
  assumes "make e = Inr r" "put_row key name r rs = Inr rs'" "good e"
  shows "\<exists>r' rs''. make (shown r) = Inr r' \<and> put_row key name r' rs' = Inr rs'' \<and> shown r' = shown r \<and> map shown rs'' = map shown rs'"
proof -
  obtain r' where r': "make (shown r) = Inr r'" "shown r' = shown r" "name r' = name r" using again [OF assms(1,3)] by blast
  have "key r' = key r" using arg_cong [OF r'(2), of en_id] by (simp add: shown_id)
  then have "put_row key name r' rs' = Inr (update_first (\<lambda>x. key x = key r) (\<lambda>_. r') rs')"
    by (rule put_row_again [OF assms(2) _ r'(3)])
  then show ?thesis using r'(1,2) map_update_first [where f = shown, OF put_row_first [OF assms(2)] r'(2)] by blast
qed

end

definition printable :: "entity \<Rightarrow> bool" where
  "printable e = (\<forall>k. prints (aget (en_attrs e) k))"

interpretation node_table: core_table cn_entity cn_name core_node_to_entity "core_node_row w" printable for w
proof
  show "\<exists>r'. core_node_row w (core_node_to_entity r) = Inr r' \<and> core_node_to_entity r' = core_node_to_entity r \<and> cn_name r' = cn_name r"
    if c: "core_node_row w e = Inr r" "printable e" for e r
  proof -
    obtain r' where r': "core_node_row w (core_node_to_entity r) = Inr r'" "same_shown r r'"
      using node_row_idem [OF c(1)] c(2) by (auto simp: printable_def)
    obtain sk sc tl so pa where "r' = r\<lparr>cn_skills := sk, cn_schema := sc, cn_tools := tl, cn_sources := so, cn_parameters := pa\<rparr>"
      using r'(2) unfolding same_shown_def by blast
    then have "cn_name r' = cn_name r" by simp
    then show ?thesis using r' same_shown_entity by blast
  qed
qed (auto simp: core_node_row_def core_node_to_entity_def Let_def)

interpretation dag_table: core_table cg_entity cg_name core_dag_to_entity core_dag_row printable
proof
  show "\<exists>r'. core_dag_row (core_dag_to_entity r) = Inr r' \<and> core_dag_to_entity r' = core_dag_to_entity r \<and> cg_name r' = cg_name r"
    if c: "core_dag_row e = Inr r" "printable e" for e r
    using dag_row_idem c by blast
qed (auto simp: core_dag_row_def core_dag_to_entity_def Let_def)

interpretation trigger_table: core_table cr_entity cr_name core_trigger_to_entity core_trigger_row printable
proof
  show "\<exists>r'. core_trigger_row (core_trigger_to_entity r) = Inr r' \<and> core_trigger_to_entity r' = core_trigger_to_entity r \<and> cr_name r' = cr_name r"
    if c: "core_trigger_row e = Inr r" "printable e" for e r
    using trigger_row_idem c by blast
qed (auto simp: core_trigger_row_def core_trigger_to_entity_def Let_def)

interpretation resource_table: core_table cs_entity cs_resource core_resource_to_entity core_resource_row printable
proof
  show "\<exists>r'. core_resource_row (core_resource_to_entity r) = Inr r' \<and> core_resource_to_entity r' = core_resource_to_entity r \<and> cs_resource r' = cs_resource r"
    if c: "core_resource_row e = Inr r" "printable e" for e r
    using resource_row_idem c by (auto simp: printable_def)
qed (auto simp: core_resource_row_def core_resource_to_entity_def Let_def)

interpretation mapping_table: core_table cm_entity cm_name core_mapping_to_entity core_mapping_row printable
proof
  show "\<exists>r'. core_mapping_row (core_mapping_to_entity r) = Inr r' \<and> core_mapping_to_entity r' = core_mapping_to_entity r \<and> cm_name r' = cm_name r"
    if c: "core_mapping_row e = Inr r" "printable e" for e r
    using mapping_row_idem c by blast
qed (auto simp: core_mapping_row_def core_mapping_to_entity_def Let_def)

section \<open>Saving a core entity\<close>

definition other_than :: "entity \<Rightarrow> entity \<Rightarrow> bool" where
  "other_than e x = (en_type x \<noteq> en_type e \<or> en_id x \<noteq> en_id e)"

lemma all_core: "list_core_entities None d = map core_node_to_entity (rp_nodes_t d) @ map core_dag_to_entity (rp_dags_t d)
    @ map core_mapping_to_entity (rp_mappings_t d) @ map core_trigger_to_entity (rp_triggers_t d) @ map core_resource_to_entity (rp_resources_t d)"
  by (simp add: list_core_entities_def core_tables_def core_entities_of_def)

lemma shown_types: "en_type (core_node_to_entity r1) = ''node''" "en_type (core_dag_to_entity r2) = ''dag''"
  "en_type (core_trigger_to_entity r3) = ''trigger''" "en_type (core_resource_to_entity r4) = ''resource''"
  "en_type (core_mapping_to_entity r5) = ''input_mapping''"
  by (simp_all add: core_node_to_entity_def core_dag_to_entity_def core_trigger_to_entity_def core_resource_to_entity_def core_mapping_to_entity_def)

lemma filter_other:
  assumes "\<forall>x \<in> set xs. en_type x = ty"
  shows "filter (other_than e) xs = (if en_type e = ty then filter (\<lambda>x. en_id x \<noteq> en_id e) xs else xs)"
  using assms by (induction xs) (auto simp: other_than_def)

lemmas core_filters = filter_other [of "map core_node_to_entity rs" "''node''" for rs] filter_other [of "map core_dag_to_entity rs" "''dag''" for rs]
  filter_other [of "map core_trigger_to_entity rs" "''trigger''" for rs] filter_other [of "map core_resource_to_entity rs" "''resource''" for rs]
  filter_other [of "map core_mapping_to_entity rs" "''input_mapping''" for rs]

text \<open>C15: Saving a core entity keeps its id and type, changes no other core entity, and what it answers is stored and a
  fixed point: saving the answer again is accepted, gives the same answer and changes no entity.\<close>

theorem core_save_fixed_point:
  assumes "save_core_entity w e d = Inr (e', d')" "printable e"
  shows "en_id e' = en_id e \<and> en_type e' = en_type e \<and> e' \<in> set (list_core_entities None d')
    \<and> filter (other_than e) (list_core_entities None d') = filter (other_than e) (list_core_entities None d)
    \<and> (\<exists>d''. save_core_entity w e' d' = Inr (e', d'') \<and> list_core_entities None d'' = list_core_entities None d')"
proof -
  consider "en_type e = ''node''" | "en_type e = ''dag''" | "en_type e = ''trigger''" | "en_type e = ''resource''" | "en_type e = ''input_mapping''"
    using assms(1) by (auto simp: save_core_entity_def split: if_splits)
  then show ?thesis
  proof cases
    case 1
    then obtain r rs where r: "core_node_row w e = Inr r" "put_row cn_entity cn_name r (rp_nodes_t d) = Inr rs"
      "e' = core_node_to_entity r" "d' = d\<lparr>rp_nodes_t := rs\<rparr>" using assms(1) by (auto simp: save_core_entity_def save_core_node_def)
    note sv = node_table.saved [OF r(1,2)] and ag = node_table.saved_again [OF r(1,2) assms(2)]
    then show ?thesis using 1 by (auto simp: r(3,4) all_core shown_types core_filters save_core_entity_def save_core_node_def)
  next
    case 2
    then obtain r rs where r: "core_dag_row e = Inr r" "put_row cg_entity cg_name r (rp_dags_t d) = Inr rs"
      "e' = core_dag_to_entity r" "d' = d\<lparr>rp_dags_t := rs\<rparr>" using assms(1) by (auto simp: save_core_entity_def save_core_dag_def)
    note sv = dag_table.saved [OF r(1,2)] and ag = dag_table.saved_again [OF r(1,2) assms(2)]
    then show ?thesis using 2 by (auto simp: r(3,4) all_core shown_types core_filters save_core_entity_def save_core_dag_def)
  next
    case 3
    then obtain r rs where r: "core_trigger_row e = Inr r" "put_row cr_entity cr_name r (rp_triggers_t d) = Inr rs"
      "e' = core_trigger_to_entity r" "d' = d\<lparr>rp_triggers_t := rs\<rparr>" using assms(1) by (auto simp: save_core_entity_def save_core_trigger_def)
    note sv = trigger_table.saved [OF r(1,2)] and ag = trigger_table.saved_again [OF r(1,2) assms(2)]
    then show ?thesis using 3 by (auto simp: r(3,4) all_core shown_types core_filters save_core_entity_def save_core_trigger_def)
  next
    case 4
    then obtain r rs where r: "core_resource_row e = Inr r" "put_row cs_entity cs_resource r (rp_resources_t d) = Inr rs"
      "e' = core_resource_to_entity r" "d' = d\<lparr>rp_resources_t := rs\<rparr>" using assms(1) by (auto simp: save_core_entity_def save_core_resource_def)
    note sv = resource_table.saved [OF r(1,2)] and ag = resource_table.saved_again [OF r(1,2) assms(2)]
    then show ?thesis using 4 by (auto simp: r(3,4) all_core shown_types core_filters save_core_entity_def save_core_resource_def)
  next
    case 5
    then obtain r rs where r: "core_mapping_row e = Inr r" "put_row cm_entity cm_name r (rp_mappings_t d) = Inr rs"
      "e' = core_mapping_to_entity r" "d' = d\<lparr>rp_mappings_t := rs\<rparr>" using assms(1) by (auto simp: save_core_entity_def save_core_mapping_def)
    note sv = mapping_table.saved [OF r(1,2)] and ag = mapping_table.saved_again [OF r(1,2) assms(2)]
    then show ?thesis using 5 by (auto simp: r(3,4) all_core shown_types core_filters save_core_entity_def save_core_mapping_def)
  qed
qed

definition demo_entity :: entity where
  "demo_entity = \<lparr>en_id = ''e1'', en_type = ''node'', en_attrs = [(''name'', PStr ''n''), (''type'', PStr ''agent''),
     (''input_type'', PStr ''Any''), (''output_type'', PStr ''Note''), (''skills'', PList [PStr ''s'', PInt 1]),
     (''timeout_seconds'', PInt 5), (''input_binding'', PStr ''x''), (''color'', PStr ''red'')]\<rparr>"

theorem core_save_fixed_point_witness:
  "case save_core_entity demo_draws demo_entity empty_repo of Inl _ \<Rightarrow> False
   | Inr (e, d) \<Rightarrow> aget (en_attrs e) ''skills'' = PList [PStr ''s'', PStr ''1''] \<and> e \<in> set (list_core_entities None d)
       \<and> (\<exists>d2. save_core_entity demo_draws e d = Inr (e, d2))"
proof -
  have "case save_core_entity demo_draws demo_entity empty_repo of Inl _ \<Rightarrow> False
    | Inr (e, d) \<Rightarrow> aget (en_attrs e) ''skills'' = PList [PStr ''s'', PStr ''1'']" by code_simp
  then obtain e d where s: "save_core_entity demo_draws demo_entity empty_repo = Inr (e, d)"
    "aget (en_attrs e) ''skills'' = PList [PStr ''s'', PStr ''1'']" by (auto split: sum.splits)
  have "printable demo_entity" by (auto simp: printable_def demo_entity_def aget_def dget_default_def prints_def split: option.split)
  then show ?thesis using core_save_fixed_point [OF s(1)] s by auto
qed

end
