(* ===== verification/OrdinaryRepoProps.thy ===== *)
theory OrdinaryRepoProps
  imports OrdinaryRepo CoreRepoProps
begin

text \<open>
  Entities of added types: materializing a field changes no reading, what is saved is read back, what is not.
\<close>

section \<open>Columns\<close>

text \<open>The values a column of a type keeps.\<close>

definition fits :: "codec \<Rightarrow> mat_type \<Rightarrow> pyval \<Rightarrow> bool" where
  "fits c ty v = (is_none v \<or> (case ty of MBoolean \<Rightarrow> is_bool v | MInteger \<Rightarrow> (\<exists>i. v = PInt i) | MReal \<Rightarrow> (\<exists>r t. v = PFloat r t)
     | MJson \<Rightarrow> cd_loads c (cd_dumps c v) = Inr v | _ \<Rightarrow> is_str v))"

lemma fits_round:
  assumes "fits c ty v" "\<not> is_none v"
  shows "\<exists>x. encode_value c v ty = Inr x \<and> \<not> is_none x \<and> decode_value c x ty = Inr v"
  using assms unfolding fits_def
  by (cases ty; cases v) (auto simp: encode_value_def decode_value_def py_int_def py_float_def)

lemma fold_res_cong: "(\<And>x s. x \<in> set xs \<Longrightarrow> f x s = g x s) \<Longrightarrow> fold_res f xs s = fold_res g xs s"
  by (induction xs arbitrary: s) (auto intro!: rbind_cong)

lemma decode_keeps: "fold_res (decode_field c t r) ms a = Inr a' \<Longrightarrow> \<not> dhas ms k \<Longrightarrow> dget a' k = dget a k"
proof (induction ms arbitrary: a)
  case (Cons fm ms)
  obtain f m where fm: "fm = (f, m)" by force
  obtain b where b: "decode_field c t r (f, m) a = Inr b" "fold_res (decode_field c t r) ms b = Inr a'" using Cons.prems(1) fm by auto
  have "k \<noteq> f" "\<not> dhas ms k" using Cons.prems(2) by (auto simp: fm dhas_def split: if_splits)
  then have "dget b k = dget a k" using b(1) by (auto simp: decode_field_def split: if_splits)
  then show ?case using Cons.IH [OF b(2) \<open>\<not> dhas ms k\<close>] by simp
qed simp

section \<open>Materializing a field\<close>

definition materialized :: "etype \<Rightarrow> string \<Rightarrow> mat_field \<Rightarrow> etype" where
  "materialized t f m = t\<lparr>et_materialized := dset (et_materialized t) f m\<rparr>"

lemma materialized_row:
  assumes new: "\<not> dhas (et_materialized t) f" and col: "is_none (aget (or_cols r) f)"
    and b: "backfill_row c f f (mf_type m) r = Inr r'" and fit: "\<And>v. dget (or_json r) f = Some v \<Longrightarrow> fits c (mf_type m) v"
  shows "ordinary_entity_from_row c ty (materialized t f m) r' = ordinary_entity_from_row c ty t r"
proof -
  let ?t = "materialized t f m"
  have same: "or_id r' = or_id r" "or_business r' = or_business r" "or_json r' = or_json r" "\<And>g. g \<noteq> f \<Longrightarrow> aget (or_cols r') g = aget (or_cols r) g"
    using b by (auto simp: backfill_row_def aget_def dget_default_def split: option.splits)
  have old: "fold_res (decode_field c ?t r') (et_materialized t) (or_json r) = fold_res (decode_field c t r) (et_materialized t) (or_json r)"
  proof (rule fold_res_cong)
    fix fm a assume "fm \<in> set (et_materialized t)"
    then have "fst fm \<noteq> f" using new by (auto simp: dhas_keys)
    then show "decode_field c ?t r' fm a = decode_field c t r fm a"
      by (auto simp: decode_field_def materialized_def same(4) split: prod.splits)
  qed
  have last': "decode_field c ?t r' (f, m) a = Inr a" if "fold_res (decode_field c t r) (et_materialized t) (or_json r) = Inr a" for a
  proof (cases "dget (or_json r) f")
    case None
    then have "r' = r" using b by (simp add: backfill_row_def)
    then show ?thesis using col by (simp add: decode_field_def)
  next
    case (Some v)
    then have a: "dget a f = Some v" using decode_keeps [OF that new] by simp
    obtain x where x: "encode_value c v (mf_type m) = Inr x" "r' = r\<lparr>or_cols := dset (or_cols r) f x\<rparr>"
      using b Some by (auto simp: backfill_row_def)
    then have g: "aget (or_cols r') f = x" by (simp add: aget_def dget_default_def)
    show ?thesis
    proof (cases "is_none x")
      case False
      then have "\<not> is_none v" using x(1) by (auto simp: encode_value_def)
      then have "decode_value c x (mf_type m) = Inr v" using fits_round [OF fit [OF Some]] x(1) by auto
      then show ?thesis using g False by (simp add: decode_field_def update_same [OF a])
    qed (simp add: decode_field_def g)
  qed
  have "fold_res (decode_field c ?t r') (et_materialized ?t) (or_json r) = fold_res (decode_field c t r) (et_materialized t) (or_json r)"
  proof -
    have em: "et_materialized ?t = et_materialized t @ [(f, m)]" by (simp add: materialized_def update_new [OF new])
    show ?thesis unfolding em fold_res_append old
      by (cases "fold_res (decode_field c t r) (et_materialized t) (or_json r)") (simp_all add: last')
  qed
  moreover have "et_business_id_field ?t = et_business_id_field t" by (simp add: materialized_def)
  ultimately show ?thesis unfolding ordinary_entity_from_row_def same(1-3) by (simp cong: if_cong)
qed

lemma materialized_rows:
  assumes "\<not> dhas (et_materialized t) f" "\<forall>r \<in> set rs. is_none (aget (or_cols r) f)"
    "map_res (backfill_row c f f (mf_type m)) rs = Inr rs'"
    "\<forall>r \<in> set rs. \<forall>v. dget (or_json r) f = Some v \<longrightarrow> fits c (mf_type m) v"
  shows "rows_to_entities c ty (materialized t f m) rs' = rows_to_entities c ty t rs"
  using assms(2,3,4)
proof (induction rs arbitrary: rs')
  case (Cons r rs)
  then obtain r' ss where s: "rs' = r' # ss" "backfill_row c f f (mf_type m) r = Inr r'" "map_res (backfill_row c f f (mf_type m)) rs = Inr ss" by auto
  have "ordinary_entity_from_row c ty (materialized t f m) r' = ordinary_entity_from_row c ty t r"
    by (rule materialized_row [OF assms(1) _ s(2)]) (use Cons.prems in auto)
  then show ?case using Cons.IH [OF _ s(3)] Cons.prems by (simp add: rows_to_entities_def s(1))
qed (simp add: rows_to_entities_def)

lemma table_of_set: "table_of tb (set_table tb' t d) = (if tb = tb' then t else table_of tb d)"
  by (simp add: table_of_def set_table_def dget_default_def)

lemma ensure_column_rows: "ensure_column tb' f d = Inr d' \<Longrightarrow> ot_rows (table_of tb d') = ot_rows (table_of tb d)"
  by (auto simp: ensure_column_def Let_def table_of_set split: if_splits)

lemma ensure_index_same: "ensure_index tb f d = Inr d' \<Longrightarrow> d' = d"
  by (auto simp: ensure_index_def)

text \<open>Tables whose columns alone may have changed.\<close>

definition columns_only :: "repo \<Rightarrow> repo \<Rightarrow> bool" where
  "columns_only d x = ((\<forall>tb. ot_rows (table_of tb x) = ot_rows (table_of tb d)) \<and> rp_relations x = rp_relations d
     \<and> list_core_entities None x = list_core_entities None d \<and> rp_count x = rp_count d)"

lemma columns_only_refl [simp]: "columns_only d d"
  by (simp add: columns_only_def)

lemma columns_only_trans: "columns_only d x \<Longrightarrow> columns_only x y \<Longrightarrow> columns_only d y"
  by (simp add: columns_only_def)

lemma columns_only_set: "ot_rows u = ot_rows (table_of tb d) \<Longrightarrow> columns_only d (set_table tb u d)"
  unfolding columns_only_def table_of_set by (simp add: set_table_def all_core)

lemma columns_only_ensure: "ensure_column tb f d = Inr d' \<Longrightarrow> columns_only d d'"
  by (auto simp: ensure_column_def Let_def split: if_splits intro: columns_only_set)

lemma columns_only_fold:
  assumes "fold_res f xs s = Inr s'" "\<And>x u u'. x \<in> set xs \<Longrightarrow> f x u = Inr u' \<Longrightarrow> columns_only u u'"
  shows "columns_only s s'"
  using fold_res_invariant [where P = "columns_only s", OF assms(1) columns_only_refl] assms(2) columns_only_trans by blast

lemma columns_only_table:
  assumes "ensure_table ty t d = Inr (tb, d')"
  shows "columns_only d d'"
proof -
  obtain d1 where d1: "fold_res (ensure_column tb) (dkeys (et_materialized t)) (create_table tb d) = Inr d1"
    "fold_res (\<lambda>(f, m). if mf_index m then ensure_index tb f else Inr) (et_materialized t) d1 = Inr d'"
    using assms by (auto simp: ensure_table_def)
  have "columns_only d (create_table tb d)" unfolding create_table_def by (rule columns_only_set) simp
  moreover have "columns_only (create_table tb d) d1" by (rule columns_only_fold [OF d1(1)]) (rule columns_only_ensure)
  moreover have "columns_only d1 d'" by (rule columns_only_fold [OF d1(2)]) (auto dest: ensure_index_same split: if_splits prod.splits)
  ultimately show ?thesis by (meson columns_only_trans)
qed

lemma columns_only_rows: "columns_only d d' \<Longrightarrow> ot_rows (table_of tb d') = ot_rows (table_of tb d)"
  by (simp add: columns_only_def)

text \<open>C16: Materializing a new field changes no reading: under the entity type with the field materialized, the rows of the table
  afterwards are read as exactly the entities, in the same order with the same attributes, that they were before. Assumed: the
  field is not yet materialized and named by an identifier, its column has no value in any row (it is new), and each stored
  value of the field fits the type of the column (a number of a text column would be read as a text).\<close>

theorem materialization_keeps_reading:
  assumes "apply_materialization c ty t f fty ix d = Inr (p, d')" "\<not> dhas (et_materialized t) f" "sql_identifier f = Inr f"
    "\<forall>r \<in> set (ot_rows (table_of (mp_table p) d)). is_none (aget (or_cols r) f)"
    "\<forall>r \<in> set (ot_rows (table_of (mp_table p) d)). \<forall>v. dget (or_json r) f = Some v \<longrightarrow> fits c (mp_column p) v"
  shows "rows_to_entities c ty (materialized t f \<lparr>mf_type = mp_column p, mf_index = mp_index p\<rparr>) (ot_rows (table_of (mp_table p) d'))
    = rows_to_entities c ty t (ot_rows (table_of (mp_table p) d))"
proof -
  obtain d1 d2 d3 rs where s: "materialization_plan ty t f fty ix d = Inr (p, d1)"
    "(if mp_exists p then Inr d1 else ensure_column (mp_table p) f d1) = Inr d2"
    "(if mp_index p then ensure_index (mp_table p) f d2 else Inr d2) = Inr d3"
    "map_res (backfill_row c f f (mp_column p)) (ot_rows (table_of (mp_table p) d3)) = Inr rs"
    "d' = set_table (mp_table p) ((table_of (mp_table p) d3)\<lparr>ot_rows := rs\<rparr>) d3"
    using assms(1,3) by (auto simp: apply_materialization_def Let_def)
  have "ensure_table ty t d = Inr (mp_table p, d1)" using s(1) by (auto simp: materialization_plan_def Let_def)
  then have "ot_rows (table_of (mp_table p) d1) = ot_rows (table_of (mp_table p) d)" by (rule columns_only_rows [OF columns_only_table])
  moreover have "ot_rows (table_of (mp_table p) d2) = ot_rows (table_of (mp_table p) d1)"
    using s(2) by (auto dest: ensure_column_rows split: if_splits)
  moreover have "d3 = d2" using s(3) by (auto dest: ensure_index_same split: if_splits)
  ultimately have rows: "ot_rows (table_of (mp_table p) d3) = ot_rows (table_of (mp_table p) d)" by simp
  have "ot_rows (table_of (mp_table p) d') = rs" by (simp add: s(5) table_of_set)
  then show ?thesis using materialized_rows [OF assms(2,4), where m = "\<lparr>mf_type = mp_column p, mf_index = mp_index p\<rparr>"] s(4) assms(5)
    by (simp add: rows)
qed

definition demo_codec :: codec where
  "demo_codec = \<lparr>cd_dumps = py_str, cd_loads = (\<lambda>s. Inr (PStr s)), cd_float_text = (\<lambda>_. ''0.5''), cd_float_of = (\<lambda>_. Inl (ValueError []))\<rparr>"

definition note_type :: etype where
  "note_type = \<lparr>et_display_name = ''Note'', et_business_id_field = ''key'', et_display_template = ''t'', et_storage_tier = Database,
     et_table_name = None, et_schema_version = 1, et_materialized = [], et_deprecated = [], et_system_protected = False,
     et_schema = [], et_field_permissions = [], et_validate = True\<rparr>"

definition demo_note :: entity where
  "demo_note = \<lparr>en_id = ''n1'', en_type = ''note'', en_attrs = [(''key'', PStr ''k1''), (''score'', PInt 3)]\<rparr>"

definition demo_repo :: repo where
  "demo_repo = (case save_ordinary_row demo_draws demo_codec demo_note note_type empty_repo of Inr d \<Rightarrow> d | Inl _ \<Rightarrow> empty_repo)"

theorem materialization_keeps_reading_witness:
  "case apply_materialization demo_codec ''note'' note_type ''score'' (Some MInteger) (Some True) demo_repo of Inl _ \<Rightarrow> False
   | Inr (p, d) \<Rightarrow> map or_cols (ot_rows (table_of ''entity_note'' d)) = [[(''score'', PInt 3)]]
       \<and> rows_to_entities demo_codec ''note'' (materialized note_type ''score'' \<lparr>mf_type = MInteger, mf_index = True\<rparr>) (ot_rows (table_of ''entity_note'' d))
         = Inr [demo_note]"
proof -
  have "case apply_materialization demo_codec ''note'' note_type ''score'' (Some MInteger) (Some True) demo_repo of Inl _ \<Rightarrow> False
   | Inr (p, d) \<Rightarrow> map or_cols (ot_rows (table_of ''entity_note'' d)) = [[(''score'', PInt 3)]] \<and> mp_table p = ''entity_note''
       \<and> mp_column p = MInteger \<and> mp_index p" by code_simp
  then obtain p d where a: "apply_materialization demo_codec ''note'' note_type ''score'' (Some MInteger) (Some True) demo_repo = Inr (p, d)"
    "map or_cols (ot_rows (table_of ''entity_note'' d)) = [[(''score'', PInt 3)]]" "mp_table p = ''entity_note''"
    "mp_column p = MInteger" "mp_index p" by (auto split: sum.splits prod.splits)
  have n: "sql_identifier ''score'' = Inr ''score''" by code_simp
  have r: "map (\<lambda>r. (or_cols r, or_json r)) (ot_rows (table_of ''entity_note'' demo_repo)) = [([], [(''key'', PStr ''k1''), (''score'', PInt 3)])]"
    and e: "rows_to_entities demo_codec ''note'' note_type (ot_rows (table_of ''entity_note'' demo_repo)) = Inr [demo_note]" by code_simp+
  from r obtain x where x: "ot_rows (table_of ''entity_note'' demo_repo) = [x]" "or_cols x = []" "or_json x = [(''key'', PStr ''k1''), (''score'', PInt 3)]" by auto
  have "rows_to_entities demo_codec ''note'' (materialized note_type ''score'' \<lparr>mf_type = MInteger, mf_index = True\<rparr>) (ot_rows (table_of ''entity_note'' d))
      = rows_to_entities demo_codec ''note'' note_type (ot_rows (table_of ''entity_note'' demo_repo))"
    using materialization_keeps_reading [OF a(1) _ n] a(3-5) x
    by (simp add: note_type_def dhas_def aget_def dget_default_def fits_def)
  then show ?thesis using a e by simp
qed

section \<open>Saving and reading back\<close>

text \<open>What a saved entity is read back as.\<close>

definition read_back :: "codec \<Rightarrow> etype \<Rightarrow> (string, pyval) dict \<Rightarrow> bool" where
  "read_back c t a = (\<forall>f m. dget (et_materialized t) f = Some m \<longrightarrow> f \<notin> set (et_deprecated t) \<longrightarrow> fits c (mf_type m) (aget a f))"

definition written :: "etype \<Rightarrow> (string, pyval) dict \<Rightarrow> string \<Rightarrow> bool" where
  "written t a f = (dhas a f \<and> f \<notin> set (et_deprecated t))"

lemma map_res_keys: "map_res g xs = Inr ys \<Longrightarrow> (\<And>x y. g x = Inr y \<Longrightarrow> fst y = fst x) \<Longrightarrow> dkeys ys = dkeys xs"
  by (induction xs arbitrary: ys) auto

lemma encode_fields_get:
  assumes e: "encode_fields c t a = Inr cols" and d: "distinct (dkeys (et_materialized t))"
  shows "distinct (dkeys cols)" "dhas cols f \<longleftrightarrow> dhas (et_materialized t) f \<and> written t a f"
    "dget (et_materialized t) f = Some m \<Longrightarrow> written t a f \<Longrightarrow> \<exists>x. dget cols f = Some x \<and> encode_value c (aget a f) (mf_type m) = Inr x"
proof -
  let ?g = "\<lambda>(f, m). rbind (encode_value c (aget a f) (mf_type m)) (\<lambda>v. Inr (f, v))"
  let ?ms = "filter (\<lambda>(f, _). dhas a f \<and> f \<notin> set (et_deprecated t)) (et_materialized t)"
  have m: "map_res ?g ?ms = Inr cols" using e by (simp add: encode_fields_def)
  have k: "dkeys cols = dkeys ?ms" by (rule map_res_keys [OF m]) auto
  have dm: "distinct (dkeys ?ms)" using d by (simp add: distinct_map inj_on_def)
  then show dc: "distinct (dkeys cols)" by (simp only: k)
  show "dhas cols f \<longleftrightarrow> dhas (et_materialized t) f \<and> written t a f"
  proof -
    have "f \<in> set (dkeys cols) \<longleftrightarrow> f \<in> set (dkeys ?ms)" by (simp only: k)
    also have "\<dots> \<longleftrightarrow> f \<in> set (dkeys (et_materialized t)) \<and> written t a f" by (force simp: written_def)
    finally show ?thesis by (simp add: dhas_keys [of cols] dhas_keys [of "et_materialized t"])
  qed
  show "\<exists>x. dget cols f = Some x \<and> encode_value c (aget a f) (mf_type m) = Inr x"
    if f: "dget (et_materialized t) f = Some m" "written t a f"
  proof -
    have "(f, m) \<in> set ?ms" using f map_of_SomeD [OF f(1)] by (simp add: written_def)
    then have "\<exists>i<length ?ms. ?ms ! i = (f, m)" by (simp only: in_set_conv_nth)
    then obtain i where i: "i < length ?ms" "?ms ! i = (f, m)" by blast
    have "list_all2 (\<lambda>x y. ?g x = Inr y) ?ms cols" using m by (simp add: map_res_all2)
    then have "i < length cols" "?g (?ms ! i) = Inr (cols ! i)" using i(1) by (auto simp: list_all2_conv_all_nth)
    then obtain x where "encode_value c (aget a f) (mf_type m) = Inr x" "cols ! i = (f, x)" using i(2) by auto
    moreover have "(f, x) \<in> set cols" using \<open>cols ! i = (f, x)\<close> \<open>i < length cols\<close> nth_mem by metis
    ultimately show ?thesis using map_of_is_SomeI [OF dc] by blast
  qed
qed

text \<open>The attributes of a row are those of its JSON column with the materialized ones decoded.\<close>

lemma decode_fields_get:
  "fold_res (decode_field c t r) ms a = Inr a' \<Longrightarrow> distinct (dkeys ms) \<Longrightarrow> dget ms f = Some m \<Longrightarrow>
    (if f \<in> set (et_deprecated t) \<or> is_none (aget (or_cols r) f) then dget a' f = dget a f
     else \<exists>v. decode_value c (aget (or_cols r) f) (mf_type m) = Inr v \<and> dget a' f = Some v)"
proof (induction ms arbitrary: a)
  case (Cons gn ms)
  obtain g n where gn: "gn = (g, n)" by force
  obtain b where b: "decode_field c t r (g, n) a = Inr b" "fold_res (decode_field c t r) ms b = Inr a'" using Cons.prems(1) gn by auto
  show ?case
  proof (cases "g = f")
    case True
    then have "\<not> dhas ms f" "n = m" using Cons.prems(2,3) gn by (auto simp: dhas_keys)
    then have "dget a' f = dget b f" by (intro decode_keeps [OF b(2)])
    then show ?thesis using b(1) True \<open>n = m\<close> by (auto simp: decode_field_def split: if_splits)
  next
    case False
    then have "dget b f = dget a f" using b(1) by (auto simp: decode_field_def split: if_splits)
    then show ?thesis using Cons.IH [OF b(2)] Cons.prems(2,3) False gn by auto
  qed
qed simp

lemma upsert_first:
  assumes "upsert_row r rs = Inr rs'" "\<forall>x \<in> set rs. P x \<longrightarrow> or_id x = or_id r" "\<And>c. P (r\<lparr>or_cols := c\<rparr>) = P r" "P r"
  shows "first_of P rs' = Some (case first_of (\<lambda>x. or_id x = or_id r) rs of None \<Rightarrow> r
    | Some x \<Rightarrow> r\<lparr>or_cols := dmerge (or_cols x) (or_cols r)\<rparr>)"
proof (cases "first_of (\<lambda>x. or_id x = or_id r) rs")
  case None
  then have "rs' = rs @ [r]" using assms(1) by (simp add: upsert_row_def split: if_splits)
  moreover have "first_of P rs = None" using None assms(2) by (auto simp: first_of_None)
  ultimately show ?thesis using assms(4) None by (simp add: first_of_append first_of_Cons)
next
  case (Some x)
  let ?u = "\<lambda>x. r\<lparr>or_cols := dmerge (or_cols x) (or_cols r)\<rparr>"
  have e: "rs' = update_first (\<lambda>x. or_id x = or_id r) ?u rs" using assms(1) Some by (simp add: upsert_row_def split: if_splits)
  have "first_of P (update_first (\<lambda>x. or_id x = or_id r) ?u rs) = Some (?u x)"
    using Some assms(2)
  proof (induction rs)
    case (Cons y ys)
    then show ?case using assms(3,4) by (auto simp: first_of_Cons split: if_splits)
  qed (simp add: first_of_def)
  then show ?thesis using Some e by simp
qed

lemma writable_get: "dget (ordinary_writable_attrs a t) k = (if k \<in> set (et_deprecated t) then None else dget a k)"
  unfolding ordinary_writable_attrs_def by (induction a) auto

lemma json_attrs_get: "dget (json_attrs t a) k = (if dhas (et_materialized t) k \<or> k \<in> set (et_deprecated t) then None else dget a k)"
  unfolding json_attrs_def by (induction a) auto

lemma encode_none: "encode_value c v ty = Inr x \<Longrightarrow> is_none v \<Longrightarrow> is_none x"
  by (simp add: encode_value_def)

lemma row_reads_back:
  assumes r: "ordinary_entity_from_row c ty t r = Inr e'" and k: "k \<noteq> et_business_id_field t \<or> \<not> is_none (aget a k)"
    and row: "encode_fields c t a = Inr (or_cols r)" "or_json r = json_attrs t a" and a: "a = ordinary_writable_attrs b t"
    and d: "distinct (dkeys (et_materialized t))" and fit: "read_back c t a"
  shows "aget (en_attrs e') k = aget a k"
proof -
  obtain a' where a': "fold_res (decode_field c t r) (et_materialized t) (or_json r) = Inr a'"
    "en_attrs e' = (if dhas a' (et_business_id_field t) then a' else dset a' (et_business_id_field t) (PStr (or_business r)))"
    using r by (auto simp: ordinary_entity_from_row_def)
  have "aget a' k = aget a k"
  proof (cases "dget (et_materialized t) k")
    case None
    then have "dget a' k = dget (json_attrs t a) k" using decode_keeps [OF a'(1)] row(2) by (simp add: dhas_def)
    then show ?thesis using None by (auto simp: json_attrs_get dhas_def aget_def dget_default_def a writable_get)
  next
    case (Some m)
    note g = decode_fields_get [OF a'(1) d Some] and enc = encode_fields_get [OF row(1) d]
    have j: "dget (or_json r) k = None" using Some by (simp add: row(2) json_attrs_get dhas_def)
    show ?thesis
    proof (cases "written t a k")
      case False
      then have "aget a k = PNone" by (auto simp: written_def a aget_def dget_default_def writable_get dhas_def)
      moreover have "dget (or_cols r) k = None" using False enc(2) [of k] by (cases "dget (or_cols r) k") (auto simp: dhas_def)
      ultimately show ?thesis using g j by (simp add: aget_def dget_default_def)
    next
      case True
      then obtain x where x: "dget (or_cols r) k = Some x" "encode_value c (aget a k) (mf_type m) = Inr x" using enc(3) [OF Some] by blast
      have nd: "k \<notin> set (et_deprecated t)" using True by (simp add: written_def)
      have fk: "fits c (mf_type m) (aget a k)" using fit Some nd by (simp add: read_back_def)
      show ?thesis
      proof (cases "is_none (aget a k)")
        case True
        then show ?thesis using g j x(1) encode_none [OF x(2)] by (cases "aget a k") (simp_all add: aget_def dget_default_def)
      next
        case False
        then have "\<not> is_none x" "decode_value c x (mf_type m) = Inr (aget a k)" using fits_round [OF fk] x(2) by auto
        then show ?thesis using g nd x(1) by (simp add: aget_def dget_default_def)
      qed
    qed
  qed
  then show ?thesis using a'(2) k by (auto simp: aget_def dget_default_def dhas_def split: option.splits)
qed

lemma ensure_table_name: "ensure_table ty t d = Inr (tb, d') \<Longrightarrow> type_table ty t = Inr tb"
  by (auto simp: ensure_table_def)

lemma first_none_mono: "first_of P rs = None \<Longrightarrow> (\<And>x. Q x \<Longrightarrow> P x) \<Longrightarrow> first_of Q rs = None"
  by (auto simp: first_of_None)

text \<open>C17: A saved entity is read back. Saving an entity under an id that matches neither the id nor the business id of a row answers,
  from the table, an entity of that id and type in which every attribute that is not deprecated has the value that was given,
  whether it is kept in the JSON column or in a column of its own. Assumed: the materialized fields are distinct, and the values
  given for those that are not deprecated fit the types of their columns (3.7 in an integer column would be read as 3); of the
  field of the business id only a value that was given is compared.\<close>

theorem ordinary_save_reads_back:
  assumes "save_ordinary_entity w c e t d = Inr (e', d')" "type_table (en_type e) t = Inr tb"
    "first_of (matches_ref (en_type e) (en_id e)) (ot_rows (table_of tb d)) = None"
    "distinct (dkeys (et_materialized t))" "read_back c t (ordinary_writable_attrs (en_attrs e) t)"
    "k \<noteq> et_business_id_field t \<or> \<not> is_none (aget (en_attrs e) k)" "k \<notin> set (et_deprecated t)"
  shows "en_id e' = en_id e \<and> en_type e' = en_type e \<and> aget (en_attrs e') k = aget (en_attrs e) k"
proof -
  let ?a = "ordinary_writable_attrs (en_attrs e) t" and ?P = "matches_ref (en_type e) (en_id e)"
  have ak: "aget ?a k = aget (en_attrs e) k" using assms(7) by (simp add: aget_def dget_default_def writable_get)
  obtain d1 x where s: "save_ordinary_row w c e t d = Inr d1" "get_ordinary_entity c (en_type e) (en_id e) [(en_type e, t)] d1 = Inr (x, d')"
    "e' = (case x of None \<Rightarrow> e | Some y \<Rightarrow> y)" using assms(1) by (auto simp: save_ordinary_entity_def split: if_splits)
  obtain d2 cols b created now rs where r': "ensure_table (en_type e) t d = Inr (tb, d2)" "encode_fields c t ?a = Inr cols"
    "upsert_row \<lparr>or_id = en_id e, or_business = b, or_version = et_schema_version t, or_json = json_attrs t ?a, or_created = created,
      or_updated = now, or_cols = cols\<rparr> (ot_rows (table_of tb d2)) = Inr rs" "ot_rows (table_of tb d1) = rs"
    using s(1) assms(2) by (auto simp: save_ordinary_row_def Let_def table_of_set dest!: ensure_table_name split: if_splits)
  then obtain r where r: "ensure_table (en_type e) t d = Inr (tb, d2)" "encode_fields c t ?a = Inr cols"
    "or_id r = en_id e" "or_json r = json_attrs t ?a" "or_cols r = cols" "upsert_row r (ot_rows (table_of tb d2)) = Inr rs"
    "ot_rows (table_of tb d1) = rs" by (metis ord_row.select_convs(1,4,7))
  have "ot_rows (table_of tb d2) = ot_rows (table_of tb d)" by (rule columns_only_rows [OF columns_only_table [OF r(1)]])
  then have none: "first_of ?P (ot_rows (table_of tb d2)) = None" using assms(3) by simp
  then have new: "first_of (\<lambda>x. or_id x = or_id r) (ot_rows (table_of tb d2)) = None"
    by (rule first_none_mono) (simp add: r(3) matches_ref_def)
  have "\<forall>x \<in> set (ot_rows (table_of tb d2)). ?P x \<longrightarrow> or_id x = or_id r" using none by (auto simp: first_of_None)
  then have "first_of ?P rs = Some (case first_of (\<lambda>x. or_id x = or_id r) (ot_rows (table_of tb d2)) of None \<Rightarrow> r
      | Some x \<Rightarrow> r\<lparr>or_cols := dmerge (or_cols x) (or_cols r)\<rparr>)"
    by (rule upsert_first [OF r(6)]) (simp_all add: matches_ref_def r(3))
  then have f: "first_of ?P rs = Some r" unfolding new by simp
  obtain tb' d3 where d3: "ensure_table (en_type e) t d1 = Inr (tb', d3)" using s(2) by (auto simp: get_ordinary_entity_def)
  have "tb' = tb" using ensure_table_name [OF d3] assms(2) by simp
  moreover have "ot_rows (table_of tb d3) = rs"
    using columns_only_rows [OF columns_only_table [OF d3], of tb] r(7) by simp
  ultimately obtain y where y: "x = Some y" "ordinary_entity_from_row c (en_type e) t r = Inr y"
    using s(2) d3 f by (auto simp: get_ordinary_entity_def)
  have "aget (en_attrs y) k = aget ?a k" 
  proof (rule row_reads_back [OF y(2) _ _ r(4) refl assms(4,5)])
    show "k \<noteq> et_business_id_field t \<or> \<not> is_none (aget ?a k)" using assms(6) ak by simp
  qed (simp add: r(2,5))
  then show ?thesis using s(3) y ak r(3) by (auto simp: ordinary_entity_from_row_def)
qed

text \<open>A materialized field and one of the JSON column, a deprecated field.\<close>

definition rated_type :: etype where
  "rated_type = note_type\<lparr>et_materialized := [(''score'', \<lparr>mf_type = MInteger, mf_index = False\<rparr>)], et_deprecated := [''old'']\<rparr>"

definition rated_note :: entity where
  "rated_note = \<lparr>en_id = ''n2'', en_type = ''note'', en_attrs = [(''key'', PStr ''k2''), (''score'', PInt 7), (''old'', PInt 1)]\<rparr>"

theorem ordinary_save_reads_back_witness:
  "case save_ordinary_entity demo_draws demo_codec rated_note rated_type demo_repo of Inl _ \<Rightarrow> False
   | Inr (e, d) \<Rightarrow> map or_cols (ot_rows (table_of ''entity_note'' d)) = [[], [(''score'', PInt 7)]] \<and> aget (en_attrs e) ''score'' = PInt 7"
proof -
  have "case save_ordinary_entity demo_draws demo_codec rated_note rated_type demo_repo of Inl _ \<Rightarrow> False
    | Inr (e, d) \<Rightarrow> map or_cols (ot_rows (table_of ''entity_note'' d)) = [[], [(''score'', PInt 7)]]" by code_simp
  then obtain e d where s: "save_ordinary_entity demo_draws demo_codec rated_note rated_type demo_repo = Inr (e, d)"
    "map or_cols (ot_rows (table_of ''entity_note'' d)) = [[], [(''score'', PInt 7)]]" by (auto split: sum.splits)
  have t: "type_table (en_type rated_note) rated_type = Inr ''entity_note''" by code_simp
  have n: "first_of (matches_ref (en_type rated_note) (en_id rated_note)) (ot_rows (table_of ''entity_note'' demo_repo)) = None" by code_simp
  have p: "distinct (dkeys (et_materialized rated_type))" "''score'' \<noteq> et_business_id_field rated_type" "''score'' \<notin> set (et_deprecated rated_type)"
    "aget (en_attrs rated_note) ''score'' = PInt 7" by code_simp+
  have "read_back demo_codec rated_type (ordinary_writable_attrs (en_attrs rated_note) rated_type)"
    by (auto simp: read_back_def rated_type_def rated_note_def note_type_def ordinary_writable_attrs_def fits_def aget_def dget_default_def split: if_splits)
  then have "aget (en_attrs e) ''score'' = PInt 7"
    using ordinary_save_reads_back [OF s(1) t n, of "''score''"] p by simp
  then show ?thesis using s by simp
qed

section \<open>Deletion\<close>

text \<open>Without a prefix \<open>type:\<close> a reference is an id or a business id, and the row deleted is the one found.\<close>

definition bare_ref :: "string \<Rightarrow> (string, etype) dict \<Rightarrow> bool" where
  "bare_ref ref types = (\<forall>ty \<in> set (dkeys types). \<not> starts_with ref (ty @ '':''))"

lemma bare_matches: "\<not> starts_with ref (ty @ '':'') \<Longrightarrow> matches_ref ty ref = (\<lambda>r. or_id r = ref \<or> or_business r = ref)"
  by (auto simp: fun_eq_iff matches_ref_def removeprefix_def)

text \<open>One row, named by the reference, is gone.\<close>

definition row_deleted :: "string \<Rightarrow> string \<Rightarrow> repo \<Rightarrow> repo \<Rightarrow> bool" where
  "row_deleted i ref d x = (\<exists>tb r. r \<in> set (ot_rows (table_of tb d)) \<and> or_id r = i \<and> (i = ref \<or> or_business r = ref)
     \<and> ot_rows (table_of tb x) = filter (\<lambda>r. or_id r \<noteq> i) (ot_rows (table_of tb d))
     \<and> (\<forall>tb'. tb' \<noteq> tb \<longrightarrow> ot_rows (table_of tb' x) = ot_rows (table_of tb' d)))"

lemma row_deleted_columns: "columns_only d y \<Longrightarrow> row_deleted i ref y x \<Longrightarrow> row_deleted i ref d x"
  by (simp add: row_deleted_def columns_only_def)

lemma columns_only_get: "get_ordinary_entity c ty ref types d = Inr (x, d') \<Longrightarrow> columns_only d d'"
  by (auto simp: get_ordinary_entity_def columns_only_table split: option.splits)

lemma columns_only_find: "find_ordinary_in c ref types rest d = Inr (x, d') \<Longrightarrow> columns_only d d'"
proof (induction rest arbitrary: d)
  case (Cons tt rest)
  obtain ty t where tt: "tt = (ty, t)" by force
  show ?case
  proof (cases "is_database_type ty t")
    case True
    then obtain v u where g: "get_ordinary_entity c ty ref types d = Inr (v, u)"
      "(case v of Some x \<Rightarrow> Inr (Some x, u) | None \<Rightarrow> find_ordinary_in c ref types rest u) = Inr (x, d')"
      using Cons.prems by (auto simp: tt)
    then show ?thesis using Cons.IH [of u] columns_only_get [OF g(1)] columns_only_trans by (cases v) auto
  qed (use Cons tt in simp)
qed simp

lemma relation_order_Nil: "relation_order rs = [] \<longleftrightarrow> rs = []"
  by (simp add: relation_order_def flip: length_0_conv)

lemma find_deletes:
  assumes "\<forall>(ty, t) \<in> set rest. dget types ty = Some t" "\<forall>ty \<in> set (dkeys rest). \<not> starts_with ref (ty @ '':'')"
    "find_ordinary_in c ref types rest d = Inr (x, d1)" "columns_only d y" "delete_ordinary_in ref rest y = Inr (b, z)"
  shows "rp_relations z = rp_relations d \<and> b = (x \<noteq> None)
    \<and> (case x of None \<Rightarrow> columns_only d z | Some e \<Rightarrow> row_deleted (en_id e) ref d z)"
  using assms
proof (induction rest arbitrary: d y)
  case (Cons tt rest)
  obtain ty t where tt: "tt = (ty, t)" by force
  show ?case
  proof (cases "is_database_type ty t")
    case False
    then show ?thesis using Cons.IH [of d y] Cons.prems by (simp add: tt)
  next
    case True
    have ty: "dget types ty = Some t" "\<not> starts_with ref (ty @ '':'')" using Cons.prems(1,2) by (simp_all add: tt)
    obtain v u where g: "get_ordinary_entity c ty ref types d = Inr (v, u)"
      "(case v of Some x \<Rightarrow> Inr (Some x, u) | None \<Rightarrow> find_ordinary_in c ref types rest u) = Inr (x, d1)"
      using Cons.prems(3) True by (auto simp: tt)
    obtain tb d2 where e: "ensure_table ty t d = Inr (tb, d2)" using g(1) ty(1) by (auto simp: get_ordinary_entity_def)
    obtain tb' y2 where e': "ensure_table ty t y = Inr (tb', y2)" using Cons.prems(5) True by (auto simp: tt)
    have tb: "tb' = tb" using ensure_table_name [OF e] ensure_table_name [OF e'] by simp
    have c2: "columns_only d d2" by (rule columns_only_table [OF e])
    have y2: "columns_only d y2" by (rule columns_only_trans [OF Cons.prems(4) columns_only_table [OF e']])
    have rows: "ot_rows (table_of tb d2) = ot_rows (table_of tb d)" "ot_rows (table_of tb y2) = ot_rows (table_of tb d)"
      by (rule columns_only_rows [OF c2], rule columns_only_rows [OF y2])
    note dd = Cons.prems(5) [unfolded tt, simplified, simplified True e' tb, simplified, unfolded rows]
    show ?thesis
    proof (cases "first_of (\<lambda>r. or_id r = ref \<or> or_business r = ref) (ot_rows (table_of tb d))")
      case None
      then have n: "v = None" "u = d2" using g(1) ty e by (simp_all add: get_ordinary_entity_def bare_matches rows)
      then have "find_ordinary_in c ref types rest d2 = Inr (x, d1)" "delete_ordinary_in ref rest y2 = Inr (b, z)"
        using g(2) dd None by simp_all
      moreover have "columns_only d2 y2" using c2 y2 by (simp add: columns_only_def)
      ultimately have "rp_relations z = rp_relations d2 \<and> b = (x \<noteq> None)
        \<and> (case x of None \<Rightarrow> columns_only d2 z | Some e \<Rightarrow> row_deleted (en_id e) ref d2 z)"
        using Cons.IH [of d2 y2] Cons.prems(1,2) by (simp add: tt)
      then show ?thesis using c2 columns_only_trans [OF c2] row_deleted_columns [OF c2]
        by (simp add: columns_only_def split: option.splits)
    next
      case (Some r)
      then obtain e0 where r: "ordinary_entity_from_row c ty t r = Inr e0" "v = Some e0" "u = d2"
        using g(1) ty e by (auto simp: get_ordinary_entity_def bare_matches rows)
      have "en_id e0 = or_id r" using r(1) by (auto simp: ordinary_entity_from_row_def)
      moreover have "x = Some e0" "d1 = d2" using g(2) r by simp_all
      moreover have "b" "z = set_table tb ((table_of tb y2)\<lparr>ot_rows := filter (\<lambda>x. or_id x \<noteq> or_id r) (ot_rows (table_of tb y2))\<rparr>) y2"
        using dd Some rows by simp_all
      moreover have "row_deleted (or_id r) ref d z"
        unfolding row_deleted_def using first_of_Some [OF Some] calculation(5) y2
        by (intro exI [of _ tb] exI [of _ r]) (auto simp: table_of_set columns_only_def)
      ultimately show ?thesis using y2 by (simp add: columns_only_def set_table_def)
    qed
  qed
qed (auto simp: columns_only_def)

text \<open>C18: Deleting an entity by its id or business id (a reference without the prefix of a type): either no relation and no row changes
  (tables and columns may have been created), or exactly the row of the entity that the reference finds is gone from one table
  and no relation has the id of this entity or its reference \<open>type:business-id\<close> as an end. Relations by a bare business id are
  not looked for and may dangle.\<close>

theorem ordinary_delete_guarded:
  assumes "delete_ordinary_entity c ref types d = Inr ((b, blocking), d')" "bare_ref ref types" "distinct (dkeys types)"
  shows "rp_relations d' = rp_relations d
    \<and> (if b then blocking = [] \<and> (\<exists>e d1. find_ordinary_entity c ref types d = Inr (Some e, d1) \<and> row_deleted (en_id e) ref d d'
         \<and> (\<forall>q \<in> set (rp_relations d). {rr_from q, rr_to q} \<inter> set (entity_refs e types) = {}))
       else columns_only d d')"
proof -
  have ts: "\<forall>(ty, t) \<in> set types. dget types ty = Some t" using assms(3) by (auto intro: map_of_is_SomeI)
  have br: "\<forall>ty \<in> set (dkeys types). \<not> starts_with ref (ty @ '':'')" using assms(2) by (simp add: bare_ref_def)
  obtain x d1 where f: "find_ordinary_in c ref types types d = Inr (x, d1)"
    using assms(1) by (auto simp: delete_ordinary_entity_def find_ordinary_entity_def)
  have col: "columns_only d d1" by (rule columns_only_find [OF f])
  let ?refs = "case x of None \<Rightarrow> [ref] | Some e \<Rightarrow> entity_refs e types"
  show ?thesis
  proof (cases "list_relations_for_entity_refs ?refs d1 = []")
    case False
    then show ?thesis using assms(1) f col by (auto simp: delete_ordinary_entity_def find_ordinary_entity_def Let_def columns_only_def)
  next
    case True
    then have dl: "delete_ordinary_in ref types d1 = Inr (b, d')" "blocking = []"
      using assms(1) f by (auto simp: delete_ordinary_entity_def find_ordinary_entity_def Let_def)
    have fd: "rp_relations d' = rp_relations d" "b = (x \<noteq> None)"
      "case x of None \<Rightarrow> columns_only d d' | Some e \<Rightarrow> row_deleted (en_id e) ref d d'"
      using find_deletes [OF ts br f col dl(1)] by auto
    have "{rr_from q, rr_to q} \<inter> set (entity_refs e types) = {}" if x: "x = Some e" and q: "q \<in> set (rp_relations d)" for e q
    proof -
      have "filter (\<lambda>r. rr_from r \<in> set ?refs \<or> rr_to r \<in> set ?refs) (rp_relations d1) = []"
        using True by (simp add: list_relations_for_entity_refs_def relation_order_Nil)
      then show ?thesis using q col x by (auto simp: filter_empty_conv columns_only_def)
    qed
    moreover have "find_ordinary_entity c ref types d = Inr (x, d1)" using f by (simp add: find_ordinary_entity_def)
    ultimately show ?thesis using fd dl(2) by (cases x) auto
  qed
qed

definition demo_types :: "(string, etype) dict" where
  "demo_types = [(''note'', note_type)]"

theorem ordinary_delete_guarded_witness:
  "case delete_ordinary_entity demo_codec ''k1'' demo_types demo_repo of Inl _ \<Rightarrow> False
   | Inr ((b, blocking), d) \<Rightarrow> b \<and> ot_rows (table_of ''entity_note'' d) = [] \<and> (\<exists>i. row_deleted i ''k1'' demo_repo d)"
proof -
  have "case delete_ordinary_entity demo_codec ''k1'' demo_types demo_repo of Inl _ \<Rightarrow> False
   | Inr ((b, blocking), d) \<Rightarrow> b \<and> ot_rows (table_of ''entity_note'' d) = []" by code_simp
  then obtain bl d where s: "delete_ordinary_entity demo_codec ''k1'' demo_types demo_repo = Inr ((True, bl), d)"
    "ot_rows (table_of ''entity_note'' d) = []" by (auto split: sum.splits prod.splits)
  have "bare_ref ''k1'' demo_types" "distinct (dkeys demo_types)" by code_simp+
  then show ?thesis using ordinary_delete_guarded [OF s(1)] s by auto
qed

end
