(* ===== verification/GraphBody.thy ===== *)
theory GraphBody
  imports CoreRepo Closure
begin

text \<open>
  What the graph editor sends and shows: the bodies of its requests and the state of a DAG it is given
  (\<open>service_common.py\<close>). A body is the value its JSON text denotes. pydantic's \<open>DagConfig.model_validate\<close> is a
  parameter; \<open>read_dag\<close> is what it answers on a value whose parts have the declared types, where nothing is converted,
  and \<open>dag_dump\<close> is \<open>model_dump(by_alias=True, mode="json")\<close>.
\<close>

section \<open>Names and limits\<close>

definition parse_json :: "pyval res \<Rightarrow> (string, pyval) dict res" where
  "parse_json r = rbind r (\<lambda>v. case v of PDict d \<Rightarrow> Inr d | _ \<Rightarrow> Inl (ConfigEditError ''json payload must be an object''))"

definition request_limit :: "int \<Rightarrow> int \<Rightarrow> int" where
  "request_limit v def = min (max (if v \<noteq> 0 then v else def) 1) 100"

text \<open>\<open>str.islower\<close> below code point 256.\<close>

definition is_lower_char :: "char \<Rightarrow> bool" where
  "is_lower_char c = (let n = (of_char c :: nat) in 97 \<le> n \<and> n \<le> 122 \<or> n = 170 \<or> n = 181 \<or> n = 186 \<or> 223 \<le> n \<and> n \<noteq> 247)"

definition is_upper_char :: "char \<Rightarrow> bool" where
  "is_upper_char c = (let n = (of_char c :: nat) in 65 \<le> n \<and> n \<le> 90 \<or> 192 \<le> n \<and> n \<le> 222 \<and> n \<noteq> 215)"

definition py_islower :: "string \<Rightarrow> bool" where
  "py_islower s = (list_ex is_lower_char s \<and> \<not> list_ex is_upper_char s)"

definition valid_dag_name :: "string \<Rightarrow> bool" where
  "valid_dag_name name = (name \<noteq> [] \<and> list_all (\<lambda>p. p \<noteq> [] \<and> py_islower p \<and> list_all is_alnum p) (split_on (CHR ''-'') name))"

text \<open>The set of the names, as a list.\<close>

definition model_item_names :: "pyval list \<Rightarrow> string list" where
  "model_item_names xs = concat (map (\<lambda>x. case x of
     PDict d \<Rightarrow> if truthy (aget d ''id'') then [py_str (aget d ''id'')]
       else if truthy (aget d ''name'') then [py_str (aget d ''name'')] else []
   | _ \<Rightarrow> []) xs)"

definition extract_model_names :: "pyval \<Rightarrow> string list" where
  "extract_model_names v = (case v of PList xs \<Rightarrow> model_item_names xs
   | PDict d \<Rightarrow> (case aget d ''models'' of PList ms \<Rightarrow> model_item_names ms
       | _ \<Rightarrow> concat (map (\<lambda>(k, v). if is_none v then [] else [k]) d))
   | _ \<Rightarrow> [])"

text \<open>The content of the file of models, where it exists and is JSON.\<close>

definition available_model_names :: "pyval option \<Rightarrow> string list" where
  "available_model_names f = (case f of None \<Rightarrow> [] | Some v \<Rightarrow> sort (remdups (extract_model_names v)))"

section \<open>Bodies of nodes and edges\<close>

definition split_config_step :: "string \<times> pyval \<Rightarrow> (string, pyval) dict \<times> (string, pyval) dict
    \<Rightarrow> (string, pyval) dict \<times> (string, pyval) dict" where
  "split_config_step kv t = (let (k, v) = kv; (payload, ps) = t in
     if k = ''parameters'' then t
     else if starts_with k ''param.'' then (payload, if is_none v then ps else dset ps (removeprefix k ''param.'') v)
     else (dset payload k v, ps))"

definition split_instance_config :: "pyval \<Rightarrow> (string, pyval) dict" where
  "split_instance_config raw = (case raw of
     PDict d \<Rightarrow> (let (payload, ps) = fold split_config_step d ([], dict_of (aget d ''parameters'')) in
       if ps = [] then payload else dset payload ''parameters'' (PDict ps))
   | _ \<Rightarrow> [])"

definition add_if :: "bool \<Rightarrow> string \<Rightarrow> pyval \<Rightarrow> (string, pyval) dict \<Rightarrow> (string, pyval) dict" where
  "add_if b k v d = (if b then dset d k v else d)"

definition nonempty_text :: "pyval \<Rightarrow> bool" where
  "nonempty_text v = (is_str v \<and> truthy v)"

definition first_truthy :: "pyval list \<Rightarrow> pyval" where
  "first_truthy vs = foldr (\<lambda>v r. if truthy v then v else r) (butlast vs) (last vs)"

definition dag_node_payload :: "pyval \<Rightarrow> (string, pyval) dict res" where
  "dag_node_payload node = (case node of
     PStr s \<Rightarrow> Inr [(''id'', PStr s), (''type'', PStr s), (''alias'', PStr s), (''config'', PDict [])]
   | PDict d \<Rightarrow>
      (let ty = first_truthy [aget d ''type_name'', aget d ''type'', aget d ''name''];
           i = dget_default d ''id'' (aget d ''name'') in
       if \<not> is_str i \<or> \<not> is_str ty then Inl (ConfigEditError ''dag node requires id and type'')
       else Inr (add_if (is_str (aget d ''resource'')) ''resource'' (aget d ''resource'')
        (add_if (is_dict (aget d ''loop'')) ''loop'' (aget d ''loop'')
        (add_if (is_dict (aget d ''input_mapping'')) ''input_mapping''
           (PDict (map (\<lambda>(k, v). (k, PStr (py_str v))) (dict_of (aget d ''input_mapping''))))
        (add_if (nonempty_text (aget d ''dag_ref'')) ''dag_ref'' (aget d ''dag_ref'')
        (add_if (truthy (aget d ''optional'')) ''optional'' (PBool True)
        (add_if (nonempty_text (aget d ''alias'')) ''alias'' (aget d ''alias'')
           [(''id'', i), (''type'', ty), (''config'', PDict (split_instance_config (dget_default d ''config'' (PDict []))))])))))))
   | _ \<Rightarrow> Inl (ConfigEditError ''dag node must be a mapping''))"

definition edge_modes :: "string list" where
  "edge_modes = [''barrier'', ''accumulate'', ''collect'', ''stream'']"

definition dag_edge_payload :: "pyval \<Rightarrow> (string, pyval) dict res" where
  "dag_edge_payload edge = (case edge of
     PDict d \<Rightarrow>
      (if \<not> is_str (aget d ''from'') \<or> \<not> is_str (aget d ''to'') then Inl (ConfigEditError ''dag edge requires from and to'')
       else if \<not> hashable (aget d ''fan_in_mode'') then Inl (TypeError ''unhashable type'')
       else Inr (add_if (aget d ''fan_in_mode'' \<in> PStr ` set edge_modes) ''fan_in_mode'' (aget d ''fan_in_mode'')
        (add_if (truthy (aget d ''optional'')) ''optional'' (PBool True)
        (add_if (truthy (aget d ''fan_in'')) ''fan_in'' (PBool True)
        (add_if (truthy (aget d ''fan_out'')) ''fan_out'' (PBool True)
           [(''from'', aget d ''from''), (''to'', aget d ''to'')])))))
   | _ \<Rightarrow> Inl (ConfigEditError ''dag edge must be a mapping''))"

text \<open>The value given to \<open>model_validate\<close>.\<close>

definition dag_body :: "string \<Rightarrow> (string, pyval) dict \<Rightarrow> (string, pyval) dict res" where
  "dag_body name b =
     (case dget_default b ''nodes'' (PList []) of
        PList ns \<Rightarrow> (case dget_default b ''edges'' (PList []) of
            PList es \<Rightarrow> rbind (map_res dag_node_payload ns) (\<lambda>ns'. rbind (map_res dag_edge_payload es) (\<lambda>es'.
              Inr [(''name'', PStr name), (''nodes'', PList (map PDict ns')), (''edges'', PList (map PDict es')),
                (''ui'', PDict (dict_of (dget_default b ''ui'' (PDict []))))]))
          | _ \<Rightarrow> Inl (ConfigEditError ''dag edges must be a list''))
      | _ \<Rightarrow> Inl (ConfigEditError ''dag nodes must be a list''))"

section \<open>Dumping a DAG\<close>

definition opt_str :: "string option \<Rightarrow> pyval" where
  "opt_str x = (case x of None \<Rightarrow> PNone | Some s \<Rightarrow> PStr s)"

definition dump_mapping :: "input_map \<Rightarrow> pyval" where
  "dump_mapping m = (case m of MapRef s \<Rightarrow> PStr s | MapDict d \<Rightarrow> PDict (map (\<lambda>(k, v). (k, PStr v)) d))"

definition loop_mode_text :: "loop_mode \<Rightarrow> string" where
  "loop_mode_text m = (case m of LParallel \<Rightarrow> ''parallel'' | LSerial \<Rightarrow> ''serial'')"

definition dump_loop :: "loop_cfg \<Rightarrow> (string, pyval) dict" where
  "dump_loop l = [(''mode'', PStr (loop_mode_text (lp_mode l))),
     (''count'', case lp_count l of None \<Rightarrow> PNone | Some n \<Rightarrow> PInt (int n)), (''until'', opt_str (lp_until l))]"

definition node_mode_text :: "node_mode \<Rightarrow> string" where
  "node_mode_text m = (case m of NBarrier \<Rightarrow> ''barrier'' | NAccumulate \<Rightarrow> ''accumulate'')"

definition edge_mode_text :: "edge_mode \<Rightarrow> string" where
  "edge_mode_text m = (case m of EBarrier \<Rightarrow> ''barrier'' | EAccumulate \<Rightarrow> ''accumulate'' | ECollect \<Rightarrow> ''collect'' | EStream \<Rightarrow> ''stream'')"

definition dump_inst :: "node_inst \<Rightarrow> (string, pyval) dict" where
  "dump_inst i = [(''id'', PStr (ni_id i)), (''type'', PStr (ni_type i)), (''dag_ref'', opt_str (ni_dag_ref i)),
     (''input_mapping'', dump_mapping (ni_input_mapping i)), (''alias'', opt_str (ni_alias i)), (''config'', PDict (ni_config i)),
     (''optional'', PBool (ni_optional i)), (''fan_in_mode'', PStr (node_mode_text (ni_fan_in_mode i))),
     (''loop'', case ni_loop i of None \<Rightarrow> PNone | Some l \<Rightarrow> PDict (dump_loop l)),
     (''fallback'', if ni_switch_model i then PStr ''switch_model'' else PNone), (''fallback_model'', opt_str (ni_fallback_model i)),
     (''resource'', opt_str (ni_resource i))]"

definition dump_edge :: "edge_cfg \<Rightarrow> (string, pyval) dict" where
  "dump_edge e = [(''from'', PStr (e_from e)), (''to'', PStr (e_to e)), (''fan_out'', PBool (e_fan_out e)), (''fan_in'', PBool (e_fan_in e)),
     (''optional'', PBool (e_optional e)), (''condition'', opt_str (e_condition e)), (''fan_in_mode'', PStr (edge_mode_text (e_fan_in_mode e)))]"

definition dag_dump :: "dag_cfg \<Rightarrow> (string, pyval) dict" where
  "dag_dump c = [(''name'', PStr (dc_name c)), (''nodes'', PList (map (\<lambda>i. PDict (dump_inst i)) (dc_nodes c))),
     (''edges'', PList (map (\<lambda>e. PDict (dump_edge e)) (dc_edges c))), (''ui'', PDict (dc_ui c))]"

section \<open>Reading a DAG\<close>

definition not_typed :: err where
  "not_typed = ValueError ''not of the declared type''"

definition read_str :: "(string, pyval) dict \<Rightarrow> string \<Rightarrow> string res" where
  "read_str d k = (case dget d k of Some (PStr s) \<Rightarrow> Inr s | _ \<Rightarrow> Inl not_typed)"

definition read_opt_str :: "(string, pyval) dict \<Rightarrow> string \<Rightarrow> string option res" where
  "read_opt_str d k = (case aget d k of PNone \<Rightarrow> Inr None | PStr s \<Rightarrow> Inr (Some s) | _ \<Rightarrow> Inl not_typed)"

definition read_flag :: "(string, pyval) dict \<Rightarrow> string \<Rightarrow> bool res" where
  "read_flag d k = (case dget d k of None \<Rightarrow> Inr False | Some (PBool b) \<Rightarrow> Inr b | _ \<Rightarrow> Inl not_typed)"

definition read_mapping :: "(string, pyval) dict \<Rightarrow> input_map res" where
  "read_mapping d = (case dget d ''input_mapping'' of None \<Rightarrow> Inr (MapDict []) | Some (PStr s) \<Rightarrow> Inr (MapRef s)
   | Some (PDict m) \<Rightarrow> if list_all (\<lambda>(_, v). is_str v) m then Inr (MapDict (map (\<lambda>(k, v). (k, py_str v)) m)) else Inl not_typed
   | _ \<Rightarrow> Inl not_typed)"

text \<open>A literal among the texts of the constructors of an enumeration.\<close>

definition read_literal :: "('a \<Rightarrow> string) \<Rightarrow> 'a list \<Rightarrow> 'a res \<Rightarrow> pyval option \<Rightarrow> 'a res" where
  "read_literal txt xs absent v = (case v of None \<Rightarrow> absent
   | Some (PStr s) \<Rightarrow> (case filter (\<lambda>x. txt x = s) xs of x # _ \<Rightarrow> Inr x | [] \<Rightarrow> Inl not_typed) | _ \<Rightarrow> Inl not_typed)"

definition read_loop :: "(string, pyval) dict \<Rightarrow> loop_cfg option res" where
  "read_loop d = (case aget d ''loop'' of PNone \<Rightarrow> Inr None
   | PDict l \<Rightarrow> rbind (read_literal loop_mode_text [LParallel, LSerial] (Inl not_typed) (dget l ''mode'')) (\<lambda>m.
       rbind (case aget l ''count'' of PNone \<Rightarrow> Inr None | PInt n \<Rightarrow> if 1 \<le> n then Inr (Some (nat n)) else Inl not_typed
         | _ \<Rightarrow> Inl not_typed) (\<lambda>n. rbind (read_opt_str l ''until'') (\<lambda>u.
       Inr (Some \<lparr>lp_mode = m, lp_count = n, lp_until = u\<rparr>))))
   | _ \<Rightarrow> Inl not_typed)"

definition read_fallback :: "(string, pyval) dict \<Rightarrow> bool res" where
  "read_fallback d = (case aget d ''fallback'' of PNone \<Rightarrow> Inr False
   | PStr s \<Rightarrow> if s = ''switch_model'' then Inr True else Inl not_typed | _ \<Rightarrow> Inl not_typed)"

definition read_config :: "(string, pyval) dict \<Rightarrow> (string, pyval) dict res" where
  "read_config d = (case dget d ''config'' of None \<Rightarrow> Inr [] | Some (PDict c) \<Rightarrow> json_like_config c | _ \<Rightarrow> Inl not_typed)"

definition inst_fields :: "string list" where
  "inst_fields = [''id'', ''type'', ''dag_ref'', ''input_mapping'', ''alias'', ''config'', ''optional'', ''fan_in_mode'', ''loop'',
     ''fallback'', ''fallback_model'', ''resource'']"

definition read_inst :: "pyval \<Rightarrow> node_inst res" where
  "read_inst v = (case v of PDict d \<Rightarrow>
      if \<not> list_all (\<lambda>k. k \<in> set inst_fields) (dkeys d) then Inl not_typed
      else rbind (read_str d ''id'') (\<lambda>i. rbind (read_str d ''type'') (\<lambda>ty. rbind (read_opt_str d ''dag_ref'') (\<lambda>r.
        rbind (read_mapping d) (\<lambda>m. rbind (read_opt_str d ''alias'') (\<lambda>a. rbind (read_config d) (\<lambda>c.
        rbind (read_flag d ''optional'') (\<lambda>opt.
        rbind (read_literal node_mode_text [NBarrier, NAccumulate] (Inr NBarrier) (dget d ''fan_in_mode'')) (\<lambda>f.
        rbind (read_loop d) (\<lambda>l. rbind (read_fallback d) (\<lambda>sw. rbind (read_opt_str d ''fallback_model'') (\<lambda>fm.
        rbind (read_opt_str d ''resource'') (\<lambda>rs.
          Inr \<lparr>ni_id = i, ni_type = ty, ni_dag_ref = r, ni_input_mapping = m, ni_alias = a, ni_config = c, ni_optional = opt,
            ni_fan_in_mode = f, ni_loop = l, ni_switch_model = sw, ni_fallback_model = fm, ni_resource = rs\<rparr>))))))))))))
    | _ \<Rightarrow> Inl not_typed)"

definition read_edge :: "pyval \<Rightarrow> edge_cfg res" where
  "read_edge v = (case v of PDict d \<Rightarrow>
      rbind (read_str d ''from'') (\<lambda>f. rbind (read_str d ''to'') (\<lambda>t. rbind (read_flag d ''fan_out'') (\<lambda>fo.
      rbind (read_flag d ''fan_in'') (\<lambda>fi. rbind (read_flag d ''optional'') (\<lambda>opt. rbind (read_opt_str d ''condition'') (\<lambda>c.
      rbind (read_literal edge_mode_text [EBarrier, EAccumulate, ECollect, EStream] (Inr EBarrier) (dget d ''fan_in_mode'')) (\<lambda>m.
        Inr \<lparr>e_from = f, e_to = t, e_fan_out = fo, e_fan_in = fi, e_optional = opt, e_condition = c, e_fan_in_mode = m\<rparr>)))))))
    | _ \<Rightarrow> Inl not_typed)"

definition read_list :: "(pyval \<Rightarrow> 'a res) \<Rightarrow> pyval option \<Rightarrow> 'a list res" where
  "read_list f v = (case v of Some (PList xs) \<Rightarrow> map_res f xs | _ \<Rightarrow> Inl not_typed)"

definition read_dag :: "(string, pyval) dict \<Rightarrow> dag_cfg res" where
  "read_dag d = (if \<not> list_all (\<lambda>k. k \<in> {''name'', ''nodes'', ''edges'', ''ui''}) (dkeys d) then Inl not_typed
     else rbind (read_str d ''name'') (\<lambda>n. rbind (read_list read_inst (dget d ''nodes'')) (\<lambda>ns.
       rbind (read_list read_edge (dget d ''edges'')) (\<lambda>es.
       rbind (case dget d ''ui'' of None \<Rightarrow> Inr [] | Some (PDict u) \<Rightarrow> Inr u | _ \<Rightarrow> Inl not_typed) (\<lambda>u.
         Inr \<lparr>dc_name = n, dc_nodes = ns, dc_edges = es, dc_ui = u\<rparr>)))))"

section \<open>Reading what was dumped\<close>

lemma opt_str_read [simp]: "aget d k = opt_str x \<Longrightarrow> read_opt_str d k = Inr x"
  by (auto simp: read_opt_str_def opt_str_def split: option.splits)

lemma read_literal_text [simp]:
  "read_literal node_mode_text [NBarrier, NAccumulate] a (Some (PStr (node_mode_text m))) = Inr m"
  "read_literal loop_mode_text [LParallel, LSerial] b (Some (PStr (loop_mode_text l))) = Inr l"
  "read_literal edge_mode_text [EBarrier, EAccumulate, ECollect, EStream] c (Some (PStr (edge_mode_text e))) = Inr e"
proof -
  show "read_literal node_mode_text [NBarrier, NAccumulate] a (Some (PStr (node_mode_text m))) = Inr m"
    by (cases m) (simp_all add: read_literal_def node_mode_text_def)
  show "read_literal loop_mode_text [LParallel, LSerial] b (Some (PStr (loop_mode_text l))) = Inr l"
    by (cases l) (simp_all add: read_literal_def loop_mode_text_def)
  show "read_literal edge_mode_text [EBarrier, EAccumulate, ECollect, EStream] c (Some (PStr (edge_mode_text e))) = Inr e"
    by (cases e) (simp_all add: read_literal_def edge_mode_text_def)
qed

definition inst_ok :: "node_inst \<Rightarrow> bool" where
  "inst_ok i = (json_like_config (ni_config i) = Inr (ni_config i)
     \<and> (case ni_loop i of None \<Rightarrow> True | Some l \<Rightarrow> lp_count l \<noteq> Some 0))"

lemma read_dump_loop: "(case x of None \<Rightarrow> True | Some l \<Rightarrow> lp_count l \<noteq> Some 0) \<Longrightarrow>
  aget d ''loop'' = (case x of None \<Rightarrow> PNone | Some l \<Rightarrow> PDict (dump_loop l)) \<Longrightarrow> read_loop d = Inr x"
  by (auto simp: read_loop_def dump_loop_def aget_def dget_default_def read_opt_str_def opt_str_def split: option.splits)

lemma read_dump_mapping: "dget d ''input_mapping'' = Some (dump_mapping m) \<Longrightarrow> read_mapping d = Inr m"
  by (cases m) (auto simp: read_mapping_def dump_mapping_def comp_def list_all_iff case_prod_unfold)

lemma read_dump_inst:
  assumes "inst_ok i"
  shows "read_inst (PDict (dump_inst i)) = Inr i"
proof -
  let ?d = "dump_inst i"
  have keys: "list_all (\<lambda>k. k \<in> set inst_fields) (dkeys ?d)" by (simp add: dump_inst_def inst_fields_def)
  have "read_mapping ?d = Inr (ni_input_mapping i)" by (rule read_dump_mapping) (simp add: dump_inst_def)
  moreover have "read_loop ?d = Inr (ni_loop i)"
    by (rule read_dump_loop) (use assms in \<open>simp_all add: dump_inst_def inst_ok_def aget_def dget_default_def split: option.splits\<close>)
  moreover have "read_config ?d = Inr (ni_config i)" using assms by (simp add: read_config_def dump_inst_def inst_ok_def)
  moreover have "read_fallback ?d = Inr (ni_switch_model i)" by (simp add: read_fallback_def dump_inst_def aget_def dget_default_def)
  moreover have "read_opt_str ?d ''dag_ref'' = Inr (ni_dag_ref i)" "read_opt_str ?d ''alias'' = Inr (ni_alias i)"
    "read_opt_str ?d ''fallback_model'' = Inr (ni_fallback_model i)" "read_opt_str ?d ''resource'' = Inr (ni_resource i)"
    by (simp_all add: dump_inst_def aget_def dget_default_def)
  moreover have "read_str ?d ''id'' = Inr (ni_id i)" "read_str ?d ''type'' = Inr (ni_type i)"
    "read_flag ?d ''optional'' = Inr (ni_optional i)" by (simp_all add: dump_inst_def read_str_def read_flag_def)
  moreover have "dget ?d ''fan_in_mode'' = Some (PStr (node_mode_text (ni_fan_in_mode i)))" by (simp add: dump_inst_def)
  ultimately show ?thesis using keys by (simp add: read_inst_def)
qed

lemma read_dump_edge: "read_edge (PDict (dump_edge e)) = Inr e"
  by (simp add: read_edge_def dump_edge_def read_str_def read_flag_def aget_def dget_default_def)

lemma map_res_inverse: "(\<And>x. x \<in> set xs \<Longrightarrow> f (g x) = Inr x) \<Longrightarrow> map_res f (map g xs) = Inr xs"
  by (induction xs) auto

lemma read_dag_dump: "list_all inst_ok (dc_nodes c) \<Longrightarrow> read_dag (dag_dump c) = Inr c"
  by (simp add: read_dag_def dag_dump_def read_str_def read_list_def read_dump_inst read_dump_edge map_res_inverse list_all_iff)

lemma validate_tools_same: "validate_tools ts = Inr us \<Longrightarrow> us = ts"
  by (auto simp: validate_tools_def split: list.splits)

lemma mapping_ok_dset:
  assumes "validate_parameter_mapping (filter (\<lambda>kv. fst kv \<noteq> e) d) = Inr ()" "dhas d k" "no_credentials v"
  shows "validate_parameter_mapping (filter (\<lambda>kv. fst kv \<noteq> e) (dset d k v)) = Inr ()"
proof -
  have "x \<in> set d \<or> x = (k, v)" if "x \<in> set (dset d k v)" for x using that by (induction d) (auto split: if_splits)
  moreover obtain w where "(k, w) \<in> set d" using assms(2) by (auto simp: dhas_def dest: map_of_SomeD)
  ultimately show ?thesis using assms(1,3) unfolding validate_parameter_iff by fastforce
qed

lemma json_like_config_again:
  assumes "json_like_config c = Inr c'"
  shows "json_like_config c' = Inr c'"
proof (cases "dhas c ''tools''")
  case False
  then show ?thesis using assms by (auto simp: json_like_config_def split: if_splits)
next
  case True
  then obtain xs ts where xs: "aget c ''tools'' = PList xs" "validate_tools (map py_str xs) = Inr ts" "c' = dset c ''tools'' (PList (map PStr ts))"
    "validate_parameter_mapping (filter (\<lambda>kv. fst kv \<noteq> ''entity_permissions'') c) = Inr ()"
    "\<not> (dhas c ''session'' \<and> \<not> valid_session (aget c ''session''))"
    using assms by (auto simp: json_like_config_def split: if_splits pyval.splits)
  have "validate_tools ts = Inr ts" using validate_tools_same [OF xs(2)] xs(2) by simp
  moreover have "validate_parameter_mapping (filter (\<lambda>kv. fst kv \<noteq> ''entity_permissions'') c') = Inr ()"
    unfolding xs(3) by (rule mapping_ok_dset [OF xs(4) True]) simp
  moreover have "dset c' ''tools'' (PList (map PStr ts)) = c'" by (simp add: xs(3) dset_dset)
  ultimately show ?thesis using xs(3,5) by (simp add: json_like_config_def comp_def)
qed

lemma read_loop_ok: "read_loop d = Inr x \<Longrightarrow> (case x of None \<Rightarrow> True | Some l \<Rightarrow> lp_count l \<noteq> Some 0)"
  by (cases "aget d ''loop''") (auto simp: read_loop_def split: pyval.splits if_splits)

lemma read_inst_ok:
  assumes "read_inst v = Inr i"
  shows "inst_ok i"
proof -
  obtain d where d: "v = PDict d" "read_config d = Inr (ni_config i)" "read_loop d = Inr (ni_loop i)"
    using assms by (auto simp: read_inst_def split: pyval.splits if_splits)
  have "json_like_config (ni_config i) = Inr (ni_config i)"
  proof (cases "dget d ''config''")
    case None
    then have "ni_config i = []" using d(2) by (simp add: read_config_def)
    then show ?thesis by (simp add: json_like_config_def dhas_def)
  next
    case (Some w)
    then show ?thesis using d(2) json_like_config_again by (cases w) (auto simp: read_config_def)
  qed
  moreover have "case ni_loop i of None \<Rightarrow> True | Some l \<Rightarrow> lp_count l \<noteq> Some 0" by (rule read_loop_ok [OF d(3)])
  ultimately show ?thesis by (simp add: inst_ok_def)
qed

lemma read_dag_ok:
  assumes "read_dag d = Inr c"
  shows "list_all inst_ok (dc_nodes c)"
proof -
  obtain xs where "map_res read_inst xs = Inr (dc_nodes c)"
    using assms by (auto simp: read_dag_def read_list_def split: if_splits option.splits pyval.splits)
  then have "list_all2 (\<lambda>x y. read_inst x = Inr y) xs (dc_nodes c)" by (simp add: map_res_all2)
  then show ?thesis using read_inst_ok by (fastforce simp: list_all_iff list_all2_conv_all_nth in_set_conv_nth)
qed

section \<open>Parsing\<close>

text \<open>What is relied on of \<open>model_validate\<close>: it reads values of the declared types as they are, reads its
  own dump, and keeps a name that is a text.\<close>

locale dag_parser =
  fixes parse :: "(string, pyval) dict \<Rightarrow> dag_cfg res"
  assumes typed: "read_dag d = Inr c \<Longrightarrow> parse d = Inr c"
    and again: "parse d = Inr c \<Longrightarrow> parse (dag_dump c) = Inr c"
    and keeps_name: "parse d = Inr c \<Longrightarrow> dget d ''name'' = Some (PStr n) \<Longrightarrow> dc_name c = n"

interpretation strict: dag_parser read_dag
proof
  show "read_dag (dag_dump c) = Inr c" if "read_dag d = Inr c" for d c by (rule read_dag_dump [OF read_dag_ok [OF that]])
  show "dc_name c = n" if "read_dag d = Inr c" "dget d ''name'' = Some (PStr n)" for d c n
    using that by (auto simp: read_dag_def read_str_def split: if_splits)
qed

text \<open>\<open>graph_dag_payload\<close>; pydantic's \<open>ValidationError\<close> is a \<open>ValueError\<close>.\<close>

definition edit_error :: "'a res \<Rightarrow> 'a res" where
  "edit_error r = (case r of Inl (ValueError m) \<Rightarrow> Inl (ConfigEditError m) | _ \<Rightarrow> r)"

definition graph_dag_payload :: "((string, pyval) dict \<Rightarrow> dag_cfg res) \<Rightarrow> string \<Rightarrow> (string, pyval) dict \<Rightarrow> (string, pyval) dict res" where
  "graph_dag_payload parse name b = rbind (dag_body name b) (\<lambda>p. rbind (edit_error (parse p)) (\<lambda>c. Inr (dag_dump c)))"

lemma edit_error_Inr: "edit_error r = Inr x \<longleftrightarrow> r = Inr x"
  by (auto simp: edit_error_def split: sum.splits err.splits)

lemma dag_body_name: "dag_body name b = Inr q \<Longrightarrow> dget q ''name'' = Some (PStr name)"
  by (cases "dget_default b ''nodes'' (PList [])"; cases "dget_default b ''edges'' (PList [])") (auto simp: dag_body_def)

context dag_parser
begin

lemma payload_parses:
  assumes "graph_dag_payload parse name b = Inr p"
  shows "\<exists>c. parse p = Inr c \<and> p = dag_dump c \<and> dc_name c = name"
proof -
  obtain q c where q: "dag_body name b = Inr q" "parse q = Inr c" "p = dag_dump c"
    using assms by (auto simp: graph_dag_payload_def edit_error_Inr)
  have "dget q ''name'' = Some (PStr name)" by (rule dag_body_name [OF q(1)])
  then show ?thesis using again [OF q(2)] keeps_name [OF q(2)] q(3) by blast
qed

end

end
