(* ===== verification/GraphState.thy ===== *)
theory GraphState
  imports GraphBody OrdinaryRepo
begin

text \<open>
  What the graph editor is shown: the payloads of entities, types and relations and the state of a DAG
  (\<open>service_common.py\<close>). \<open>str.format\<close> of a display template is a parameter, as is the payload of a node prototype
  with the schema of its inspector (\<open>node_payload\<close>).
\<close>

section \<open>Entities, types, relations\<close>

definition perm_text :: "perm \<Rightarrow> string" where
  "perm_text p = (case p of PermNone \<Rightarrow> ''none'' | ReadOnly \<Rightarrow> ''read-only'' | WriteOnly \<Rightarrow> ''write-only'' | ReadWrite \<Rightarrow> ''read-write'')"

definition tier_text :: "storage_tier \<Rightarrow> string" where
  "tier_text t = (case t of Filesystem \<Rightarrow> ''filesystem'' | Database \<Rightarrow> ''database'' | Memory \<Rightarrow> ''memory'')"

definition mat_type_text :: "mat_type \<Rightarrow> string" where
  "mat_type_text m = (case m of MInteger \<Rightarrow> ''integer'' | MText \<Rightarrow> ''text'' | MReal \<Rightarrow> ''real'' | MDatetime \<Rightarrow> ''datetime''
     | MBoolean \<Rightarrow> ''boolean'' | MJson \<Rightarrow> ''json'')"

definition mat_field_dump :: "mat_field \<Rightarrow> pyval" where
  "mat_field_dump m = PDict [(''type'', PStr (mat_type_text (mf_type m))), (''index'', PBool (mf_index m))]"

definition etype_dump :: "etype \<Rightarrow> (string, pyval) dict" where
  "etype_dump t = [(''display_name'', PStr (et_display_name t)), (''business_id_field'', PStr (et_business_id_field t)),
     (''display_template'', PStr (et_display_template t)), (''storage_tier'', PStr (tier_text (et_storage_tier t))),
     (''table_name'', opt_str (et_table_name t)), (''schema_version'', PInt (et_schema_version t)),
     (''materialized_fields'', PDict (map (\<lambda>(k, m). (k, mat_field_dump m)) (et_materialized t))),
     (''deprecated_fields'', strs (et_deprecated t)), (''system_protected'', PBool (et_system_protected t)),
     (''schema'', PDict (et_schema t)),
     (''field_permissions'', PDict (map (\<lambda>(k, p). (k, PStr (perm_text p))) (et_field_permissions t))),
     (''validate'', PBool (et_validate t))]"

definition entity_types_payload :: "(string, etype) dict \<Rightarrow> (string, pyval) dict" where
  "entity_types_payload types = map (\<lambda>(n, t). (n, PDict (etype_dump t))) types"

definition render_entity_display :: "(string \<Rightarrow> (string, pyval) dict \<Rightarrow> string res) \<Rightarrow> entity \<Rightarrow> etype \<Rightarrow> string res" where
  "render_entity_display fmt e t = (case fmt (et_display_template t) (en_attrs e) of
     Inl (KeyError _) \<Rightarrow> Inr (py_str (dget_default (en_attrs e) (et_business_id_field t) (PStr (en_id e)))) | r \<Rightarrow> r)"

definition entity_payload :: "(string \<Rightarrow> (string, pyval) dict \<Rightarrow> string res) \<Rightarrow> (string, etype) dict \<Rightarrow> entity \<Rightarrow> pyval res" where
  "entity_payload fmt types e = rbind (entity_ref e types) (\<lambda>r.
     rbind (case dget types (en_type e) of None \<Rightarrow> Inl (KeyError (en_type e)) | Some t \<Rightarrow> render_entity_display fmt e t) (\<lambda>s.
     Inr (PDict [(''id'', PStr (en_id e)), (''type'', PStr (en_type e)), (''attributes'', PDict (en_attrs e)),
       (''ref'', PStr r), (''display'', PStr s)])))"

definition entity_list_payload :: "(string \<Rightarrow> (string, pyval) dict \<Rightarrow> string res) \<Rightarrow> (string, etype) dict \<Rightarrow> entity list \<Rightarrow> pyval list res" where
  "entity_list_payload fmt types = map_res (entity_payload fmt types)"

definition merge_entities :: "entity list list \<Rightarrow> entity list" where
  "merge_entities gs = dedupe_by en_id [] (concat gs)"

definition relation_config :: "rel_row \<Rightarrow> relation" where
  "relation_config r = \<lparr>rl_id = rr_id r, rl_entities = [rr_from r, rr_to r], rl_type = rr_type r, rl_metadata = rr_meta r\<rparr>"

definition relation_dump :: "relation \<Rightarrow> pyval" where
  "relation_dump r = PDict [(''id'', PStr (rl_id r)), (''entities'', strs (rl_entities r)), (''type'', PStr (rl_type r)),
     (''metadata'', PDict (rl_metadata r))]"

text \<open>The first entity that is referred to by its id or its reference; computing a reference may raise.\<close>

fun resolve_entity :: "entity list \<Rightarrow> (string, etype) dict \<Rightarrow> string \<Rightarrow> entity res" where
  "resolve_entity [] types ref = Inl (ConfigError (''Entity not found: '' @ ref))"
| "resolve_entity (e # es) types ref = (if ref = en_id e then Inr e
     else rbind (entity_ref e types) (\<lambda>r. if ref = r then Inr e else resolve_entity es types ref))"

definition entity_ref_from_any :: "entity list \<Rightarrow> (string, etype) dict \<Rightarrow> string \<Rightarrow> string res" where
  "entity_ref_from_any es types ref = rbind (resolve_entity es types ref) (\<lambda>e. entity_ref e types)"

definition source_types :: "string list" where
  "source_types = [''api-source'', ''rss-source'', ''web-source'']"

definition source_ref_for_name :: "entity list \<Rightarrow> (string, etype) dict \<Rightarrow> string \<Rightarrow> string res" where
  "source_ref_for_name es types name =
     (case first_of (\<lambda>e. en_type e \<in> set source_types \<and> aget (en_attrs e) ''name'' = PStr name) es of
        Some e \<Rightarrow> entity_ref e types | None \<Rightarrow> Inr name)"

definition source_key :: "entity \<Rightarrow> string" where
  "source_key e = str_or (aget (en_attrs e) ''name'') (en_id e)"

definition source_map :: "entity list \<Rightarrow> (string, entity) dict" where
  "source_map es = dmerge [] (map (\<lambda>e. (source_key e, e)) (filter (\<lambda>e. en_type e \<in> set source_types) es))"

fun add_sources :: "codec \<Rightarrow> (string, etype) dict \<Rightarrow> string list \<Rightarrow> (string, entity) dict \<Rightarrow> (string, entity) dict rx" where
  "add_sources c types [] m d = Inr (m, d)"
| "add_sources c types (ty # tys) m d = rbind (list_ordinary_entities c types (Some ty) d) (\<lambda>(es, d').
     add_sources c types tys (dmerge m (map (\<lambda>e. (source_key e, e)) es)) d')"

definition source_map_from_store :: "codec \<Rightarrow> estore \<Rightarrow> (string, entity) dict rx" where
  "source_map_from_store c st = add_sources c (es_types st) source_types (source_map (es_entities st))"

section \<open>The state of a DAG\<close>

definition instance_fields :: "string list" where
  "instance_fields = [''model'', ''skills'', ''source_names'', ''entities'', ''entity_permissions'', ''timeout_seconds'', ''session'',
     ''workdir'', ''tools'', ''parameters'']"

definition loop_payload :: "loop_cfg \<Rightarrow> (string, pyval) dict" where
  "loop_payload l = filter (\<lambda>(_, v). \<not> is_none v) (dump_loop l)"

definition instance_part :: "node_inst \<Rightarrow> (string, pyval) dict" where
  "instance_part i = [(''type_name'', PStr (ni_type i)), (''dag_ref'', opt_str (ni_dag_ref i)),
     (''input_mapping'', dump_mapping (ni_input_mapping i)), (''alias'', opt_str (ni_alias i)), (''config'', PDict (ni_config i))]"

definition node_item :: "(node_cfg \<Rightarrow> (string, pyval) dict) \<Rightarrow> (string, node_cfg) dict \<Rightarrow> node_inst \<Rightarrow> (string, pyval) dict" where
  "node_item present nodes i =
     (let item = (case dget nodes (ni_type i) of
          Some c \<Rightarrow> dmerge (dmerge (present c) ((''id'', PStr (ni_id i)) # instance_part i @ [(''optional'', PBool (ni_optional i))]))
            (filter (\<lambda>(k, _). k \<in> set instance_fields) (ni_config i))
        | None \<Rightarrow> [(''id'', PStr (ni_id i)), (''name'', PStr (ni_type i)), (''type'', PStr ''function'')] @ instance_part i
            @ [(''input_type'', PStr ''Any''), (''output_type'', PStr ''Any''), (''optional'', PBool (ni_optional i))])
      in add_if (nonempty_text (opt_str (ni_resource i))) ''resource'' (opt_str (ni_resource i))
        (case ni_loop i of None \<Rightarrow> item | Some l \<Rightarrow> dset item ''loop'' (PDict (loop_payload l))))"

definition edge_item :: "edge_cfg \<Rightarrow> (string, pyval) dict" where
  "edge_item e = [(''from'', PStr (e_from e)), (''to'', PStr (e_to e)), (''fan_out'', PBool (e_fan_out e)), (''fan_in'', PBool (e_fan_in e)),
     (''optional'', PBool (e_optional e)), (''fan_in_mode'', PStr (edge_mode_text (e_fan_in_mode e)))]"

definition graph_dag_state :: "(node_cfg \<Rightarrow> (string, pyval) dict) \<Rightarrow> (string \<Rightarrow> (string, pyval) dict \<Rightarrow> string res) \<Rightarrow> dag_cfg
    \<Rightarrow> (string, node_cfg) dict \<Rightarrow> (string, etype) dict \<Rightarrow> entity list \<Rightarrow> relation list \<Rightarrow> (string, pyval) dict res" where
  "graph_dag_state present fmt c nodes types es rels = rbind (entity_list_payload fmt types es) (\<lambda>ps.
     Inr [(''name'', PStr (dc_name c)), (''nodes'', PList (map (\<lambda>i. PDict (node_item present nodes i)) (dc_nodes c))),
       (''edges'', PList (map (\<lambda>e. PDict (edge_item e)) (dc_edges c))), (''ui'', PDict (dc_ui c)),
       (''entity_types'', PDict (entity_types_payload types)), (''entities'', PList ps),
       (''entity_relations'', PList (map relation_dump rels))])"

text \<open>The entities and relations of the configuration with those of the database.\<close>

definition graph_dag_state_from_database :: "(node_cfg \<Rightarrow> (string, pyval) dict) \<Rightarrow> (string \<Rightarrow> (string, pyval) dict \<Rightarrow> string res)
    \<Rightarrow> codec \<Rightarrow> entity list \<Rightarrow> relation list \<Rightarrow> (string, etype) dict \<Rightarrow> dag_cfg \<Rightarrow> (string, node_cfg) dict \<Rightarrow> (string, pyval) dict rx" where
  "graph_dag_state_from_database present fmt cd es rels types c nodes d = rbind (list_ordinary_entities cd types None d) (\<lambda>(os, d').
     rbind (graph_dag_state present fmt c nodes types (merge_entities [es, os])
       (rels @ dedupe_by rl_id (map rl_id rels) (map relation_config (list_relations None None None d')))) (\<lambda>p. Inr (p, d')))"

end
