(* ===== verification/GraphService.thy ===== *)
theory GraphService
  imports GraphState
begin

text \<open>
  The graph service (\<open>graph_service.py\<close>): reading and saving DAGs and node types. A handler is a function of the
  state of the service; \<open>context.abort\<close> raises, so an aborted call is a value of the result. What a handler has not
  committed is lost when it fails. The file system holds the code files below the root of the configuration.
\<close>

section \<open>Calls\<close>

datatype status = Unauthenticated | NotFound | AlreadyExists | InvalidArgument | FailedPrecondition | PermissionDenied

datatype failure = Abort status string | Raised err

record svc =
  sv_repo :: repo
  sv_events :: "string list"
  sv_files :: "(string, string) dict"

type_synonym ('s, 'a) call = "'s \<Rightarrow> (failure + 'a) \<times> 's"

type_synonym 'a handler = "(svc, 'a) call"

record app_cfg =
  ap_types :: "(string, etype) dict"
  ap_depth :: int
  ap_nodes :: "(string, node_cfg) dict"
  ap_entities :: "entity list"
  ap_relations :: "relation list"

text \<open>The surroundings: the runtime configuration, pydantic's reading of DAGs and nodes, \<open>check_node\<close> for the reading and
  dumping of a node payload, the payload of a prototype.\<close>

record svc_env =
  ve_app :: app_cfg
  ve_draws :: draws
  ve_codec :: codec
  ve_parse :: "(string, pyval) dict \<Rightarrow> dag_cfg res"
  ve_parse_node :: "(string, pyval) dict \<Rightarrow> node_cfg res"
  ve_check_node :: "(string, pyval) dict \<Rightarrow> (string, pyval) dict res"
  ve_present :: "node_cfg \<Rightarrow> (string, pyval) dict"
  ve_format :: "string \<Rightarrow> (string, pyval) dict \<Rightarrow> string res"

definition hbind :: "('s, 'a) call \<Rightarrow> ('a \<Rightarrow> ('s, 'b) call) \<Rightarrow> ('s, 'b) call" where
  "hbind m f s = (case m s of (Inl e, s') \<Rightarrow> (Inl e, s') | (Inr a, s') \<Rightarrow> f a s')"

definition hret :: "'a \<Rightarrow> ('s, 'a) call" where
  "hret a s = (Inr a, s)"

definition abort :: "status \<Rightarrow> string \<Rightarrow> ('s, 'a) call" where
  "abort c m s = (Inl (Abort c m), s)"

definition hres :: "'a res \<Rightarrow> ('s, 'a) call" where
  "hres r s = (case r of Inl e \<Rightarrow> (Inl (Raised e), s) | Inr a \<Rightarrow> (Inr a, s))"

text \<open>A session that is committed: a failure leaves the database as it was.\<close>

definition hcommit :: "'a rx \<Rightarrow> 'a handler" where
  "hcommit f s = (case f (sv_repo s) of Inl e \<Rightarrow> (Inl (Raised e), s) | Inr (a, d) \<Rightarrow> (Inr a, s\<lparr>sv_repo := d\<rparr>))"

definition emit_config_changed :: "unit handler" where
  "emit_config_changed s = (Inr (), s\<lparr>sv_events := sv_events s @ [''event:config-changed'']\<rparr>)"

text \<open>\<open>except (ConfigError, DagError, KeyError, ValueError)\<close>, and the same without \<open>DagError\<close>.\<close>

fun is_caught :: "bool \<Rightarrow> err \<Rightarrow> bool" where
  "is_caught dag_errors (DagError _) = dag_errors"
| "is_caught dag_errors (KeyError _) = True"
| "is_caught dag_errors (ValueError _) = True"
| "is_caught dag_errors e = is_config_error e"

definition invalid_argument :: "bool \<Rightarrow> ('s, 'a) call \<Rightarrow> ('s, 'a) call" where
  "invalid_argument dag_errors m s = (case m s of
     (Inl (Raised e), s') \<Rightarrow> (if is_caught dag_errors e then (Inl (Abort InvalidArgument (err_text e)), s') else (Inl (Raised e), s'))
   | r \<Rightarrow> r)"

definition save_core_and_emit :: "svc_env \<Rightarrow> entity \<Rightarrow> unit handler" where
  "save_core_and_emit v e = hbind (hcommit (save_core_entity (ve_draws v) e)) (\<lambda>_. emit_config_changed)"

section \<open>DAGs\<close>

definition list_dags :: "string list handler" where
  "list_dags s = (Inr (list_dag_names (sv_repo s)), s)"

definition quoted :: "string \<Rightarrow> string" where
  "quoted n = [CHR 0x27] @ n @ [CHR 0x27]"

text \<open>Reading entities may create their tables; the session is not committed.\<close>

definition get_dag :: "svc_env \<Rightarrow> string \<Rightarrow> (string, pyval) dict handler" where
  "get_dag v name s = (case rbind (get_dag_config (ve_parse v) name (sv_repo s)) (\<lambda>x. case x of None \<Rightarrow> Inr None
       | Some c \<Rightarrow> rbind (list_node_configs (ve_parse_node v) (sv_repo s)) (\<lambda>nodes.
           rbind (graph_dag_state_from_database (ve_present v) (ve_format v) (ve_codec v) (ap_entities (ve_app v)) (ap_relations (ve_app v))
             (ap_types (ve_app v)) c (if nodes = [] then ap_nodes (ve_app v) else nodes) (sv_repo s)) (\<lambda>(p, _). Inr (Some p)))) of
     Inl (KeyError _) \<Rightarrow> (Inl (Abort NotFound (''dag '' @ name @ '' not found'')), s)
   | Inl e \<Rightarrow> (Inl (Raised e), s)
   | Inr None \<Rightarrow> (Inl (Abort NotFound (''dag '' @ name @ '' not found'')), s)
   | Inr (Some p) \<Rightarrow> (Inr p, s))"

definition create_dag :: "svc_env \<Rightarrow> string \<Rightarrow> (string, pyval) dict handler" where
  "create_dag v requested s = (let name = strip_ws requested in
     if \<not> valid_dag_name name then abort InvalidArgument ''dag name must be kebab-case'' s
     else hbind (\<lambda>s. hres (get_dag_config (ve_parse v) name (sv_repo s)) s) (\<lambda>x.
       if x \<noteq> None then abort AlreadyExists (''dag '' @ quoted name @ '' already exists'')
       else (let p = [(''name'', PStr name), (''nodes'', PList []), (''edges'', PList []), (''ui'', PDict [])] in
         hbind (save_core_and_emit v \<lparr>en_id = name, en_type = ''dag'', en_attrs = p\<rparr>) (\<lambda>_. hret p))) s)"

section \<open>What a saved DAG refers to\<close>

definition cand_sub_dag :: "((string, pyval) dict \<Rightarrow> dag_cfg res) \<Rightarrow> repo \<Rightarrow> node_inst \<Rightarrow> string option res" where
  "cand_sub_dag pd d i = (if ni_type i = ''dag'' \<and> ni_dag_ref i \<noteq> None \<and> ni_dag_ref i \<noteq> Some [] then Inr (ni_dag_ref i)
     else rbind (get_dag_config pd (ni_type i) d) (\<lambda>x. Inr (if x = None then None else Some (ni_type i))))"

definition cand_missing_dag :: "string \<Rightarrow> err" where
  "cand_missing_dag n = ConfigError (''dag '' @ quoted n @ '' not found'')"

definition cand_missing_node :: "string \<Rightarrow> err" where
  "cand_missing_node n = ConfigError (''node type '' @ quoted n @ '' not found'')"

lemma get_dag_config_known: "get_dag_config pd n d = Inr (Some c) \<Longrightarrow> n \<in> cg_name ` set (rp_dags_t d)"
  by (auto simp: get_dag_config_def dest: first_of_Some split: option.splits)

text \<open>The two errors are those of a DAG and of a node type that is not stored.\<close>

function cand_nodes :: "(string \<Rightarrow> err) \<times> (string \<Rightarrow> err) \<Rightarrow> ((string, pyval) dict \<Rightarrow> dag_cfg res) \<Rightarrow> ((string, pyval) dict \<Rightarrow> node_cfg res) \<Rightarrow> repo
    \<Rightarrow> node_inst list \<Rightarrow> tables \<Rightarrow> tables res" where
  "cand_nodes er pd pn d [] t = Inr t"
| "cand_nodes er pd pn d (i # js) t = (case cand_sub_dag pd d i of Inl e \<Rightarrow> Inl e
   | Inr (Some n) \<Rightarrow>
      (if dhas (fst t) n then cand_nodes er pd pn d js t
       else (case get_dag_config pd n d of Inl e \<Rightarrow> Inl e | Inr None \<Rightarrow> Inl (fst er n)
         | Inr (Some c) \<Rightarrow> rbind (cand_nodes er pd pn d (dc_nodes c) (dset (fst t) n c, snd t)) (cand_nodes er pd pn d js)))
   | Inr None \<Rightarrow>
      (if dhas (snd t) (ni_type i) then cand_nodes er pd pn d js t
       else (case get_node_config pn (ni_type i) d of Inl e \<Rightarrow> Inl e | Inr None \<Rightarrow> Inl (snd er (ni_type i))
         | Inr (Some c) \<Rightarrow> cand_nodes er pd pn d js (fst t, dset (snd t) (ni_type i) c))))"
  by pat_completeness auto

termination
proof -
  have grows: "cand_nodes_dom (er, pd, pn, d, js, t) \<Longrightarrow> cand_nodes er pd pn d js t = Inr t' \<Longrightarrow> dhas (fst t) k \<Longrightarrow> dhas (fst t') k"
    for er pd pn d js t t' k
  proof (induction er pd pn d js t arbitrary: t' rule: cand_nodes.pinduct)
    case (1 er pd pn d t)
    then show ?case by (simp add: cand_nodes.psimps(1) [OF 1(1)])
  next
    case (2 er pd pn d i js t)
    note e = 2(7) [unfolded cand_nodes.psimps(2) [OF 2(1)]]
    obtain x where x: "cand_sub_dag pd d i = Inr x" by (cases "cand_sub_dag pd d i") (use e in auto)
    show ?case
    proof (cases x)
      case None
      then show ?thesis using 2(2) [OF x None] 2(3) [OF x None] 2(8) e x None by (auto split: if_splits sum.splits option.splits)
    next
      case (Some n)
      show ?thesis
      proof (cases "dhas (fst t) n")
        case True
        then show ?thesis using 2(4) [OF x Some True] 2(8) e x Some True by simp
      next
        case False
        then obtain c u where u: "get_dag_config pd n d = Inr (Some c)" "cand_nodes er pd pn d (dc_nodes c) (dset (fst t) n c, snd t) = Inr u"
          "cand_nodes er pd pn d js u = Inr t'" using e x Some by (auto split: sum.splits option.splits)
        have "dhas (fst u) k" using 2(5) [OF x Some False u(1) refl u(2)] 2(8) by simp
        then show ?thesis using 2(6) [OF x Some False u(1) refl u(2) u(3)] by simp
      qed
    qed
  qed
  show ?thesis
  proof (relation "measures [\<lambda>(er, pd, pn, d, js, t). card (cg_name ` set (rp_dags_t d) - set (dkeys (fst t))), \<lambda>(er, pd, pn, d, js, t). length js]", goal_cases)
    case 1
    show ?case by simp
  next
    case (5 er pd pn d i js t x n y c)
    then have "n \<in> cg_name ` set (rp_dags_t d) - set (dkeys (fst t))"
      by (auto simp: dhas_keys [symmetric] simp del: set_map dest: get_dag_config_known)
    then have "card (cg_name ` set (rp_dags_t d) - insert n (set (dkeys (fst t)))) < card (cg_name ` set (rp_dags_t d) - set (dkeys (fst t)))"
      by (intro psubset_card_mono) auto
    then show ?case by simp
  next
    case (6 er pd pn d i js t x n y c u)
    have "set (dkeys (dset (fst t) n c)) \<subseteq> set (dkeys (fst u))"
      using grows [OF 6(7,6)] by (auto simp: dhas_keys [symmetric] simp del: set_map set_dkeys_dset)
    then have "set (dkeys (fst t)) \<subseteq> set (dkeys (fst u))" by auto
    then have "card (cg_name ` set (rp_dags_t d) - set (dkeys (fst u))) \<le> card (cg_name ` set (rp_dags_t d) - set (dkeys (fst t)))"
      by (intro card_mono) auto
    then show ?case by auto
  qed auto
qed

text \<open>The DAG in the request counts as the stored one under its name.\<close>

definition candidate_closure :: "svc_env \<Rightarrow> string \<Rightarrow> (string, pyval) dict \<Rightarrow> repo \<Rightarrow> tables res" where
  "candidate_closure v name payload d = rbind (ve_parse v payload) (\<lambda>c.
     cand_nodes (cand_missing_dag, cand_missing_node) (ve_parse v) (ve_parse_node v) d (dc_nodes c) ([(name, c)], []))"

definition graph_permissions :: "(string, etype) dict \<Rightarrow> (string, pyval) dict \<Rightarrow> unit res" where
  "graph_permissions types payload = (case dget_default payload ''nodes'' (PList []) of
     PList ns \<Rightarrow> fold_res (\<lambda>n _. case n of
         PDict d \<Rightarrow> (case aget d ''config'' of
             PDict c \<Rightarrow> (case aget c ''entity_permissions'' of PDict p \<Rightarrow> validate_permission_overrides types p | _ \<Rightarrow> Inr ())
           | _ \<Rightarrow> Inr ())
       | _ \<Rightarrow> Inr ()) ns ()
   | _ \<Rightarrow> Inr ())"

text \<open>Everything \<open>SaveDag\<close> checks before it writes.\<close>

definition checked_dag :: "svc_env \<Rightarrow> string \<Rightarrow> pyval res \<Rightarrow> repo \<Rightarrow> dag_cfg res" where
  "checked_dag v name body d = rbind (rbind (parse_json body) (graph_dag_payload (ve_parse v) name)) (\<lambda>p.
     rbind (candidate_closure v name p d) (\<lambda>t.
     rbind (graph_permissions (ap_types (ve_app v)) p) (\<lambda>_.
     rbind (ve_parse v p) (\<lambda>c.
     rbind (validate_sub_dag_nesting (fst t) (ap_depth (ve_app v))) (\<lambda>_. Inr c)))))"

definition save_dag :: "svc_env \<Rightarrow> string \<Rightarrow> pyval res \<Rightarrow> (string, pyval) dict handler" where
  "save_dag v name body = hbind (invalid_argument True
      (hbind (\<lambda>s. hres (checked_dag v name body (sv_repo s)) s) (\<lambda>c.
       hbind (save_core_and_emit v \<lparr>en_id = name, en_type = ''dag'', en_attrs = dag_dump c\<rparr>) (\<lambda>_. hret c))))
     (\<lambda>c. hret (dag_dump c))"

section \<open>Node types\<close>

definition py_str_items :: "pyval \<Rightarrow> pyval" where
  "py_str_items v = strs (str_list v)"

text \<open>Whatever the body says, the node is a function node.\<close>

definition node_body :: "string \<Rightarrow> (string, pyval) dict \<Rightarrow> (string, pyval) dict" where
  "node_body name b = [(''name'', PStr name), (''type'', PStr ''function''), (''role'', dget_default b ''role'' (PStr ''processor'')),
     (''skills'', py_str_items (dget_default b ''skills'' (PList []))), (''handler'', dget_default b ''handler'' (PStr name)),
     (''system_prompt_file'', aget b ''system_prompt_file''), (''input_type'', dget_default b ''input_type'' (PStr ''Any'')),
     (''output_type'', dget_default b ''output_type'' (PStr ''Any'')), (''timeout_seconds'', aget b ''timeout_seconds''),
     (''source_names'', dget_default b ''source_names'' (PList [])), (''parameters'', dget_default b ''parameters'' (PDict [])),
     (''parameters_schema'', dget_default b ''parameters_schema'' (PDict []))]"

definition graph_node_payload :: "svc_env \<Rightarrow> string \<Rightarrow> (string, pyval) dict \<Rightarrow> (string, pyval) dict res" where
  "graph_node_payload v name b = edit_error (ve_check_node v (node_body name b))"

definition handler_path :: "string \<Rightarrow> string" where
  "handler_path h = ''extensions/'' @ h @ ''/handler.py''"

definition save_node_assets :: "(string, pyval) dict \<Rightarrow> (string, pyval) dict \<Rightarrow> unit handler" where
  "save_node_assets payload b s = (case (aget payload ''type'', aget payload ''handler'', dget_default b ''handler_code'' (aget b ''code'')) of
     (PStr ty, PStr h, PStr code) \<Rightarrow>
       if ty = ''function'' then (Inr (), s\<lparr>sv_files := dset (sv_files s) (handler_path h) code\<rparr>) else (Inr (), s)
   | _ \<Rightarrow> (Inr (), s))"

definition delete_node_assets :: "node_cfg \<Rightarrow> unit handler" where
  "delete_node_assets c s = (case nc_variant c of
     FunctionNode h _ _ _ _ _ _ \<Rightarrow> (Inr (), if h = [] then s else s\<lparr>sv_files := dpop (sv_files s) (handler_path h)\<rparr>)
   | _ \<Rightarrow> (Inr (), s))"

definition get_node_or_abort :: "svc_env \<Rightarrow> string \<Rightarrow> node_cfg handler" where
  "get_node_or_abort v name s = (case get_node_config (ve_parse_node v) name (sv_repo s) of
     Inl e \<Rightarrow> (Inl (Raised e), s) | Inr None \<Rightarrow> (Inl (Abort NotFound (''node '' @ name @ '' not found'')), s) | Inr (Some c) \<Rightarrow> (Inr c, s))"

definition list_node_types :: "svc_env \<Rightarrow> pyval handler" where
  "list_node_types v s = hbind (hres (list_node_configs (ve_parse_node v) (sv_repo s)))
     (\<lambda>nodes. let ps = PList (map (\<lambda>c. PDict (ve_present v c)) (dvalues nodes)) in hret (PDict [(''types'', ps), (''prototypes'', ps)])) s"

definition get_node_type :: "svc_env \<Rightarrow> string \<Rightarrow> (string, pyval) dict handler" where
  "get_node_type v name = hbind (get_node_or_abort v name) (\<lambda>c. hret (ve_present v c))"

definition save_node_type :: "svc_env \<Rightarrow> string \<Rightarrow> pyval res \<Rightarrow> (string, pyval) dict handler" where
  "save_node_type v name body = hbind (hres (parse_json body)) (\<lambda>b.
     hbind (invalid_argument False
       (hbind (hres (graph_node_payload v name b)) (\<lambda>p.
        hbind (save_node_assets p b) (\<lambda>_.
        hbind (save_core_and_emit v \<lparr>en_id = name, en_type = ''node'', en_attrs = p\<rparr>) (\<lambda>_.
        get_node_or_abort v name))))) (\<lambda>c. hret (ve_present v c)))"

definition create_node_type :: "svc_env \<Rightarrow> string \<Rightarrow> pyval res \<Rightarrow> (string, pyval) dict handler" where
  "create_node_type v name body s = hbind (hres (get_node_config (ve_parse_node v) name (sv_repo s))) (\<lambda>x.
     if x \<noteq> None then abort AlreadyExists (''node type '' @ quoted name @ '' already exists'')
     else save_node_type v name body) s"

text \<open>Whether the deletion was blocked by relations is not looked at.\<close>

definition delete_node_type :: "svc_env \<Rightarrow> string \<Rightarrow> unit handler" where
  "delete_node_type v name s =
     hbind (hres (rbind (list_dag_configs (ve_parse v) (sv_repo s)) (\<lambda>dags.
       rbind (get_node_config (ve_parse_node v) name (sv_repo s)) (\<lambda>n. Inr (dags, n))))) (\<lambda>(dags, n).
     case first_of (\<lambda>c. list_ex (\<lambda>i. ni_type i = name) (dc_nodes c)) (dvalues dags) of
       Some c \<Rightarrow> abort FailedPrecondition (''node type '' @ quoted name @ '' is referenced by DAG '' @ quoted (dc_name c))
     | None \<Rightarrow> (case n of None \<Rightarrow> abort NotFound (''node type '' @ name @ '' not found'')
         | Some c \<Rightarrow> hbind (hcommit (\<lambda>d. Inr (delete_core_entity name (ap_types (ve_app v)) d))) (\<lambda>_.
             hbind (delete_node_assets c) (\<lambda>_. emit_config_changed)))) s"

text \<open>Both rows are written in one session. The edges keep only their ends and fans.\<close>

definition extended_dag :: "string \<Rightarrow> string \<Rightarrow> dag_cfg \<Rightarrow> (string, pyval) dict" where
  "extended_dag i name c = [(''name'', PStr (dc_name c)),
     (''nodes'', PList (map (\<lambda>x. PDict (dump_inst x)) (dc_nodes c)
        @ [PDict [(''id'', PStr i), (''type'', PStr name), (''alias'', PStr name), (''config'', PDict [])]])),
     (''edges'', PList (map (\<lambda>e. PDict [(''from'', PStr (e_from e)), (''to'', PStr (e_to e)), (''fan_out'', PBool (e_fan_out e)),
        (''fan_in'', PBool (e_fan_in e))]) (dc_edges c))), (''ui'', PDict (dc_ui c))]"

definition create_dag_node :: "svc_env \<Rightarrow> string \<Rightarrow> pyval res \<Rightarrow> (string, pyval) dict handler" where
  "create_dag_node v dag body s =
     hbind (hres (rbind (parse_json body) (\<lambda>b. rbind (get_dag_config (ve_parse v) dag (sv_repo s)) (\<lambda>x.
       rbind (list_node_configs (ve_parse_node v) (sv_repo s)) (\<lambda>nodes. Inr (b, x, nodes)))))) (\<lambda>(b, x, nodes).
     case x of None \<Rightarrow> abort NotFound (''dag '' @ quoted dag @ '' not found'')
     | Some c \<Rightarrow> (let name = py_str (dget_default b ''name'' (PStr [])) in
         if name = [] then abort InvalidArgument ''node name is required''
         else if dhas nodes name then abort AlreadyExists (''node '' @ quoted name @ '' already exists'')
         else hbind (invalid_argument False
           (hbind (hres (rbind (graph_node_payload v name b) (\<lambda>p.
              rbind (ve_parse v (extended_dag (dw_uuid (ve_draws v) (rp_count (sv_repo s))) name c)) (\<lambda>c'. Inr (p, c'))))) (\<lambda>(p, c').
            hbind (hcommit (\<lambda>d. rbind (save_core_entity (ve_draws v) \<lparr>en_id = name, en_type = ''node'', en_attrs = p\<rparr> d) (\<lambda>(_, d1).
              save_core_entity (ve_draws v) \<lparr>en_id = dag, en_type = ''dag'', en_attrs = dag_dump c'\<rparr> (d1\<lparr>rp_count := Suc (rp_count d1)\<rparr>)))) (\<lambda>_.
            hbind emit_config_changed (\<lambda>_. get_node_or_abort v name)))))
           (\<lambda>n. hret (ve_present v n)))) s"

end
