(* ===== verification/GraphProps.thy ===== *)
theory GraphProps
  imports GraphService ClosureProps DagLoaderProps CoreRepoProps
begin

text \<open>
  What the graph service promises: a DAG it saved can be loaded, and what the editor is shown and sends back.
\<close>

section \<open>Stored configurations\<close>

definition named_rows :: "repo \<Rightarrow> bool" where
  "named_rows d = (distinct (map cg_name (rp_dags_t d)) \<and> distinct (map cn_name (rp_nodes_t d)) \<and> (\<forall>r \<in> set (rp_dags_t d). cg_entity r = cg_name r))"

lemma first_of_unique: "distinct (map key rs) \<Longrightarrow> r \<in> set rs \<Longrightarrow> first_of (\<lambda>x. key x = key r) rs = Some r"
  by (induction rs) (auto simp: first_of_Cons)

lemma listed_configs:
  assumes "map_res (\<lambda>r. rbind (g r) (\<lambda>c. Inr (key r, c))) (sort_key key rs) = Inr kvs" "distinct (map key rs)"
  shows "(case first_of (\<lambda>r. key r = n) rs of None \<Rightarrow> Inr None | Some r \<Rightarrow> rbind (g r) (\<lambda>c. Inr (Some c))) = (Inr (dget (dmerge [] kvs) n) :: 'c option res)"
proof -
  have a: "list_all2 (\<lambda>r kv. rbind (g r) (\<lambda>c. Inr (key r, c)) = Inr kv) (sort_key key rs) kvs" using assms(1) by (simp only: map_res_all2)
  then have "dkeys kvs = map key (sort_key key rs)" by (induction rule: list_all2_induct) auto
  moreover have "distinct (map key (sort_key key rs))"
    using assms(2) by (metis distinct_map mset_sort set_sort distinct_sort mset_eq_setD)
  ultimately have dk: "distinct (dkeys kvs)" "set (dkeys kvs) = key ` set rs" by simp_all
  have m: "dget (dmerge [] kvs) n = dget kvs n" using dk(1) by (simp add: dget_dmerge split: option.splits)
  show ?thesis
  proof (cases "first_of (\<lambda>r. key r = n) rs")
    case None
    then have "n \<notin> set (dkeys kvs)" using dk(2) by (auto simp: first_of_None)
    then have "dget kvs n = None" by (simp add: map_of_eq_None_iff)
    then show ?thesis using None m by simp
  next
    case (Some r)
    then have r: "r \<in> set (sort_key key rs)" "key r = n" using first_of_Some by fastforce+
    have "\<exists>kv \<in> set kvs. rbind (g r) (\<lambda>c. Inr (key r, c)) = Inr kv"
      using a r(1) by (induction rule: list_all2_induct) auto
    then obtain c where "g r = Inr c" "(n, c) \<in> set kvs" using r(2) by auto
    then show ?thesis using Some m map_of_is_SomeI [OF dk(1)] by simp
  qed
qed

lemma rbind_listed:
  assumes "rbind m (\<lambda>kvs. Inr (g kvs)) = (Inr y :: 'c res)"
  shows "\<exists>kvs. m = Inr kvs \<and> y = g kvs"
  using assms by (cases m) auto

lemma list_dag_get:
  assumes "list_dag_configs pd d = Inr D" "named_rows d"
  shows "get_dag_config pd n d = Inr (dget D n)"
proof -
  obtain kvs where k: "map_res (\<lambda>r. rbind (pd (en_attrs (core_dag_to_entity r))) (\<lambda>c. Inr (cg_name r, c))) (sort_key cg_name (rp_dags_t d)) = Inr kvs"
    "D = dmerge [] kvs" using rbind_listed [OF assms(1) [unfolded list_dag_configs_def]] by (elim exE conjE)
  show ?thesis unfolding get_dag_config_def k(2) by (rule listed_configs [OF k(1)]) (use assms(2) in \<open>simp add: named_rows_def\<close>)
qed

lemma list_node_get:
  assumes "list_node_configs pn d = Inr N" "named_rows d"
  shows "get_node_config pn n d = Inr (dget N n)"
proof -
  obtain kvs where k: "map_res (\<lambda>r. rbind (pn (core_node_attrs r)) (\<lambda>c. Inr (cn_name r, c))) (sort_key cn_name (rp_nodes_t d)) = Inr kvs"
    "N = dmerge [] kvs" using rbind_listed [OF assms(1) [unfolded list_node_configs_def]] by (elim exE conjE)
  show ?thesis unfolding get_node_config_def k(2) by (rule listed_configs [OF k(1)]) (use assms(2) in \<open>simp add: named_rows_def\<close>)
qed

section \<open>What the candidate closure contains\<close>

definition cand_done :: "(string, dag_cfg) dict \<Rightarrow> (string, node_cfg) dict \<Rightarrow> tables \<Rightarrow> node_inst \<Rightarrow> bool" where
  "cand_done D N t i = (case sub_dag_name D i of Some r \<Rightarrow> dhas (fst t) r | None \<Rightarrow> dhas N (ni_type i))"

definition cand_grown :: "(string, dag_cfg) dict \<Rightarrow> (string, node_cfg) dict \<Rightarrow> tables \<Rightarrow> tables \<Rightarrow> bool" where
  "cand_grown D N t u = (dget (fst t) \<subseteq>\<^sub>m dget (fst u) \<and> (\<forall>k. dhas (snd u) k \<longrightarrow> dhas N k)
     \<and> (\<forall>k. dhas (fst u) k \<longrightarrow> \<not> dhas (fst t) k \<longrightarrow>
         (\<exists>c. dget D k = Some c \<and> dget (fst u) k = Some c \<and> list_all (cand_done D N u) (dc_nodes c))))"

lemma cand_done_mono: "cand_done D N t i \<Longrightarrow> dget (fst t) \<subseteq>\<^sub>m dget (fst u) \<Longrightarrow> cand_done D N u i"
  by (auto simp: cand_done_def dhas_def map_le_def dom_def split: option.splits)

lemma cand_grown_trans:
  assumes "cand_grown D N t u" "cand_grown D N u w"
  shows "cand_grown D N t w"
  unfolding cand_grown_def
proof (intro conjI allI impI)
  show "dget (fst t) \<subseteq>\<^sub>m dget (fst w)" using assms by (auto simp: cand_grown_def intro: map_le_trans)
  show "dhas N k" if "dhas (snd w) k" for k using that assms(2) by (simp add: cand_grown_def)
  fix k assume k: "dhas (fst w) k" "\<not> dhas (fst t) k"
  show "\<exists>c. dget D k = Some c \<and> dget (fst w) k = Some c \<and> list_all (cand_done D N w) (dc_nodes c)"
  proof (cases "dhas (fst u) k")
    case True
    then obtain c where c: "dget D k = Some c" "dget (fst u) k = Some c" "list_all (cand_done D N u) (dc_nodes c)"
      using assms(1) k(2) by (auto simp: cand_grown_def)
    have e: "dget (fst u) \<subseteq>\<^sub>m dget (fst w)" using assms(2) by (simp add: cand_grown_def)
    then have "dget (fst w) k = Some c" using c(2) by (auto simp: map_le_def dom_def)
    then show ?thesis using c cand_done_mono [OF _ e] by (auto simp: list_all_iff)
  next
    case False
    then show ?thesis using assms(2) k(1) by (auto simp: cand_grown_def)
  qed
qed

lemma cand_sub_dag_name: "list_dag_configs pd d = Inr D \<Longrightarrow> named_rows d \<Longrightarrow> cand_sub_dag pd d i = Inr (sub_dag_name D i)"
  by (auto simp: cand_sub_dag_def list_dag_get sub_dag_name_def dhas_def split: option.splits)

lemma cand_grows:
  assumes D: "list_dag_configs pd d = Inr D" "list_node_configs pn d = Inr N" "named_rows d"
  shows "cand_nodes er pd pn d js t = Inr u \<Longrightarrow> (\<forall>k. dhas (snd t) k \<longrightarrow> dhas N k) \<Longrightarrow> cand_grown D N t u \<and> list_all (cand_done D N u) js"
  using D
proof (induction er pd pn d js t arbitrary: u rule: cand_nodes.induct)
  case (1 er pd pn d t)
  then show ?case by (auto simp: cand_grown_def)
next
  case (2 er pd pn d i js t)
  note sd = cand_sub_dag_name [OF 2(8,10), of i] and gd = list_dag_get [OF 2(8,10)] and gn = list_node_get [OF 2(9,10)]
  have rest: "cand_grown D N t u \<and> list_all (cand_done D N u) (i # js)"
    if s: "cand_grown D N t s" "cand_done D N s i" "cand_grown D N s u \<and> list_all (cand_done D N u) js" for s
    using cand_grown_trans [OF s(1)] cand_done_mono [OF s(2)] s(3) by (auto simp: cand_grown_def)
  have tt: "cand_grown D N t t" using 2(7) by (simp add: cand_grown_def)
  show ?case
  proof (cases "sub_dag_name D i")
    case None
    note sn = sd [unfolded None]
    show ?thesis
    proof (cases "dhas (snd t) (ni_type i)")
      case True
      then have "cand_nodes er pd pn d js t = Inr u" using 2(6) sn by simp
      moreover have "cand_done D N t i" using True 2(7) None by (simp add: cand_done_def)
      ultimately show ?thesis using rest [OF tt] 2(1) [OF sn refl True _ 2(7-10)] by blast
    next
      case False
      then obtain c where c: "dget N (ni_type i) = Some c" "cand_nodes er pd pn d js (fst t, dset (snd t) (ni_type i) c) = Inr u"
        using 2(6) sn gn by (auto split: option.splits)
      let ?s = "(fst t, dset (snd t) (ni_type i) c)"
      have s: "\<forall>k. dhas (snd ?s) k \<longrightarrow> dhas N k" using 2(7) c(1) by (auto simp: dhas_def)
      have "get_node_config pn (ni_type i) d = Inr (Some c)" using gn c(1) by simp
      note ih = 2(2) [OF sn refl False this refl c(2) s 2(8-10)]
      have "cand_done D N ?s i" using c(1) None by (simp add: cand_done_def dhas_def)
      moreover have "cand_grown D N t ?s" using s by (simp add: cand_grown_def)
      ultimately show ?thesis using rest ih by blast
    qed
  next
    case (Some r)
    note sn = sd [unfolded Some]
    show ?thesis
    proof (cases "dhas (fst t) r")
      case True
      then have "cand_nodes er pd pn d js t = Inr u" using 2(6) sn by simp
      moreover have "cand_done D N t i" using True Some by (simp add: cand_done_def)
      ultimately show ?thesis using rest [OF tt] 2(3) [OF sn refl True _ 2(7-10)] by blast
    next
      case False
      then obtain c s where c: "dget D r = Some c" "cand_nodes er pd pn d (dc_nodes c) (dset (fst t) r c, snd t) = Inr s"
        "cand_nodes er pd pn d js s = Inr u" using 2(6) sn gd by (auto split: option.splits)
      have gr: "get_dag_config pd r d = Inr (Some c)" using gd c(1) by simp
      have n: "\<forall>k. dhas (snd (dset (fst t) r c, snd t)) k \<longrightarrow> dhas N k" using 2(7) by simp
      from 2(4) [OF sn refl False gr refl c(2) n 2(8-10)]
      have g: "cand_grown D N (dset (fst t) r c, snd t) s" "list_all (cand_done D N s) (dc_nodes c)" by auto
      have sr: "dget (fst s) r = Some c" using g(1) by (auto simp: cand_grown_def map_le_def dom_def)
      have ts: "cand_grown D N t s"
        unfolding cand_grown_def
      proof (intro conjI allI impI)
        show "dget (fst t) \<subseteq>\<^sub>m dget (fst s)" using g(1) False by (fastforce simp: cand_grown_def map_le_def dom_def dhas_def split: if_splits)
        show "dhas N k" if "dhas (snd s) k" for k using that g(1) by (simp add: cand_grown_def)
        fix k assume k: "dhas (fst s) k" "\<not> dhas (fst t) k"
        show "\<exists>c. dget D k = Some c \<and> dget (fst s) k = Some c \<and> list_all (cand_done D N s) (dc_nodes c)"
        proof (cases "k = r")
          case False
          then show ?thesis using g(1) k by (auto simp: cand_grown_def dhas_def)
        qed (use sr c(1) g(2) in simp)
      qed
      have ns: "\<forall>k. dhas (snd s) k \<longrightarrow> dhas N k" using g(1) by (simp add: cand_grown_def)
      note ih = 2(5) [OF sn refl False gr refl c(2) c(3) ns 2(8-10)]
      have "cand_done D N s i" using sr Some by (simp add: cand_done_def dhas_def)
      then show ?thesis using rest [OF ts] ih by blast
    qed
  qed
qed

section \<open>A saved DAG runs\<close>

text \<open>The tables of the candidate closure, seen from the configurations stored after the save.\<close>

lemma candidate_done:
  assumes g: "cand_grown D N ([(name, c)], []) u" "list_all (cand_done D N u) (dc_nodes c)"
    and D': "\<And>k. dget D' k = (if k = name then Some c else dget D k)"
  shows "dhas (fst u) name \<and> (\<forall>k. dhas (fst u) k \<longrightarrow> (\<exists>c'. dget D' k = Some c' \<and> dget (fst u) k = Some c'
    \<and> (\<forall>i \<in> set (dc_nodes c'). case sub_dag_name D' i of Some r \<Rightarrow> dhas (fst u) r | None \<Rightarrow> dhas N (ni_type i))))"
proof -
  have root: "dget (fst u) name = Some c" using g(1) by (auto simp: cand_grown_def map_le_def dom_def)
  have all: "\<exists>c'. dget D' k = Some c' \<and> dget (fst u) k = Some c' \<and> list_all (cand_done D N u) (dc_nodes c')" if "dhas (fst u) k" for k
    using g that root D' by (cases "k = name") (auto simp: cand_grown_def dhas_def)
  have "case sub_dag_name D' i of Some r \<Rightarrow> dhas (fst u) r | None \<Rightarrow> dhas N (ni_type i)" if i: "cand_done D N u i" for i
  proof (cases "sub_dag_name D' i = sub_dag_name D i")
    case True
    then show ?thesis using i by (simp add: cand_done_def)
  next
    case False
    then have "ni_type i = name \<and> sub_dag_name D' i = Some name"
      by (auto simp: sub_dag_name_def dhas_def D' split: option.splits if_splits)
    then show ?thesis using root by (simp add: dhas_def)
  qed
  then show ?thesis using root all by (fastforce simp: dhas_def list_all_iff)
qed

lemma tranclp_chain: "R\<^sup>+\<^sup>+ x y \<Longrightarrow> \<exists>xs. successively R (x # xs @ [y])"
proof (induction rule: tranclp_induct)
  case (base y)
  then show ?case by (intro exI [of _ "[]"]) simp
next
  case (step y z)
  then obtain xs where "successively R (x # xs @ [y])" by blast
  then have "successively R ((x # xs @ [y]) @ [z])" using step.hyps(2) by (subst successively_append_iff) simp
  then show ?case by (intro exI [of _ "xs @ [y]"]) simp
qed

lemma accepted_closable:
  assumes u: "dhas U name" "\<And>k. dhas U k \<Longrightarrow> \<exists>c. dget D k = Some c \<and> dget U k = Some c
      \<and> (\<forall>i \<in> set (dc_nodes c). case sub_dag_name D i of Some r \<Rightarrow> dhas U r | None \<Rightarrow> dhas N (ni_type i))"
    and v: "validate_sub_dag_nesting U m = Inr ()" and e: "\<not> dhas U []"
  shows "closable D N name {}"
proof -
  have ref: "dhas U b \<and> b \<in> dag_refs U a" if a: "dhas U a" "refers D a b" for a b
  proof -
    obtain c i where c: "dget D a = Some c" "i \<in> set (dc_nodes c)" "sub_dag_name D i = Some b" using a(2) by (auto simp: refers_def)
    obtain c' where c': "dget D a = Some c'" "dget U a = Some c'"
      "\<forall>i \<in> set (dc_nodes c'). case sub_dag_name D i of Some r \<Rightarrow> dhas U r | None \<Rightarrow> dhas N (ni_type i)" using u(2) [OF a(1)] by blast
    have cc: "c' = c" using c(1) c'(1) by simp
    then have "case sub_dag_name D i of Some r \<Rightarrow> dhas U r | None \<Rightarrow> dhas N (ni_type i)" using c'(3) c(2) by blast
    then have ub: "dget U a = Some c" "dhas U b" using c(3) c'(2) cc by simp_all
    have "dag_ref_of U (ni_type i) (ni_dag_ref i) = Some b"
      using c(3) ub(2) e by (auto simp: sub_dag_name_def dag_ref_of_def split: option.splits if_splits)
    then show ?thesis using ub c(2) by (auto simp: dag_refs_def)
  qed
  have reach: "dhas U b" if "b \<in> reach D name" for b
  proof -
    have "(refers D)\<^sup>*\<^sup>* name b" using that by (simp add: reach_def)
    then show ?thesis by (induction rule: rtranclp_induct) (use u(1) ref in blast)+
  qed
  have "\<not> (refers D)\<^sup>+\<^sup>+ b b" if b: "dhas U b" for b
  proof
    assume "(refers D)\<^sup>+\<^sup>+ b b"
    then obtain xs where xs: "successively (refers D) (b # xs @ [b])" by (auto dest!: tranclp_chain)
    have "successively (\<lambda>x y. y \<in> dag_refs U x) (a # ys)" if "dhas U a" "successively (refers D) (a # ys)" for a ys
      using that
    proof (induction ys arbitrary: a)
      case (Cons y ys)
      then have "refers D a y" "successively (refers D) (y # ys)" by simp_all
      then show ?case using Cons.IH [of y] ref [OF Cons.prems(1)] by simp
    qed simp
    then have "ref_chain U (b # xs @ [b])" using b xs by (simp add: ref_chain_def)
    then show False using v by (auto simp: validate_sub_dag_nesting_iff)
  qed
  moreover have "dhas D b" if "b \<in> reach D name" for b using u(2) [OF reach [OF that]] by (auto simp: dhas_def)
  moreover have "dhas N ty" if ty: "ty \<in> plain_types D (reach D name)" for ty
  proof -
    obtain a c i where a: "a \<in> reach D name" "dget D a = Some c" "i \<in> set (dc_nodes c)" "sub_dag_name D i = None" "ty = ni_type i"
      using ty by (auto simp: plain_types_def)
    then show ?thesis using u(2) [OF reach [OF a(1)]] by force
  qed
  ultimately show ?thesis using reach by (auto simp: closable_def)
qed

lemma saved_row:
  assumes "core_dag_row \<lparr>en_id = n, en_type = ''dag'', en_attrs = dag_dump c\<rparr> = Inr r"
  shows "cg_entity r = n \<and> cg_name r = dc_name c \<and> en_attrs (core_dag_to_entity r) = dag_dump c"
proof -
  have l: "dict_list (PList (map (\<lambda>x. PDict (f x)) xs)) = map (\<lambda>x. PDict (f x)) xs" for f :: "'b \<Rightarrow> _" and xs
    by (simp add: dict_list_def list_all_iff)
  show ?thesis using assms
    by (auto simp: core_dag_row_def dag_dump_def str_attr_def attr_def l extra_attrs_def dict_of_def aget_def dget_default_def core_dag_to_entity_def)
qed

lemma first_of_filter: "(\<And>x. x \<in> set rs \<Longrightarrow> P x \<Longrightarrow> Q x) \<Longrightarrow> first_of P (filter Q rs) = first_of P rs"
  by (induction rs) (auto simp: first_of_Cons)

lemma put_row_set: "put_row key name r rs = Inr rs' \<Longrightarrow> set rs' \<subseteq> insert r (set rs)"
  by (auto simp: put_row_def split: if_splits option.splits dest: update_first_set)

lemma dag_stored:
  assumes p: "put_row cg_entity cg_name r (rp_dags_t d) = Inr rs" and r: "cg_entity r = n" "cg_name r = n" and d: "named_rows d"
  shows "named_rows (d\<lparr>rp_dags_t := rs\<rparr>)"
    "first_of (\<lambda>x. cg_name x = k) rs = (if k = n then Some r else first_of (\<lambda>x. cg_name x = k) (rp_dags_t d))"
proof -
  have same: "\<forall>x \<in> set rs. cg_entity x = cg_name x" "\<forall>x \<in> set (rp_dags_t d). cg_entity x = cg_name x"
    using put_row_set [OF p] d r by (auto simp: named_rows_def)
  have "distinct (map cg_entity (rp_dags_t d))" using d same(2) by (simp add: named_rows_def cong: map_cong)
  then show nm: "named_rows (d\<lparr>rp_dags_t := rs\<rparr>)"
    using put_row_distinct [OF p] d same(1) by (simp add: named_rows_def)
  show "first_of (\<lambda>x. cg_name x = k) rs = (if k = n then Some r else first_of (\<lambda>x. cg_name x = k) (rp_dags_t d))"
  proof (cases "k = n")
    case True
    have "r \<in> set rs" using first_of_Some [OF put_row_first [OF p]] by simp
    then show ?thesis using first_of_unique [of cg_name rs r] nm True r(2) by (simp add: named_rows_def)
  next
    case False
    have "first_of (\<lambda>x. cg_name x = k) rs = first_of (\<lambda>x. cg_name x = k) (filter (\<lambda>x. cg_entity x \<noteq> cg_entity r) rs)"
      by (rule first_of_filter [symmetric]) (use same(1) False r in auto)
    also have "\<dots> = first_of (\<lambda>x. cg_name x = k) (rp_dags_t d)"
      unfolding put_row_others [OF p] by (rule first_of_filter) (use same(2) False r in auto)
    finally show ?thesis using False by simp
  qed
qed

lemma map_res_ok: "(\<exists>ys. map_res f xs = Inr ys) \<longleftrightarrow> (\<forall>x \<in> set xs. \<exists>y. f x = Inr y)"
  by (induction xs) auto

lemma rbind_ok: "(\<exists>y. rbind m (\<lambda>c. Inr (g c)) = (Inr y :: 'b res)) \<longleftrightarrow> (\<exists>c. m = Inr c)"
  by (cases m) auto

lemma list_dag_ok: "(\<exists>D. list_dag_configs pd d = Inr D) \<longleftrightarrow> (\<forall>r \<in> set (rp_dags_t d). \<exists>c. pd (en_attrs (core_dag_to_entity r)) = Inr c)"
proof -
  have "(\<exists>D. list_dag_configs pd d = Inr D) \<longleftrightarrow> (\<exists>kvs. map_res (\<lambda>r. rbind (pd (en_attrs (core_dag_to_entity r))) (\<lambda>c. Inr (cg_name r, c)))
      (sort_key cg_name (rp_dags_t d)) = Inr kvs)"
    unfolding list_dag_configs_def by (auto dest: rbind_listed)
  also have "\<dots> \<longleftrightarrow> (\<forall>r \<in> set (rp_dags_t d). \<exists>c. pd (en_attrs (core_dag_to_entity r)) = Inr c)"
    unfolding map_res_ok set_sort rbind_ok ..
  finally show ?thesis .
qed

lemma hbind_Inr: "hbind m f s = (Inr b, s') \<longleftrightarrow> (\<exists>a u. m s = (Inr a, u) \<and> f a u = (Inr b, s'))"
  by (auto simp: hbind_def split: prod.splits sum.splits)

lemma hres_Inr: "hres r s = (Inr a, s') \<longleftrightarrow> r = Inr a \<and> s' = s"
  by (auto simp: hres_def split: sum.splits)

lemma hcommit_Inr: "hcommit f s = (Inr a, s') \<longleftrightarrow> (\<exists>d. f (sv_repo s) = Inr (a, d) \<and> s' = s\<lparr>sv_repo := d\<rparr>)"
  by (auto simp: hcommit_def split: sum.splits)

lemma invalid_argument_Inr: "invalid_argument b m s = (Inr a, s') \<longleftrightarrow> m s = (Inr a, s')"
  by (auto simp: invalid_argument_def split: prod.splits sum.splits failure.splits if_splits)

lemma hret_iff: "hret a s = (x, s') \<longleftrightarrow> x = Inr a \<and> s' = s"
  by (auto simp: hret_def)

lemmas handler_Inr = hbind_Inr hres_Inr hcommit_Inr invalid_argument_Inr hret_iff

lemma save_core_and_emit_Inr: "save_core_and_emit v e s = (Inr x, s') \<longleftrightarrow>
    (\<exists>y d. save_core_entity (ve_draws v) e (sv_repo s) = Inr (y, d) \<and> s' = s\<lparr>sv_repo := d, sv_events := sv_events s @ [''event:config-changed'']\<rparr>)"
  by (auto simp: save_core_and_emit_def handler_Inr emit_config_changed_def)

lemma save_dag_cases:
  assumes "save_dag v name body s = (Inr reply, s')"
  obtains c x d where "checked_dag v name body (sv_repo s) = Inr c"
    "save_core_entity (ve_draws v) \<lparr>en_id = name, en_type = ''dag'', en_attrs = dag_dump c\<rparr> (sv_repo s) = Inr (x, d)"
    "sv_repo s' = d" "reply = dag_dump c"
  using assms that by (auto simp: save_dag_def handler_Inr save_core_and_emit_Inr)

lemma saved_configs:
  assumes sv: "save_core_entity w \<lparr>en_id = n, en_type = ''dag'', en_attrs = dag_dump c\<rparr> d = Inr (x, d')"
    and pc: "pd (dag_dump c) = Inr c" "dc_name c = n" and d: "named_rows d" "list_dag_configs pd d = Inr D"
  shows "\<exists>D'. list_dag_configs pd d' = Inr D' \<and> (\<forall>k. dget D' k = (if k = n then Some c else dget D k))" "rp_nodes_t d' = rp_nodes_t d" "named_rows d'"
proof -
  obtain r rs where r: "core_dag_row \<lparr>en_id = n, en_type = ''dag'', en_attrs = dag_dump c\<rparr> = Inr r"
    "put_row cg_entity cg_name r (rp_dags_t d) = Inr rs" "d' = d\<lparr>rp_dags_t := rs\<rparr>"
    using sv by (auto simp: save_core_entity_def save_core_dag_def)
  then show "rp_nodes_t d' = rp_nodes_t d" by simp
  note row = saved_row [OF r(1)]
  have st: "named_rows d'" "\<And>k. first_of (\<lambda>x. cg_name x = k) rs = (if k = n then Some r else first_of (\<lambda>x. cg_name x = k) (rp_dags_t d))"
    unfolding r(3) using dag_stored [OF r(2) _ _ d(1)] row pc(2) by auto
  then show "named_rows d'" by simp
  have "\<forall>y \<in> set (rp_dags_t d). \<exists>c. pd (en_attrs (core_dag_to_entity y)) = Inr c" using list_dag_ok d(2) by blast
  then have "\<forall>y \<in> set rs. \<exists>c. pd (en_attrs (core_dag_to_entity y)) = Inr c"
    using put_row_set [OF r(2)] row pc(1) by auto
  then obtain D' where D': "list_dag_configs pd d' = Inr D'" using list_dag_ok [of pd d'] r(3) by auto
  have "Inr (dget D' k) = (Inr (if k = n then Some c else dget D k) :: dag_cfg option res)" for k
    unfolding list_dag_get [OF D' st(1), symmetric] using list_dag_get [OF d(2,1), of k]
    by (simp add: get_dag_config_def r(3) st(2) row pc(1) del: rbind_eq_Inr)
  then show "\<exists>D'. list_dag_configs pd d' = Inr D' \<and> (\<forall>k. dget D' k = (if k = n then Some c else dget D k))" using D' by auto
qed

lemma checked_dag_cases:
  assumes "checked_dag v name body d = Inr c"
  obtains b p u where "graph_dag_payload (ve_parse v) name b = Inr p" "candidate_closure v name p d = Inr u"
    "ve_parse v p = Inr c" "validate_sub_dag_nesting (fst u) (ap_depth (ve_app v)) = Inr ()"
  using assms by (clarsimp simp: checked_dag_def)

text \<open>A configuration that was accepted and stored under its name can be loaded.\<close>

lemma accepted_dag_loads:
  assumes pc: "pd (dag_dump c) = Inr c" "dc_name c = name"
    and u: "cand_nodes er pd pn d (dc_nodes c) ([(name, c)], []) = Inr u" "validate_sub_dag_nesting (fst u) m = Inr ()"
    and sv: "save_core_entity w \<lparr>en_id = name, en_type = ''dag'', en_attrs = dag_dump c\<rparr> d = Inr (x, d')"
    and d: "named_rows d" "list_dag_configs pd d = Inr D" "list_node_configs pn d = Inr N" "name \<noteq> []" "\<not> dhas D []"
  shows "\<exists>D' cl. list_dag_configs pd d' = Inr D' \<and> list_node_configs pn d' = Inr N \<and> dget D' = (dget D)(name \<mapsto> c)
    \<and> load_closure name D' N = Inr cl \<and> dget (cl_dags cl) name = Some c \<and> named_rows d'"
proof -
  have g: "cand_grown D N ([(name, c)], []) u" "list_all (cand_done D N u) (dc_nodes c)"
    using cand_grows [OF d(2,3,1) u(1)] by (simp_all add: dhas_def)
  note after = saved_configs [OF sv pc d(1,2)]
  from after(1) obtain D' where D': "list_dag_configs pd d' = Inr D'" "\<And>k. dget D' k = (if k = name then Some c else dget D k)" by blast
  note fin = candidate_done [OF g D'(2)]
  have "\<not> dhas (fst u) []" using fin D'(2) d(4,5) by (auto simp: dhas_def)
  then have "closable D' N name {}" using accepted_closable [OF _ _ u(2)] fin by blast
  then obtain cl where cl: "build_closure name D' N = Inr cl"
    using build_closure_ok [of name D' N] by (cases "build_closure name D' N") auto
  have "dget (cl_dags cl) = dget D' |` reach D' name" using cl close_contents(1) by (force simp: build_closure_def)
  then have "dget (cl_dags cl) name = Some c" using D'(2) by simp
  moreover have "load_closure name D' N = Inr cl" using cl load_closure_build by blast
  moreover have "list_node_configs pn d' = Inr N" using d(3) after(2) by (simp add: list_node_configs_def)
  moreover have "dget D' = (dget D)(name \<mapsto> c)" using D'(2) by (auto simp: fun_eq_iff)
  ultimately show ?thesis using D'(1) after(3) by blast
qed

text \<open>C4: A DAG that the graph service saved can be loaded. After \<open>SaveDag\<close> the stored configurations are the former ones with the
  DAG under its name, the loading of the closure that starts a run of it succeeds, and the closure has the DAG as it was answered.
  Needed of the tables: the rows of DAGs and nodes are kept under their names, each once and no DAG under the empty one, and every
  stored configuration can be read; this holds again afterwards, so for any sequence of accepted savings. Of the parser of
  configurations: it reads what \<open>model_dump\<close> writes. Whether the edges have a cycle is not checked here (see \<open>load_graph\<close>).\<close>

theorem saved_dag_loads:
  assumes "dag_parser (ve_parse v)" "save_dag v name body s = (Inr reply, s')" "named_rows (sv_repo s)"
    "list_dag_configs (ve_parse v) (sv_repo s) = Inr D" "list_node_configs (ve_parse_node v) (sv_repo s) = Inr N"
    "name \<noteq> []" "\<not> dhas D []"
  shows "\<exists>D' c cl. list_dag_configs (ve_parse v) (sv_repo s') = Inr D' \<and> list_node_configs (ve_parse_node v) (sv_repo s') = Inr N
    \<and> reply = dag_dump c \<and> dget D' = (dget D)(name \<mapsto> c) \<and> load_closure name D' N = Inr cl \<and> dget (cl_dags cl) name = Some c
    \<and> named_rows (sv_repo s') \<and> \<not> dhas D' []"
proof -
  obtain c x d' where c: "checked_dag v name body (sv_repo s) = Inr c"
    "save_core_entity (ve_draws v) \<lparr>en_id = name, en_type = ''dag'', en_attrs = dag_dump c\<rparr> (sv_repo s) = Inr (x, d')"
    "sv_repo s' = d'" "reply = dag_dump c" by (rule save_dag_cases [OF assms(2)])
  obtain b p u where p: "graph_dag_payload (ve_parse v) name b = Inr p" "candidate_closure v name p (sv_repo s) = Inr u"
    "ve_parse v p = Inr c" "validate_sub_dag_nesting (fst u) (ap_depth (ve_app v)) = Inr ()"
    by (rule checked_dag_cases [OF c(1)])
  have pc: "ve_parse v (dag_dump c) = Inr c" "dc_name c = name" using dag_parser.payload_parses [OF assms(1) p(1)] p(3) by auto
  have u: "cand_nodes (cand_missing_dag, cand_missing_node) (ve_parse v) (ve_parse_node v) (sv_repo s) (dc_nodes c) ([(name, c)], []) = Inr u"
    using p(2,3) by (simp add: candidate_closure_def)
  obtain D' cl where x: "list_dag_configs (ve_parse v) d' = Inr D'" "list_node_configs (ve_parse_node v) d' = Inr N"
    "dget D' = (dget D)(name \<mapsto> c)" "load_closure name D' N = Inr cl" "dget (cl_dags cl) name = Some c" "named_rows d'"
    using accepted_dag_loads [OF pc u p(4) c(2) assms(3-7)] by blast
  moreover have "\<not> dhas D' []" using x(3) assms(6,7) by (simp add: dhas_def)
  ultimately show ?thesis unfolding c(3,4) by blast
qed

text \<open>A DAG \<open>r\<close> with a node \<open>k\<close> and the stored DAG \<open>s\<close> as a node.\<close>

definition graph_env :: svc_env where
  "graph_env = \<lparr>ve_app = \<lparr>ap_types = [], ap_depth = 3, ap_nodes = [], ap_entities = [], ap_relations = []\<rparr>, ve_draws = demo_draws,
     ve_codec = \<lparr>cd_dumps = py_str, cd_loads = (\<lambda>s. Inr (PStr s)), cd_float_text = (\<lambda>_. []), cd_float_of = (\<lambda>_. Inl (ValueError []))\<rparr>,
     ve_parse = read_dag, ve_parse_node = (\<lambda>a. Inr \<lparr>nc_name = py_str (aget a ''name''), nc_role = Processor, nc_input_type = ''Any'',
       nc_output_type = ''Any'', nc_optional = False, nc_timeout = None, nc_emits = [], nc_variant = FunctionNode ''h'' [] [] [] None None []\<rparr>),
     ve_check_node = Inr, ve_present = (\<lambda>c. [(''name'', PStr (nc_name c))]), ve_format = (\<lambda>_ _. Inr [])\<rparr>"

definition graph_start :: svc where
  "graph_start = \<lparr>sv_repo = empty_repo, sv_events = [], sv_files = []\<rparr>"

definition small_body :: "string list \<Rightarrow> pyval res" where
  "small_body ns = Inr (PDict [(''nodes'', PList (map PStr ns)), (''edges'', PList [])])"

definition graph_with_node :: svc where
  "graph_with_node = snd (save_dag graph_env ''s'' (small_body [''k'']) (snd (save_node_type graph_env ''k'' (Inr (PDict [])) graph_start)))"

theorem saved_dag_loads_witness:
  "case save_dag graph_env ''r'' (small_body [''k'', ''s'']) graph_with_node of (Inr p, s) \<Rightarrow> \<exists>D N cl.
      list_dag_configs read_dag (sv_repo s) = Inr D \<and> load_closure ''r'' D N = Inr cl \<and> dhas (cl_dags cl) ''r'' | _ \<Rightarrow> False"
proof -
  have ok: "case save_dag graph_env ''r'' (small_body [''k'', ''s'']) graph_with_node of (Inr p, s) \<Rightarrow> True | _ \<Rightarrow> False" by code_simp
  then obtain p s where s: "save_dag graph_env ''r'' (small_body [''k'', ''s'']) graph_with_node = (Inr p, s)" by (auto split: prod.splits sum.splits)
  have n: "named_rows (sv_repo graph_with_node)" by code_simp
  have d: "case list_dag_configs (ve_parse graph_env) (sv_repo graph_with_node) of Inr D \<Rightarrow> \<not> dhas D [] | _ \<Rightarrow> False"
    "case list_node_configs (ve_parse_node graph_env) (sv_repo graph_with_node) of Inr D \<Rightarrow> True | _ \<Rightarrow> False" by code_simp+
  then obtain D N where D: "list_dag_configs (ve_parse graph_env) (sv_repo graph_with_node) = Inr D" "\<not> dhas D []"
    "list_node_configs (ve_parse_node graph_env) (sv_repo graph_with_node) = Inr N" by (auto split: sum.splits)
  have pe: "ve_parse graph_env = read_dag" by (simp add: graph_env_def)
  have "dag_parser (ve_parse graph_env)" unfolding pe by (rule strict.dag_parser_axioms)
  from saved_dag_loads [OF this s n D(1,3) _ D(2)] obtain D' cl where "list_dag_configs read_dag (sv_repo s) = Inr D'"
    "load_closure ''r'' D' N = Inr cl" "dhas (cl_dags cl) ''r''" unfolding pe by (auto simp: dhas_def)
  then show ?thesis unfolding s by auto
qed

end
