(* ===== verification/EditorProps.thy ===== *)
theory EditorProps
  imports GraphService
begin

text \<open>
  What the graph editor is shown of a DAG and sends back: everything but conditions, fall-backs, the mode in which a node
  waits, and mappings by reference.
\<close>

section \<open>The configuration of an instance\<close>

definition plain_key :: "string \<Rightarrow> bool" where
  "plain_key k = (k \<noteq> ''parameters'' \<and> \<not> starts_with k ''param.'')"

lemma split_step: "split_config_step (k, v) (a, p) = (if plain_key k then (dset a k v, p)
    else (a, if k = ''parameters'' \<or> is_none v then p else dset p (removeprefix k ''param.'') v))"
  by (auto simp: split_config_step_def plain_key_def)

lemma split_fold:
  "distinct (dkeys d) \<Longrightarrow> dget (fst (fold split_config_step d (a, p))) k
    = (if plain_key k then (case dget d k of None \<Rightarrow> dget a k | Some v \<Rightarrow> Some v) else dget a k)"
proof (induction d arbitrary: a p)
  case (Cons kv d)
  obtain g v where kv: "kv = (g, v)" by force
  have "dget d g = None" using Cons.prems by (auto simp: kv map_of_eq_None_iff)
  then show ?case using Cons by (auto simp: kv split_step split: option.splits)
qed simp

lemma split_fold_distinct: "distinct (dkeys a) \<Longrightarrow> distinct (dkeys (fst (fold split_config_step d (a, p))))"
proof (induction d arbitrary: a p)
  case (Cons kv d)
  then show ?case by (cases kv) (simp add: split_step)
qed simp

lemma infix_drop: "is_infix t (drop n s) \<Longrightarrow> is_infix t s"
proof (induction n arbitrary: s)
  case (Suc n)
  then show ?case by (cases s) auto
qed simp

lemma credential_param: "credential_key (removeprefix k p) \<Longrightarrow> credential_key k"
  by (auto simp: credential_key_def removeprefix_def str_lower_def list_ex_iff simp flip: drop_map dest: infix_drop split: if_splits)

lemma parameters_key: "\<not> credential_key ''parameters''"
  by code_simp

definition clean :: "(string, pyval) dict \<Rightarrow> bool" where
  "clean ps = (\<forall>kv \<in> set ps. \<not> credential_key (fst kv) \<and> no_credentials (snd kv))"

lemma dset_elem: "x \<in> set (dset d k v) \<Longrightarrow> x \<in> set d \<or> x = (k, v)"
  by (induction d) (auto split: if_splits)

lemma split_fold_clean:
  "clean ps \<Longrightarrow> clean (filter (\<lambda>kv. fst kv \<noteq> ''entity_permissions'') d) \<Longrightarrow> clean (snd (fold split_config_step d (a, ps)))"
proof (induction d arbitrary: a ps)
  case (Cons kv d)
  obtain k v where kv: "kv = (k, v)" by force
  have "clean (dset ps (removeprefix k ''param.'') v)" if k: "\<not> plain_key k" "k \<noteq> ''parameters''"
  proof -
    have e: "k \<noteq> ''entity_permissions''" using k by (auto simp: plain_key_def starts_with_def)
    then have "\<not> credential_key k" "no_credentials v" using Cons.prems(2) by (auto simp: clean_def kv)
    show ?thesis
      unfolding clean_def
    proof
      fix x assume "x \<in> set (dset ps (removeprefix k ''param.'') v)"
      from dset_elem [OF this] show "\<not> credential_key (fst x) \<and> no_credentials (snd x)"
      proof
        assume "x \<in> set ps"
        then show ?thesis using Cons.prems(1) by (simp add: clean_def)
      next
        assume "x = (removeprefix k ''param.'', v)"
        then show ?thesis using \<open>\<not> credential_key k\<close> \<open>no_credentials v\<close> credential_param by auto
      qed
    qed
  qed
  moreover have "clean (filter (\<lambda>kv. fst kv \<noteq> ''entity_permissions'') d)" using Cons.prems(2) by (auto simp: clean_def kv)
  ultimately show ?case using Cons.IH Cons.prems(1) by (auto simp: kv split_step)
qed simp

lemma split_get:
  assumes "distinct (dkeys c)" "plain_key k"
  shows "dget (split_instance_config (PDict c)) k = dget c k"
  using split_fold [OF assms(1), of "[]" "dict_of (aget c ''parameters'')" k] assms(2)
  by (auto simp: split_instance_config_def plain_key_def split: prod.splits option.splits)

lemma split_distinct: "distinct (dkeys (split_instance_config (PDict c)))"
  using split_fold_distinct [of "[]" c "dict_of (aget c ''parameters'')"]
  by (auto simp: split_instance_config_def split: prod.splits)

text \<open>Splitting keeps a configuration valid.\<close>

lemma split_valid:
  assumes "json_like_config c = Inr c" "distinct (dkeys c)"
  shows "json_like_config (split_instance_config (PDict c)) = Inr (split_instance_config (PDict c))"
proof -
  let ?s = "split_instance_config (PDict c)" and ?P = "\<lambda>kv :: string \<times> pyval. fst kv \<noteq> ''entity_permissions''"
  have val: "validate_parameter_mapping (filter ?P c) = Inr ()"
    using assms(1) by (cases "validate_parameter_mapping (filter ?P c)") (auto simp: json_like_config_def)
  then have cl: "clean (filter ?P c)" by (simp only: validate_parameter_iff clean_def)
  have "clean (dict_of (aget c ''parameters''))"
  proof (cases "dget c ''parameters''")
    case (Some v)
    then have "(''parameters'', v) \<in> set c" by (rule map_of_SomeD)
    then have "no_credentials v" using cl by (auto simp: clean_def)
    then show ?thesis using Some by (cases v) (auto simp: dict_of_def aget_def dget_default_def clean_def)
  qed (simp add: dict_of_def aget_def dget_default_def clean_def)
  then have ps: "clean (snd (fold split_config_step c ([], dict_of (aget c ''parameters''))))" by (rule split_fold_clean [OF _ cl])
  have "x \<in> set c \<or> (\<exists>p. clean p \<and> x = (''parameters'', PDict p))" if x: "x \<in> set ?s" for x
  proof -
    have g: "dget ?s (fst x) = Some (snd x)" using x split_distinct by (auto intro: map_of_is_SomeI)
    show ?thesis
    proof (cases "plain_key (fst x)")
      case True
      then have "dget c (fst x) = Some (snd x)" using g split_get [OF assms(2)] by simp
      then show ?thesis using map_of_SomeD [of c "fst x" "snd x"] by simp
    next
      case False
      then show ?thesis using g ps split_fold [OF assms(2), of "[]" "dict_of (aget c ''parameters'')" "fst x"]
        by (cases x) (auto simp: split_instance_config_def split: prod.splits if_splits)
    qed
  qed
  then have "clean (filter ?P ?s)" using cl parameters_key unfolding clean_def by fastforce
  then have "validate_parameter_mapping (filter ?P ?s) = Inr ()" by (simp only: validate_parameter_iff clean_def)
  moreover have "dget ?s ''session'' = dget c ''session''" "dget ?s ''tools'' = dget c ''tools''"
    by (rule split_get [OF assms(2)], simp add: plain_key_def starts_with_def)+
  ultimately have same: "aget ?s ''session'' = aget c ''session''" "dhas ?s ''session'' = dhas c ''session''"
    "aget ?s ''tools'' = aget c ''tools''" "dhas ?s ''tools'' = dhas c ''tools''" "validate_parameter_mapping (filter ?P ?s) = Inr ()"
    by (simp_all add: aget_def dget_default_def dhas_def)
  have ses: "\<not> (dhas c ''session'' \<and> \<not> valid_session (aget c ''session''))" using assms(1) val by (auto simp: json_like_config_def split: if_splits)
  show ?thesis
  proof (cases "dhas c ''tools''")
    case False
    then show ?thesis using ses same by (auto simp: json_like_config_def)
  next
    case True
    then obtain xs ts where t: "aget c ''tools'' = PList xs" "validate_tools (map py_str xs) = Inr ts" "dset c ''tools'' (PList (map PStr ts)) = c"
      using assms(1) val ses by (auto simp: json_like_config_def split: pyval.splits)
    have "aget c ''tools'' = PList (map PStr ts)" using arg_cong [OF t(3), of "\<lambda>c. aget c ''tools''"] by simp
    then have "dset ?s ''tools'' (PList (map PStr ts)) = ?s"
      using same(3,4) True by (intro update_same) (auto simp: aget_def dget_default_def dhas_def split: option.splits)
    then show ?thesis using t(1,2) ses same True by (simp add: json_like_config_def)
  qed
qed

section \<open>Nodes and edges\<close>

lemma add_if_get: "dget (add_if b k v d) k' = (if b \<and> k' = k then Some v else dget d k')"
  by (simp add: add_if_def)

definition inst_image :: "node_inst \<Rightarrow> node_inst" where
  "inst_image i = i\<lparr>ni_input_mapping := (case ni_input_mapping i of MapRef _ \<Rightarrow> MapDict [] | m \<Rightarrow> m),
     ni_config := split_instance_config (PDict (ni_config i)), ni_fan_in_mode := NBarrier, ni_switch_model := False, ni_fallback_model := None\<rparr>"

text \<open>An instance the editor can name: its type and its optional texts are not empty.\<close>

definition editable :: "node_inst \<Rightarrow> bool" where
  "editable i = (inst_ok i \<and> distinct (dkeys (ni_config i)) \<and> ni_type i \<noteq> [] \<and> ni_alias i \<noteq> Some [] \<and> ni_dag_ref i \<noteq> Some [] \<and> ni_resource i \<noteq> Some [])"

lemma add_if_keys: "list_all P (dkeys (add_if b k v d)) \<longleftrightarrow> list_all P (dkeys d) \<and> (b \<longrightarrow> P k)"
proof (cases b)
  case True
  have "(\<forall>x \<in> set (dkeys (dset d k v)). P x) \<longleftrightarrow> (\<forall>x \<in> set (dkeys d). P x) \<and> P k" unfolding set_map set_dkeys_dset by blast
  then show ?thesis unfolding add_if_def list_all_iff using True by simp
qed (simp add: add_if_def)

lemma aget_add_if: "aget (add_if b k v d) k' = (if b \<and> k' = k then v else aget d k')"
  by (simp add: aget_def dget_default_def add_if_get)

lemma aget_Cons: "aget ((k, v) # d) k' = (if k' = k then v else aget d k')"
  by (simp add: aget_def dget_default_def)

lemma opt_str_text: "x \<noteq> Some [] \<Longrightarrow> nonempty_text (opt_str x) \<longleftrightarrow> x \<noteq> None"
  by (cases x) (auto simp: nonempty_text_def opt_str_def)

lemma filter_get: "dget (filter (\<lambda>(k, _). k \<in> S) d) k = (if k \<in> S then dget d k else None)"
  by (induction d) auto

definition shown_part :: "node_inst \<Rightarrow> (string, pyval) dict" where
  "shown_part i = (''id'', PStr (ni_id i)) # instance_part i @ [(''optional'', PBool (ni_optional i))]"

lemma node_item_get:
  assumes "distinct (dkeys (ni_config i))"
  shows "k \<notin> {''loop'', ''resource'', ''name'', ''type'', ''input_type'', ''output_type''} \<union> set instance_fields \<Longrightarrow>
      dget (shown_part i) k = Some v \<Longrightarrow> dget (node_item present nodes i) k = Some v"
    "(\<And>c. \<not> dhas (present c) ''loop'') \<Longrightarrow>
      aget (node_item present nodes i) ''loop'' = (case ni_loop i of None \<Rightarrow> PNone | Some l \<Rightarrow> PDict (loop_payload l))"
    "(\<And>c. \<not> dhas (present c) ''resource'') \<Longrightarrow>
      aget (node_item present nodes i) ''resource'' = (if nonempty_text (opt_str (ni_resource i)) then opt_str (ni_resource i) else PNone)"
proof -
  define item where "item = (case dget nodes (ni_type i) of
          Some c \<Rightarrow> dmerge (dmerge (present c) (shown_part i)) (filter (\<lambda>(k, _). k \<in> set instance_fields) (ni_config i))
        | None \<Rightarrow> [(''id'', PStr (ni_id i)), (''name'', PStr (ni_type i)), (''type'', PStr ''function'')] @ instance_part i
            @ [(''input_type'', PStr ''Any''), (''output_type'', PStr ''Any''), (''optional'', PBool (ni_optional i))])"
  have e: "node_item present nodes i = add_if (nonempty_text (opt_str (ni_resource i))) ''resource'' (opt_str (ni_resource i))
        (case ni_loop i of None \<Rightarrow> item | Some l \<Rightarrow> dset item ''loop'' (PDict (loop_payload l)))"
    unfolding node_item_def item_def shown_part_def Let_def by (rule refl)
  have dk: "distinct (dkeys (shown_part i))" by (simp add: shown_part_def instance_part_def)
  have df: "distinct (dkeys (filter (\<lambda>(k, _). k \<in> set instance_fields) (ni_config i)))" by (rule distinct_map_filter [OF assms])
  have some: "dget item k = (if k \<in> set instance_fields then case dget (ni_config i) k of None \<Rightarrow>
       (case dget (shown_part i) k of None \<Rightarrow> dget (present c) k | Some v \<Rightarrow> Some v) | Some v \<Rightarrow> Some v
     else case dget (shown_part i) k of None \<Rightarrow> dget (present c) k | Some v \<Rightarrow> Some v)" if "dget nodes (ni_type i) = Some c" for c k
    using that by (simp add: item_def dget_dmerge [OF dk] dget_dmerge [OF df] filter_get split: option.splits)
  have none: "k \<notin> {''name'', ''type'', ''input_type'', ''output_type''} \<Longrightarrow> dget item k = dget (shown_part i) k"
    if "dget nodes (ni_type i) = None" for k
    using that by (auto simp: item_def shown_part_def instance_part_def)
  show "dget (node_item present nodes i) k = Some v" if "k \<notin> {''loop'', ''resource'', ''name'', ''type'', ''input_type'', ''output_type''} \<union> set instance_fields"
    "dget (shown_part i) k = Some v"
    using that some none by (cases "dget nodes (ni_type i)") (auto simp: e add_if_get split: option.splits)
  have lr: "''loop'' \<notin> set instance_fields" "''resource'' \<notin> set instance_fields" "dget (shown_part i) ''loop'' = None" "dget (shown_part i) ''resource'' = None"
    by (simp_all add: instance_fields_def shown_part_def instance_part_def)
  show "aget (node_item present nodes i) ''loop'' = (case ni_loop i of None \<Rightarrow> PNone | Some l \<Rightarrow> PDict (loop_payload l))"
    if "\<And>c. \<not> dhas (present c) ''loop''"
    using that some [of _ "''loop''"] none [of "''loop''"] lr by (cases "dget nodes (ni_type i)") (auto simp: e aget_def dget_default_def add_if_get dhas_def split: option.splits)
  show "aget (node_item present nodes i) ''resource'' = (if nonempty_text (opt_str (ni_resource i)) then opt_str (ni_resource i) else PNone)"
    if "\<And>c. \<not> dhas (present c) ''resource''"
    using that some [of _ "''resource''"] none [of "''resource''"] lr by (cases "dget nodes (ni_type i)") (auto simp: e aget_def dget_default_def add_if_get dhas_def split: option.splits)
qed

lemma loop_shown:
  assumes "(case x of None \<Rightarrow> True | Some l \<Rightarrow> lp_count l \<noteq> Some 0)" "aget d ''loop'' = (case x of None \<Rightarrow> PNone | Some l \<Rightarrow> PDict (loop_payload l))"
  shows "read_loop d = Inr x"
proof (cases x)
  case (Some l)
  have m: "dget (loop_payload l) ''mode'' = Some (PStr (loop_mode_text (lp_mode l)))" by (simp add: loop_payload_def dump_loop_def)
  have "aget (loop_payload l) ''count'' = (case lp_count l of None \<Rightarrow> PNone | Some n \<Rightarrow> PInt (int n))"
    "aget (loop_payload l) ''until'' = opt_str (lp_until l)"
    by (cases "lp_count l"; cases "lp_until l"; simp add: loop_payload_def dump_loop_def aget_def dget_default_def opt_str_def)+
  then show ?thesis using m assms Some by (cases "lp_count l") (auto simp: read_loop_def)
qed (use assms(2) in \<open>simp add: read_loop_def\<close>)

text \<open>What the editor sends back for an instance is read as its image.\<close>

lemma instance_edited:
  assumes ok: "editable i" and pr: "\<And>c. \<not> dhas (present c) ''loop'' \<and> \<not> dhas (present c) ''resource''"
  shows "\<exists>p. dag_node_payload (PDict (node_item present nodes i)) = Inr p \<and> read_inst (PDict p) = Inr (inst_image i)"
proof -
  let ?d = "node_item present nodes i"
  have dc: "distinct (dkeys (ni_config i))" using ok by (simp add: editable_def)
  note g = node_item_get(1) [OF dc, of _ _ present nodes]
  have get: "dget ?d ''id'' = Some (PStr (ni_id i))" "dget ?d ''type_name'' = Some (PStr (ni_type i))" "dget ?d ''dag_ref'' = Some (opt_str (ni_dag_ref i))"
    "dget ?d ''input_mapping'' = Some (dump_mapping (ni_input_mapping i))" "dget ?d ''alias'' = Some (opt_str (ni_alias i))"
    "dget ?d ''config'' = Some (PDict (ni_config i))" "dget ?d ''optional'' = Some (PBool (ni_optional i))"
    by (rule g; simp add: shown_part_def instance_part_def instance_fields_def)+
  note lr = node_item_get(2,3) [OF dc, of present nodes]
  have ag: "aget ?d ''type_name'' = PStr (ni_type i)" "aget ?d ''dag_ref'' = opt_str (ni_dag_ref i)" "aget ?d ''alias'' = opt_str (ni_alias i)"
    "aget ?d ''input_mapping'' = dump_mapping (ni_input_mapping i)" "aget ?d ''optional'' = PBool (ni_optional i)"
    "aget ?d ''loop'' = (case ni_loop i of None \<Rightarrow> PNone | Some l \<Rightarrow> PDict (loop_payload l))"
    "aget ?d ''resource'' = (if nonempty_text (opt_str (ni_resource i)) then opt_str (ni_resource i) else PNone)"
    using get lr pr by (simp_all add: aget_Some)
  define p where "p = add_if (is_str (aget ?d ''resource'')) ''resource'' (aget ?d ''resource'')
        (add_if (is_dict (aget ?d ''loop'')) ''loop'' (aget ?d ''loop'')
        (add_if (is_dict (aget ?d ''input_mapping'')) ''input_mapping''
           (PDict (map (\<lambda>(k, v). (k, PStr (py_str v))) (dict_of (aget ?d ''input_mapping''))))
        (add_if (nonempty_text (aget ?d ''dag_ref'')) ''dag_ref'' (aget ?d ''dag_ref'')
        (add_if (truthy (aget ?d ''optional'')) ''optional'' (PBool True)
        (add_if (nonempty_text (aget ?d ''alias'')) ''alias'' (aget ?d ''alias'')
           [(''id'', PStr (ni_id i)), (''type'', PStr (ni_type i)), (''config'', PDict (split_instance_config (PDict (ni_config i))))])))))"
  have "dag_node_payload (PDict ?d) = Inr p"
    using ok get by (simp add: dag_node_payload_def p_def first_truthy_def ag(1) dget_default_def editable_def)
  moreover have "read_inst (PDict p) = Inr (inst_image i)"
  proof -
    note pg = p_def ag add_if_get aget_add_if aget_Cons
    have ne: "ni_alias i \<noteq> Some []" "ni_dag_ref i \<noteq> Some []" "ni_resource i \<noteq> Some []" using ok by (simp_all add: editable_def)
    have "aget p ''alias'' = opt_str (ni_alias i)" "aget p ''dag_ref'' = opt_str (ni_dag_ref i)" "aget p ''resource'' = opt_str (ni_resource i)"
      using ne by (auto simp: pg opt_str_text opt_str_def nonempty_text_def split: option.splits)
    moreover have "aget p ''loop'' = (case ni_loop i of None \<Rightarrow> PNone | Some l \<Rightarrow> PDict (loop_payload l))"
      by (simp add: pg split: option.splits)
    then have "read_loop p = Inr (ni_loop i)" by (intro loop_shown) (use ok in \<open>simp_all add: editable_def inst_ok_def\<close>)
    moreover have "read_config p = Inr (split_instance_config (PDict (ni_config i)))"
      using split_valid [OF _ dc] ok by (simp add: pg read_config_def editable_def inst_ok_def)
    moreover have "read_mapping p = Inr (ni_input_mapping (inst_image i))"
      by (cases "ni_input_mapping i") (simp_all add: pg read_mapping_def inst_image_def dump_mapping_def dict_of_def comp_def case_prod_unfold list_all_iff)
    moreover have "read_str p ''id'' = Inr (ni_id i)" "read_str p ''type'' = Inr (ni_type i)" "read_flag p ''optional'' = Inr (ni_optional i)"
      "dget p ''fan_in_mode'' = None" "read_fallback p = Inr False" "read_opt_str p ''fallback_model'' = Inr None"
      by (simp_all add: pg read_str_def read_flag_def read_fallback_def read_opt_str_def)
    moreover have "list_all (\<lambda>k. k \<in> set inst_fields) (dkeys p)" by (simp add: p_def add_if_keys inst_fields_def)
    ultimately show ?thesis by (simp add: read_inst_def read_literal_def inst_image_def)
  qed
  ultimately show ?thesis by blast
qed

lemma edge_edited: "\<exists>q. dag_edge_payload (PDict (edge_item e)) = Inr q \<and> read_edge (PDict q) = Inr (e\<lparr>e_condition := None\<rparr>)"
proof -
  let ?d = "edge_item e"
  have ag: "aget ?d ''from'' = PStr (e_from e)" "aget ?d ''to'' = PStr (e_to e)" "aget ?d ''fan_out'' = PBool (e_fan_out e)"
    "aget ?d ''fan_in'' = PBool (e_fan_in e)" "aget ?d ''optional'' = PBool (e_optional e)"
    "aget ?d ''fan_in_mode'' = PStr (edge_mode_text (e_fan_in_mode e))" by (simp_all add: edge_item_def aget_Cons)
  have m: "PStr (edge_mode_text (e_fan_in_mode e)) \<in> PStr ` set edge_modes"
    by (cases "e_fan_in_mode e") (simp_all add: edge_mode_text_def edge_modes_def)
  let ?q = "add_if True ''fan_in_mode'' (PStr (edge_mode_text (e_fan_in_mode e))) (add_if (e_optional e) ''optional'' (PBool True)
     (add_if (e_fan_in e) ''fan_in'' (PBool True) (add_if (e_fan_out e) ''fan_out'' (PBool True)
       [(''from'', PStr (e_from e)), (''to'', PStr (e_to e))])))"
  have "dag_edge_payload (PDict ?d) = Inr ?q" using m by (simp add: dag_edge_payload_def ag)
  moreover have "read_edge (PDict ?q) = Inr (e\<lparr>e_condition := None\<rparr>)"
  proof -
    have "read_flag ?q ''fan_out'' = Inr (e_fan_out e)" "read_flag ?q ''fan_in'' = Inr (e_fan_in e)" "read_flag ?q ''optional'' = Inr (e_optional e)"
      "read_str ?q ''from'' = Inr (e_from e)" "read_str ?q ''to'' = Inr (e_to e)" "read_opt_str ?q ''condition'' = Inr None"
      "dget ?q ''fan_in_mode'' = Some (PStr (edge_mode_text (e_fan_in_mode e)))"
      by (simp_all add: read_str_def read_flag_def read_opt_str_def add_if_get aget_add_if aget_Cons)
    then show ?thesis by (cases e) (simp add: read_edge_def)
  qed
  ultimately show ?thesis by blast
qed

section \<open>A DAG through the editor\<close>

definition editor_image :: "dag_cfg \<Rightarrow> dag_cfg" where
  "editor_image c = c\<lparr>dc_nodes := map inst_image (dc_nodes c), dc_edges := map (\<lambda>e. e\<lparr>e_condition := None\<rparr>) (dc_edges c)\<rparr>"

lemma map_res_chain:
  assumes "\<And>x. x \<in> set xs \<Longrightarrow> \<exists>p. f (g x) = Inr p \<and> h (k p) = Inr (j x)"
  shows "\<exists>ps. map_res f (map g xs) = Inr ps \<and> map_res h (map k ps) = Inr (map j xs)"
  using assms
proof (induction xs)
  case (Cons x xs)
  then obtain p ps where "f (g x) = Inr p" "h (k p) = Inr (j x)" "map_res f (map g xs) = Inr ps" "map_res h (map k ps) = Inr (map j xs)"
    by (metis list.set_intros)
  then show ?case by simp
qed simp

text \<open>C5: Saving the state that the graph editor is shown stores the image of the DAG under \<open>editor_image\<close>: the
  conditions of its edges and the fall-backs with their models are gone, every node gathers its inputs by barrier, a mapping by
  reference is empty, and the configuration of every node is rewritten by \<open>split_instance_config\<close>
  (\<open>param.*\<close> entries become parameters and replace those of the same name, entries of them without value and empty
  parameters are dropped); all other fields of the DAG, its nodes and its edges are stored in their order as they were. Assumed:
  the parser reads what \<open>model_dump\<close> writes; every node is a valid instance with distinct keys of its configuration
  whose type, alias, DAG reference and resource are not empty texts; the payload of a prototype has no fields
  \<open>loop\<close> and \<open>resource\<close>, which would hide those of the node.\<close>

theorem editor_forgets:
  assumes "dag_parser parse" "graph_dag_state present fmt c nodes types es rels = Inr state" "list_all editable (dc_nodes c)"
    "\<forall>n. \<not> dhas (present n) ''loop'' \<and> \<not> dhas (present n) ''resource''"
  shows "graph_dag_payload parse (dc_name c) state = Inr (dag_dump (editor_image c))"
proof -
  have st: "dget state ''nodes'' = Some (PList (map (\<lambda>i. PDict (node_item present nodes i)) (dc_nodes c)))"
    "dget state ''edges'' = Some (PList (map (\<lambda>e. PDict (edge_item e)) (dc_edges c)))" "dget state ''ui'' = Some (PDict (dc_ui c))"
    using assms(2) by (auto simp: graph_dag_state_def)
  have "\<exists>ps. map_res dag_node_payload (map (\<lambda>i. PDict (node_item present nodes i)) (dc_nodes c)) = Inr ps
    \<and> map_res read_inst (map PDict ps) = Inr (map inst_image (dc_nodes c))"
    using instance_edited assms(3,4) by (intro map_res_chain) (simp add: list_all_iff)
  then obtain ps where ps: "map_res dag_node_payload (map (\<lambda>i. PDict (node_item present nodes i)) (dc_nodes c)) = Inr ps"
    "map_res read_inst (map PDict ps) = Inr (map inst_image (dc_nodes c))" by blast
  have "\<exists>qs. map_res dag_edge_payload (map (\<lambda>e. PDict (edge_item e)) (dc_edges c)) = Inr qs
    \<and> map_res read_edge (map PDict qs) = Inr (map (\<lambda>e. e\<lparr>e_condition := None\<rparr>) (dc_edges c))"
    using edge_edited by (intro map_res_chain) simp
  then obtain qs where qs: "map_res dag_edge_payload (map (\<lambda>e. PDict (edge_item e)) (dc_edges c)) = Inr qs"
    "map_res read_edge (map PDict qs) = Inr (map (\<lambda>e. e\<lparr>e_condition := None\<rparr>) (dc_edges c))" by blast
  let ?b = "[(''name'', PStr (dc_name c)), (''nodes'', PList (map PDict ps)), (''edges'', PList (map PDict qs)), (''ui'', PDict (dc_ui c))]"
  have "dag_body (dc_name c) state = Inr ?b" using st ps(1) qs(1) by (simp add: dag_body_def dget_default_def dict_of_def)
  moreover have "read_dag ?b = Inr (editor_image c)"
    using ps(2) qs(2) by (simp add: read_dag_def read_str_def read_list_def editor_image_def)
  then have "parse ?b = Inr (editor_image c)" by (rule dag_parser.typed [OF assms(1)])
  ultimately show ?thesis by (simp add: graph_dag_payload_def edit_error_def)
qed

definition edited_dag :: dag_cfg where
  "edited_dag = \<lparr>dc_name = ''d'', dc_nodes = map (\<lambda>n. \<lparr>ni_id = n, ni_type = ''k'', ni_dag_ref = None, ni_input_mapping = MapDict [],
       ni_alias = None, ni_config = [(''param.depth'', PInt 2)], ni_optional = False, ni_fan_in_mode = NBarrier,
       ni_loop = Some \<lparr>lp_mode = LSerial, lp_count = Some 2, lp_until = None\<rparr>, ni_switch_model = False, ni_fallback_model = None,
       ni_resource = None\<rparr>) [''a'', ''b''],
     dc_edges = [\<lparr>e_from = ''a'', e_to = ''b'', e_fan_out = False, e_fan_in = False, e_optional = False, e_condition = Some ''score > 1'',
       e_fan_in_mode = EBarrier\<rparr>], dc_ui = []\<rparr>"

theorem editor_forgets_witness:
  "case graph_dag_state (\<lambda>_. []) (\<lambda>_ _. Inr []) edited_dag [] [] [] [] of Inl _ \<Rightarrow> False
   | Inr st \<Rightarrow> graph_dag_payload read_dag ''d'' st = Inr (dag_dump (editor_image edited_dag)) \<and> editor_image edited_dag \<noteq> edited_dag"
proof -
  obtain st where st: "graph_dag_state (\<lambda>_. []) (\<lambda>_ _. Inr []) edited_dag [] [] [] [] = Inr st"
    by (simp add: graph_dag_state_def entity_list_payload_def)
  have "list_all editable (dc_nodes edited_dag)" by code_simp
  from editor_forgets [OF strict.dag_parser_axioms st this] have "graph_dag_payload read_dag (dc_name edited_dag) st = Inr (dag_dump (editor_image edited_dag))"
    by (simp add: dhas_def)
  moreover have "dc_name edited_dag = ''d''" "dc_edges (editor_image edited_dag) \<noteq> dc_edges edited_dag" by (simp_all add: edited_dag_def editor_image_def)
  ultimately show ?thesis using st by auto
qed

end
