(* ===== verification/EntityAsync.thy ===== *)
theory EntityAsync
  imports OrdinaryRepo Effects
begin

text \<open>
  The asynchronous operations of the entity store (\<open>config/entities.py\<close>), which work in a session of the database: they
  choose between the store in memory, the tables of entities and relations, and the outputs of nodes. \<open>session=None\<close>
  is \<open>False\<close> in the first argument. The state is the three stores; an operation of the database that raises leaves its
  tables as they were.
\<close>

record stores =
  sg_repo :: repo
  sg_runs :: db
  sg_store :: estore

type_synonym 'a act = "(stores, 'a) eff"

definition on_repo :: "'a rx \<Rightarrow> 'a act" where
  "on_repo f s = (case f (sg_repo s) of Inl e \<Rightarrow> (Inl e, s) | Inr (a, d) \<Rightarrow> (Inr a, s\<lparr>sg_repo := d\<rparr>))"

definition on_runs :: "'a tx \<Rightarrow> 'a act" where
  "on_runs f s = (case f (sg_runs s) of Inl e \<Rightarrow> (Inl e, s) | Inr (a, d) \<Rightarrow> (Inr a, s\<lparr>sg_runs := d\<rparr>))"

definition on_memory :: "(estore \<Rightarrow> 'a res \<times> estore) \<Rightarrow> 'a act" where
  "on_memory f s = (case f (sg_store s) of (r, st) \<Rightarrow> (r, s\<lparr>sg_store := st\<rparr>))"

definition session_required :: err where
  "session_required = ConfigError ''database session is required''"

definition tier_of :: "stores \<Rightarrow> string \<Rightarrow> storage_tier res" where
  "tier_of s ty = (case dget (es_types (sg_store s)) ty of None \<Rightarrow> Inl (KeyError ty) | Some t \<Rightarrow> Inr (et_storage_tier t))"

section \<open>Relations as entities\<close>

definition relation_config_entity :: "string \<Rightarrow> string list \<Rightarrow> string \<Rightarrow> (string, pyval) dict \<Rightarrow> entity" where
  "relation_config_entity i refs ty meta = (let f = PStr (if refs = [] then [] else hd refs);
       t = PStr (if length refs \<le> 1 then [] else refs ! 1) in
     \<lparr>en_id = i, en_type = ''relation'', en_attrs = [(''from'', f), (''to'', t), (''from_entity_id'', f), (''to_entity_id'', t),
       (''relation_type'', PStr ty), (''entities'', strs refs), (''metadata'', PDict meta)]\<rparr>)"

definition relation_entity :: "rel_row \<Rightarrow> entity" where
  "relation_entity r = relation_config_entity (rr_id r) [rr_from r, rr_to r] (rr_type r) (rr_meta r)"

section \<open>Reading\<close>

definition get_database_entity :: "codec \<Rightarrow> string \<Rightarrow> entity option act" where
  "get_database_entity c ref s = (let types = es_types (sg_store s) in
     case get_core_entity ref types (sg_repo s) of Some e \<Rightarrow> (Inr (Some e), s)
     | None \<Rightarrow> ebind (on_repo (find_ordinary_entity c ref types)) (\<lambda>x. case x of Some e \<Rightarrow> eret (Some e)
         | None \<Rightarrow> eget (\<lambda>s. map_option relation_entity (first_of (\<lambda>r. rr_id r = ref) (list_relations None None None (sg_repo s))))) s)"

definition query_one_async :: "codec \<Rightarrow> bool \<Rightarrow> string \<Rightarrow> string option \<Rightarrow> query_result act" where
  "query_one_async c session ref run s = (let eff = or_str run (es_default_run (sg_store s)) in
     case cached_entity (sg_store s) eff ref of Some e \<Rightarrow> (Inr \<lparr>qr_entity = e, qr_from_cache = True, qr_run = eff\<rparr>, s)
     | None \<Rightarrow> if \<not> session
         then (rbind (resolve (sg_store s) ref None) (\<lambda>e. Inr \<lparr>qr_entity = e, qr_from_cache = False, qr_run = None\<rparr>), s)
         else ebind (get_database_entity c ref) (\<lambda>x. case x of None \<Rightarrow> ethrow (not_found ref)
           | Some e \<Rightarrow> eret \<lparr>qr_entity = e, qr_from_cache = False, qr_run = None\<rparr>) s)"

text \<open>The part of the store in memory; an entity of an unknown type raises.\<close>

definition memory_part :: "stores \<Rightarrow> query_spec \<Rightarrow> entity list res" where
  "memory_part s q = rbind (map_res (\<lambda>e. rbind (tier_of s (en_type e)) (\<lambda>t. Inr (e, t))) (query q (sg_store s)))
     (\<lambda>es. Inr (map fst (filter (\<lambda>(_, t). t \<noteq> Database) es)))"

definition is_core :: "string option \<Rightarrow> bool" where
  "is_core ty = (case ty of None \<Rightarrow> False | Some t \<Rightarrow> t \<in> set core_types)"

definition relation_part :: "repo \<Rightarrow> string option \<Rightarrow> entity list" where
  "relation_part d ty = (if ty = None \<or> ty = Some ''relation'' then map relation_entity (list_relations None None None d) else [])"

definition output_part :: "query_spec \<Rightarrow> db \<Rightarrow> entity list" where
  "output_part q d = (if is_core (qs_type q) then []
     else query_node_output_entities (qs_type q) (qs_run q) (qs_node q) (qs_tags q) 100 d)"

definition query_async :: "codec \<Rightarrow> bool \<Rightarrow> query_spec \<Rightarrow> string option \<Rightarrow> query_result list act" where
  "query_async c session q run s =
     (if \<not> session \<or> \<not> needs_database (sg_store s) (qs_type q) then (Inr (query_results (sg_store s) q run), s)
      else ebind (elift (memory_part s q)) (\<lambda>mem.
        ebind (eget (\<lambda>s. if is_core (qs_type q) \<or> qs_type q = None then list_core_entities (qs_type q) (sg_repo s) else [])) (\<lambda>core.
        ebind (on_repo (list_ordinary_entities c (es_types (sg_store s)) (qs_type q))) (\<lambda>ord.
        eget (\<lambda>s. query_results_from (sg_store s) (mem @ core @ ord @ relation_part (sg_repo s) (qs_type q)
          @ output_part q (sg_runs s)) q run)))) s)"

section \<open>The cache of a run\<close>

fun preload_refs :: "codec \<Rightarrow> string list \<Rightarrow> (string, entity) dict \<Rightarrow> string list \<Rightarrow> ((string, entity) dict \<times> string list) act" where
  "preload_refs c [] cached direct = eret (cached, direct)"
| "preload_refs c (ref # refs) cached direct = ebind (get_database_entity c ref) (\<lambda>x. case x of
     None \<Rightarrow> ethrow (ValueError (''entity not found: '' @ ref))
   | Some e \<Rightarrow> ebind (eget (\<lambda>s. es_types (sg_store s))) (\<lambda>types.
       preload_refs c refs (cache_entity types ref e cached) (direct @ entity_refs e types)))"

fun preload_ends :: "codec \<Rightarrow> string list \<Rightarrow> (string, entity) dict \<Rightarrow> (string, entity) dict act" where
  "preload_ends c [] cached = eret cached"
| "preload_ends c (ref # refs) cached = ebind (get_database_entity c ref) (\<lambda>x.
     ebind (eget (\<lambda>s. es_types (sg_store s))) (\<lambda>types.
       preload_ends c refs (case x of None \<Rightarrow> cached | Some e \<Rightarrow> cache_entity types ref e cached)))"

fun preload_relations :: "codec \<Rightarrow> rel_row list \<Rightarrow> (string, entity) dict \<Rightarrow> (string, entity) dict act" where
  "preload_relations c [] cached = eret cached"
| "preload_relations c (r # rs) cached = ebind (preload_ends c [rr_from r, rr_to r] (dset cached (rr_id r) (relation_entity r)))
     (preload_relations c rs)"

definition preload_for_dag :: "codec \<Rightarrow> bool \<Rightarrow> string \<Rightarrow> string list \<Rightarrow> unit act" where
  "preload_for_dag c session run refs = (if \<not> session then ethrow session_required
     else ebind (preload_refs c refs [] []) (\<lambda>(cached, direct).
       ebind (eget (\<lambda>s. list_relations_for_entity_refs direct (sg_repo s))) (\<lambda>rs.
       ebind (preload_relations c rs cached) (\<lambda>cached.
       emod (\<lambda>s. s\<lparr>sg_store := (sg_store s)\<lparr>es_memory := dset (es_memory (sg_store s)) run cached\<rparr>\<rparr>)))))"

section \<open>Writing\<close>

definition draw_id :: "draws \<Rightarrow> string act" where
  "draw_id w s = (Inr (dw_uuid w (rp_count (sg_repo s))), s\<lparr>sg_repo := (sg_repo s)\<lparr>rp_count := Suc (rp_count (sg_repo s))\<rparr>\<rparr>)"

text \<open>\<open>str(attributes.get("id") or uuid4().hex)\<close>\<close>

definition id_of_attributes :: "draws \<Rightarrow> (string, pyval) dict \<Rightarrow> string act" where
  "id_of_attributes w a = (if truthy (aget a ''id'') then eret (py_str (aget a ''id'')) else draw_id w)"

definition text_or :: "(string, pyval) dict \<Rightarrow> string list \<Rightarrow> string" where
  "text_or a ks = (case filter (\<lambda>k. truthy (aget a k)) ks of [] \<Rightarrow> [] | k # _ \<Rightarrow> py_str (aget a k))"

text \<open>\<open>dict(attributes.get("metadata") or {})\<close> of JSON data: a list of pairs is not considered.\<close>

definition metadata_of :: "(string, pyval) dict \<Rightarrow> (string, pyval) dict res" where
  "metadata_of a = (let v = aget a ''metadata'' in if \<not> truthy v then Inr []
     else (case v of PDict d \<Rightarrow> Inr d | _ \<Rightarrow> Inl (TypeError ''cannot convert to dict'')))"

definition create_relation_async :: "draws \<Rightarrow> codec \<Rightarrow> (string, pyval) dict \<Rightarrow> entity act" where
  "create_relation_async w c a s =
     (let f = text_or a [''from_entity_id'', ''from'']; t = text_or a [''to_entity_id'', ''to'']; ty = text_or a [''relation_type''] in
      if f = [] \<or> t = [] \<or> ty = [] then (Inl (ConfigError ''relation requires from_entity_id, to_entity_id and relation_type''), s)
      else ebind (elift (metadata_of a)) (\<lambda>meta.
        ebind (on_repo (create_relation w c f t ty meta (Some (es_types (sg_store s))))) (\<lambda>r. eret (relation_entity r))) s)"

definition create_output_async :: "draws \<Rightarrow> string \<Rightarrow> (string, pyval) dict \<Rightarrow> entity act" where
  "create_output_async w ty a = ebind (on_runs (store_node_output_entities w (text_or a [''run_id'']) (str_or (aget a ''node_id'') ty) ty
       (dget_default a ''payload'' (PDict a)) (text_unless_none (aget a ''session_id'')))) (\<lambda>stored. case stored of
     [] \<Rightarrow> ethrow (ConfigError (''database entity was not stored: '' @ ty)) | r # _ \<Rightarrow> eret (node_output_to_entity r))"

definition create_async :: "draws \<Rightarrow> codec \<Rightarrow> bool \<Rightarrow> string \<Rightarrow> (string, pyval) dict \<Rightarrow> entity act" where
  "create_async w c session ty a s = (case dget (es_types (sg_store s)) ty of
     None \<Rightarrow> (Inl (ConfigError (''unknown entity type: '' @ ty)), s)
   | Some t \<Rightarrow> (if et_storage_tier t \<noteq> Database
       then ebind (draw_id w) (\<lambda>i. on_memory (create ty a None i)) s
       else if \<not> session then (Inl session_required, s)
       else if ty = ''relation'' then create_relation_async w c a s
       else if ty \<in> set core_types \<or> \<not> looks_like_output a
       then ebind (id_of_attributes w a) (\<lambda>i. let e = \<lparr>en_id = i, en_type = ty, en_attrs = a\<rparr> in
         ebind (elift (validate_semantics e)) (\<lambda>_.
           on_repo (if ty \<in> set core_types then save_core_entity w e else save_ordinary_entity w c e t))) s
       else create_output_async w ty a s))"

text \<open>\<open>_writable_attributes\<close> is called with the new entity in the place of the stored one.\<close>

definition save_async :: "draws \<Rightarrow> codec \<Rightarrow> bool \<Rightarrow> entity \<Rightarrow> pyval \<Rightarrow> entity act" where
  "save_async w c session e permissions s = (case dget (es_types (sg_store s)) (en_type e) of
     None \<Rightarrow> (Inl (KeyError (en_type e)), s)
   | Some t \<Rightarrow> (if et_storage_tier t \<noteq> Database then on_memory (save e permissions) s
       else if \<not> session then (Inl session_required, s)
       else if en_type e = ''relation'' then (Inl (ConfigError ''relation updates use relation repository operations''), s)
       else ebind (elift (rbind (writable_attributes (sg_store s) e e permissions) (\<lambda>a. let saved = e\<lparr>en_attrs := a\<rparr> in
           rbind (validate_semantics saved) (\<lambda>_. Inr saved)))) (\<lambda>saved.
         on_repo (if en_type e \<in> set core_types then save_core_entity w saved else save_ordinary_entity w c saved t)) s))"

text \<open>What is blocked in one table is looked for in the next.\<close>

definition delete_in_database :: "codec \<Rightarrow> string \<Rightarrow> bool act" where
  "delete_in_database c i = ebind (on_repo (\<lambda>d. Inr (CoreRepo.delete_relation i d))) (\<lambda>b. if b then eret True else
     ebind (eget (\<lambda>s. es_types (sg_store s))) (\<lambda>types.
     ebind (on_repo (\<lambda>d. Inr (delete_core_entity i types d))) (\<lambda>(b, _). if b then eret True else
     ebind (on_repo (delete_ordinary_entity c i types)) (\<lambda>(b, _). if b then eret True else
     on_runs (\<lambda>d. Inr (delete_node_output_entity i d))))))"

definition delete_async :: "codec \<Rightarrow> bool \<Rightarrow> string \<Rightarrow> nat act" where
  "delete_async c session i = (if \<not> session then on_memory (delete_entity i)
     else ebind (delete_in_database c i) (\<lambda>b. if b then eret 0 else on_memory (delete_entity i)))"

end
