(* ===== verification/ConfigService.thy ===== *)
theory ConfigService
  imports EntityAsync GraphService
begin

text \<open>
  The state of the server, the records of entity types (\<open>storage/repository/_entity_type.py\<close>) and the handlers of the
  configuration service (\<open>config_service.py\<close>). What JSON and YAML texts denote, and what pydantic makes of it, are
  parameters. A failed session leaves the tables as they were; the events are those given to the trigger executor.
\<close>

section \<open>The server\<close>

text \<open>\<open>sr_started\<close>: the controller has a database; \<open>sr_active\<close>: the stores of the active runs; \<open>sr_reloads\<close>: how often the
  triggers were loaded again.\<close>

record server =
  sr_data :: stores
  sr_types :: "(string, etype) dict"
  sr_started :: bool
  sr_active :: "(string, estore) dict"
  sr_events :: "string list"
  sr_reloads :: nat

text \<open>\<open>float\<close> of an integer and of a text: rounding and syntax are those of the surroundings.\<close>

datatype flt = Finite rat | PosInf | NegInf | NaN

record srv_env =
  se_draws :: draws
  se_codec :: codec
  se_parse :: "(string, pyval) dict \<Rightarrow> dag_cfg res"
  se_parse_node :: "(string, pyval) dict \<Rightarrow> node_cfg res"
  se_parse_type :: "(string, pyval) dict \<Rightarrow> etype res"
  se_parse_entities :: "pyval \<Rightarrow> entity list res"
  se_parse_relations :: "pyval \<Rightarrow> relation list res"
  se_format :: "string \<Rightarrow> (string, pyval) dict \<Rightarrow> string res"
  se_float :: "string \<Rightarrow> flt res"
  se_int_float :: "int \<Rightarrow> flt res"
  se_file_types :: "(string, etype) dict res"
  se_depth :: int

definition srv_repo :: "server \<Rightarrow> repo" where
  "srv_repo s = sg_repo (sr_data s)"

definition srv_store :: "server \<Rightarrow> estore" where
  "srv_store s = sg_store (sr_data s)"

definition not_started :: err where
  "not_started = OtherError ''DAG controller has not been started''"

definition doing :: "'a act \<Rightarrow> (server, 'a) call" where
  "doing f s = (case f (sr_data s) of (Inl e, d) \<Rightarrow> (Inl (Raised e), s\<lparr>sr_data := d\<rparr>) | (Inr a, d) \<Rightarrow> (Inr a, s\<lparr>sr_data := d\<rparr>))"

text \<open>A session that is committed at its end. What was done to the store in memory stays even when it fails.\<close>

definition session_call :: "(server, 'a) call \<Rightarrow> (server, 'a) call" where
  "session_call m s = (if \<not> sr_started s then (Inl (Raised not_started), s)
     else (case m s of (Inr a, s') \<Rightarrow> (Inr a, s')
       | (Inl e, s') \<Rightarrow> (Inl e, s'\<lparr>sr_data := (sr_data s)\<lparr>sg_store := sg_store (sr_data s')\<rparr>\<rparr>)))"

definition in_session :: "'a act \<Rightarrow> (server, 'a) call" where
  "in_session f = session_call (doing f)"

text \<open>A session that only reads.\<close>

definition reading :: "'a act \<Rightarrow> (server, 'a) call" where
  "reading f s = (if \<not> sr_started s then (Inl (Raised not_started), s)
     else (case fst (f (sr_data s)) of Inr a \<Rightarrow> (Inr a, s) | Inl e \<Rightarrow> (Inl (Raised e), s)))"

text \<open>\<open>controller.emit\<close> up to the trigger executor, which is the subject of the theory \<open>Trigger\<close>.\<close>

definition emit_event :: "string \<Rightarrow> (server, unit) call" where
  "emit_event e s = (if \<not> sr_started s then (Inl (Raised not_started), s) else (Inr (), s\<lparr>sr_events := sr_events s @ [e]\<rparr>))"

definition changed_event :: string where
  "changed_event = ''event:config-changed''"

text \<open>\<open>except \<dots> as exc: context.abort(code, str(exc))\<close>\<close>

definition abort_on :: "(err \<Rightarrow> bool) \<Rightarrow> status \<Rightarrow> ('s, 'a) call \<Rightarrow> ('s, 'a) call" where
  "abort_on P c m s = (case m s of (Inl (Raised e), s') \<Rightarrow> (if P e then (Inl (Abort c (err_text e)), s') else (Inl (Raised e), s')) | r \<Rightarrow> r)"

fun is_edit_error :: "err \<Rightarrow> bool" where
  "is_edit_error (ConfigEditError _) = True"
| "is_edit_error _ = False"

fun is_value_error :: "err \<Rightarrow> bool" where
  "is_value_error (ValueError _) = True"
| "is_value_error _ = False"

section \<open>Records of entity types\<close>

text \<open>Empty materialized and deprecated fields do not replace those of the record.\<close>

definition type_record :: "string \<Rightarrow> etype \<Rightarrow> etype option \<Rightarrow> etype res" where
  "type_record name t old = rbind (case dget core_tables name of Some n \<Rightarrow> Inr n | None \<Rightarrow>
       (case et_table_name t of Some n \<Rightarrow> if n \<noteq> [] then Inr n else entity_table_name name | None \<Rightarrow> entity_table_name name)) (\<lambda>table.
     Inr (t\<lparr>et_table_name := Some table, et_schema_version := (if et_schema_version t = 0 then 1 else et_schema_version t),
       et_materialized := (if et_materialized t \<noteq> [] then et_materialized t else case old of None \<Rightarrow> [] | Some r \<Rightarrow> et_materialized r),
       et_deprecated := (if et_deprecated t \<noteq> [] then et_deprecated t else case old of None \<Rightarrow> [] | Some r \<Rightarrow> et_deprecated r)\<rparr>))"

definition upsert_entity_type_record :: "string \<Rightarrow> etype \<Rightarrow> (string, etype) dict \<Rightarrow> (string, etype) dict res" where
  "upsert_entity_type_record name t rs = rbind (type_record name t (dget rs name)) (\<lambda>r. Inr (dset rs name r))"

definition list_entity_type_configs :: "(string, etype) dict \<Rightarrow> (string, etype) dict" where
  "list_entity_type_configs rs = sort_key fst rs"

definition seed_entity_type_records :: "(string, etype) dict \<Rightarrow> (string, etype) dict \<Rightarrow> (string, etype) dict res" where
  "seed_entity_type_records types rs = fold_res (\<lambda>(n, t). upsert_entity_type_record n t) types rs"

definition core_count :: "string \<Rightarrow> repo \<Rightarrow> nat" where
  "core_count name d = length (core_entities_of name d)"

definition count_entities_for_type :: "string \<Rightarrow> etype \<Rightarrow> repo \<Rightarrow> nat res" where
  "count_entities_for_type name t d = (if dhas core_tables name then Inr (core_count name d)
     else if et_storage_tier t \<noteq> Database then Inr 0
     else rbind (type_table name t) (\<lambda>tb. Inr (case dget (rp_tables d) tb of None \<Rightarrow> 0 | Some u \<Rightarrow> length (ot_rows u))))"

section \<open>Handlers of entity types\<close>

text \<open>The content of a request is what its YAML text denotes, or the error of the reader.\<close>

definition parse_type_content :: "srv_env \<Rightarrow> pyval res \<Rightarrow> etype res" where
  "parse_type_content v content = rbind content (\<lambda>x. if \<not> truthy x then se_parse_type v [] else (case x of PDict d \<Rightarrow> se_parse_type v d
     | _ \<Rightarrow> Inl (ConfigEditError ''YAML content must be a mapping'')))"

fun is_type_error :: "err \<Rightarrow> bool" where
  "is_type_error (SyntaxErr _) = True"
| "is_type_error e = (is_edit_error e \<or> is_value_error e)"

definition require_started :: "(server, unit) call" where
  "require_started s = (if sr_started s then (Inr (), s) else (Inl (Raised not_started), s))"

definition upsert_type :: "string \<Rightarrow> etype \<Rightarrow> (server, unit) call" where
  "upsert_type name t s = hbind (hres (upsert_entity_type_record name t (sr_types s))) (\<lambda>rs s. (Inr (), s\<lparr>sr_types := rs\<rparr>)) s"

definition type_not_found :: "string \<Rightarrow> (server, 'a) call" where
  "type_not_found name = abort NotFound (''entity type '' @ name @ '' not found'')"

definition protected_type :: "string \<Rightarrow> (server, 'a) call" where
  "protected_type name = abort PermissionDenied (''entity type '' @ quoted name @ '' is system protected'')"

definition list_entity_types :: "(server, (string, pyval) dict) call" where
  "list_entity_types = hbind require_started (\<lambda>_ s. (Inr (entity_types_payload (list_entity_type_configs (sr_types s))), s))"

definition create_entity_type :: "srv_env \<Rightarrow> string \<Rightarrow> pyval res \<Rightarrow> (server, string) call" where
  "create_entity_type v requested content = (let name = strip_ws requested in
     if name = [] then abort InvalidArgument ''entity type name is required''
     else hbind (abort_on is_type_error InvalidArgument (hbind (hres (parse_type_content v content)) (\<lambda>t.
       hbind require_started (\<lambda>_ s.
       if dhas (sr_types s) name then abort AlreadyExists (''entity type '' @ quoted name @ '' already exists'') s
       else hbind (upsert_type name t) (\<lambda>_. emit_event changed_event) s)))) (\<lambda>_. hret name))"

definition get_entity_type :: "string \<Rightarrow> (server, etype) call" where
  "get_entity_type name = hbind require_started (\<lambda>_ s. case dget (sr_types s) name of None \<Rightarrow> type_not_found name s | Some t \<Rightarrow> (Inr t, s))"

definition save_entity_type :: "srv_env \<Rightarrow> string \<Rightarrow> pyval res \<Rightarrow> (server, unit) call" where
  "save_entity_type v name content = abort_on is_type_error InvalidArgument (hbind (hres (parse_type_content v content)) (\<lambda>t.
     hbind require_started (\<lambda>_ s. case dget (sr_types s) name of None \<Rightarrow> type_not_found name s
     | Some r \<Rightarrow> if et_system_protected r then protected_type name s
         else hbind (upsert_type name t) (\<lambda>_. emit_event changed_event) s)))"

text \<open>The answer is the number of instances; their rows are not touched.\<close>

definition delete_entity_type :: "string \<Rightarrow> bool \<Rightarrow> (server, nat) call" where
  "delete_entity_type name cascade = hbind require_started (\<lambda>_ s. case dget (sr_types s) name of None \<Rightarrow> type_not_found name s
     | Some r \<Rightarrow> if et_system_protected r then protected_type name s
         else hbind (hres (count_entities_for_type name r (srv_repo s))) (\<lambda>n s.
           if n \<noteq> 0 \<and> \<not> cascade
           then abort FailedPrecondition (''entity type '' @ quoted name @ '' has '' @ nat_str n @ '' instances'') s
           else hbind (\<lambda>s. (Inr (), s\<lparr>sr_types := dpop (sr_types s) name\<rparr>)) (\<lambda>_.
             hbind (emit_event changed_event) (\<lambda>_. hret n)) s) s)"

section \<open>Handlers of entities and relations\<close>

definition save_entity_to_db :: "draws \<Rightarrow> codec \<Rightarrow> (string, etype) dict \<Rightarrow> entity \<Rightarrow> unit rx" where
  "save_entity_to_db w c types e d =
     (if en_type e = ''relation''
      then (let a = en_attrs e; f = text_or a [''from_entity_id'', ''from'']; t = text_or a [''to_entity_id'', ''to''];
              ty = text_or a [''relation_type''] in
        if f = [] \<or> t = [] \<or> ty = []
        then Inl (ConfigError ''relation entity requires from_entity_id, to_entity_id and relation_type'')
        else rbind (metadata_of a) (\<lambda>m. rbind (create_relation w c f t ty m (Some types) d) (\<lambda>(_, d'). Inr ((), d'))))
      else if en_type e \<in> set core_types then rbind (save_core_entity w e d) (\<lambda>(_, d'). Inr ((), d'))
      else (case dget types (en_type e) of None \<Rightarrow> Inl (ConfigError (''unknown entity type: '' @ en_type e))
        | Some t \<Rightarrow> rbind (save_ordinary_entity w c e t d) (\<lambda>(_, d'). Inr ((), d'))))"

definition each_row :: "('x \<Rightarrow> unit rx) \<Rightarrow> 'x list \<Rightarrow> unit rx" where
  "each_row f xs d = rbind (fold_res (\<lambda>x d. rbind (f x d) (\<lambda>(_, d'). Inr d')) xs d) (\<lambda>d'. Inr ((), d'))"

definition is_config_or_value :: "err \<Rightarrow> bool" where
  "is_config_or_value e = (is_config_error e \<or> is_value_error e)"

definition no_snapshot :: "(server, 'a) call" where
  "no_snapshot = abort NotFound ''runtime snapshot not found''"

definition read_entities_config :: "(server, entity list) call" where
  "read_entities_config s = (if \<not> sr_started s then no_snapshot s else (Inr (es_entities (srv_store s)), s))"

definition save_entities_config :: "srv_env \<Rightarrow> pyval res \<Rightarrow> (server, pyval list) call" where
  "save_entities_config v body = abort_on is_config_or_value InvalidArgument (hbind (hres (rbind body (se_parse_entities v))) (\<lambda>es s.
     if \<not> sr_started s then no_snapshot s
     else (let types = es_types (srv_store s) in
       hbind (in_session (on_repo (each_row (save_entity_to_db (se_draws v) (se_codec v) types) es))) (\<lambda>_.
       hbind (emit_event changed_event) (\<lambda>_. hres (entity_list_payload (se_format v) types es))) s)))"

definition save_relation_row :: "draws \<Rightarrow> codec \<Rightarrow> (string, etype) dict \<Rightarrow> relation \<Rightarrow> unit rx" where
  "save_relation_row w c types r d = (case rl_entities r of
     [f, t] \<Rightarrow> rbind (create_relation w c f t (rl_type r) (rl_metadata r) (Some types) d) (\<lambda>(_, d'). Inr ((), d'))
   | _ \<Rightarrow> Inl (ConfigError ''relation must reference exactly two entities''))"

definition read_relations_config :: "(server, relation list) call" where
  "read_relations_config s = (if \<not> sr_started s then no_snapshot s else (Inr (es_relations (srv_store s)), s))"

definition save_relations_config :: "srv_env \<Rightarrow> pyval res \<Rightarrow> (server, relation list) call" where
  "save_relations_config v body = abort_on is_config_or_value InvalidArgument (hbind (hres (rbind body (se_parse_relations v))) (\<lambda>rs s.
     if \<not> sr_started s then no_snapshot s
     else hbind (in_session (on_repo (each_row (save_relation_row (se_draws v) (se_codec v) (es_types (srv_store s))) rs))) (\<lambda>_.
       hbind (emit_event changed_event) (\<lambda>_. hret rs)) s))"

text \<open>An error that is not a \<open>ConfigError\<close>, such as that of an end that does not exist, is not answered but raised.\<close>

definition create_entity_relation :: "srv_env \<Rightarrow> pyval res \<Rightarrow> (server, rel_row) call" where
  "create_entity_relation v body = hbind (abort_on is_value_error InvalidArgument (hres (rbind body (\<lambda>x. case x of
       PDict d \<Rightarrow> Inr d | _ \<Rightarrow> Inl (OtherError ''AttributeError''))))) (\<lambda>b.
     let refs = dget_default b ''entities'' (PList []); ty = py_str (dget_default b ''type'' (PStr []));
         meta = dget_default b ''metadata'' (PDict []) in
     if \<not> (case refs of PList xs \<Rightarrow> list_all is_str xs | _ \<Rightarrow> False) then abort InvalidArgument ''entities must be a list of strings''
     else if ty = [] then abort InvalidArgument ''relation type is required''
     else if \<not> is_dict meta then abort InvalidArgument ''metadata must be a mapping''
     else abort_on is_config_error InvalidArgument (case str_list refs of
         [f, t] \<Rightarrow> (\<lambda>s. if \<not> sr_started s then no_snapshot s
           else hbind (in_session (on_repo (create_relation (se_draws v) (se_codec v) f t ty (dict_of meta) (Some (es_types (srv_store s)))))) (\<lambda>r.
             hbind (emit_event changed_event) (\<lambda>_. hret r)) s)
       | _ \<Rightarrow> hres (Inl (ConfigError ''relation must reference exactly two entities''))))"

definition delete_entity_relation :: "string \<Rightarrow> (server, unit) call" where
  "delete_entity_relation i = hbind (in_session (on_repo (\<lambda>d. Inr (CoreRepo.delete_relation i d)))) (\<lambda>b.
     if \<not> b then abort NotFound (''Entity relation not found: '' @ i) else emit_event changed_event)"

end
