(* ===== verification/ServerAccess.thy ===== *)
theory ServerAccess
  imports ConfigService
begin

text \<open>
  The access to entities over the network (\<open>server.py\<close>): the identity of a caller and its rights, the queries, and the
  handlers of the entity service. \<open>permissions = None\<close> means that nothing is checked.
\<close>

section \<open>Who calls\<close>

text \<open>The development flag, the metadata of the call and the authentication context, in the order of iteration.\<close>

record caller =
  ca_dev :: bool
  ca_metadata :: "(string \<times> string) list"
  ca_auth :: "(string \<times> string list) list"

definition metadata_identity :: "caller \<Rightarrow> string option" where
  "metadata_identity c = map_option snd (first_of (\<lambda>(k, v). k = ''x-edera-identity'' \<and> v \<noteq> []) (ca_metadata c))"

definition certificate_identity :: "caller \<Rightarrow> string option" where
  "certificate_identity c = map_option (\<lambda>(_, v). hd v) (first_of (\<lambda>(k, v). k = ''x509_common_name'' \<and> v \<noteq> []) (ca_auth c))"

definition identity_of :: "caller \<Rightarrow> string option" where
  "identity_of c = (case metadata_identity c of Some i \<Rightarrow> Some i
     | None \<Rightarrow> if ca_dev c then Some ''human:dev'' else certificate_identity c)"

definition identified :: "caller \<Rightarrow> ('s, string) call" where
  "identified c = (case identity_of c of None \<Rightarrow> abort Unauthenticated ''client certificate required'' | Some i \<Rightarrow> hret i)"

section \<open>What a caller may do\<close>

type_synonym rights = "(string, pyval) dict option"

definition unrestricted :: "string \<Rightarrow> bool" where
  "unrestricted i = (i = ''human'' \<or> starts_with i ''human:'' \<or> starts_with i ''bff:'')"

definition default_identity_permissions :: "string \<Rightarrow> rights" where
  "default_identity_permissions i = (if unrestricted i then None else Some [])"

text \<open>The first instance in the DAGs by name that is, is called or is of the type of the node of the certificate.\<close>

definition named_instance :: "string \<Rightarrow> node_inst \<Rightarrow> bool" where
  "named_instance n i = (ni_id i = n \<or> ni_alias i = Some n \<or> ni_type i = n)"

definition identity_permissions_from_db :: "((string, pyval) dict \<Rightarrow> dag_cfg res) \<Rightarrow> string \<Rightarrow> repo \<Rightarrow> rights res" where
  "identity_permissions_from_db parse i d = (if unrestricted i then Inr None
     else if \<not> starts_with i ''node:'' then Inr (Some [])
     else rbind (list_dag_configs parse d) (\<lambda>dags.
       Inr (Some (case first_of (named_instance (removeprefix i ''node:'')) (concat (map dc_nodes (dvalues dags))) of
         None \<Rightarrow> [] | Some n \<Rightarrow> dict_of (aget (ni_config n) ''entity_permissions'')))))"

definition overrides_of :: "rights \<Rightarrow> string \<Rightarrow> (string, pyval) dict option" where
  "overrides_of p ty = (case p of None \<Rightarrow> None | Some d \<Rightarrow> type_overrides ty (PDict d))"

definition may_write :: "(string, etype) dict \<Rightarrow> rights \<Rightarrow> string \<Rightarrow> string \<Rightarrow> bool res" where
  "may_write types p ty f = (if p = None then Inr True
     else rbind (lookup_key types ty) (\<lambda>t. Inr (can_write (field_permission t f (overrides_of p ty)))))"

definition check_write :: "string \<Rightarrow> (string, etype) dict \<Rightarrow> rights \<Rightarrow> string \<Rightarrow> string \<Rightarrow> ('s, unit) call" where
  "check_write i types p ty f = hbind (hres (may_write types p ty f)) (\<lambda>b. if b then hret ()
     else abort PermissionDenied (i @ '' cannot write '' @ ty @ ''.'' @ f))"

definition readable_entity :: "(string, etype) dict \<Rightarrow> rights \<Rightarrow> entity \<Rightarrow> entity" where
  "readable_entity types p e = (if p = None then e else (case dget types (en_type e) of None \<Rightarrow> e
     | Some t \<Rightarrow> e\<lparr>en_attrs := filter (\<lambda>(k, _). can_read (field_permission t k (overrides_of p (en_type e)))) (en_attrs e)\<rparr>))"

section \<open>Filters\<close>

text \<open>\<open>filters_json\<close>: \<open>None\<close> when empty, otherwise what its text denotes.\<close>

definition filters_from_json :: "pyval res option \<Rightarrow> (string, string) dict res" where
  "filters_from_json x = (case x of None \<Rightarrow> Inr [] | Some b \<Rightarrow> rbind b (\<lambda>v. case v of
     PDict d \<Rightarrow> Inr (map (\<lambda>(k, v). (k, py_str v)) d) | _ \<Rightarrow> Inl (ValueError ''filters_json must be an object'')))"

definition filter_entities :: "entity list \<Rightarrow> (string, string) dict \<Rightarrow> entity list" where
  "filter_entities es fs = filter (\<lambda>e. list_all (\<lambda>(k, v). py_str (aget (en_attrs e) k) = v) fs) es"

definition has_relation_repository_filter :: "(string, string) dict \<Rightarrow> bool" where
  "has_relation_repository_filter fs = list_ex (\<lambda>k. dhas fs k) [''from_entity_id'', ''from'', ''to_entity_id'', ''to'', ''relation_type'']"

definition query_relation_rows :: "(string, string) dict \<Rightarrow> repo \<Rightarrow> entity list" where
  "query_relation_rows fs d = filter_entities (map relation_entity
     (list_relations (or_str (dget fs ''from_entity_id'') (dget fs ''from'')) (or_str (dget fs ''to_entity_id'') (dget fs ''to''))
       (dget fs ''relation_type'') d)) fs"

section \<open>Query expressions\<close>

function split_text :: "string \<Rightarrow> string \<Rightarrow> string list" where
  "split_text sep [] = [[]]"
| "split_text sep (c # s) = (if sep \<noteq> [] \<and> starts_with (c # s) sep then [] # split_text sep (drop (length sep) (c # s))
     else (case split_text sep s of [] \<Rightarrow> [[c]] | p # ps \<Rightarrow> (c # p) # ps))"
  by pat_completeness auto

termination
  by (relation "measure (\<lambda>(sep, s). length s)") auto

definition query_parts :: "string \<Rightarrow> string list" where
  "query_parts e = filter (\<lambda>p. p \<noteq> []) (map strip_ws (split_text ''AND'' e))"

definition has_char :: "char \<Rightarrow> string \<Rightarrow> bool" where
  "has_char c p = (c \<in> set p)"

definition halves :: "char \<Rightarrow> string \<Rightarrow> string \<times> string" where
  "halves c p = (case split_once c p of [a, b] \<Rightarrow> (strip_ws a, strip_ws b) | _ \<Rightarrow> (strip_ws p, []))"

text \<open>The parts \<open>key=value\<close> whose key is among \<open>ks\<close>, as a dictionary.\<close>

definition assignments :: "string list \<Rightarrow> string list \<Rightarrow> (string, string) dict" where
  "assignments ks ps = dmerge [] (filter (\<lambda>(k, _). k \<in> set ks) (map (halves (CHR ''='')) (filter (has_char (CHR ''='')) ps)))"

definition relation_filters :: "string list \<Rightarrow> (string, string) dict option" where
  "relation_filters ps = (if list_ex (\<lambda>p. has_char (CHR ''='') p \<and> halves (CHR ''='') p = (''type'', ''relation'')) ps
     then Some (assignments [''relation_type'', ''from_entity_id'', ''to_entity_id'', ''from'', ''to''] ps) else None)"

fun scan_parts :: "string \<Rightarrow> string \<Rightarrow> string list \<Rightarrow> string list \<Rightarrow> (string, string) dict \<Rightarrow> (string, string) dict" where
  "scan_parts prefix key ks [] fs = fs"
| "scan_parts prefix key ks (p # ps) fs = scan_parts prefix key ks ps
     (if starts_with p prefix then dset fs key (strip_ws (removeprefix p prefix))
      else if \<not> has_char (CHR ''='') p then fs
      else (let (k, v) = halves (CHR ''='') p in if k \<in> set ks then dset fs k v else fs))"

definition node_output_filters :: "string list \<Rightarrow> (string, string) dict option" where
  "node_output_filters ps = (let fs = scan_parts ''node_output:'' ''node_id'' [''type'', ''run_id'', ''node_id''] ps [] in
     if dget fs ''type'' = Some ''node-output'' \<or> dhas fs ''node_id'' \<or> dhas fs ''run_id'' then Some fs else None)"

definition runtime_filters :: "string list \<Rightarrow> (string, string) dict option" where
  "runtime_filters ps = (let fs = scan_parts ''runtime:'' ''type'' [''type'', ''run_id'', ''source_name''] ps [] in
     if dget fs ''type'' \<in> {Some ''runtime.edge-input'', Some ''runtime.source-recovery''} then Some fs else None)"

section \<open>Facts of runs as entities\<close>

definition edge_input_entity :: "draws \<Rightarrow> edge_input \<Rightarrow> entity" where
  "edge_input_entity w r = \<lparr>en_id = ei_run r @ '':'' @ ei_from r @ ''->'' @ ei_to r, en_type = ''runtime.edge-input'',
     en_attrs = [(''run_id'', PStr (ei_run r)), (''from_node_id'', PStr (ei_from r)), (''to_node_id'', PStr (ei_to r)),
       (''edge_optional'', PBool (ei_optional r)), (''status'', PStr (ei_status r)), (''has_payload'', PBool (ei_has_payload r)),
       (''error_summary'', opt_text (ei_error r)), (''created_at'', PStr (dw_iso w (ei_created r)))]\<rparr>"

definition source_recovery_entity :: "draws \<Rightarrow> source_recovery \<Rightarrow> entity" where
  "source_recovery_entity w r = \<lparr>en_id = rv_run r @ '':'' @ rv_node r @ '':'' @ rv_source r, en_type = ''runtime.source-recovery'',
     en_attrs = [(''run_id'', PStr (rv_run r)), (''node_id'', PStr (rv_node r)), (''source_name'', PStr (rv_source r)),
       (''recovery_status'', PStr (rv_status r)), (''attempt_count'', PInt (rv_attempts r)),
       (''recoverable_reason'', opt_text (rv_reason r)), (''latest_failure_reason'', opt_text (rv_failure r)),
       (''escalated'', PBool (rv_escalated r)), (''escalation_reason'', opt_text (rv_escalation r)),
       (''created_at'', PStr (dw_iso w (rv_created r)))]\<rparr>"

definition query_runtime_facts :: "draws \<Rightarrow> (string, string) dict \<Rightarrow> db \<Rightarrow> entity list" where
  "query_runtime_facts w fs d = (if dget fs ''type'' = Some ''runtime.edge-input''
     then (case dget fs ''run_id'' of None \<Rightarrow> [] | Some r \<Rightarrow> map (edge_input_entity w) (edge_inputs_for_run r d))
     else map (source_recovery_entity w) (source_recoveries (dget fs ''source_name'') 100 None d))"

definition query_node_outputs :: "(string, string) dict \<Rightarrow> db \<Rightarrow> entity list" where
  "query_node_outputs fs d = query_node_output_entities (if dget fs ''type'' = Some ''node-output'' then None else dget fs ''type'')
     (dget fs ''run_id'') (dget fs ''node_id'') None 100 d"

section \<open>Evaluation\<close>

definition to_flt :: "srv_env \<Rightarrow> pyval \<Rightarrow> flt res" where
  "to_flt v x = (case x of PFloat r _ \<Rightarrow> Inr (Finite r) | PInt i \<Rightarrow> se_int_float v i | PBool b \<Rightarrow> Inr (Finite (of_bool b))
     | PStr s \<Rightarrow> se_float v s | _ \<Rightarrow> Inl (TypeError ''float() argument must be a string or a real number''))"

fun flt_gt :: "flt \<Rightarrow> flt \<Rightarrow> bool" where
  "flt_gt (Finite a) (Finite b) = (b < a)"
| "flt_gt PosInf b = (b \<noteq> PosInf \<and> b \<noteq> NaN)"
| "flt_gt a NegInf = (a \<noteq> NegInf \<and> a \<noteq> NaN)"
| "flt_gt a b = False"

fun filter_res :: "('a \<Rightarrow> bool res) \<Rightarrow> 'a list \<Rightarrow> 'a list res" where
  "filter_res f [] = Inr []"
| "filter_res f (x # xs) = rbind (f x) (\<lambda>b. rbind (filter_res f xs) (\<lambda>ys. Inr (if b then x # ys else ys)))"

definition unsupported_query :: err where
  "unsupported_query = ValueError (''unsupported query expression; supported fields: type, relation_type, from, to, '' @
     ''node_id, run_id, runtime.edge-input, runtime.source-recovery'')"

definition apply_part :: "srv_env \<Rightarrow> string \<Rightarrow> entity list \<Rightarrow> entity list res" where
  "apply_part v p es =
     (if starts_with p ''type='' then Inr (filter (\<lambda>e. en_type e = strip_ws (removeprefix p ''type='')) es)
      else if has_char (CHR ''>'') p then (let (f, raw) = halves (CHR ''>'') p in
        filter_res (\<lambda>e. rbind (to_flt v (dget_default (en_attrs e) f (PInt 0))) (\<lambda>a. rbind (se_float v raw) (\<lambda>b. Inr (flt_gt a b)))) es)
      else if has_char (CHR ''='') p then (let (f, raw) = halves (CHR ''='') p in
        Inr (filter (\<lambda>e. py_str (aget (en_attrs e) f) = raw) es))
      else Inl unsupported_query)"

definition query_entities :: "srv_env \<Rightarrow> rights \<Rightarrow> string \<Rightarrow> server \<Rightarrow> entity list res" where
  "query_entities v p expression s =
     (let ps = query_parts expression in
      if ps = [] then Inl unsupported_query
      else rbind (case relation_filters ps of Some fs \<Rightarrow> Inr (query_relation_rows fs (srv_repo s))
        | None \<Rightarrow> (case runtime_filters ps of Some fs \<Rightarrow> Inr (query_runtime_facts (se_draws v) fs (sg_runs (sr_data s)))
        | None \<Rightarrow> (case node_output_filters ps of Some fs \<Rightarrow> Inr (query_node_outputs fs (sg_runs (sr_data s)))
        | None \<Rightarrow> fold_res (apply_part v) ps (query query_all (srv_store s)))))
        (\<lambda>es. Inr (map (readable_entity (es_types (srv_store s)) p) es)))"

section \<open>Messages\<close>

definition ref_or_id :: "(string, etype) dict \<Rightarrow> entity \<Rightarrow> string" where
  "ref_or_id types e = (case entity_ref e types of Inr r \<Rightarrow> r | Inl _ \<Rightarrow> en_id e)"

definition entity_message :: "srv_env \<Rightarrow> (string, etype) dict \<Rightarrow> entity \<Rightarrow> pyval res" where
  "entity_message v types e = rbind (case dget types (en_type e) of None \<Rightarrow> Inr (ref_or_id types e)
       | Some t \<Rightarrow> render_entity_display (se_format v) e t) (\<lambda>shown.
     Inr (PDict [(''ref'', PStr (ref_or_id types e)), (''display'', PStr shown), (''id'', PStr (en_id e)), (''type'', PStr (en_type e)),
       (''attributes'', PDict (en_attrs e))]))"

definition entity_type_message :: "string \<times> etype \<Rightarrow> pyval" where
  "entity_type_message nt = PDict [(''ref'', PStr (''entity_type:'' @ fst nt)), (''id'', PStr (fst nt)), (''type'', PStr ''entity_type''),
     (''attributes'', PDict (dset (etype_dump (snd nt)) ''name'' (PStr (fst nt))))]"

definition messages :: "srv_env \<Rightarrow> (string, etype) dict \<Rightarrow> entity list \<Rightarrow> (server, pyval list) call" where
  "messages v types es = hres (map_res (entity_message v types) es)"

definition optional_text :: "string \<Rightarrow> string option" where
  "optional_text t = (if t = [] then None else Some t)"

section \<open>Reading\<close>

definition get_handler :: "srv_env \<Rightarrow> caller \<Rightarrow> string \<Rightarrow> (server, pyval) call" where
  "get_handler v c ref = hbind (identified c) (\<lambda>_. hbind (reading (query_one_async (se_codec v) True ref None)) (\<lambda>r s.
     hres (entity_message v (es_types (srv_store s)) (qr_entity r)) s))"

text \<open>The store of the run, when the request names one that is active, takes the place of that of the server.\<close>

definition run_store :: "string \<Rightarrow> server \<Rightarrow> estore" where
  "run_store run s = (case dget (sr_active s) run of None \<Rightarrow> srv_store s | Some st \<Rightarrow> st)"

definition listed_entities :: "srv_env \<Rightarrow> string \<Rightarrow> string \<Rightarrow> (server, entity list) call" where
  "listed_entities v ty run s = hbind (reading (\<lambda>d. query_async (se_codec v) True (query_all\<lparr>qs_type := optional_text ty\<rparr>)
       (optional_text run) (d\<lparr>sg_store := run_store run s\<rparr>))) (\<lambda>rs. hret (map qr_entity rs)) s"

definition list_handler :: "srv_env \<Rightarrow> caller \<Rightarrow> string \<Rightarrow> string \<Rightarrow> pyval res option \<Rightarrow> (server, pyval list) call" where
  "list_handler v c ty run filters = hbind (identified c) (\<lambda>_. hbind require_started (\<lambda>_ s.
     if ty = ''entity_type'' then (Inr (map entity_type_message (list_entity_type_configs (sr_types s))), s)
     else hbind (hres (filters_from_json filters)) (\<lambda>fs s.
       if ty = ''relation'' \<and> has_relation_repository_filter fs then messages v (es_types (run_store run s)) (query_relation_rows fs (srv_repo s)) s
       else hbind (listed_entities v ty run) (\<lambda>es. messages v (es_types (run_store run s)) (filter_entities es fs)) s) s))"

text \<open>The request may name an identity itself.\<close>

definition query_handler :: "srv_env \<Rightarrow> caller \<Rightarrow> string \<Rightarrow> string \<Rightarrow> (server, entity list) call" where
  "query_handler v c claimed expression = hbind (if claimed \<noteq> [] then hret claimed else identified c) (\<lambda>i.
     hbind require_started (\<lambda>_. abort_on is_value_error InvalidArgument (\<lambda>s.
       hres (rbind (identity_permissions_from_db (se_parse v) i (srv_repo s)) (\<lambda>p. query_entities v p expression s)) s)))"

definition query_reply :: "srv_env \<Rightarrow> caller \<Rightarrow> string \<Rightarrow> string \<Rightarrow> (server, pyval list) call" where
  "query_reply v c claimed expression = hbind (query_handler v c claimed expression)
     (\<lambda>es s. messages v (es_types (srv_store s)) es s)"

definition relation_export_record :: "entity \<Rightarrow> pyval" where
  "relation_export_record e = (let a = en_attrs e; or_val = (\<lambda>k j. if truthy (aget a k) then aget a k else aget a j);
       refs = (case aget a ''entities'' of PList [x, y] \<Rightarrow> PList [x, y]
         | _ \<Rightarrow> PList [or_val ''from_entity_id'' ''from'', or_val ''to_entity_id'' ''to'']) in
     PDict [(''id'', PStr (en_id e)), (''entities'', refs), (''type'', aget a ''relation_type''),
       (''metadata'', if truthy (aget a ''metadata'') then aget a ''metadata'' else PDict [])])"

definition export_handler :: "srv_env \<Rightarrow> caller \<Rightarrow> string \<Rightarrow> string \<Rightarrow> (server, pyval \<times> nat) call" where
  "export_handler v c ty run = hbind (identified c) (\<lambda>_. hbind (listed_entities v ty run) (\<lambda>es.
     hret (if ty = ''relation'' then PDict [(''relations'', PList (map relation_export_record (filter (\<lambda>e. en_type e = ''relation'') es)))]
       else PDict [(''entities'', PList (map (\<lambda>e. PDict [(''id'', PStr (en_id e)), (''type'', PStr (en_type e)),
         (''attributes'', PDict (en_attrs e))]) es))], length es)))"

end
