(* ===== verification/ServerWrites.thy ===== *)
theory ServerWrites
  imports ServerAccess
begin

text \<open>
  The handlers of \<open>server.py\<close> that change entities: creation, update and deletion by the entity service, materialization
  of fields, and the edits of a DAG by the DAG service.
\<close>

section \<open>Common steps\<close>

definition object_body :: "string \<Rightarrow> pyval res \<Rightarrow> (string, pyval) dict res" where
  "object_body what b = rbind b (\<lambda>v. case v of PDict d \<Rightarrow> Inr d | _ \<Rightarrow> Inl (ValueError (what @ '' must be an object'')))"

definition database_entity_available :: "server \<Rightarrow> string \<Rightarrow> bool" where
  "database_entity_available s ty = (sr_started s \<and> (case dget (es_types (srv_store s)) ty of None \<Rightarrow> False
     | Some t \<Rightarrow> et_storage_tier t = Database))"

text \<open>\<open>_entity_store(config_dir)\<close>: a new store over the types of the files, which has no entities.\<close>

definition file_store :: "(string, etype) dict \<Rightarrow> estore" where
  "file_store types = \<lparr>es_entities = [], es_types = types, es_relations = [], es_memory = [], es_database = [], es_default_run = None\<rparr>"

definition validate_entity_for_store :: "estore \<Rightarrow> entity \<Rightarrow> bool \<Rightarrow> unit res" where
  "validate_entity_for_store st e replaced = validate_entities (filter (\<lambda>x. \<not> replaced \<or> en_id x \<noteq> en_id e) (es_entities st) @ [e]) (es_types st)"

definition save_database_entity :: "draws \<Rightarrow> codec \<Rightarrow> entity \<Rightarrow> etype \<Rightarrow> entity rx" where
  "save_database_entity w c e t = (if en_type e \<in> set core_types then save_core_entity w e else save_ordinary_entity w c e t)"

definition resolve_entity_for_mutation :: "codec \<Rightarrow> string \<Rightarrow> entity act" where
  "resolve_entity_for_mutation c ref s = (case query_one_async c True ref None s of (Inr r, s') \<Rightarrow> (Inr (qr_entity r), s')
     | (Inl e, s') \<Rightarrow> if is_config_error e then (resolve (sg_store s') ref None, s') else (Inl e, s'))"

definition after_database_entity_write :: "string \<Rightarrow> (server, unit) call" where
  "after_database_entity_write ty s = emit_event changed_event (if ty = ''trigger'' then s\<lparr>sr_reloads := Suc (sr_reloads s)\<rparr> else s)"

definition emit_entity_changed :: "(string, etype) dict \<Rightarrow> entity \<Rightarrow> (server, unit) call" where
  "emit_entity_changed types e = hbind (hres (entity_ref e types)) (\<lambda>r. emit_event (''event:entity-changed:'' @ r))"

definition rights_value :: "rights \<Rightarrow> pyval" where
  "rights_value p = (case p of None \<Rightarrow> PNone | Some d \<Rightarrow> PDict d)"

definition announce :: "srv_env \<Rightarrow> (string, etype) dict \<Rightarrow> entity \<Rightarrow> (server, pyval) call" where
  "announce v types e = hbind (emit_entity_changed types e) (\<lambda>_. hres (entity_message v types e))"

section \<open>Creating\<close>

definition create_relation_handler :: "srv_env \<Rightarrow> pyval res \<Rightarrow> (server, pyval) call" where
  "create_relation_handler v body = hbind require_started (\<lambda>_. hbind (hres (object_body ''entity json'' body)) (\<lambda>a.
     hbind (hres (rbind (str_attr a ''from_entity_id'') (\<lambda>f. rbind (str_attr a ''to_entity_id'') (\<lambda>t. rbind (str_attr a ''relation_type'') (\<lambda>ty.
       rbind (metadata_of a) (\<lambda>m. Inr (f, t, ty, m))))))) (\<lambda>(f, t, ty, m) s. let types = es_types (srv_store s) in
     hbind (in_session (on_repo (create_relation (se_draws v) (se_codec v) f t ty m (Some types)))) (\<lambda>r.
       hbind (emit_event changed_event) (\<lambda>_. hres (entity_message v types (relation_entity r)))) s)))"

definition create_database_handler :: "srv_env \<Rightarrow> string \<Rightarrow> string \<Rightarrow> pyval res \<Rightarrow> (server, pyval) call" where
  "create_database_handler v ty i body = hbind (hres (object_body ''entity json'' body)) (\<lambda>a.
     hbind (if i = [] then doing (draw_id (se_draws v)) else hret i) (\<lambda>i s.
     let types = es_types (srv_store s); e = \<lparr>en_id = i, en_type = ty, en_attrs = a\<rparr> in
     hbind (hres (validate_entity_for_store (srv_store s) e False)) (\<lambda>_.
     hbind (hres (lookup_key types ty)) (\<lambda>t.
     hbind (in_session (on_repo (save_database_entity (se_draws v) (se_codec v) e t))) (\<lambda>x.
     hbind (after_database_entity_write (en_type x)) (\<lambda>_. announce v types x)))) s))"

text \<open>What is created in the new store goes with it.\<close>

definition create_file_handler :: "srv_env \<Rightarrow> string \<Rightarrow> string \<Rightarrow> pyval res \<Rightarrow> (server, pyval) call" where
  "create_file_handler v ty i body = hbind (hres (se_file_types v)) (\<lambda>types. hbind (hres (object_body ''entity json'' body)) (\<lambda>a.
     hbind (doing (draw_id (se_draws v))) (\<lambda>fresh.
     hbind (hres (fst (create ty a (optional_text i) fresh (file_store types)))) (announce v types))))"

definition create_handler :: "srv_env \<Rightarrow> caller \<Rightarrow> string \<Rightarrow> string \<Rightarrow> pyval res \<Rightarrow> (server, pyval) call" where
  "create_handler v c ty i body = hbind (identified c) (\<lambda>_ s.
     if ty = ''relation'' then create_relation_handler v body s
     else if database_entity_available s ty then create_database_handler v ty i body s
     else create_file_handler v ty i body s)"

section \<open>Updating\<close>

definition update_body :: "pyval res \<Rightarrow> (string \<times> pyval) res" where
  "update_body b = rbind b (\<lambda>x. case x of PDict d \<Rightarrow> (case aget d ''field'' of PStr f \<Rightarrow> Inr (f, aget d ''value'')
       | _ \<Rightarrow> Inl (ValueError ''update json must contain field'')) | _ \<Rightarrow> Inl (ValueError ''update json must contain field''))"

definition save_updated :: "srv_env \<Rightarrow> string \<Rightarrow> rights \<Rightarrow> string \<Rightarrow> pyval \<Rightarrow> entity \<Rightarrow> (server, entity) call" where
  "save_updated v i p f x e s = (let st = srv_store s; u = e\<lparr>en_attrs := dset (en_attrs e) f x\<rparr> in
     hbind (check_write i (es_types st) p (en_type e) f) (\<lambda>_ s.
     if en_type e = ''relation'' then abort InvalidArgument ''relation update is not supported'' s
     else if \<not> database_entity_available s (en_type e) then doing (on_memory (save u (rights_value p))) s
     else hbind (hres (rbind (validate_entity_for_store st u True) (\<lambda>_. lookup_key (es_types st) (en_type e)))) (\<lambda>t.
       doing (on_repo (save_database_entity (se_draws v) (se_codec v) u t))) s) s)"

text \<open>Without a database the store is new and empty, and the entity is not found.\<close>

definition update_offline :: "srv_env \<Rightarrow> string \<Rightarrow> string \<Rightarrow> pyval res \<Rightarrow> (server, pyval) call" where
  "update_offline v i ref body = hbind (hres (se_file_types v)) (\<lambda>types. let st = file_store types; p = default_identity_permissions i in
     hbind (hres (update_body body)) (\<lambda>(f, x). hbind (hres (resolve st ref None)) (\<lambda>e.
     hbind (check_write i types p (en_type e) f) (\<lambda>_.
       if en_type e = ''relation'' then abort InvalidArgument ''relation update is not supported''
       else hbind (hres (fst (save (e\<lparr>en_attrs := dset (en_attrs e) f x\<rparr>) (rights_value p) st))) (announce v types)))))"

definition update_handler :: "srv_env \<Rightarrow> caller \<Rightarrow> string \<Rightarrow> pyval res \<Rightarrow> (server, pyval) call" where
  "update_handler v c ref body = hbind (identified c) (\<lambda>i s. if \<not> sr_started s then update_offline v i ref body s
     else hbind (hres (update_body body)) (\<lambda>(f, x). hbind (session_call (\<lambda>s. hbind (hres (identity_permissions_from_db (se_parse v) i (srv_repo s))) (\<lambda>p.
         hbind (doing (resolve_entity_for_mutation (se_codec v) ref)) (\<lambda>e. save_updated v i p f x e)) s)) (\<lambda>u.
       hbind (after_database_entity_write (en_type u)) (\<lambda>_ s. announce v (es_types (srv_store s)) u s))) s)"

section \<open>Deleting\<close>

definition blocking_relations_message :: "rel_row list \<Rightarrow> string" where
  "blocking_relations_message rs = (if join '', '' (map rr_id rs) = [] then ''Entity is referenced by relations''
     else ''Entity is referenced by relations: '' @ join '', '' (map rr_id rs))"

definition delete_stored :: "srv_env \<Rightarrow> bool \<Rightarrow> entity \<Rightarrow> (server, bool \<times> rel_row list) call" where
  "delete_stored v force e s = (let types = es_types (srv_store s); c = se_codec v in
     if en_type e = ''relation''
     then doing (on_repo (\<lambda>d. case CoreRepo.delete_relation (en_id e) d of (b, d') \<Rightarrow> Inr ((b, []), d'))) s
     else if database_entity_available s (en_type e)
     then hbind (if force then doing (on_repo (\<lambda>d. Inr ((), snd (force_delete_entity_relations (entity_refs e types) d)))) else hret ()) (\<lambda>_.
       doing (on_repo (if en_type e \<in> set core_types then (\<lambda>d. Inr (delete_core_entity (en_id e) types d))
         else delete_ordinary_entity c (en_id e) types))) s
     else hbind (doing (on_memory (delete_entity (en_id e)))) (\<lambda>_. hret (True, [])) s)"

definition delete_handler :: "srv_env \<Rightarrow> caller \<Rightarrow> string \<Rightarrow> bool \<Rightarrow> (server, unit) call" where
  "delete_handler v c ref force = hbind (identified c) (\<lambda>_ s.
     if \<not> sr_started s then hbind (hres (se_file_types v)) (\<lambda>types. hbind (hres (resolve (file_store types) ref None)) (\<lambda>e.
       hbind (hres (fst (delete_entity (en_id e) (file_store types)))) (\<lambda>_. emit_entity_changed types e))) s
     else hbind (session_call (hbind (doing (resolve_entity_for_mutation (se_codec v) ref)) (\<lambda>e.
         hbind (delete_stored v force e) (\<lambda>r. hret (e, r))))) (\<lambda>(e, b, rels) s.
       if \<not> b then (if rels \<noteq> [] then abort FailedPrecondition (blocking_relations_message rels) s
         else abort NotFound (''Entity not found: '' @ ref) s)
       else hbind (after_database_entity_write (en_type e)) (\<lambda>_ s. emit_entity_changed (es_types (srv_store s)) e s) s) s)"

section \<open>Materializing\<close>

definition plan_dict :: "mat_plan \<Rightarrow> (string, pyval) dict" where
  "plan_dict p = [(''entity_type'', PStr (mp_type p)), (''table_name'', PStr (mp_table p)), (''field'', PStr (mp_field p)),
     (''column'', PStr (mp_field p)), (''column_type'', PStr (mat_type_text (mp_column p))), (''index'', PBool (mp_index p)),
     (''index_name'', opt_text (mp_index_name p)), (''backfill_count'', PInt (int (mp_backfill p))), (''column_exists'', PBool (mp_exists p))]"

definition requested_type :: "pyval \<Rightarrow> mat_type option res" where
  "requested_type x = (if is_none x \<or> py_str x = [] then Inr None
     else (case mat_type_of (py_str x) of None \<Rightarrow> Inl (ValueError ''not a column type'') | Some m \<Rightarrow> Inr (Some m)))"

definition inspect_fields :: "string \<Rightarrow> etype \<Rightarrow> (string, pyval) dict" where
  "inspect_fields ty t = [(''entity_type'', PStr ty), (''table_name'', opt_text (et_table_name t)),
     (''materialized_fields'', PDict (map (\<lambda>(n, m). (n, mat_field_dump m)) (et_materialized t))), (''deprecated_fields'', strs (et_deprecated t))]"

definition apply_field :: "srv_env \<Rightarrow> string \<Rightarrow> etype \<Rightarrow> string \<Rightarrow> mat_type option \<Rightarrow> bool option \<Rightarrow> (server, mat_plan) call" where
  "apply_field v ty t f fty ix s = hbind (session_call (hbind (doing (on_repo (apply_materialization (se_codec v) ty t f fty ix))) (\<lambda>p.
     hbind (upsert_type ty (t\<lparr>et_materialized := dset (et_materialized t) f \<lparr>mf_type = mp_column p, mf_index = mp_index p\<rparr>\<rparr>)) (\<lambda>_. hret p))))
     (\<lambda>p. hbind (emit_event changed_event) (\<lambda>_. hret p)) s"

definition materialize_operation :: "srv_env \<Rightarrow> string \<Rightarrow> string \<Rightarrow> etype \<Rightarrow> (string, pyval) dict \<Rightarrow> (server, (string, pyval) dict) call" where
  "materialize_operation v op ty t b = (let f = text_or b [''field'']; ix = (if dhas b ''index'' then Some (truthy (aget b ''index'')) else None);
       needs_field = (\<lambda>m. if f = [] then hres (Inl (ValueError ''field is required'')) else m) in
     if op = ''inspect'' then hret (inspect_fields ty t)
     else if op = ''plan'' then needs_field (hbind (hres (requested_type (aget b ''type''))) (\<lambda>fty.
       hbind (reading (on_repo (materialization_plan ty t f fty ix))) (\<lambda>p. hret (plan_dict p))))
     else if op = ''apply'' then needs_field (hbind (hres (requested_type (aget b ''type''))) (\<lambda>fty.
       hbind (apply_field v ty t f fty ix) (\<lambda>p. hret (dset (plan_dict p) ''applied'' (PBool True)))))
     else if op = ''cleanup-ready'' then needs_field (hbind (reading (on_repo (deprecated_cleanup_ready ty t f))) (\<lambda>r.
       hret [(''entity_type'', PStr ty), (''field'', PStr f), (''cleanup_ready'', PBool r)]))
     else hres (Inl (ValueError (''unknown materialize operation: '' @ op))))"

definition materialize_handler :: "srv_env \<Rightarrow> caller \<Rightarrow> pyval res \<Rightarrow> (server, (string, pyval) dict) call" where
  "materialize_handler v c body = hbind (identified c) (\<lambda>_. hbind require_started (\<lambda>_.
     hbind (hres (object_body ''materialize request'' body)) (\<lambda>b s.
     let ty = text_or b [''entity_type''] in
     case (if ty = [] then None else dget (es_types (srv_store s)) ty) of None \<Rightarrow> abort NotFound (''unknown entity type: '' @ ty) s
     | Some t \<Rightarrow> if ty \<in> set core_types \<or> et_storage_tier t \<noteq> Database
         then abort InvalidArgument (''entity type is not ordinary database-backed: '' @ ty) s
         else materialize_operation v (text_or b [''operation'']) ty t b s)))"

section \<open>Editing a DAG\<close>

definition nonempty_str :: "pyval \<Rightarrow> bool" where
  "nonempty_str v = (is_str v \<and> truthy v)"

text \<open>The dumped configuration with the edit made in it.\<close>

definition edited_attrs :: "string \<Rightarrow> pyval \<Rightarrow> (string, pyval) dict \<Rightarrow> (string, pyval) dict res" where
  "edited_attrs op payload a = (let items = (\<lambda>k. case aget a k of PList xs \<Rightarrow> xs | _ \<Rightarrow> []); b = dict_of payload;
       f = aget b ''from''; t = aget b ''to'' in
     if op \<in> {''add-node'', ''add-edge'', ''remove-edge''} \<and> \<not> is_dict payload then Inl (OtherError ''AttributeError'')
     else if op = ''add-node''
     then (if \<not> nonempty_str (aget b ''id'') \<or> \<not> nonempty_str (aget b ''type'') then Inl (ValueError ''add-node requires id and type'')
       else Inr (dset a ''nodes'' (PList (items ''nodes'' @ [PDict [(''id'', aget b ''id''), (''type'', aget b ''type''),
         (''config'', PDict (dict_of (aget b ''config'')))]]))))
     else if op = ''add-edge''
     then (if \<not> nonempty_str f \<or> \<not> nonempty_str t then Inl (ValueError ''add-edge requires from and to'')
       else Inr (dset a ''edges'' (PList (items ''edges'' @ [PDict ([(''from'', f), (''to'', t)]
         @ (if truthy (aget b ''optional'') then [(''optional'', PBool True)] else []))]))))
     else if op = ''remove-edge''
     then Inr (dset a ''edges'' (PList (filter (\<lambda>e. case e of
         PDict d \<Rightarrow> \<not> (py_eq (aget d ''from'') f \<and> py_eq (aget d ''to'') t) | _ \<Rightarrow> True) (items ''edges''))))
     else Inl (ValueError (''unknown dag edit operation: '' @ op)))"

definition edit_missing_dag :: "string \<Rightarrow> err" where
  "edit_missing_dag n = DagError (''missing DAG config: '' @ n)"

definition edit_missing_node :: "string \<Rightarrow> err" where
  "edit_missing_node n = DagError (''missing node config: '' @ n)"

definition edit_closure :: "srv_env \<Rightarrow> string \<Rightarrow> dag_cfg \<Rightarrow> repo \<Rightarrow> (string, dag_cfg) dict res" where
  "edit_closure v name c d = rbind (cand_nodes (edit_missing_dag, edit_missing_node) (se_parse v) (se_parse_node v) d (dc_nodes c) ([(name, c)], []))
     (\<lambda>t. Inr (fst t))"

definition edited_dag :: "srv_env \<Rightarrow> string \<Rightarrow> string \<Rightarrow> pyval \<Rightarrow> repo \<Rightarrow> (string \<times> dag_cfg) res" where
  "edited_dag v name op b d = (case get_dag_entity name d of None \<Rightarrow> Inl (KeyError name)
     | Some e \<Rightarrow> rbind (se_parse v (en_attrs e)) (\<lambda>old. rbind (edited_attrs op b (dag_dump old)) (\<lambda>a. rbind (se_parse v a) (\<lambda>c.
         rbind (edit_closure v name c d) (\<lambda>dags. rbind (validate_sub_dag_nesting dags (se_depth v)) (\<lambda>_. Inr (en_id e, c)))))))"

definition edit_runtime_dag :: "srv_env \<Rightarrow> string \<Rightarrow> string \<Rightarrow> pyval \<Rightarrow> (server, unit) call" where
  "edit_runtime_dag v name op b = hbind require_started (\<lambda>_ s. hbind (hres (edited_dag v name op b (srv_repo s))) (\<lambda>(i, c).
     hbind (in_session (on_repo (save_core_entity (se_draws v) \<lparr>en_id = i, en_type = ''dag'', en_attrs = dag_dump c\<rparr>))) (\<lambda>_.
     emit_event changed_event)) s)"

fun is_dag_or_value :: "err \<Rightarrow> bool" where
  "is_dag_or_value (DagError _) = True"
| "is_dag_or_value (ValueError _) = True"
| "is_dag_or_value _ = False"

definition edit_handler :: "srv_env \<Rightarrow> caller \<Rightarrow> string \<Rightarrow> string \<Rightarrow> pyval res \<Rightarrow> (server, unit) call" where
  "edit_handler v c name op body = hbind (identified c) (\<lambda>_. hbind (hres body) (\<lambda>b s. case abort_on is_dag_or_value InvalidArgument (edit_runtime_dag v name op b) s of
     (Inl (Raised (KeyError _)), s') \<Rightarrow> (Inl (Abort NotFound (''dag '' @ quoted name @ '' not found'')), s') | r \<Rightarrow> r))"

end
