(* ===== verification/AccessProps.thy ===== *)
theory AccessProps
  imports ServerWrites GraphProps
begin

text \<open>
  Properties of the access to entities: what the answer to a query shows, and when an update is refused.
\<close>

section \<open>Steps of a handler\<close>

lemma hres_eq: "hres r s = (x, s') \<longleftrightarrow> x = (case r of Inl e \<Rightarrow> Inl (Raised e) | Inr a \<Rightarrow> Inr a) \<and> s' = s"
  by (auto simp: hres_def split: sum.splits)

lemma abort_eq: "abort c m s = (x, s') \<longleftrightarrow> x = Inl (Abort c m) \<and> s' = s"
  by (auto simp: abort_def)

lemma abort_on_Inr: "abort_on P c m s = (Inr a, s') \<longleftrightarrow> m s = (Inr a, s')"
  by (auto simp: abort_on_def split: prod.splits sum.splits failure.splits if_splits)

lemma require_started_Inr: "require_started s = (Inr x, s') \<longleftrightarrow> sr_started s \<and> s' = s"
  by (auto simp: require_started_def)

lemma identified_Inr: "identified c s = (Inr i, s') \<longleftrightarrow> identity_of c = Some i \<and> s' = s"
  by (auto simp: identified_def abort_def hret_def split: option.splits)

lemma check_write_Inr: "check_write i types p ty f s = (Inr x, s') \<longleftrightarrow> may_write types p ty f = Inr True \<and> s' = s"
  by (auto simp: check_write_def hbind_Inr hres_Inr hret_iff abort_def)

lemma abort_no: "abort c m s \<noteq> (Inr a, s')"
  by (simp add: abort_def)

lemmas call_Inr = handler_Inr abort_on_Inr require_started_Inr identified_Inr check_write_Inr abort_no

lemma hbind_Inl: "m s = (Inl e, s') \<Longrightarrow> hbind m f s = (Inl e, s')"
  by (simp add: hbind_def)

lemma hbind_step: "m s = (Inr a, s') \<Longrightarrow> hbind m f s = f a s'"
  by (simp add: hbind_def)

section \<open>Queries\<close>

definition calls_as :: "caller \<Rightarrow> string \<Rightarrow> string option" where
  "calls_as c claimed = (if claimed \<noteq> [] then Some claimed else identity_of c)"

lemma rights_known: "identity_permissions_from_db parse i d = Inr p \<Longrightarrow> p = None \<longleftrightarrow> unrestricted i"
  by (auto simp: identity_permissions_from_db_def split: if_splits)

lemma readable_none: "readable_entity types None e = e"
  by (simp add: readable_entity_def)

lemma readable_shows:
  assumes "dget types (en_type e) = Some t" "kv \<in> set (en_attrs (readable_entity types (Some d) e))"
  shows "can_read (field_permission t (fst kv) (overrides_of (Some d) (en_type e)))"
  using assms by (auto simp: readable_entity_def)

lemma readable_type [simp]: "en_type (readable_entity types p e) = en_type e" "en_id (readable_entity types p e) = en_id e"
  by (auto simp: readable_entity_def split: option.splits)

lemma query_none: "query_entities v p expression s = Inr es \<Longrightarrow>
  \<exists>raw. query_entities v None expression s = Inr raw \<and> es = map (readable_entity (es_types (srv_store s)) p) raw"
  by (auto simp: query_entities_def readable_none Let_def split: if_splits)

text \<open>C6: The answer of \<open>Query\<close> is what the caller without restrictions would get, with the fields left out that the
  rights of the identity do not allow to read: no field of an entity of a known type is shown that is not readable. The
  selection itself does not regard the rights. The state does not change.\<close>

theorem query_hides_unreadable:
  assumes "query_handler v c claimed expression s = (Inr es, s')" "calls_as c claimed = Some i"
  shows "s' = s \<and> (\<exists>p raw. identity_permissions_from_db (se_parse v) i (srv_repo s) = Inr p \<and> (p = None \<longleftrightarrow> unrestricted i)
    \<and> query_entities v None expression s = Inr raw \<and> es = map (readable_entity (es_types (srv_store s)) p) raw
    \<and> (p \<noteq> None \<longrightarrow> (\<forall>e \<in> set es. \<forall>t. dget (es_types (srv_store s)) (en_type e) = Some t \<longrightarrow>
        (\<forall>kv \<in> set (en_attrs e). can_read (field_permission t (fst kv) (overrides_of p (en_type e)))))))"
proof -
  have run: "s' = s" "rbind (identity_permissions_from_db (se_parse v) i (srv_repo s)) (\<lambda>p. query_entities v p expression s) = Inr es"
    using assms by (auto simp: query_handler_def calls_as_def call_Inr split: if_splits)
  then obtain p where p: "identity_permissions_from_db (se_parse v) i (srv_repo s) = Inr p" "query_entities v p expression s = Inr es"
    by auto
  obtain raw where raw: "query_entities v None expression s = Inr raw" "es = map (readable_entity (es_types (srv_store s)) p) raw"
    using query_none [OF p(2)] by blast
  have "can_read (field_permission t (fst kv) (overrides_of p (en_type e)))"
    if that: "p = Some d" "e \<in> set es" "dget (es_types (srv_store s)) (en_type e) = Some t" "kv \<in> set (en_attrs e)" for d e t kv
  proof -
    from that(1,2) raw(2) obtain x where x: "e = readable_entity (es_types (srv_store s)) (Some d) x" by auto
    show ?thesis using readable_shows [of "es_types (srv_store s)" x t kv d] that unfolding x by simp
  qed
  then show ?thesis using run(1) p(1) rights_known [OF p(1)] raw by blast
qed

section \<open>Updates\<close>

lemma on_repo_keeps: "on_repo f d = (r, d') \<Longrightarrow> sg_store d' = sg_store d \<and> sg_runs d' = sg_runs d"
  by (auto simp: on_repo_def split: sum.splits)

lemma database_entity_keeps: "get_database_entity c ref d = (r, d') \<Longrightarrow> sg_store d' = sg_store d \<and> sg_runs d' = sg_runs d"
  by (auto simp: get_database_entity_def ebind_def eret_def eget_def Let_def dest: on_repo_keeps split: option.splits prod.splits sum.splits)

lemma query_one_keeps: "query_one_async c b ref run d = (r, d') \<Longrightarrow> sg_store d' = sg_store d \<and> sg_runs d' = sg_runs d"
  by (auto simp: query_one_async_def ebind_def eret_def ethrow_def Let_def dest: database_entity_keeps split: option.splits prod.splits sum.splits if_splits)

lemma resolve_keeps: "resolve_entity_for_mutation c ref d = (r, d') \<Longrightarrow> sg_store d' = sg_store d \<and> sg_runs d' = sg_runs d"
  by (auto simp: resolve_entity_for_mutation_def dest: query_one_keeps split: prod.splits sum.splits if_splits)

lemma doing_eq: "f (sr_data s) = (r, d) \<Longrightarrow> doing f s = (case r of Inl e \<Rightarrow> Inl (Raised e) | Inr a \<Rightarrow> Inr a, s\<lparr>sr_data := d\<rparr>)"
  by (auto simp: doing_def split: sum.splits)

lemma same_data: "sg_store d = sg_store (sr_data s) \<Longrightarrow> s\<lparr>sr_data := (sr_data s)\<lparr>sg_store := sg_store d\<rparr>\<rparr> = s"
  by simp

lemma emit_event_data: "emit_event e s = (r, s') \<Longrightarrow> sr_data s' = sr_data s"
  by (auto simp: emit_event_def split: if_splits)

lemma after_write_Inr: "after_database_entity_write ty s = (Inr x, s') \<Longrightarrow> sr_data s' = sr_data s"
  by (auto simp: after_database_entity_write_def emit_event_def split: if_splits)

lemma announce_Inr: "announce v types e s = (Inr m, s') \<longleftrightarrow> sr_started s \<and> (\<exists>r. entity_ref e types = Inr r \<and> entity_message v types e = Inr m
    \<and> s' = s\<lparr>sr_events := sr_events s @ [''event:entity-changed:'' @ r]\<rparr>)"
  by (auto simp: announce_def emit_entity_changed_def call_Inr emit_event_def split: if_splits)

definition changed_field :: "entity \<Rightarrow> string \<Rightarrow> pyval \<Rightarrow> entity" where
  "changed_field e f x = e\<lparr>en_attrs := dset (en_attrs e) f x\<rparr>"

text \<open>What an accepted update did to the stores: the entity with the one field changed went to the tables when its type is
  kept in the database, to the store in memory otherwise.\<close>

definition update_done :: "srv_env \<Rightarrow> rights \<Rightarrow> entity \<Rightarrow> string \<Rightarrow> pyval \<Rightarrow> server \<Rightarrow> repo \<Rightarrow> server \<Rightarrow> bool" where
  "update_done v p e f x s d s' = (\<exists>u. if database_entity_available s (en_type e)
     then sg_store (sr_data s') = srv_store s \<and> sg_runs (sr_data s') = sg_runs (sr_data s) \<and> (\<exists>t. dget (es_types (srv_store s)) (en_type e) = Some t
       \<and> save_database_entity (se_draws v) (se_codec v) (changed_field e f x) t d = Inr (u, srv_repo s'))
     else save (changed_field e f x) (rights_value p) (srv_store s) = (Inr u, srv_store s') \<and> srv_repo s' = d)"

lemma save_updated_Inr:
  assumes "save_updated v i p f x e s = (Inr u, s')"
  shows "may_write (es_types (srv_store s)) p (en_type e) f = Inr True \<and> update_done v p e f x s (srv_repo s) s'"
  using assms
  by (auto simp: save_updated_def Let_def call_Inr update_done_def changed_field_def srv_store_def srv_repo_def doing_def on_memory_def
      on_repo_def lookup_key_def split: if_splits prod.splits sum.splits option.splits)

text \<open>C7: With the database, an update by a caller is refused, and nothing has changed, when the rights of its identity do
  not allow to write the field of the entity that the request names. An update that succeeds was allowed, and it stored
  that entity with this field changed.\<close>

theorem update_needs_right:
  assumes "identity_of c = Some i" "sr_started s" "update_body body = Inr (f, x)"
    "identity_permissions_from_db (se_parse v) i (srv_repo s) = Inr p"
    "resolve_entity_for_mutation (se_codec v) ref (sr_data s) = (Inr e, d)"
  shows "(may_write (es_types (srv_store s)) p (en_type e) f = Inr False
      \<longrightarrow> update_handler v c ref body s = (Inl (Abort PermissionDenied (i @ '' cannot write '' @ en_type e @ ''.'' @ f)), s))
    \<and> (\<forall>m s'. update_handler v c ref body s = (Inr m, s')
      \<longrightarrow> may_write (es_types (srv_store s)) p (en_type e) f = Inr True \<and> update_done v p e f x s (sg_repo d) s')"
proof -
  have k: "sg_store d = sg_store (sr_data s)" "sg_runs d = sg_runs (sr_data s)" using resolve_keeps [OF assms(5)] by auto
  have dr: "doing (resolve_entity_for_mutation (se_codec v) ref) s = (Inr e, s\<lparr>sr_data := d\<rparr>)" using assms(5) by (simp add: doing_def)
  let ?m = "\<lambda>s. hbind (hres (identity_permissions_from_db (se_parse v) i (srv_repo s))) (\<lambda>p.
      hbind (doing (resolve_entity_for_mutation (se_codec v) ref)) (\<lambda>e. save_updated v i p f x e)) s"
  have m: "?m s = save_updated v i p f x e (s\<lparr>sr_data := d\<rparr>)"
    using assms(4) dr by (simp add: hbind_def hres_def)
  have run: "update_handler v c ref body s = hbind (session_call ?m) (\<lambda>u.
      hbind (after_database_entity_write (en_type u)) (\<lambda>_ s. announce v (es_types (srv_store s)) u s)) s"
    using assms(1-3) by (simp add: update_handler_def hbind_def identified_def hres_def hret_def)
  have types: "srv_store (s\<lparr>sr_data := d\<rparr>) = srv_store s" using k(1) by (simp add: srv_store_def)
  have denied: "update_handler v c ref body s = (Inl (Abort PermissionDenied (i @ '' cannot write '' @ en_type e @ ''.'' @ f)), s)"
    if "may_write (es_types (srv_store s)) p (en_type e) f = Inr False"
  proof -
    have "save_updated v i p f x e (s\<lparr>sr_data := d\<rparr>) = (Inl (Abort PermissionDenied (i @ '' cannot write '' @ en_type e @ ''.'' @ f)), s\<lparr>sr_data := d\<rparr>)"
      using that by (simp add: save_updated_def Let_def check_write_def types hbind_def hres_def abort_def)
    then have "session_call ?m s = (Inl (Abort PermissionDenied (i @ '' cannot write '' @ en_type e @ ''.'' @ f)), s)"
      using assms(2) m k(1) by (simp add: session_call_def)
    then show ?thesis unfolding run by (rule hbind_Inl)
  qed
  have kept: "may_write (es_types (srv_store s)) p (en_type e) f = Inr True \<and> update_done v p e f x s (sg_repo d) s'"
    if "update_handler v c ref body s = (Inr r, s')" for r s'
  proof -
    from that [unfolded run] obtain u s1 where u: "session_call ?m s = (Inr u, s1)" "sr_data s' = sr_data s1"
      by (auto simp: call_Inr announce_Inr dest!: after_write_Inr)
    then have su: "save_updated v i p f x e (s\<lparr>sr_data := d\<rparr>) = (Inr u, s1)" using assms(2) m by (auto simp: session_call_def split: prod.splits sum.splits)
    have "database_entity_available (s\<lparr>sr_data := d\<rparr>) = database_entity_available s" by (simp add: database_entity_available_def types fun_eq_iff)
    then show ?thesis using save_updated_Inr [OF su] u(2) k
      by (cases "database_entity_available s (en_type e)") (simp_all add: update_done_def srv_store_def srv_repo_def)
  qed
  show ?thesis using denied kept by blast
qed

section \<open>Examples\<close>

text \<open>A type with a secret field, a document of it in the store, and a caller with the certificate of the node \<open>n\<close>.\<close>

definition doc_type :: etype where
  "doc_type = \<lparr>et_display_name = ''Doc'', et_business_id_field = ''id'', et_display_template = ''{id}'', et_storage_tier = Database,
     et_table_name = None, et_schema_version = 1, et_materialized = [], et_deprecated = [], et_system_protected = False,
     et_schema = [], et_field_permissions = [(''secret'', PermNone)], et_validate = True\<rparr>"

definition doc :: entity where
  "doc = \<lparr>en_id = ''d'', en_type = ''doc'', en_attrs = [(''id'', PStr ''d''), (''secret'', PStr ''s'')]\<rparr>"

definition access_env :: srv_env where
  "access_env = \<lparr>se_draws = demo_draws,
     se_codec = \<lparr>cd_dumps = py_str, cd_loads = (\<lambda>s. Inr (PStr s)), cd_float_text = (\<lambda>_. []), cd_float_of = (\<lambda>_. Inl (ValueError []))\<rparr>,
     se_parse = read_dag, se_parse_node = (\<lambda>a. Inr \<lparr>nc_name = py_str (aget a ''name''), nc_role = Processor, nc_input_type = ''Any'',
       nc_output_type = ''Any'', nc_optional = False, nc_timeout = None, nc_emits = [], nc_variant = FunctionNode ''h'' [] [] [] None None []\<rparr>),
     se_parse_type = (\<lambda>_. Inr doc_type), se_parse_entities = (\<lambda>_. Inr []), se_parse_relations = (\<lambda>_. Inr []), se_format = (\<lambda>_ _. Inr []),
     se_float = (\<lambda>_. Inr (Finite 0)), se_int_float = (\<lambda>i. Inr (Finite (of_int i))),
     se_file_types = Inr [(''note'', doc_type\<lparr>et_storage_tier := Filesystem\<rparr>)], se_depth = 3\<rparr>"

definition access_server :: server where
  "access_server = \<lparr>sr_data = \<lparr>sg_repo = empty_repo, sg_runs = empty_db, sg_store = (file_store [(''doc'', doc_type)])\<lparr>es_entities := [doc]\<rparr>\<rparr>,
     sr_types = [], sr_started = True, sr_active = [], sr_events = [], sr_reloads = 0\<rparr>"

definition node_caller :: caller where
  "node_caller = \<lparr>ca_dev = False, ca_metadata = [], ca_auth = [(''x509_common_name'', [''node:n''])]\<rparr>"

theorem query_hides_unreadable_witness:
  "\<exists>es. query_handler access_env node_caller [] ''type=doc AND secret=s'' access_server = (Inr es, access_server) \<and> map en_id es = [''d'']
    \<and> (\<forall>e \<in> set es. \<forall>kv \<in> set (en_attrs e). en_type e = ''doc'' \<longrightarrow> can_read (field_permission doc_type (fst kv) (overrides_of (Some []) ''doc'')))"
proof -
  have "case query_handler access_env node_caller [] ''type=doc AND secret=s'' access_server of (Inr es, s) \<Rightarrow> map en_id es = [''d''] | _ \<Rightarrow> False"
    by code_simp
  then obtain es s where es: "query_handler access_env node_caller [] ''type=doc AND secret=s'' access_server = (Inr es, s)" "map en_id es = [''d'']"
    by (auto split: prod.splits sum.splits)
  have who: "calls_as node_caller [] = Some ''node:n''"
    "identity_permissions_from_db (se_parse access_env) ''node:n'' (srv_repo access_server) = Inr (Some [])"
    "dget (es_types (srv_store access_server)) ''doc'' = Some doc_type" by code_simp+
  have s: "s = access_server" and shown: "\<forall>e \<in> set es. \<forall>t. dget (es_types (srv_store access_server)) (en_type e) = Some t \<longrightarrow>
      (\<forall>kv \<in> set (en_attrs e). can_read (field_permission t (fst kv) (overrides_of (Some []) (en_type e))))"
    using query_hides_unreadable [OF es(1) who(1)] who(2) by auto
  from shown who(3) have "\<forall>e \<in> set es. \<forall>kv \<in> set (en_attrs e). en_type e = ''doc'' \<longrightarrow> can_read (field_permission doc_type (fst kv) (overrides_of (Some []) ''doc''))"
    by metis
  then show ?thesis using es unfolding s by (intro exI [of _ es] conjI) assumption+
qed

theorem update_needs_right_witness:
  "update_handler access_env node_caller ''d'' (Inr (PDict [(''field'', PStr ''secret''), (''value'', PNone)])) access_server
    = (Inl (Abort PermissionDenied ''node:n cannot write doc.secret''), access_server)"
proof -
  have who: "identity_of node_caller = Some ''node:n''" "sr_started access_server"
    "update_body (Inr (PDict [(''field'', PStr ''secret''), (''value'', PNone)])) = Inr (''secret'', PNone)"
    "identity_permissions_from_db (se_parse access_env) ''node:n'' (srv_repo access_server) = Inr (Some [])"
    "may_write (es_types (srv_store access_server)) (Some []) ''doc'' ''secret'' = Inr False" by code_simp+
  have "case resolve_entity_for_mutation (se_codec access_env) ''d'' (sr_data access_server) of (Inr e, d) \<Rightarrow> en_type e = ''doc'' | _ \<Rightarrow> False"
    by code_simp
  then obtain e d where e: "resolve_entity_for_mutation (se_codec access_env) ''d'' (sr_data access_server) = (Inr e, d)" "en_type e = ''doc''"
    by (auto split: prod.splits sum.splits)
  from update_needs_right [OF who(1-4) e(1)] who(5) show ?thesis unfolding e(2) by simp
qed

end
