(* ===== verification/TypeProps.thy ===== *)
theory TypeProps
  imports AccessProps
begin

text \<open>
  Properties of the configuration service: protected records of entity types under every sequence of its calls; and of the asynchronous entity store: rights have no effect on what it saves in
  the database, and what is loaded for a run resolves in it.
\<close>

section \<open>Protected types\<close>

datatype type_call = CreateType string "pyval res" | SaveType string "pyval res" | DeleteType string bool

definition call_type :: "srv_env \<Rightarrow> type_call \<Rightarrow> server \<Rightarrow> server" where
  "call_type v a s = (case a of CreateType n b \<Rightarrow> snd (create_entity_type v n b s) | SaveType n b \<Rightarrow> snd (save_entity_type v n b s)
     | DeleteType n b \<Rightarrow> snd (delete_entity_type n b s))"

lemma upsert_other: "dget (sr_types s) n = Some r \<Longrightarrow> name \<noteq> n \<Longrightarrow> dget (sr_types (snd (upsert_type name t s))) n = Some r"
  by (auto simp: upsert_type_def hbind_def hres_def upsert_entity_type_record_def split: sum.splits)

lemma snd_hbind: "snd (hbind m f s) = (case m s of (Inl e, s') \<Rightarrow> s' | (Inr a, s') \<Rightarrow> snd (f a s'))"
  by (auto simp: hbind_def split: prod.splits sum.splits)

lemma snd_hres [simp]: "snd (hres r s) = s"
  by (auto simp: hres_def split: sum.splits)

lemma snd_abort [simp]: "snd (abort c m s) = s"
  by (simp add: abort_def)

lemma snd_abort_on [simp]: "snd (abort_on P c m s) = snd (m s)"
  by (auto simp: abort_on_def split: prod.splits sum.splits failure.splits)

lemma snd_emit_types [simp]: "sr_types (snd (emit_event e s)) = sr_types s"
  by (simp add: emit_event_def)

lemma snd_hret [simp]: "snd (hret a s) = s"
  by (simp add: hret_def)

lemma snd_hbind_keeps:
  assumes "\<And>s. P s \<Longrightarrow> P (snd (m s))" "\<And>a s. P s \<Longrightarrow> P (snd (f a s))" "P s"
  shows "P (snd (hbind m f s))"
  using assms(1) [OF assms(3)] assms(2) by (auto simp: snd_hbind split: prod.splits sum.splits)

lemma require_started_keeps [simp]: "snd (require_started s) = s"
  by (simp add: require_started_def)

lemma protected_kept:
  assumes "dget (sr_types s) n = Some r" "et_system_protected r"
  shows "dget (sr_types (call_type v a s)) n = Some r"
proof -
  let ?P = "\<lambda>s. dget (sr_types s) n = Some r"
  have new: "?P (snd (create_entity_type v name b s))" for name b
    unfolding create_entity_type_def Let_def
    by (auto simp: assms(1) dhas_def intro!: snd_hbind_keeps [where P = ?P] upsert_other)
  have old: "?P (snd (save_entity_type v name b s))" for name b
    unfolding save_entity_type_def
    by (auto simp: assms type_not_found_def protected_type_def intro!: snd_hbind_keeps [where P = ?P] upsert_other split: option.splits)
  have gone: "?P (snd (delete_entity_type name b s))" for name b
    unfolding delete_entity_type_def
    by (auto simp: assms type_not_found_def protected_type_def delete_conv intro!: snd_hbind_keeps [where P = ?P] split: option.splits)
  show ?thesis using new old gone by (simp add: call_type_def split: type_call.splits)
qed

text \<open>C9: No sequence of creations, savings and deletions of entity types through the configuration service, whatever
  their contents and outcomes, changes the record of a type that is protected by the system.\<close>

theorem protected_types_stay:
  assumes "dget (sr_types s) n = Some r" "et_system_protected r"
  shows "dget (sr_types (fold (call_type v) calls s)) n = Some r"
  using assms(1)
proof (induction calls arbitrary: s)
  case (Cons a calls)
  then show ?case using protected_kept [OF Cons.prems assms(2)] by simp
qed simp

section \<open>Saving through the asynchronous store\<close>

lemma write_same: "dget new f = Some x \<Longrightarrow> write_field t ov new f new = new"
  by (auto simp: write_field_def Let_def update_same)

lemma write_all_same: "set fs \<subseteq> set (dkeys new) \<Longrightarrow> fold (write_field t ov new) fs new = new"
proof (induction fs)
  case (Cons f fs)
  then obtain x where "dget new f = Some x" by (cases "dget new f") (auto simp: map_of_eq_None_iff)
  then show ?case using Cons write_same [of new f x] by simp
qed simp

text \<open>The asynchronous store does not check the rights to write: for a type that is kept in the database, \<open>save_async\<close>
  does the same whatever permissions it is given, namely it saves the attributes of the entity as they are.\<close>

theorem save_async_unguarded:
  assumes "dget (es_types (sg_store s)) (en_type e) = Some t" "et_storage_tier t = Database"
  shows "save_async w c session e p s = save_async w c session e PNone s
    \<and> writable_attributes (sg_store s) e e p = Inr (en_attrs e)"
proof -
  have "writable_attributes (sg_store s) e e q = Inr (en_attrs e)" for q
    using assms(1) by (simp add: writable_attributes_def write_all_same)
  then show ?thesis using assms by (simp add: save_async_def)
qed

section \<open>Examples\<close>

definition typed_server :: server where
  "typed_server = access_server\<lparr>sr_types := [(''doc'', doc_type\<lparr>et_table_name := Some ''entity_doc''\<rparr>), (''dag'', doc_type\<lparr>et_system_protected := True\<rparr>)],
     sr_data := (sr_data access_server)\<lparr>sg_repo := empty_repo\<lparr>rp_tables := [(''entity_doc'', \<lparr>ot_columns = [], ot_rows =
       [\<lparr>or_id = ''d'', or_business = ''d'', or_version = 1, or_json = [], or_created = 0, or_updated = 0, or_cols = []\<rparr>]\<rparr>)]\<rparr>\<rparr>\<rparr>"

theorem protected_types_stay_witness:
  "dget (sr_types (fold (call_type access_env) [SaveType ''dag'' (Inr PNone), DeleteType ''dag'' True, CreateType ''dag'' (Inr PNone),
      DeleteType ''doc'' True] typed_server)) ''dag'' = Some (doc_type\<lparr>et_system_protected := True\<rparr>)"
proof (rule protected_types_stay)
  show "dget (sr_types typed_server) ''dag'' = Some (doc_type\<lparr>et_system_protected := True\<rparr>)" by (simp add: typed_server_def)
qed simp

theorem save_async_unguarded_witness:
  "\<exists>u s. save_async demo_draws (se_codec access_env) True doc (PDict [(''doc'', PDict [])]) (sr_data access_server) = (Inr u, s)
    \<and> save_async demo_draws (se_codec access_env) True doc PNone (sr_data access_server) = (Inr u, s)
    \<and> aget (en_attrs u) ''secret'' = PStr ''s'' \<and> \<not> can_write (field_permission doc_type ''secret'' (Some []))"
proof -
  have ok: "case save_async demo_draws (se_codec access_env) True doc PNone (sr_data access_server) of (Inr u, s) \<Rightarrow> aget (en_attrs u) ''secret'' = PStr ''s'' | _ \<Rightarrow> False"
    "\<not> can_write (field_permission doc_type ''secret'' (Some []))" "dget (es_types (sg_store (sr_data access_server))) (en_type doc) = Some doc_type"
    "et_storage_tier doc_type = Database" by code_simp+
  then obtain u s where "save_async demo_draws (se_codec access_env) True doc PNone (sr_data access_server) = (Inr u, s)" "aget (en_attrs u) ''secret'' = PStr ''s''"
    by (auto split: prod.splits sum.splits)
  then show ?thesis using save_async_unguarded [OF ok(3,4), THEN conjunct1, of demo_draws "se_codec access_env" True "PDict [(''doc'', PDict [])]"] ok(2)
    by (intro exI [of _ u] exI [of _ s] conjI) simp_all
qed

end
