(* ===== verification/DagEditProps.thy ===== *)
theory DagEditProps
  imports AccessProps
begin

text \<open>
  Properties of the edits of a DAG (\<open>_edit_runtime_dag\<close>): the edited configuration can be loaded for a run, by the same
  argument as for the graph service; but an edit may close a cycle, and then no run of the DAG starts.
\<close>

lemma edited_attrs_name: "edited_attrs op b a = Inr a' \<Longrightarrow> dget a' ''name'' = dget a ''name''"
  by (auto simp: edited_attrs_def Let_def split: if_splits)

lemma doing_repo_Inr: "in_session (on_repo f) s = (Inr x, s') \<longleftrightarrow> sr_started s \<and> (\<exists>d. f (srv_repo s) = Inr (x, d)
    \<and> s' = s\<lparr>sr_data := (sr_data s)\<lparr>sg_repo := d\<rparr>\<rparr>)"
  by (auto simp: in_session_def session_call_def doing_def on_repo_def srv_repo_def split: sum.splits prod.splits)

lemma edit_cases:
  assumes "edit_runtime_dag v name op b s = (Inr (), s')"
  obtains i c x d where "edited_dag v name op b (srv_repo s) = Inr (i, c)"
    "save_core_entity (se_draws v) \<lparr>en_id = i, en_type = ''dag'', en_attrs = dag_dump c\<rparr> (srv_repo s) = Inr (x, d)" "srv_repo s' = d"
  using assms by (auto simp: edit_runtime_dag_def call_Inr doing_repo_Inr emit_event_def srv_repo_def)

lemma edited_cases:
  assumes "edited_dag v name op b d = Inr (i, c)"
  obtains r old a u where "first_of (\<lambda>r. cg_name r = name) (rp_dags_t d) = Some r" "i = cg_entity r"
    "se_parse v (en_attrs (core_dag_to_entity r)) = Inr old" "edited_attrs op b (dag_dump old) = Inr a" "se_parse v a = Inr c"
    "cand_nodes (edit_missing_dag, edit_missing_node) (se_parse v) (se_parse_node v) d (dc_nodes c) ([(name, c)], []) = Inr u"
    "validate_sub_dag_nesting (fst u) (se_depth v) = Inr ()"
  using assms by (auto simp: edited_dag_def get_dag_entity_def edit_closure_def core_dag_to_entity_def split: option.splits)

text \<open>C8: A DAG that \<open>Edit\<close> changed can be run as far as its configuration is concerned: the configurations afterwards are the
  former ones with the edited one under its name, and the loading of its closure succeeds and has it. The edit was made in
  the dumped form of the configuration that was stored.\<close>

theorem edited_dag_loads:
  assumes "dag_parser (se_parse v)" "edit_runtime_dag v name op b s = (Inr (), s')" "named_rows (srv_repo s)"
    "list_dag_configs (se_parse v) (srv_repo s) = Inr D" "list_node_configs (se_parse_node v) (srv_repo s) = Inr N"
    "name \<noteq> []" "\<not> dhas D []"
  shows "\<exists>D' old a c cl. dget D name = Some old \<and> edited_attrs op b (dag_dump old) = Inr a \<and> se_parse v a = Inr c
    \<and> list_dag_configs (se_parse v) (srv_repo s') = Inr D' \<and> list_node_configs (se_parse_node v) (srv_repo s') = Inr N
    \<and> dget D' = (dget D)(name \<mapsto> c) \<and> load_closure name D' N = Inr cl \<and> dget (cl_dags cl) name = Some c"
proof -
  obtain i c x d where c: "edited_dag v name op b (srv_repo s) = Inr (i, c)"
    "save_core_entity (se_draws v) \<lparr>en_id = i, en_type = ''dag'', en_attrs = dag_dump c\<rparr> (srv_repo s) = Inr (x, d)" "srv_repo s' = d"
    by (rule edit_cases [OF assms(2)])
  obtain r old a u where r: "first_of (\<lambda>r. cg_name r = name) (rp_dags_t (srv_repo s)) = Some r" "i = cg_entity r"
    "se_parse v (en_attrs (core_dag_to_entity r)) = Inr old" "edited_attrs op b (dag_dump old) = Inr a" "se_parse v a = Inr c"
    "cand_nodes (edit_missing_dag, edit_missing_node) (se_parse v) (se_parse_node v) (srv_repo s) (dc_nodes c) ([(name, c)], []) = Inr u"
    "validate_sub_dag_nesting (fst u) (se_depth v) = Inr ()"
    by (rule edited_cases [OF c(1)])
  have i: "i = name" using first_of_Some [OF r(1)] assms(3) r(2) by (auto simp: named_rows_def)
  have "dget (en_attrs (core_dag_to_entity r)) ''name'' = Some (PStr name)"
    using first_of_Some [OF r(1)] by (simp add: core_dag_to_entity_def)
  then have "dc_name old = name" using dag_parser.keeps_name [OF assms(1) r(3)] by blast
  then have "dget a ''name'' = Some (PStr name)" using edited_attrs_name [OF r(4)] by (simp add: dag_dump_def)
  then have pc: "se_parse v (dag_dump c) = Inr c" "dc_name c = name"
    using dag_parser.keeps_name [OF assms(1) r(5)] dag_parser.again [OF assms(1) r(5)] by auto
  have "get_dag_config (se_parse v) name (srv_repo s) = Inr (Some old)" using r(1,3) by (simp add: get_dag_config_def)
  then have old: "dget D name = Some old" using list_dag_get [OF assms(4,3), of name] by simp
  from accepted_dag_loads [OF pc r(6,7) c(2) [unfolded i] assms(3-7)] show ?thesis using old r(4,5) unfolding c(3) by blast
qed

section \<open>Examples\<close>

text \<open>The stored DAG \<open>s\<close> has one node \<open>k\<close>; a node \<open>b\<close> is added and an edge to it, and then one back.\<close>

definition edit_server :: server where
  "edit_server = access_server\<lparr>sr_data := (sr_data access_server)\<lparr>sg_repo := sv_repo graph_with_node\<rparr>\<rparr>"

definition edge_body :: "string \<Rightarrow> string \<Rightarrow> pyval" where
  "edge_body u w = PDict [(''from'', PStr u), (''to'', PStr w)]"

definition edited_server :: server where
  "edited_server = snd (edit_runtime_dag access_env ''s'' ''add-edge'' (edge_body ''k'' ''b'')
     (snd (edit_runtime_dag access_env ''s'' ''add-node'' (PDict [(''id'', PStr ''b''), (''type'', PStr ''k'')]) edit_server)))"

theorem edited_dag_loads_witness:
  "case edit_runtime_dag access_env ''s'' ''add-edge'' (edge_body ''b'' ''k'') edited_server of (Inr _, s) \<Rightarrow> \<exists>D N cl.
      list_dag_configs read_dag (srv_repo s) = Inr D \<and> load_closure ''s'' D N = Inr cl \<and> dhas (cl_dags cl) ''s'' | _ \<Rightarrow> False"
proof -
  have ok: "case edit_runtime_dag access_env ''s'' ''add-edge'' (edge_body ''b'' ''k'') edited_server of (Inr x, s) \<Rightarrow> True | _ \<Rightarrow> False" by code_simp
  then obtain s where s: "edit_runtime_dag access_env ''s'' ''add-edge'' (edge_body ''b'' ''k'') edited_server = (Inr (), s)"
    by (auto split: prod.splits sum.splits)
  have n: "named_rows (srv_repo edited_server)" by code_simp
  have d: "case list_dag_configs (se_parse access_env) (srv_repo edited_server) of Inr D \<Rightarrow> \<not> dhas D [] | _ \<Rightarrow> False"
    "case list_node_configs (se_parse_node access_env) (srv_repo edited_server) of Inr D \<Rightarrow> True | _ \<Rightarrow> False" by code_simp+
  then obtain D N where D: "list_dag_configs (se_parse access_env) (srv_repo edited_server) = Inr D" "\<not> dhas D []"
    "list_node_configs (se_parse_node access_env) (srv_repo edited_server) = Inr N" by (auto split: sum.splits)
  have pe: "se_parse access_env = read_dag" by (simp add: access_env_def)
  have "dag_parser (se_parse access_env)" unfolding pe by (rule strict.dag_parser_axioms)
  from edited_dag_loads [OF this s n D(1,3) _ D(2)] obtain D' cl where "list_dag_configs read_dag (srv_repo s) = Inr D'"
    "load_closure ''s'' D' N = Inr cl" "dhas (cl_dags cl) ''s''" unfolding pe by (auto simp: dhas_def)
  then show ?thesis unfolding s by auto
qed

text \<open>The edge back is accepted, although the graph of the DAG can then not be loaded any more.\<close>

lemma edit_accepts_cycle:
  "case edit_runtime_dag access_env ''s'' ''add-edge'' (edge_body ''b'' ''k'') edited_server of (Inr _, s) \<Rightarrow>
     (case (list_dag_configs read_dag (srv_repo s), list_node_configs (se_parse_node access_env) (srv_repo s)) of (Inr D, Inr N) \<Rightarrow>
        (case dget D ''s'' of Some c \<Rightarrow> load_graph c N (Some D) = Inl (DagError ''DAG contains a cycle at k'') | None \<Rightarrow> False) | _ \<Rightarrow> False) | _ \<Rightarrow> False"
  by code_simp

end
