(* ===== verification/Spec2Isabelle.thy ===== *)
theory Spec2Isabelle
  imports LayerProps TriggerProps EntityStoreProps ResourcesProps RunRefine RunPermits WaitNodes RestoreProps TriggeredRuns OrdinaryRepoProps GraphProps EditorProps TypeProps DagEditProps
begin

text \<open>
  A verification development of the core of edera (\<open>packages/core/src/edera_core\<close>): the system loads DAGs of
  nodes from its configuration, starts runs of them from commands, events and cron ticks, executes the nodes of
  a run concurrently under resource permits, and keeps entities, runs and sessions in stores.

  \<^bold>\<open>Parts and how they interact.\<close> An event or a command reaches the trigger executor (\<open>trigger.py\<close>), whose target
  starts a run. The controller (\<open>dag_controller.py\<close>) allows one unfinished run per DAG, loads the closure of its
  sub-DAGs (\<open>snapshot.py\<close>), keeps the row of the run (\<open>storage/repository/_runtime.py\<close>) in step with its task, and
  restores earlier outputs for a retry. The run takes the graph that \<open>dag/loader.py\<close> builds from the records of \<open>config/schema.py\<close>
  and drives it through \<open>dag/runner.py\<close>: a node starts once its upstreams are finished and its resource
  (\<open>dag/resources.py\<close>) has a permit; its result routes the outgoing edges by their conditions
  (\<open>dag/conditions.py\<close>), may emit events, and may end the run. A task executes its node through
  \<open>node/executor.py\<close>, in a loop, under a fallback model or as the run of another DAG; nodes read and write
  entities (\<open>config/entities.py\<close>) through their permissions and continue agent sessions
  (\<open>storage/session_registry.py\<close>). The services (\<open>server.py\<close>, \<open>config_service.py\<close>, \<open>graph_service.py\<close>) read and change
  entities, their types and DAGs for callers with an identity.

  \<^bold>\<open>Theories.\<close>
  \<^item> \<open>PyPrelude\<close>, \<open>PyVal\<close>: exceptions as values, dictionaries as association lists in insertion order, string
    functions; Python values with their truth, equality, order and text.
  \<^item> \<open>Effects\<close>: computations over a state that may raise, the locale \<open>effect_order\<close> of the relations every
    computation keeps, and preconditions with a loop rule.
  \<^item> \<open>Schema\<close>: \<open>config/schema.py\<close>. \<open>DagLoader\<close>: \<open>dag/loader.py\<close>, \<open>dag/models.py\<close>; \<open>DagLoaderProps\<close>,
    \<open>LayerProps\<close>: what is accepted, topological layers, their characterisation by longest paths, nesting.
  \<^item> \<open>TriggerExpr\<close>, \<open>Trigger\<close>: \<open>trigger.py\<close>, the expression language, the event group, the waiters, the
    executor of triggers and cron; \<open>TriggerExprProps\<close>, \<open>TriggerProps\<close>: round trip, monotonicity, firing, ticks.
  \<^item> \<open>EntityStore\<close>: \<open>config/entities.py\<close> and the validation of \<open>config/loader.py\<close>; \<open>EntityStoreProps\<close>:
    all-or-nothing operations, permissions, validation.
  \<^item> \<open>Conditions\<close>: \<open>dag/conditions.py\<close>. \<open>Resources\<close>: \<open>dag/resources.py\<close>; \<open>ResourcesProps\<close>: the permits of a
    semaphore under every interleaving, cancellations included.
  \<^item> \<open>RunValues\<close>, \<open>Runner\<close>, \<open>RunLoop\<close>: \<open>dag/_helpers.py\<close>, \<open>dag/session_loader.py\<close> and \<open>dag/runner.py\<close>. The tables of a
    run are the record \<open>run_state\<close>; \<open>loop_head\<close> and \<open>loop_turn\<close> are the main loop between two suspensions;
    \<open>run_step\<close> is one run with everything that may happen while it is suspended. \<open>RunInv\<close>, \<open>RunProps\<close>:
    invariants of the tables, order, completeness, progress. \<open>RunRefine\<close>: a run refines data flow.
    \<open>RunPermits\<close>: every permit comes back.
  \<^item> \<open>NodeModels\<close>, \<open>RunTasks\<close>: \<open>node/models.py\<close>, \<open>node/sessions.py\<close> and the execution of one task (fallback
    model, loops, sub-DAGs) of \<open>dag/runner.py\<close>; \<open>TaskProps\<close>: bounds and permits of loops, permissions of nodes.
  \<^item> \<open>NodeValues\<close>, \<open>NodeExec\<close>: \<open>node/executor.py\<close>; \<open>SessionRegistry\<close>: \<open>storage/session_registry.py\<close>;
    \<open>NodeExecProps\<close>, \<open>SessionProps\<close>: contained errors, the depth of child runs, sessions, consumption in order.
    \<open>WaitNodes\<close>: wait nodes on the registry of \<open>trigger.py\<close> while other tasks use it: they do not notice them.
  \<^item> \<open>Closure\<close>: \<open>snapshot.py\<close>; \<open>ClosureProps\<close>: what is accepted and contained, loading equals building.
  \<^item> \<open>RunStore\<close>: the run tables; \<open>RunStoreProps\<close>: unique keys, retention, outputs with a url.
  \<^item> \<open>Controller\<close>: \<open>dag_controller.py\<close> as the record \<open>ctrl\<close> and the step relation \<open>ctrl_step\<close>, in which handlers
    interleave where the code awaits; \<open>ControllerProps\<close>: one run per DAG, rows follow tasks; \<open>RetryProps\<close>,
    \<open>RestoreProps\<close>: what a retry executes, completeness of the retried run, the outputs it restores. \<open>TriggeredRuns\<close>: the
    trigger executor with the targets of the controller, the runs an event starts.
  \<^item> \<open>CoreRepo\<close>: \<open>storage/repository/_core_entity.py\<close>, \<open>_relation.py\<close>, the rows of \<open>storage/entities.py\<close> as the record
    \<open>repo\<close>; \<open>CoreRepoProps\<close>: saving is a fixed point. \<open>OrdinaryRepo\<close>: \<open>_ordinary.py\<close>, \<open>storage/materialization.py\<close>;
    \<open>OrdinaryRepoProps\<close>: materializing changes no reading, what is saved is read back, guarded deletion.
  \<^item> \<open>GraphBody\<close>, \<open>GraphState\<close>, \<open>GraphService\<close>: the editor of DAGs, the bodies and states of \<open>service_common.py\<close> and the
    handlers of \<open>graph_service.py\<close>; \<open>GraphProps\<close>: a saved DAG loads; \<open>EditorProps\<close>: what the editor forgets.
  \<^item> \<open>EntityAsync\<close>: the operations of \<open>config/entities.py\<close> in a session of the database. \<open>ConfigService\<close>: the record
    \<open>server\<close>, \<open>config_service.py\<close> and \<open>storage/repository/_entity_type.py\<close>. \<open>ServerAccess\<close>, \<open>ServerWrites\<close>: identities, rights,
    queries and the handlers of the entity service and of edits in \<open>server.py\<close>. \<open>AccessProps\<close>: what a query shows, when an
    update is refused; \<open>TypeProps\<close>: protected types, unguarded saving;
    \<open>DagEditProps\<close>: an edited DAG loads, but may have a cycle.

  \<^bold>\<open>Interfaces.\<close> The locales are \<open>effect_order\<close> (relations kept by computations, interpreted on the relations of a
  run), \<open>event_flags\<close> (the event group), \<open>permit_pool\<close> (the semaphores) and \<open>work_list\<close> (peek and mark, interpreted
  on the registry), \<open>core_table\<close> (a table of core entities, interpreted on each of the five) and \<open>dag_parser\<close> (what is
  relied on of \<open>model_validate\<close>, interpreted on the reading of typed values); the laws are proved where the provider is modelled.

  \<^bold>\<open>Bounds.\<close> Loops over a graph terminate by measures (\<open>kahn\<close>, \<open>visit\<close>, \<open>visit_sub_dag\<close>,
  \<open>close_dag\<close>, \<open>load_dag\<close>, \<open>downstream\<close>); the main loop of a run
  is a transition relation, each turn of which stores at least the finished tasks; no fuel is used where a result is
  claimed. Python integers are unbounded, as in the code.

  \<^bold>\<open>Choices.\<close> Rows of a table keep the order of insertion where \<open>ORDER BY\<close> leaves ties open. A set whose
  iteration order is observable is given as a list or quantified over (\<open>done\<close> tasks of a turn). Characters are
  those below code point 256. The model of a run allows cancellation at every suspension; inside a task of
  \<open>NodeExec\<close> it is an exception that a parameter raises where the code awaits. A turn of the main loop (\<open>loop_turn\<close>) is one step:
  what other tasks do while it awaits a recorder or an emission is in the parameters. The executor keeps the \<open>dag_executor\<close> of the
  first runner it was given to, also in child runs (\<open>runner_env\<close>). A task of the controller is spawned, opened (its row is committed),
  running (inside the \<open>try\<close>) or ended; finishing its row and ending it are one step. The locked parts of a retry and a resumption
  are steps of their own, before which \<open>busy\<close> was checked under the same lock.

  \<^bold>\<open>Not modelled.\<close> Library code (pydantic coercion, SQL text, YAML and JSON texts, asyncio, gRPC), the agent process
  and its output stream, imported handler modules, the file system: they are parameters or left out. Generated
  protocol code, the command line, the web back end, certificates and git calls are input and output only.
\<close>

end
